(* ===== verification/Rn_Prelude.thy ===== *)
theory Rn_Prelude
  imports Complex_Main "HOL-Library.Word"
begin

text \<open>
  Shared vocabulary of the development: the machine integer types of the Rust code, byte
  strings, results (\<open>Inl\<close> an error, \<open>Inr\<close> a value), the little- and big-endian conversions
  of the standard library (\<open>to_le_bytes\<close>, \<open>from_le_bytes\<close>, \<open>to_be_bytes\<close>), slice writes
  (\<open>copy_from_slice\<close>), saturating arithmetic, and the generic lemmas the component theories
  use.
\<close>

unbundle bit_operations_syntax

type_synonym u8 = "8 word"
type_synonym u16 = "16 word"
type_synonym u32 = "32 word"
type_synonym u64 = "64 word"
type_synonym bytes = "u8 list"

named_theorems byte_simps \<open>conversions between words and byte strings\<close>
named_theorems codec_simps \<open>unfolding and rewriting rules for the wire formats\<close>

subsection \<open>Results\<close>

text \<open>The \<open>?\<close> operator of Rust: an error is returned at once, a value is passed on.\<close>

fun try_bind :: "'e + 'a \<Rightarrow> ('a \<Rightarrow> 'e + 'b) \<Rightarrow> 'e + 'b" where
  "try_bind (Inl e) f = Inl e"
| "try_bind (Inr a) f = f a"

fun map_err :: "('e \<Rightarrow> 'f) \<Rightarrow> 'e + 'a \<Rightarrow> 'f + 'a" where
  "map_err f (Inl e) = Inl (f e)"
| "map_err f (Inr a) = Inr a"

definition ok_or :: "'a option \<Rightarrow> 'e \<Rightarrow> 'e + 'a" where
  "ok_or x e = (case x of None \<Rightarrow> Inl e | Some a \<Rightarrow> Inr a)"

lemma ok_or_simps [simp]:
  "ok_or None e = Inl e"
  "ok_or (Some a) e = Inr a"
  by (simp_all add: ok_or_def)

lemma ok_or_eq_Inr [simp]: "ok_or x e = Inr a \<longleftrightarrow> x = Some a"
  by (cases x) auto

lemma ok_or_eq_Inl: "ok_or x e = Inl d \<longleftrightarrow> x = None \<and> d = e"
  by (cases x) auto

lemma try_bind_eq_Inr: "try_bind x f = Inr b \<longleftrightarrow> (\<exists>a. x = Inr a \<and> f a = Inr b)"
  by (cases x) auto

lemma try_bind_eq_Inl:
  "try_bind x f = Inl e \<longleftrightarrow> x = Inl e \<or> (\<exists>a. x = Inr a \<and> f a = Inl e)"
  by (cases x) auto

lemma try_bind_assoc: "try_bind (try_bind x f) g = try_bind x (\<lambda>a. try_bind (f a) g)"
  by (cases x) auto

lemma try_bind_Inr [simp]: "try_bind x Inr = x"
  by (cases x) auto

lemma map_err_eq_Inr [simp]: "map_err f x = Inr a \<longleftrightarrow> x = Inr a"
  by (cases x) auto

lemma map_err_eq_Inl: "map_err f x = Inl e \<longleftrightarrow> (\<exists>d. x = Inl d \<and> e = f d)"
  by (cases x) auto

subsection \<open>Bytes of words\<close>

definition to_le_bytes32 :: "u32 \<Rightarrow> bytes" where
  "to_le_bytes32 w = [ucast w, ucast (drop_bit 8 w), ucast (drop_bit 16 w), ucast (drop_bit 24 w)]"

definition from_le_bytes32 :: "u8 \<Rightarrow> u8 \<Rightarrow> u8 \<Rightarrow> u8 \<Rightarrow> u32" where
  "from_le_bytes32 a b c d =
     ucast a OR push_bit 8 (ucast b) OR push_bit 16 (ucast c) OR push_bit 24 (ucast d)"

definition to_le_bytes16 :: "u16 \<Rightarrow> bytes" where
  "to_le_bytes16 w = [ucast w, ucast (drop_bit 8 w)]"

definition from_le_bytes16 :: "u8 \<Rightarrow> u8 \<Rightarrow> u16" where
  "from_le_bytes16 a b = ucast a OR push_bit 8 (ucast b)"

definition to_be_bytes16 :: "u16 \<Rightarrow> bytes" where
  "to_be_bytes16 w = [ucast (drop_bit 8 w), ucast w]"

definition from_be_bytes16 :: "u8 \<Rightarrow> u8 \<Rightarrow> u16" where
  "from_be_bytes16 a b = push_bit 8 (ucast a) OR ucast b"

lemma bit_u8_high: "8 \<le> n \<Longrightarrow> \<not> bit (a :: u8) n"
  using bit_imp_le_length [of a n] by auto

lemma from_to_le_bytes32 [simp, byte_simps]:
  "from_le_bytes32 (ucast w) (ucast (drop_bit 8 w)) (ucast (drop_bit 16 w)) (ucast (drop_bit 24 w)) = w"
proof (rule bit_word_eqI)
  fix n assume "n < LENGTH(32)"
  then consider "n < 8" | "8 \<le> n" "n < 16" | "16 \<le> n" "n < 24" | "24 \<le> n" "n < 32" by fastforce
  then show "bit (from_le_bytes32 (ucast w) (ucast (drop_bit 8 w)) (ucast (drop_bit 16 w))
    (ucast (drop_bit 24 w))) n = bit w n"
    by cases (auto simp: from_le_bytes32_def bit_simps)
qed

lemma to_from_le_bytes32 [simp, byte_simps]: "to_le_bytes32 (from_le_bytes32 a b c d) = [a, b, c, d]"
  by (auto simp: to_le_bytes32_def from_le_bytes32_def bit_simps bit_u8_high intro!: bit_word_eqI)

lemma from_to_le_bytes16 [simp, byte_simps]:
  "from_le_bytes16 (ucast w) (ucast (drop_bit 8 w)) = w"
  by (rule bit_word_eqI) (auto simp: from_le_bytes16_def bit_simps)

lemma to_from_le_bytes16 [simp, byte_simps]: "to_le_bytes16 (from_le_bytes16 a b) = [a, b]"
  by (auto simp: to_le_bytes16_def from_le_bytes16_def bit_simps bit_u8_high intro!: bit_word_eqI)

lemma from_to_be_bytes16 [simp, byte_simps]:
  "from_be_bytes16 (ucast (drop_bit 8 w)) (ucast w) = w"
  by (rule bit_word_eqI) (auto simp: from_be_bytes16_def bit_simps)

lemma to_from_be_bytes16 [simp, byte_simps]: "to_be_bytes16 (from_be_bytes16 a b) = [a, b]"
  by (auto simp: to_be_bytes16_def from_be_bytes16_def bit_simps bit_u8_high intro!: bit_word_eqI)

lemma length_word_bytes [simp]:
  "length (to_le_bytes32 w) = 4" "length (to_le_bytes16 v) = 2" "length (to_be_bytes16 v) = 2"
  by (simp_all add: to_le_bytes32_def to_le_bytes16_def to_be_bytes16_def)

lemma to_le_bytes32_inj [simp]: "to_le_bytes32 v = to_le_bytes32 w \<longleftrightarrow> v = w"
proof
  assume "to_le_bytes32 v = to_le_bytes32 w"
  then have "ucast v = (ucast w :: u8)" "ucast (drop_bit 8 v) = (ucast (drop_bit 8 w) :: u8)"
    "ucast (drop_bit 16 v) = (ucast (drop_bit 16 w) :: u8)"
    "ucast (drop_bit 24 v) = (ucast (drop_bit 24 w) :: u8)"
    by (simp_all only: to_le_bytes32_def list.inject)
  then show "v = w" using from_to_le_bytes32 [of v] from_to_le_bytes32 [of w] by metis
qed simp

lemma from_be_bytes16_zero_iff: "from_be_bytes16 a b = 0 \<longleftrightarrow> a = 0 \<and> b = 0"
proof
  assume "from_be_bytes16 a b = 0"
  then have "[a, b] = to_be_bytes16 0" using to_from_be_bytes16 [of a b] by simp
  then show "a = 0 \<and> b = 0" by (simp add: to_be_bytes16_def)
qed (simp add: from_be_bytes16_def)

text \<open>A length written as a \<open>u16\<close> (\<open>len as u16\<close>) is read back exactly below \<open>2 ^ 16\<close>.\<close>

lemma unat_of_nat16 [simp]: "n < 65536 \<Longrightarrow> unat (of_nat n :: u16) = n"
  by (simp add: unat_of_nat)

lemma unat_of_nat16_mod: "unat (of_nat n :: u16) = n mod 65536"
  by (simp add: unat_of_nat)

lemma unat_of_nat8 [simp]: "n < 256 \<Longrightarrow> unat (of_nat n :: u8) = n"
  by (simp add: unat_of_nat)

lemma unat_u8_less: "unat (b :: u8) < 256"
  using unsigned_less [of b] by simp

lemma unat_u16_less: "unat (w :: u16) < 65536"
  using unsigned_less [of w] by simp

lemma unat_u32_less: "unat (w :: u32) < 4294967296"
  using unsigned_less [of w] by simp

subsection \<open>Slices\<close>

text \<open>\<open>buf[i..i + bs.len()].copy_from_slice(bs)\<close> for a range inside the buffer.\<close>

definition copy_slice :: "nat \<Rightarrow> 'a list \<Rightarrow> 'a list \<Rightarrow> 'a list" where
  "copy_slice i bs buf = take i buf @ bs @ drop (i + length bs) buf"

lemma length_copy_slice [simp]:
  "i + length bs \<le> length buf \<Longrightarrow> length (copy_slice i bs buf) = length buf"
  by (simp add: copy_slice_def)

lemma copy_slice_next:
  "length acc = i \<Longrightarrow> copy_slice i bs (acc @ drop i buf) = (acc @ bs) @ drop (i + length bs) buf"
  by (simp add: copy_slice_def add.commute)

lemma update_next:
  "length acc = i \<Longrightarrow> i < length buf \<Longrightarrow>
   (acc @ drop i buf)[i := v] = (acc @ [v]) @ drop (Suc i) buf"
  by (simp add: list_update_append Cons_nth_drop_Suc [symmetric])

text \<open>\<open>buf[a..b]\<close> for \<open>a \<le> b \<le> buf.len()\<close>.\<close>

definition slice :: "nat \<Rightarrow> nat \<Rightarrow> 'a list \<Rightarrow> 'a list" where
  "slice a b buf = drop a (take b buf)"

lemma length_slice [simp]: "b \<le> length buf \<Longrightarrow> length (slice a b buf) = b - a"
  by (simp add: slice_def)

lemma slice_append_left [simp]:
  "length xs = a \<Longrightarrow> slice a (a + n) (xs @ ys) = take n ys"
  by (simp add: slice_def)

subsection \<open>Searching a list\<close>

definition to_le_bytes64 :: "u64 \<Rightarrow> bytes" where
  "to_le_bytes64 w = map (\<lambda>i. ucast (drop_bit (8 * i) w)) [0..<8]"

text \<open>\<open>Iterator::find_map\<close>.\<close>

fun find_map :: "('a \<Rightarrow> 'b option) \<Rightarrow> 'a list \<Rightarrow> 'b option" where
  "find_map f [] = None"
| "find_map f (x # xs) = (case f x of None \<Rightarrow> find_map f xs | Some y \<Rightarrow> Some y)"

lemma find_map_eq_None: "find_map f xs = None \<longleftrightarrow> (\<forall>x \<in> set xs. f x = None)"
  by (induction xs) (auto split: option.splits)

lemma find_map_SomeD: "find_map f xs = Some y \<Longrightarrow> \<exists>x \<in> set xs. f x = Some y"
  by (induction xs) (auto split: option.splits)

subsection \<open>Saturating arithmetic on unsigned words\<close>

definition sat_sub :: "'a::len word \<Rightarrow> 'a word \<Rightarrow> 'a word" where
  "sat_sub a b = (if a < b then 0 else a - b)"

definition sat_add :: "'a::len word \<Rightarrow> 'a word \<Rightarrow> 'a word" where
  "sat_add a b = (if a + b < a then - 1 else a + b)"

definition sat_mul :: "'a::len word \<Rightarrow> 'a word \<Rightarrow> 'a word" where
  "sat_mul a b = (if unat a * unat b < 2 ^ LENGTH('a) then a * b else - 1)"

lemma unat_sat_sub: "unat (sat_sub a b) = unat a - unat b"
  by (auto simp: sat_sub_def word_less_nat_alt unat_sub word_le_nat_alt not_less)

lemma sat_sub_le: "sat_sub a b \<le> a"
  by (simp add: word_le_nat_alt unat_sat_sub)

lemma unat_minus_one_max: "unat (- 1 :: 'a::len word) = 2 ^ LENGTH('a) - 1"
  by (simp add: unsigned_minus_1_eq_mask mask_eq_exp_minus_1)

lemma mod_add_self_sub: "m mod n = m - n" if "n \<le> m" "m < 2 * n" for m n :: nat
  using that by (simp add: le_mod_geq)

lemma unat_sat_add: "unat (sat_add a b) = min (unat a + unat b) (2 ^ LENGTH('a) - 1)"
  for a b :: "'a::len word"
proof (cases "unat a + unat b < 2 ^ LENGTH('a)")
  case True
  then have "unat (a + b) = unat a + unat b" by (simp add: unat_word_ariths)
  then have "sat_add a b = a + b" by (simp add: sat_add_def word_less_nat_alt)
  then show ?thesis using True \<open>unat (a + b) = unat a + unat b\<close> by simp
next
  case False
  have b: "unat b < 2 ^ LENGTH('a)" by (rule unsigned_less)
  have a: "unat a < 2 ^ LENGTH('a)" by (rule unsigned_less)
  have "(unat a + unat b) mod 2 ^ LENGTH('a) = unat a + unat b - 2 ^ LENGTH('a)"
    by (rule mod_add_self_sub) (use False a b in linarith)+
  then have "unat (a + b) = unat a + unat b - 2 ^ LENGTH('a)"
    by (simp only: unat_word_ariths)
  then have "unat (a + b) < unat a" using False b by linarith
  then have "sat_add a b = - 1" by (simp add: sat_add_def word_less_nat_alt)
  then show ?thesis using False by (simp add: unat_minus_one_max)
qed

subsection \<open>Strings and floating-point numbers\<close>

text \<open>\<open>str::trim\<close> on ASCII text.\<close>

definition is_whitespace :: "char \<Rightarrow> bool" where
  "is_whitespace c \<longleftrightarrow> of_char c \<in> {9, 10, 11, 12, 13, 32 :: nat}"

definition trim :: "string \<Rightarrow> string" where
  "trim s = rev (dropWhile is_whitespace (rev (dropWhile is_whitespace s)))"

lemma dropWhile_rev_dropWhile:
  assumes "dropWhile P t = t"
  shows "dropWhile P (rev (dropWhile P (rev t))) = rev (dropWhile P (rev t))"
proof (cases "rev (dropWhile P (rev t))")
  case (Cons a u)
  have "\<exists>v. t = rev (dropWhile P (rev t)) @ v"
    by (metis rev_append rev_rev_ident takeWhile_dropWhile_id)
  then have "\<not> P a" using assms Cons by (metis append_Cons dropWhile.simps(2) hd_dropWhile list.distinct(1) list.sel(1))
  then show ?thesis using Cons by simp
next
  case Nil
  then show ?thesis by (simp only: dropWhile.simps)
qed

lemma trim_trim [simp]: "trim (trim s) = trim s"
  by (simp add: trim_def dropWhile_rev_dropWhile)

text \<open>Decimal printing of an unsigned number (\<open>Display\<close>).\<close>

fun show_nat :: "nat \<Rightarrow> string" where
  "show_nat n =
     (if n < 10 then [char_of (48 + n)] else show_nat (n div 10) @ [char_of (48 + n mod 10)])"

declare show_nat.simps [simp del]

text \<open>An \<open>f64\<close> is modelled by a real number: rounding is not modelled, and the theorems about
  such values only rest on comparisons or on exact arithmetic.\<close>

type_synonym f64 = real

end
