(* ===== verification/Packet_Header.thy ===== *)
theory Packet_Header
  imports Rn_Prelude
begin

text \<open>
  The packed 24-byte packet header of \<open>src/src/protocol/header.rs\<close> (\<open>PacketType\<close>,
  \<open>PacketHeader\<close>, \<open>write_to\<close>, \<open>to_bytes\<close>, \<open>read_from\<close>) and the packet helpers of
  \<open>src/src/protocol/codec.rs\<close> (\<open>Packet\<close>, \<open>encode\<close>, \<open>encode_raw\<close>, \<open>decode\<close>, \<open>split\<close>).
  Buffers are byte lists; a write into \<open>&mut buf\<close> returns the new buffer. The lemmas give
  the byte layout, the exact set of buffers the parser accepts, and the round trips.
\<close>

subsection \<open>Constants and data\<close>

definition PROTOCOL_VERSION :: u8 where "PROTOCOL_VERSION = 1"
definition HEADER_LEN :: nat where "HEADER_LEN = 24"
definition AEAD_TAG_LEN :: nat where "AEAD_TAG_LEN = 16"
definition UDP_HEADER_LEN :: nat where "UDP_HEADER_LEN = 8"
definition IPV4_HEADER_LEN :: nat where "IPV4_HEADER_LEN = 20"
definition OUTER_OVERHEAD :: nat where "OUTER_OVERHEAD = UDP_HEADER_LEN + IPV4_HEADER_LEN"
definition PATH_MTU :: nat where "PATH_MTU = 1500"
definition MAX_PAYLOAD :: nat where "MAX_PAYLOAD = 1400 - HEADER_LEN - AEAD_TAG_LEN"

type_synonym session_id = u32

datatype packet_type =
  Handshake1 | Handshake2 | Data | Ack | Fec | Ping | Pong | Close | Keepalive

text \<open>The discriminants (\<open>packet_type as u8\<close>).\<close>

fun packet_type_byte :: "packet_type \<Rightarrow> u8" where
  "packet_type_byte Handshake1 = 1"
| "packet_type_byte Handshake2 = 2"
| "packet_type_byte Data = 3"
| "packet_type_byte Ack = 4"
| "packet_type_byte Fec = 5"
| "packet_type_byte Ping = 6"
| "packet_type_byte Pong = 7"
| "packet_type_byte Close = 8"
| "packet_type_byte Keepalive = 9"

definition from_byte :: "u8 \<Rightarrow> packet_type option" where
  "from_byte b =
     (if b = 1 then Some Handshake1
      else if b = 2 then Some Handshake2
      else if b = 3 then Some Data
      else if b = 4 then Some Ack
      else if b = 5 then Some Fec
      else if b = 6 then Some Ping
      else if b = 7 then Some Pong
      else if b = 8 then Some Close
      else if b = 9 then Some Keepalive
      else None)"

definition is_reliable :: "packet_type \<Rightarrow> bool" where
  "is_reliable p \<longleftrightarrow> p = Handshake1 \<or> p = Handshake2 \<or> p = Close"

text \<open>
  \<open>HeaderFlags\<close> is a \<open>bitflags\<close> type over \<open>u8\<close> whose only constant is \<open>NONE = 0\<close>, so no bit
  is assigned and \<open>from_bits_truncate\<close> clears every bit.
\<close>

type_synonym header_flags = u8

definition FLAGS_NONE :: header_flags where "FLAGS_NONE = 0"
definition FLAGS_ALL :: header_flags where "FLAGS_ALL = FLAGS_NONE"

definition from_bits_truncate :: "u8 \<Rightarrow> header_flags" where
  "from_bits_truncate b = b AND FLAGS_ALL"

record packet_header =
  hdr_version :: u8
  hdr_type :: packet_type
  hdr_session_id :: session_id
  hdr_seq :: u32
  hdr_ack_seq :: u32
  hdr_ack_bitmap :: u32
  hdr_fec_group :: u16
  hdr_fec_index :: u8
  hdr_fec_k :: u8
  hdr_fec_m :: u8
  hdr_flags :: header_flags

datatype header_error = BufferTooSmall | BadVersion u8 | BadType u8

definition new_header :: "packet_type \<Rightarrow> session_id \<Rightarrow> u32 \<Rightarrow> packet_header" where
  "new_header ptype sid s =
     \<lparr>hdr_version = PROTOCOL_VERSION, hdr_type = ptype, hdr_session_id = sid, hdr_seq = s,
      hdr_ack_seq = 0, hdr_ack_bitmap = 0, hdr_fec_group = 0, hdr_fec_index = 0,
      hdr_fec_k = 0, hdr_fec_m = 0, hdr_flags = FLAGS_NONE\<rparr>"

subsection \<open>Serialisation\<close>

text \<open>\<open>write_to\<close>: the writes of the source, in order, into the caller's buffer.\<close>

definition write_to :: "packet_header \<Rightarrow> bytes \<Rightarrow> header_error + bytes" where
  "write_to h buf =
     (if length buf < HEADER_LEN then Inl BufferTooSmall
      else
        let buf = buf[0 := hdr_version h];
            buf = buf[1 := packet_type_byte (hdr_type h)];
            buf = copy_slice 2 (to_le_bytes32 (hdr_session_id h)) buf;
            buf = copy_slice 6 (to_le_bytes32 (hdr_seq h)) buf;
            buf = copy_slice 10 (to_le_bytes32 (hdr_ack_seq h)) buf;
            buf = copy_slice 14 (to_le_bytes32 (hdr_ack_bitmap h)) buf;
            buf = copy_slice 18 (to_le_bytes16 (hdr_fec_group h)) buf;
            buf = buf[20 := hdr_fec_index h];
            buf = buf[21 := hdr_fec_k h];
            buf = buf[22 := hdr_fec_m h];
            buf = buf[23 := hdr_flags h]
        in Inr buf)"

definition to_bytes :: "packet_header \<Rightarrow> bytes" where
  "to_bytes h =
     (case write_to h (replicate HEADER_LEN 0) of Inl _ \<Rightarrow> replicate HEADER_LEN 0 | Inr buf \<Rightarrow> buf)"

definition read_from :: "bytes \<Rightarrow> header_error + packet_header" where
  "read_from buf =
     (if length buf < HEADER_LEN then Inl BufferTooSmall
      else if buf ! 0 \<noteq> PROTOCOL_VERSION then Inl (BadVersion (buf ! 0))
      else try_bind (ok_or (from_byte (buf ! 1)) (BadType (buf ! 1))) (\<lambda>ptype.
        Inr \<lparr>hdr_version = buf ! 0, hdr_type = ptype,
             hdr_session_id = from_le_bytes32 (buf ! 2) (buf ! 3) (buf ! 4) (buf ! 5),
             hdr_seq = from_le_bytes32 (buf ! 6) (buf ! 7) (buf ! 8) (buf ! 9),
             hdr_ack_seq = from_le_bytes32 (buf ! 10) (buf ! 11) (buf ! 12) (buf ! 13),
             hdr_ack_bitmap = from_le_bytes32 (buf ! 14) (buf ! 15) (buf ! 16) (buf ! 17),
             hdr_fec_group = from_le_bytes16 (buf ! 18) (buf ! 19),
             hdr_fec_index = buf ! 20, hdr_fec_k = buf ! 21, hdr_fec_m = buf ! 22,
             hdr_flags = from_bits_truncate (buf ! 23)\<rparr>))"

subsection \<open>Packets\<close>

record packet =
  pkt_header :: packet_header
  pkt_body :: bytes

definition empty_packet :: "packet_type \<Rightarrow> session_id \<Rightarrow> u32 \<Rightarrow> packet" where
  "empty_packet ptype sid s = \<lparr>pkt_header = new_header ptype sid s, pkt_body = []\<rparr>"

definition encode :: "packet \<Rightarrow> bytes" where
  "encode p = to_bytes (pkt_header p) @ pkt_body p"

definition encode_raw :: "packet_header \<Rightarrow> bytes \<Rightarrow> bytes" where
  "encode_raw h ciphertext = to_bytes h @ ciphertext"

definition decode :: "bytes \<Rightarrow> header_error + packet" where
  "decode buf =
     try_bind (read_from buf) (\<lambda>h. Inr \<lparr>pkt_header = h, pkt_body = drop HEADER_LEN buf\<rparr>)"

text \<open>
  \<open>split\<close> advances the buffer past the header and takes the rest, so a success leaves the
  buffer empty; on an error the buffer is as it was. The model returns the buffer too.
\<close>

definition split_frame :: "bytes \<Rightarrow> (header_error + packet_header \<times> bytes) \<times> bytes" where
  "split_frame buf =
     (if length buf < HEADER_LEN then (Inl BufferTooSmall, buf)
      else case read_from buf of
             Inl e \<Rightarrow> (Inl e, buf)
           | Inr h \<Rightarrow> (Inr (h, drop HEADER_LEN buf), []))"

subsection \<open>Packet types\<close>

lemma from_byte_packet_type_byte [simp]: "from_byte (packet_type_byte p) = Some p"
  by (cases p) (simp_all add: from_byte_def)

lemma from_byte_eq_Some: "from_byte b = Some p \<longleftrightarrow> b = packet_type_byte p"
proof
  assume "from_byte b = Some p"
  then show "b = packet_type_byte p" by (simp add: from_byte_def split: if_splits)
qed simp

lemma packet_type_byte_inj: "packet_type_byte p = packet_type_byte q \<longleftrightarrow> p = q"
  by (metis from_byte_packet_type_byte option.inject)

lemma packet_type_byte_le: "packet_type_byte p \<le> 9"
  by (cases p) simp_all

lemma from_bits_truncate_zero [simp]: "from_bits_truncate b = 0"
  by (simp add: from_bits_truncate_def FLAGS_ALL_def FLAGS_NONE_def)

subsection \<open>Layout\<close>

definition wire_layout :: "packet_header \<Rightarrow> bytes" where
  "wire_layout h =
     [hdr_version h, packet_type_byte (hdr_type h)] @ to_le_bytes32 (hdr_session_id h)
     @ to_le_bytes32 (hdr_seq h) @ to_le_bytes32 (hdr_ack_seq h)
     @ to_le_bytes32 (hdr_ack_bitmap h) @ to_le_bytes16 (hdr_fec_group h)
     @ [hdr_fec_index h, hdr_fec_k h, hdr_fec_m h, hdr_flags h]"

lemma length_wire_layout [simp]: "length (wire_layout h) = 24"
  by (simp add: wire_layout_def)

lemma write_to_layout:
  assumes "24 \<le> length buf"
  shows "write_to h buf = Inr (wire_layout h @ drop 24 buf)"
proof -
  let ?a = "[hdr_version h, packet_type_byte (hdr_type h)]"
  let ?b = "?a @ to_le_bytes32 (hdr_session_id h)"
  let ?c = "?b @ to_le_bytes32 (hdr_seq h)"
  let ?d = "?c @ to_le_bytes32 (hdr_ack_seq h)"
  let ?e = "?d @ to_le_bytes32 (hdr_ack_bitmap h)"
  let ?f = "?e @ to_le_bytes16 (hdr_fec_group h)"
  let ?g = "?f @ [hdr_fec_index h]"
  let ?i = "?g @ [hdr_fec_k h]"
  let ?j = "?i @ [hdr_fec_m h]"
  have 1: "buf[0 := hdr_version h] = [hdr_version h] @ drop 1 buf"
    using update_next [of "[]" 0 buf] assms by (cases buf) auto
  have 2: "([hdr_version h] @ drop 1 buf)[1 := packet_type_byte (hdr_type h)] = ?a @ drop 2 buf"
    using update_next [of "[hdr_version h]" 1 buf] assms by (simp add: numeral_2_eq_2)
  have 3: "copy_slice 2 (to_le_bytes32 (hdr_session_id h)) (?a @ drop 2 buf) = ?b @ drop 6 buf"
    by (subst copy_slice_next) simp_all
  have 4: "copy_slice 6 (to_le_bytes32 (hdr_seq h)) (?b @ drop 6 buf) = ?c @ drop 10 buf"
    by (subst copy_slice_next) simp_all
  have 5: "copy_slice 10 (to_le_bytes32 (hdr_ack_seq h)) (?c @ drop 10 buf) = ?d @ drop 14 buf"
    by (subst copy_slice_next) simp_all
  have 6: "copy_slice 14 (to_le_bytes32 (hdr_ack_bitmap h)) (?d @ drop 14 buf) = ?e @ drop 18 buf"
    by (subst copy_slice_next) simp_all
  have 7: "copy_slice 18 (to_le_bytes16 (hdr_fec_group h)) (?e @ drop 18 buf) = ?f @ drop 20 buf"
    by (subst copy_slice_next) simp_all
  have 8: "(?f @ drop 20 buf)[20 := hdr_fec_index h] = ?g @ drop 21 buf"
    by (subst update_next) (use assms in simp_all)
  have 9: "(?g @ drop 21 buf)[21 := hdr_fec_k h] = ?i @ drop 22 buf"
    by (subst update_next) (use assms in simp_all)
  have 10: "(?i @ drop 22 buf)[22 := hdr_fec_m h] = ?j @ drop 23 buf"
    by (subst update_next) (use assms in simp_all)
  have 11: "(?j @ drop 23 buf)[23 := hdr_flags h] = wire_layout h @ drop 24 buf"
    by (subst update_next) (use assms in \<open>simp_all add: wire_layout_def\<close>)
  show ?thesis
    unfolding write_to_def Let_def HEADER_LEN_def 1 2 3 4 5 6 7 8 9 10 11
    using assms by simp
qed

lemma to_bytes_layout: "to_bytes h = wire_layout h"
  using write_to_layout [of "replicate 24 0" h] by (simp add: to_bytes_def HEADER_LEN_def)

lemma length_to_bytes [simp]: "length (to_bytes h) = 24"
  by (simp add: to_bytes_layout)

subsection \<open>Parsing\<close>

lemma nth_wire_layout:
  "wire_layout h ! 0 = hdr_version h" "wire_layout h ! Suc 0 = packet_type_byte (hdr_type h)"
  "wire_layout h ! 20 = hdr_fec_index h" "wire_layout h ! 21 = hdr_fec_k h"
  "wire_layout h ! 22 = hdr_fec_m h" "wire_layout h ! 23 = hdr_flags h"
  by (simp_all add: wire_layout_def to_le_bytes32_def to_le_bytes16_def)

lemma words_wire_layout:
  "from_le_bytes32 (wire_layout h ! 2) (wire_layout h ! 3) (wire_layout h ! 4) (wire_layout h ! 5)
     = hdr_session_id h"
  "from_le_bytes32 (wire_layout h ! 6) (wire_layout h ! 7) (wire_layout h ! 8) (wire_layout h ! 9)
     = hdr_seq h"
  "from_le_bytes32 (wire_layout h ! 10) (wire_layout h ! 11) (wire_layout h ! 12) (wire_layout h ! 13)
     = hdr_ack_seq h"
  "from_le_bytes32 (wire_layout h ! 14) (wire_layout h ! 15) (wire_layout h ! 16) (wire_layout h ! 17)
     = hdr_ack_bitmap h"
  "from_le_bytes16 (wire_layout h ! 18) (wire_layout h ! 19) = hdr_fec_group h"
  by (simp_all add: wire_layout_def to_le_bytes32_def to_le_bytes16_def)

lemma read_from_layout:
  "read_from (wire_layout h @ rest) =
     (if hdr_version h = PROTOCOL_VERSION then Inr (h\<lparr>hdr_flags := 0\<rparr>)
      else Inl (BadVersion (hdr_version h)))"
  by (simp add: read_from_def HEADER_LEN_def nth_append nth_wire_layout words_wire_layout)

lemma read_from_prefix: "24 \<le> length buf \<Longrightarrow> read_from buf = read_from (take 24 buf)"
  by (simp add: read_from_def HEADER_LEN_def)

lemma take_as_map: "n \<le> length xs \<Longrightarrow> take n xs = map ((!) xs) [0..<n]"
  by (rule nth_equalityI) simp_all

lemma read_from_Inr_layout:
  assumes "read_from buf = Inr h"
  shows "24 \<le> length buf" "hdr_version h = PROTOCOL_VERSION" "hdr_flags h = 0"
    "take 23 buf = take 23 (wire_layout h)"
proof -
  from assms show len: "24 \<le> length buf" and "hdr_version h = PROTOCOL_VERSION" "hdr_flags h = 0"
    by (auto simp: read_from_def HEADER_LEN_def try_bind_eq_Inr split: if_splits)
  have "[0..<23] = [0, 1, 2, 3, 4, 5, 6, 7, 8, 9, 10, 11, 12, 13, 14, 15, 16, 17, 18, 19, 20, 21, 22]"
    by (simp add: upt_rec)
  with assms len show "take 23 buf = take 23 (wire_layout h)"
    by (auto simp: take_as_map read_from_def HEADER_LEN_def try_bind_eq_Inr wire_layout_def
        from_byte_eq_Some split: if_splits)
qed

lemma layout_of_prefix:
  assumes "24 \<le> length buf" "take 23 buf = take 23 (wire_layout h)"
  shows "buf = wire_layout (h\<lparr>hdr_flags := buf ! 23\<rparr>) @ drop 24 buf"
proof -
  have "buf = (take 23 buf @ [buf ! 23]) @ drop 24 buf"
    using assms(1) id_take_nth_drop [of 23 buf] by simp
  moreover have "take 23 (wire_layout h) @ [buf ! 23] = wire_layout (h\<lparr>hdr_flags := buf ! 23\<rparr>)"
    by (simp add: wire_layout_def)
  ultimately show ?thesis using assms(2) by metis
qed

text \<open>The well-formed headers: what \<open>read_from\<close> can return and \<open>new\<close> produces.\<close>

definition wf_header :: "packet_header \<Rightarrow> bool" where
  "wf_header h \<longleftrightarrow> hdr_version h = PROTOCOL_VERSION \<and> hdr_flags h = FLAGS_NONE"

lemma wf_new_header [simp]: "wf_header (new_header ptype sid s)"
  by (simp add: wf_header_def new_header_def)

lemma read_from_to_bytes [codec_simps]:
  "wf_header h \<Longrightarrow> read_from (to_bytes h @ rest) = Inr h"
  by (simp add: to_bytes_layout read_from_layout wf_header_def FLAGS_NONE_def)

lemma read_from_wf: "read_from buf = Inr h \<Longrightarrow> wf_header h"
  using read_from_Inr_layout [of buf h] by (simp add: wf_header_def FLAGS_NONE_def)

lemma read_from_eq_Inl:
  "read_from buf = Inl e \<longleftrightarrow>
     (if length buf < 24 then e = BufferTooSmall
      else if buf ! 0 \<noteq> PROTOCOL_VERSION then e = BadVersion (buf ! 0)
      else from_byte (buf ! 1) = None \<and> e = BadType (buf ! 1))"
  by (auto simp: read_from_def HEADER_LEN_def try_bind_eq_Inl ok_or_eq_Inl)

subsection \<open>Properties\<close>

text \<open>The header parser accepts exactly the buffers that start with an encoding: reading
  succeeds with a header iff the buffer has at least 24 bytes, the header carries the
  protocol version and no flags, and the first 23 bytes are those of its encoding (the flag
  byte is ignored).\<close>

theorem read_from_exact:
  "read_from buf = Inr h \<longleftrightarrow>
     24 \<le> length buf \<and> wf_header h \<and> take 23 buf = take 23 (to_bytes h)"
proof
  assume "read_from buf = Inr h"
  then show "24 \<le> length buf \<and> wf_header h \<and> take 23 buf = take 23 (to_bytes h)"
    using read_from_Inr_layout read_from_wf by (auto simp: to_bytes_layout)
next
  assume *: "24 \<le> length buf \<and> wf_header h \<and> take 23 buf = take 23 (to_bytes h)"
  then have buf: "buf = wire_layout (h\<lparr>hdr_flags := buf ! 23\<rparr>) @ drop 24 buf"
    using layout_of_prefix by (simp add: to_bytes_layout)
  have "read_from buf = Inr (h\<lparr>hdr_flags := 0\<rparr>)"
    by (subst buf, subst read_from_layout) (use * in \<open>simp add: wf_header_def\<close>)
  then show "read_from buf = Inr h" using * by (simp add: wf_header_def FLAGS_NONE_def)
qed

text \<open>Writing a header either reports a buffer shorter than 24 bytes, or overwrites exactly
  the first 24 bytes with the encoding and leaves every later byte of the buffer alone.\<close>

theorem write_to_frame:
  "write_to h buf =
     (if length buf < HEADER_LEN then Inl BufferTooSmall else Inr (to_bytes h @ drop HEADER_LEN buf))"
  using write_to_layout [of buf h] by (auto simp: to_bytes_layout write_to_def HEADER_LEN_def)

text \<open>Packets survive the codec: decoding an encoded well-formed packet gives it back,
  \<open>encode_raw\<close> produces the same bytes, and \<open>split\<close> returns the same header and body and
  consumes the whole buffer.\<close>

theorem packet_roundtrip:
  assumes "wf_header (pkt_header p)"
  shows "decode (encode p) = Inr p \<and> encode_raw (pkt_header p) (pkt_body p) = encode p
    \<and> split_frame (encode p) = (Inr (pkt_header p, pkt_body p), [])"
  using assms
  by (simp add: decode_def encode_def encode_raw_def split_frame_def HEADER_LEN_def codec_simps)

theorem packet_roundtrip_witness:
  "decode (encode (empty_packet Ping 7 42)) = Inr (empty_packet Ping 7 42)"
  using packet_roundtrip [of "empty_packet Ping 7 42"] by (simp add: empty_packet_def)

end
