(* ===== verification/Frame_Codec.thy ===== *)
theory Frame_Codec
  imports Packet_Header
begin

text \<open>
  The framing seam of \<open>src/src/protocol/frame.rs\<close>: the trait \<open>FrameCodec\<close> with its two
  implementations \<open>V1FixedCodec\<close> (the packed header) and \<open>V2TlvCodec\<close> (tag, length, value),
  the registries, and the codec-agnostic routing peek. A trait object is a value of
  \<open>frame_codec\<close>, each trait method a function that dispatches on it. The laws the tunnel and
  the server dispatcher rely on are the locale \<open>frame_seam\<close>, interpreted on both codecs.
\<close>

subsection \<open>Errors\<close>

datatype frame_error =
    FrameBufferTooSmall
  | FrameBadVersion u8
  | FrameBadType u8
  | FrameMalformed string
  | UnknownCodec string
  | UnknownCodecId u8

fun frame_error_of :: "header_error \<Rightarrow> frame_error" where
  "frame_error_of BufferTooSmall = FrameBufferTooSmall"
| "frame_error_of (BadVersion v) = FrameBadVersion v"
| "frame_error_of (BadType b) = FrameBadType b"

subsection \<open>The fixed codec\<close>

definition FRAME_V1_FIXED :: u8 where "FRAME_V1_FIXED = 1"
definition FRAME_V2_TLV :: u8 where "FRAME_V2_TLV = 2"
definition V1_ROUTE_PREFIX_LEN :: nat where "V1_ROUTE_PREFIX_LEN = 6"

definition v1_write_header :: "packet_header \<Rightarrow> bytes \<Rightarrow> frame_error + bytes" where
  "v1_write_header h out =
     (let start = length out;
          out = out @ replicate HEADER_LEN 0
      in try_bind (map_err frame_error_of (write_to h (drop start out)))
           (\<lambda>tail. Inr (take start out @ tail)))"

definition v1_read_header :: "bytes \<Rightarrow> frame_error + packet_header" where
  "v1_read_header buf = map_err frame_error_of (read_from buf)"

definition v1_looks_like_frame :: "bytes \<Rightarrow> bool" where
  "v1_looks_like_frame buf \<longleftrightarrow>
     V1_ROUTE_PREFIX_LEN \<le> length buf \<and> buf ! 0 = PROTOCOL_VERSION \<and> from_byte (buf ! 1) \<noteq> None"

definition v1_peek_session_id :: "bytes \<Rightarrow> session_id option" where
  "v1_peek_session_id buf =
     (if \<not> v1_looks_like_frame buf then None
      else Some (from_le_bytes32 (buf ! 2) (buf ! 3) (buf ! 4) (buf ! 5)))"

definition v1_body_offset :: "bytes \<Rightarrow> nat" where
  "v1_body_offset frame = min HEADER_LEN (length frame)"

subsection \<open>The tag-length-value codec\<close>

definition V2_TLV_MAGIC :: u8 where "V2_TLV_MAGIC = 0x52"
definition V2_TLV_PREAMBLE :: nat where "V2_TLV_PREAMBLE = 3"

definition T_VERSION :: u8 where "T_VERSION = 0x01"
definition T_TYPE :: u8 where "T_TYPE = 0x02"
definition T_SESSION :: u8 where "T_SESSION = 0x03"
definition T_SEQ :: u8 where "T_SEQ = 0x04"
definition T_ACK_SEQ :: u8 where "T_ACK_SEQ = 0x05"
definition T_ACK_BITMAP :: u8 where "T_ACK_BITMAP = 0x06"
definition T_FEC_GROUP :: u8 where "T_FEC_GROUP = 0x07"
definition T_FEC_INDEX :: u8 where "T_FEC_INDEX = 0x08"
definition T_FEC_K :: u8 where "T_FEC_K = 0x09"
definition T_FEC_M :: u8 where "T_FEC_M = 0x0A"
definition T_FLAGS :: u8 where "T_FLAGS = 0x0B"

lemmas tag_defs = T_VERSION_def T_TYPE_def T_SESSION_def T_SEQ_def T_ACK_SEQ_def T_ACK_BITMAP_def
  T_FEC_GROUP_def T_FEC_INDEX_def T_FEC_K_def T_FEC_M_def T_FLAGS_def

text \<open>\<open>tlv(out, tag, value)\<close> appends; the model returns the appended bytes.\<close>

definition tlv :: "u8 \<Rightarrow> bytes \<Rightarrow> bytes" where
  "tlv tag v = tag # of_nat (length v) # v"

definition v2_header_body :: "packet_header \<Rightarrow> bytes" where
  "v2_header_body h =
     tlv T_VERSION [hdr_version h]
     @ tlv T_TYPE [packet_type_byte (hdr_type h)]
     @ tlv T_SESSION (to_le_bytes32 (hdr_session_id h))
     @ tlv T_SEQ (to_le_bytes32 (hdr_seq h))
     @ (if hdr_ack_seq h \<noteq> 0 then tlv T_ACK_SEQ (to_le_bytes32 (hdr_ack_seq h)) else [])
     @ (if hdr_ack_bitmap h \<noteq> 0 then tlv T_ACK_BITMAP (to_le_bytes32 (hdr_ack_bitmap h)) else [])
     @ (if hdr_fec_group h \<noteq> 0 then tlv T_FEC_GROUP (to_le_bytes16 (hdr_fec_group h)) else [])
     @ (if hdr_fec_index h \<noteq> 0 then tlv T_FEC_INDEX [hdr_fec_index h] else [])
     @ (if hdr_fec_k h \<noteq> 0 then tlv T_FEC_K [hdr_fec_k h] else [])
     @ (if hdr_fec_m h \<noteq> 0 then tlv T_FEC_M [hdr_fec_m h] else [])
     @ (if hdr_flags h \<noteq> 0 then tlv T_FLAGS [hdr_flags h] else [])"

definition v2_write_header :: "packet_header \<Rightarrow> bytes \<Rightarrow> frame_error + bytes" where
  "v2_write_header h out =
     (let body = v2_header_body h
      in if 65535 < length body then Inl (FrameMalformed ''tlv header exceeds 64 KiB'')
         else Inr (out @ [V2_TLV_MAGIC] @ to_be_bytes16 (of_nat (length body)) @ body))"

text \<open>The closures \<open>u32v\<close>, \<open>u16v\<close> and \<open>u8v\<close> of \<open>read_header\<close>.\<close>

definition u32v :: "bytes \<Rightarrow> frame_error + u32" where
  "u32v v = (case v of
       [a, b, c, d] \<Rightarrow> Inr (from_le_bytes32 a b c d)
     | _ \<Rightarrow> Inl (FrameMalformed ''tlv value is not a u32''))"

definition u16v :: "bytes \<Rightarrow> frame_error + u16" where
  "u16v v = (case v of
       [a, b] \<Rightarrow> Inr (from_le_bytes16 a b)
     | _ \<Rightarrow> Inl (FrameMalformed ''tlv value is not a u16''))"

definition u8v :: "bytes \<Rightarrow> frame_error + u8" where
  "u8v v = (case v of
       a # _ \<Rightarrow> Inr a
     | [] \<Rightarrow> Inl (FrameMalformed ''tlv value is not a u8''))"

text \<open>The local variables of the parsing loop; the packet type is not known at first.\<close>

record tlv_fields =
  tf_version :: u8
  tf_type :: "packet_type option"
  tf_session_id :: session_id
  tf_seq :: u32
  tf_ack_seq :: u32
  tf_ack_bitmap :: u32
  tf_fec_group :: u16
  tf_fec_index :: u8
  tf_fec_k :: u8
  tf_fec_m :: u8
  tf_flags :: header_flags

definition tlv_init :: tlv_fields where
  "tlv_init = \<lparr>tf_version = PROTOCOL_VERSION, tf_type = None, tf_session_id = 0, tf_seq = 0,
     tf_ack_seq = 0, tf_ack_bitmap = 0, tf_fec_group = 0, tf_fec_index = 0, tf_fec_k = 0,
     tf_fec_m = 0, tf_flags = FLAGS_NONE\<rparr>"

text \<open>The \<open>match tag\<close> of the loop body.\<close>

definition tlv_assign :: "u8 \<Rightarrow> bytes \<Rightarrow> tlv_fields \<Rightarrow> frame_error + tlv_fields" where
  "tlv_assign tag v f =
     (if tag = T_VERSION then try_bind (u8v v) (\<lambda>x. Inr (f\<lparr>tf_version := x\<rparr>))
      else if tag = T_TYPE then
        try_bind (u8v v) (\<lambda>b. try_bind (ok_or (from_byte b) (FrameBadType b))
          (\<lambda>p. Inr (f\<lparr>tf_type := Some p\<rparr>)))
      else if tag = T_SESSION then try_bind (u32v v) (\<lambda>x. Inr (f\<lparr>tf_session_id := x\<rparr>))
      else if tag = T_SEQ then try_bind (u32v v) (\<lambda>x. Inr (f\<lparr>tf_seq := x\<rparr>))
      else if tag = T_ACK_SEQ then try_bind (u32v v) (\<lambda>x. Inr (f\<lparr>tf_ack_seq := x\<rparr>))
      else if tag = T_ACK_BITMAP then try_bind (u32v v) (\<lambda>x. Inr (f\<lparr>tf_ack_bitmap := x\<rparr>))
      else if tag = T_FEC_GROUP then try_bind (u16v v) (\<lambda>x. Inr (f\<lparr>tf_fec_group := x\<rparr>))
      else if tag = T_FEC_INDEX then try_bind (u8v v) (\<lambda>x. Inr (f\<lparr>tf_fec_index := x\<rparr>))
      else if tag = T_FEC_K then try_bind (u8v v) (\<lambda>x. Inr (f\<lparr>tf_fec_k := x\<rparr>))
      else if tag = T_FEC_M then try_bind (u8v v) (\<lambda>x. Inr (f\<lparr>tf_fec_m := x\<rparr>))
      else if tag = T_FLAGS then
        try_bind (u8v v) (\<lambda>x. Inr (f\<lparr>tf_flags := from_bits_truncate x\<rparr>))
      else Inr f)"

text \<open>The \<open>while i < body.len()\<close> loop, on the part of the body from \<open>i\<close> on.\<close>

function tlv_loop :: "bytes \<Rightarrow> tlv_fields \<Rightarrow> frame_error + tlv_fields" where
  "tlv_loop [] f = Inr f"
| "tlv_loop [x] f = Inl (FrameMalformed ''truncated tlv tag/length'')"
| "tlv_loop (tag # len # rest) f =
     (if length rest < unat len then Inl (FrameMalformed ''tlv value runs past the header'')
      else try_bind (tlv_assign tag (take (unat len) rest) f) (tlv_loop (drop (unat len) rest)))"
  by pat_completeness auto
termination
  by (relation "measure (length \<circ> fst)") auto

definition header_of_fields :: "packet_type \<Rightarrow> tlv_fields \<Rightarrow> packet_header" where
  "header_of_fields p f =
     \<lparr>hdr_version = tf_version f, hdr_type = p, hdr_session_id = tf_session_id f,
      hdr_seq = tf_seq f, hdr_ack_seq = tf_ack_seq f, hdr_ack_bitmap = tf_ack_bitmap f,
      hdr_fec_group = tf_fec_group f, hdr_fec_index = tf_fec_index f, hdr_fec_k = tf_fec_k f,
      hdr_fec_m = tf_fec_m f, hdr_flags = tf_flags f\<rparr>"

definition v2_body_len :: "bytes \<Rightarrow> nat" where
  "v2_body_len buf = unat (from_be_bytes16 (buf ! 1) (buf ! 2))"

definition v2_read_header :: "bytes \<Rightarrow> frame_error + packet_header" where
  "v2_read_header buf =
     (if length buf < V2_TLV_PREAMBLE then Inl FrameBufferTooSmall
      else if buf ! 0 \<noteq> V2_TLV_MAGIC then Inl (FrameMalformed ''not a v2-tlv frame'')
      else
        let end_pos = V2_TLV_PREAMBLE + v2_body_len buf
        in if length buf < end_pos then Inl (FrameMalformed ''tlv header truncated'')
           else try_bind (tlv_loop (slice V2_TLV_PREAMBLE end_pos buf) tlv_init) (\<lambda>f.
             try_bind (ok_or (tf_type f) (FrameMalformed ''v2-tlv frame has no packet type''))
               (\<lambda>p. Inr (header_of_fields p f))))"

definition v2_looks_like_frame :: "bytes \<Rightarrow> bool" where
  "v2_looks_like_frame buf \<longleftrightarrow> V2_TLV_PREAMBLE \<le> length buf \<and> buf ! 0 = V2_TLV_MAGIC"

text \<open>The \<open>while i + 2 <= body.len()\<close> loop of \<open>peek_session_id\<close>.\<close>

function tlv_find_session :: "bytes \<Rightarrow> session_id option" where
  "tlv_find_session [] = None"
| "tlv_find_session [x] = None"
| "tlv_find_session (tag # len # rest) =
     (if length rest < unat len then None
      else if tag = T_SESSION \<and> unat len = 4
      then Some (from_le_bytes32 (rest ! 0) (rest ! 1) (rest ! 2) (rest ! 3))
      else tlv_find_session (drop (unat len) rest))"
  by pat_completeness auto
termination
  by (relation "measure length") auto

definition v2_peek_session_id :: "bytes \<Rightarrow> session_id option" where
  "v2_peek_session_id buf =
     (if \<not> v2_looks_like_frame buf then None
      else
        let end_pos = V2_TLV_PREAMBLE + v2_body_len buf
        in if length buf < end_pos then None
           else tlv_find_session (slice V2_TLV_PREAMBLE end_pos buf))"

definition v2_body_offset :: "bytes \<Rightarrow> nat" where
  "v2_body_offset frame =
     (if length frame < V2_TLV_PREAMBLE \<or> frame ! 0 \<noteq> V2_TLV_MAGIC then 0
      else min (V2_TLV_PREAMBLE + v2_body_len frame) (length frame))"

subsection \<open>The trait and its registries\<close>

datatype frame_codec = V1FixedCodec | V2TlvCodec

fun codec_name :: "frame_codec \<Rightarrow> string" where
  "codec_name V1FixedCodec = ''v1-fixed''"
| "codec_name V2TlvCodec = ''v2-tlv''"

fun wire_id :: "frame_codec \<Rightarrow> u8" where
  "wire_id V1FixedCodec = FRAME_V1_FIXED"
| "wire_id V2TlvCodec = FRAME_V2_TLV"

fun route_prefix_len :: "frame_codec \<Rightarrow> nat" where
  "route_prefix_len V1FixedCodec = V1_ROUTE_PREFIX_LEN"
| "route_prefix_len V2TlvCodec = V2_TLV_PREAMBLE + 2 + 4"

fun max_header_len :: "frame_codec \<Rightarrow> nat" where
  "max_header_len V1FixedCodec = HEADER_LEN"
| "max_header_len V2TlvCodec =
     V2_TLV_PREAMBLE + (1 + 1 + 1) + (1 + 1 + 1) + (1 + 1 + 4) + (1 + 1 + 4) + (1 + 1 + 4)
     + (1 + 1 + 4) + (1 + 1 + 2) + (1 + 1 + 1) + (1 + 1 + 1) + (1 + 1 + 1) + (1 + 1 + 1)"

fun write_header :: "frame_codec \<Rightarrow> packet_header \<Rightarrow> bytes \<Rightarrow> frame_error + bytes" where
  "write_header V1FixedCodec = v1_write_header"
| "write_header V2TlvCodec = v2_write_header"

fun read_header :: "frame_codec \<Rightarrow> bytes \<Rightarrow> frame_error + packet_header" where
  "read_header V1FixedCodec = v1_read_header"
| "read_header V2TlvCodec = v2_read_header"

fun looks_like_frame :: "frame_codec \<Rightarrow> bytes \<Rightarrow> bool" where
  "looks_like_frame V1FixedCodec = v1_looks_like_frame"
| "looks_like_frame V2TlvCodec = v2_looks_like_frame"

fun peek_session_id :: "frame_codec \<Rightarrow> bytes \<Rightarrow> session_id option" where
  "peek_session_id V1FixedCodec = v1_peek_session_id"
| "peek_session_id V2TlvCodec = v2_peek_session_id"

fun body_offset :: "frame_codec \<Rightarrow> bytes \<Rightarrow> nat" where
  "body_offset V1FixedCodec = v1_body_offset"
| "body_offset V2TlvCodec = v2_body_offset"

text \<open>
  The provided methods. The \<open>expect\<close> of the source is a panic, here the \<open>Inl\<close> of the
  underlying write.
\<close>

definition encode_header :: "frame_codec \<Rightarrow> packet_header \<Rightarrow> frame_error + bytes" where
  "encode_header c h = write_header c h []"

definition encode_frame :: "frame_codec \<Rightarrow> packet_header \<Rightarrow> bytes \<Rightarrow> frame_error + bytes" where
  "encode_frame c h ciphertext = try_bind (write_header c h []) (\<lambda>out. Inr (out @ ciphertext))"

definition ALL_CODECS :: "frame_codec list" where
  "ALL_CODECS = [V1FixedCodec, V2TlvCodec]"

definition peek_any_session_id :: "bytes \<Rightarrow> session_id option" where
  "peek_any_session_id buf = find_map (\<lambda>c. peek_session_id c buf) ALL_CODECS"

definition any_codec_claims :: "bytes \<Rightarrow> bool" where
  "any_codec_claims buf = list_ex (\<lambda>c. looks_like_frame c buf) ALL_CODECS"

definition build_frame_codec :: "string \<Rightarrow> frame_error + frame_codec" where
  "build_frame_codec name =
     (if name = ''v1-fixed'' then Inr V1FixedCodec
      else if name = ''v2-tlv'' then Inr V2TlvCodec
      else Inl (UnknownCodec name))"

definition frame_codec_by_id :: "u8 \<Rightarrow> frame_error + frame_codec" where
  "frame_codec_by_id i =
     (if i = FRAME_V1_FIXED then Inr V1FixedCodec
      else if i = FRAME_V2_TLV then Inr V2TlvCodec
      else Inl (UnknownCodecId i))"

subsection \<open>Parsing what was written\<close>

lemma tlv_loop_tlv [codec_simps]:
  "length v < 256 \<Longrightarrow> tlv_loop (tlv tag v @ rest) f = try_bind (tlv_assign tag v f) (tlv_loop rest)"
  by (simp add: tlv_def)

lemma tlv_find_session_tlv [codec_simps]:
  "length v < 256 \<Longrightarrow> tlv_find_session (tlv tag v @ rest) =
     (if tag = T_SESSION \<and> length v = 4 then Some (from_le_bytes32 (v ! 0) (v ! 1) (v ! 2) (v ! 3))
      else tlv_find_session rest)"
  by (auto simp: tlv_def nth_append)

lemma length_tlv [simp]: "length (tlv tag v) = length v + 2"
  by (simp add: tlv_def)

lemma tlv_not_Nil [simp]: "tlv tag v \<noteq> []"
  by (simp add: tlv_def)

lemma uv_simps [codec_simps]:
  "u32v (to_le_bytes32 w) = Inr w" "u16v (to_le_bytes16 x) = Inr x" "u8v [b] = Inr b"
  by (simp_all add: u32v_def u16v_def u8v_def to_le_bytes32_def to_le_bytes16_def)

lemma tlv_loop_optional:
  "tf_ack_seq f = 0 \<Longrightarrow> tlv_loop ((if w \<noteq> 0 then tlv T_ACK_SEQ (to_le_bytes32 w) else []) @ rest) f
     = tlv_loop rest (f\<lparr>tf_ack_seq := w\<rparr>)"
  "tf_ack_bitmap f = 0 \<Longrightarrow>
     tlv_loop ((if w \<noteq> 0 then tlv T_ACK_BITMAP (to_le_bytes32 w) else []) @ rest) f
     = tlv_loop rest (f\<lparr>tf_ack_bitmap := w\<rparr>)"
  "tf_fec_group f = 0 \<Longrightarrow>
     tlv_loop ((if x \<noteq> 0 then tlv T_FEC_GROUP (to_le_bytes16 x) else []) @ rest) f
     = tlv_loop rest (f\<lparr>tf_fec_group := x\<rparr>)"
  "tf_fec_index f = 0 \<Longrightarrow> tlv_loop ((if b \<noteq> 0 then tlv T_FEC_INDEX [b] else []) @ rest) f
     = tlv_loop rest (f\<lparr>tf_fec_index := b\<rparr>)"
  "tf_fec_k f = 0 \<Longrightarrow> tlv_loop ((if b \<noteq> 0 then tlv T_FEC_K [b] else []) @ rest) f
     = tlv_loop rest (f\<lparr>tf_fec_k := b\<rparr>)"
  "tf_fec_m f = 0 \<Longrightarrow> tlv_loop ((if b \<noteq> 0 then tlv T_FEC_M [b] else []) @ rest) f
     = tlv_loop rest (f\<lparr>tf_fec_m := b\<rparr>)"
  by (cases f; simp add: codec_simps tlv_assign_def tag_defs)+

lemma tlv_loop_mandatory:
  "tlv_loop (tlv T_VERSION [b] @ rest) f = tlv_loop rest (f\<lparr>tf_version := b\<rparr>)"
  "tlv_loop (tlv T_TYPE [packet_type_byte p] @ rest) f = tlv_loop rest (f\<lparr>tf_type := Some p\<rparr>)"
  "tlv_loop (tlv T_SESSION (to_le_bytes32 w) @ rest) f = tlv_loop rest (f\<lparr>tf_session_id := w\<rparr>)"
  "tlv_loop (tlv T_SEQ (to_le_bytes32 w) @ rest) f = tlv_loop rest (f\<lparr>tf_seq := w\<rparr>)"
  by (simp_all add: codec_simps tlv_assign_def tag_defs)

text \<open>What \<open>v2_write_header\<close> appends.\<close>

definition v2_bytes :: "packet_header \<Rightarrow> bytes" where
  "v2_bytes h = [V2_TLV_MAGIC] @ to_be_bytes16 (of_nat (length (v2_header_body h))) @ v2_header_body h"

lemma length_v2_header_body:
  "18 \<le> length (v2_header_body h)" "length (v2_header_body h) \<le> 46"
  by (simp_all add: v2_header_body_def)

lemma length_v2_bytes [simp]: "length (v2_bytes h) = length (v2_header_body h) + 3"
  by (simp add: v2_bytes_def)

lemma v2_write_header_bytes: "v2_write_header h out = Inr (out @ v2_bytes h)"
  using length_v2_header_body(2) [of h] by (simp add: v2_write_header_def v2_bytes_def Let_def)

lemma v2_frame_fields:
  "(v2_bytes h @ body) ! 0 = V2_TLV_MAGIC"
  "v2_body_len (v2_bytes h @ body) = length (v2_header_body h)"
  "slice 3 (3 + length (v2_header_body h)) (v2_bytes h @ body) = v2_header_body h"
proof -
  let ?pre = "[V2_TLV_MAGIC] @ to_be_bytes16 (of_nat (length (v2_header_body h)))"
  have "slice 3 (3 + length (v2_header_body h)) (?pre @ (v2_header_body h @ body))
    = take (length (v2_header_body h)) (v2_header_body h @ body)"
    by (rule slice_append_left) simp
  then show "slice 3 (3 + length (v2_header_body h)) (v2_bytes h @ body) = v2_header_body h"
    by (simp add: v2_bytes_def)
qed (use length_v2_header_body(2) [of h] in
  \<open>simp_all add: v2_bytes_def v2_body_len_def to_be_bytes16_def\<close>)

lemma peek_imp_claims:
  "v1_peek_session_id buf = Some s \<Longrightarrow> v1_looks_like_frame buf"
  "v2_peek_session_id buf = Some s \<Longrightarrow> v2_looks_like_frame buf"
  by (auto simp: v1_peek_session_id_def v2_peek_session_id_def split: if_splits)

lemma tlv_loop_header_body:
  assumes "hdr_flags h = 0"
  shows "tlv_loop (v2_header_body h) tlv_init =
    Inr \<lparr>tf_version = hdr_version h, tf_type = Some (hdr_type h), tf_session_id = hdr_session_id h,
         tf_seq = hdr_seq h, tf_ack_seq = hdr_ack_seq h, tf_ack_bitmap = hdr_ack_bitmap h,
         tf_fec_group = hdr_fec_group h, tf_fec_index = hdr_fec_index h, tf_fec_k = hdr_fec_k h,
         tf_fec_m = hdr_fec_m h, tf_flags = 0\<rparr>"
  unfolding v2_header_body_def append_assoc
  by (simp only: tlv_loop_mandatory, simp only: tlv_init_def tlv_loop_optional tlv_fields.simps)
    (simp add: assms FLAGS_NONE_def)

lemma v2_read_written: "hdr_flags h = 0 \<Longrightarrow> v2_read_header (v2_bytes h @ body) = Inr h"
  by (simp add: v2_read_header_def V2_TLV_PREAMBLE_def v2_frame_fields tlv_loop_header_body
      header_of_fields_def)

lemma v2_peek_written: "v2_peek_session_id (v2_bytes h @ body) = Some (hdr_session_id h)"
proof -
  have "tlv_find_session (v2_header_body h) = Some (hdr_session_id h)"
    by (simp add: v2_header_body_def codec_simps tag_defs) (simp add: to_le_bytes32_def)
  then show ?thesis
    by (simp add: v2_peek_session_id_def v2_looks_like_frame_def V2_TLV_PREAMBLE_def v2_frame_fields)
qed

lemma v1_peek_written:
  assumes "wf_header h"
  shows "v1_peek_session_id (to_bytes h @ body) = Some (hdr_session_id h)"
  using assms words_wire_layout [of h] nth_wire_layout [of h]
  by (simp add: v1_peek_session_id_def v1_looks_like_frame_def V1_ROUTE_PREFIX_LEN_def nth_append
      to_bytes_layout wf_header_def)

lemma v1_write_header_bytes: "v1_write_header h out = Inr (out @ to_bytes h)"
  by (simp add: v1_write_header_def write_to_layout HEADER_LEN_def to_bytes_layout)

subsection \<open>The contract of a codec\<close>

text \<open>
  What the tunnel and the dispatcher rely on: \<open>enc h\<close> is what writing appends for a header in
  the codec's domain \<open>dom_h\<close>, reading a frame gives the header back whatever follows it, the
  body offset is the end of the header, the routing peek finds the session id, and a frame
  the peek accepts is one the codec claims.
\<close>

locale frame_seam =
  fixes wr :: "packet_header \<Rightarrow> bytes \<Rightarrow> frame_error + bytes"
    and rd :: "bytes \<Rightarrow> frame_error + packet_header"
    and claims :: "bytes \<Rightarrow> bool"
    and peek :: "bytes \<Rightarrow> session_id option"
    and off :: "bytes \<Rightarrow> nat"
    and max_len :: nat
    and enc :: "packet_header \<Rightarrow> bytes"
    and dom_h :: "packet_header \<Rightarrow> bool"
  assumes wr_enc: "wr h out = Inr (out @ enc h)"
    and rd_enc: "dom_h h \<Longrightarrow> rd (enc h @ body) = Inr h"
    and peek_enc: "dom_h h \<Longrightarrow> peek (enc h @ body) = Some (hdr_session_id h)"
    and off_enc: "off (enc h @ body) = length (enc h)"
    and enc_le_max: "length (enc h) \<le> max_len"
    and peek_claims: "peek buf = Some s \<Longrightarrow> claims buf"
begin

lemma frame_parses:
  assumes "dom_h h" "frame = enc h @ body"
  shows "rd frame = Inr h \<and> drop (off frame) frame = body \<and> take (off frame) frame = enc h
    \<and> peek frame = Some (hdr_session_id h) \<and> claims frame \<and> length frame \<le> max_len + length body"
  using assms rd_enc off_enc peek_enc enc_le_max peek_claims by auto

lemma frame_unique:
  assumes "dom_h h" "dom_h h'" "enc h @ body = enc h' @ body'"
  shows "h = h' \<and> body = body'"
proof -
  have "Inr h = (Inr h' :: frame_error + packet_header)"
    using assms rd_enc by metis
  then show ?thesis using assms by simp
qed

end

interpretation v1: frame_seam v1_write_header v1_read_header v1_looks_like_frame
  v1_peek_session_id v1_body_offset HEADER_LEN to_bytes wf_header
  by unfold_locales
    (auto simp: v1_write_header_bytes v1_read_header_def read_from_to_bytes v1_peek_written
      v1_body_offset_def HEADER_LEN_def peek_imp_claims)

interpretation v2: frame_seam v2_write_header v2_read_header v2_looks_like_frame
  v2_peek_session_id v2_body_offset "max_header_len V2TlvCodec" v2_bytes "\<lambda>h. hdr_flags h = 0"
  using length_v2_header_body(2)
  by unfold_locales
    (auto simp: v2_write_header_bytes v2_read_written v2_peek_written v2_body_offset_def
      V2_TLV_PREAMBLE_def v2_frame_fields peek_imp_claims)

subsection \<open>Properties\<close>

text \<open>The headers a codec carries faithfully. The fixed parser accepts one version only.\<close>

fun codec_carries :: "frame_codec \<Rightarrow> packet_header \<Rightarrow> bool" where
  "codec_carries V1FixedCodec h = wf_header h"
| "codec_carries V2TlvCodec h = (hdr_flags h = 0)"

lemma codec_frame:
  assumes "codec_carries c h"
  shows "\<exists>frame. encode_frame c h body = Inr frame \<and> read_header c frame = Inr h
    \<and> drop (body_offset c frame) frame = body
    \<and> encode_header c h = Inr (take (body_offset c frame) frame)
    \<and> peek_session_id c frame = Some (hdr_session_id h)
    \<and> length frame \<le> max_header_len c + length body"
proof (cases c)
  case V1FixedCodec
  then show ?thesis
    using assms v1.frame_parses [of h "to_bytes h @ body" body]
    by (auto simp: encode_frame_def encode_header_def v1.wr_enc)
next
  case V2TlvCodec
  then show ?thesis
    using assms v2.frame_parses [of h "v2_bytes h @ body" body]
    by (auto simp: encode_frame_def encode_header_def v2.wr_enc)
qed

text \<open>C18. For either codec, encoding a frame never panics, and the receiver reads back the same
  header, finds the same body after the body offset, sees the same header bytes the sender
  authenticated, and the routing peek returns the session id; the header stays within
  \<open>max_header_len\<close>.\<close>

theorem frame_roundtrip:
  assumes "codec_carries c h"
  shows "\<exists>frame. encode_frame c h body = Inr frame \<and> read_header c frame = Inr h
    \<and> drop (body_offset c frame) frame = body
    \<and> encode_header c h = Inr (take (body_offset c frame) frame)
    \<and> peek_session_id c frame = Some (hdr_session_id h)
    \<and> length frame \<le> max_header_len c + length body"
  using codec_frame [OF assms] .

theorem frame_roundtrip_witness:
  "\<exists>frame. encode_frame V2TlvCodec (new_header Ping 7 42) [1, 2] = Inr frame
    \<and> read_header V2TlvCodec frame = Inr (new_header Ping 7 42)
    \<and> drop (body_offset V2TlvCodec frame) frame = [1, 2]"
  using frame_roundtrip [of V2TlvCodec "new_header Ping 7 42" "[1, 2]"]
  by (auto simp: new_header_def FLAGS_NONE_def)

lemma claims_exclusive: "\<not> (v1_looks_like_frame buf \<and> v2_looks_like_frame buf)"
  by (auto simp: v1_looks_like_frame_def v2_looks_like_frame_def PROTOCOL_VERSION_def
      V2_TLV_MAGIC_def)

text \<open>The codec-agnostic routing peek is unambiguous: no buffer is claimed by both codecs,
  and whenever the peek over all codecs returns a session id, exactly one codec claims the
  buffer and its own peek returned that id.\<close>

theorem peek_any_unambiguous:
  "(\<exists>c. looks_like_frame c buf) = (\<exists>!c. looks_like_frame c buf)
   \<and> (peek_any_session_id buf = Some s) = (\<exists>!c. looks_like_frame c buf \<and> peek_session_id c buf = Some s)"
proof -
  have ex: "(\<exists>c. P c) = (P V1FixedCodec \<or> P V2TlvCodec)"
    "(\<exists>!c. P c) = (P V1FixedCodec \<noteq> P V2TlvCodec)" for P
    by (metis frame_codec.exhaust frame_codec.distinct(1))+
  have p1: "v1_peek_session_id buf = Some t \<Longrightarrow> v1_looks_like_frame buf" for t
    by (rule v1.peek_claims)
  have p2: "v2_peek_session_id buf = Some t \<Longrightarrow> v2_looks_like_frame buf" for t
    by (rule v2.peek_claims)
  show ?thesis
    using claims_exclusive [of buf] p1 p2
    by (auto simp: ex peek_any_session_id_def ALL_CODECS_def split: option.splits)
qed

text \<open>A tag-length-value header is between 21 and 49 bytes long, and 21 bytes exactly when
  every optional field is zero.\<close>

theorem v2_header_length:
  "21 \<le> length (v2_bytes h) \<and> length (v2_bytes h) \<le> max_header_len V2TlvCodec
   \<and> (length (v2_bytes h) = 21 \<longleftrightarrow>
        hdr_ack_seq h = 0 \<and> hdr_ack_bitmap h = 0 \<and> hdr_fec_group h = 0 \<and> hdr_fec_index h = 0
        \<and> hdr_fec_k h = 0 \<and> hdr_fec_m h = 0 \<and> hdr_flags h = 0)
   \<and> encode_header V2TlvCodec h = Inr (v2_bytes h)"
proof -
  have "length (v2_bytes h) = 21 \<longleftrightarrow>
        hdr_ack_seq h = 0 \<and> hdr_ack_bitmap h = 0 \<and> hdr_fec_group h = 0 \<and> hdr_fec_index h = 0
        \<and> hdr_fec_k h = 0 \<and> hdr_fec_m h = 0 \<and> hdr_flags h = 0"
    by (simp add: v2_header_body_def)
  then show ?thesis
    using length_v2_header_body [of h]
    by (simp add: V2_TLV_PREAMBLE_def encode_header_def v2_write_header_bytes)
qed

subsection \<open>Where the comments and the code part\<close>

text \<open>
  \<open>route_prefix_len\<close> is documented as the bytes a receiver needs to route a message. For the
  tag-length-value codec the peek needs the whole header, so that many bytes never suffice.
\<close>

lemma v2_route_prefix_too_short:
  "peek_session_id V2TlvCodec (take (route_prefix_len V2TlvCodec) (v2_bytes h @ body)) = None"
proof -
  have "v2_body_len (take 9 (v2_bytes h @ body)) = length (v2_header_body h)"
    using v2_frame_fields(2) [of h body] by (simp add: v2_body_len_def del: take_append)
  then show ?thesis
    using length_v2_header_body(1) [of h]
    by (simp add: v2_peek_session_id_def V2_TLV_PREAMBLE_def)
qed

text \<open>
  The comments of \<open>read_header\<close> call a value of another width than the field's malformed, and
  the session id not optional. A two-byte version without any session id is accepted.
\<close>

lemma v2_read_accepts_overlong_and_sessionless:
  "v2_read_header [0x52, 0, 7, 1, 2, 1, 99, 2, 1, 6] = Inr (new_header Ping 0 0)"
  by (simp add: v2_read_header_def V2_TLV_PREAMBLE_def V2_TLV_MAGIC_def v2_body_len_def
      from_be_bytes16_def slice_def tlv_assign_def tag_defs u8v_def from_byte_def tlv_init_def
      header_of_fields_def new_header_def PROTOCOL_VERSION_def)

end
