(* ===== verification/Gf256.thy ===== *)
theory Gf256
  imports Complex_Main Rn_Prelude
begin

text \<open>
  Arithmetic of \<open>src/src/fec/gf256.rs\<close>: the logarithm and exponent tables, \<open>mul\<close>, \<open>div\<close> and
  \<open>inv\<close> over them, and the Gauss-Jordan elimination \<open>solve_system\<close>. A panic of the source is
  \<open>None\<close>. The tables are shown to be those of a field: the bytes with exclusive or and \<open>mul\<close>
  form an instance of the class \<open>field\<close> (type \<open>gf\<close>), which gives the algebra for the erasure
  code. \<open>solve_system\<close> is shown to return the unique solution, or to fail exactly on singular
  systems.
\<close>

subsection \<open>The tables\<close>

definition POLY :: u16 where "POLY = 0x11d"

text \<open>One step of the generating loop: multiply by 2 and reduce.\<close>

definition xtime :: "u8 \<Rightarrow> u8" where
  "xtime x =
     (let hi = x AND 0x80 \<noteq> 0;
          x = push_bit 1 x
      in if hi then x XOR ucast (POLY AND 0xff) else x)"

record gf256 =
  gf_exp :: bytes
  gf_log :: bytes

text \<open>The first loop of \<open>Gf256::new\<close>; the first argument is the number of iterations left.\<close>

fun gf_fill :: "nat \<Rightarrow> nat \<Rightarrow> u8 \<Rightarrow> gf256 \<Rightarrow> gf256" where
  "gf_fill 0 i x t = t"
| "gf_fill (Suc n) i x t =
     gf_fill n (Suc i) (xtime x)
       \<lparr>gf_exp = (gf_exp t)[i := x], gf_log = (gf_log t)[unat x := of_nat i]\<rparr>"

text \<open>The second loop.\<close>

fun gf_extend :: "nat \<Rightarrow> nat \<Rightarrow> bytes \<Rightarrow> bytes" where
  "gf_extend 0 i e = e"
| "gf_extend (Suc n) i e = gf_extend n (Suc i) (e[i := e ! (i - 255)])"

definition gf256_new :: gf256 where
  "gf256_new =
     (let t = gf_fill 255 0 1 \<lparr>gf_exp = replicate 512 0, gf_log = replicate 256 0\<rparr>
      in t\<lparr>gf_exp := gf_extend 257 255 (gf_exp t)\<rparr>)"

definition GF :: gf256 where "GF = gf256_new"

subsection \<open>Operations\<close>

definition gf_mul :: "u8 \<Rightarrow> u8 \<Rightarrow> u8" where
  "gf_mul a b =
     (if a = 0 \<or> b = 0 then 0
      else gf_exp GF ! (unat (gf_log GF ! unat a) + unat (gf_log GF ! unat b)))"

definition gf_div :: "u8 \<Rightarrow> u8 \<Rightarrow> u8 option" where
  "gf_div a b =
     (if a = 0 then Some 0
      else if b = 0 then None
      else Some (gf_exp GF ! (255 + unat (gf_log GF ! unat a) - unat (gf_log GF ! unat b))))"

definition gf_inv :: "u8 \<Rightarrow> u8 option" where
  "gf_inv a =
     (if a = 0 then None
      else Some (gf_exp GF ! unat (of_nat (255 - unat (gf_log GF ! unat a)) AND (0xff :: u64))))"

subsection \<open>Carry-less multiplication\<close>

lemma xtime_bit: "xtime x = push_bit 1 x XOR (if bit x 7 then 0x1d else 0)"
proof -
  have "push_bit 7 (1 :: u8) = 0x80" by simp
  then have "x AND 0x80 \<noteq> 0 \<longleftrightarrow> bit x 7"
    using bit_iff_and_push_bit_not_eq_0 [of x 7] by simp
  then show ?thesis by (simp add: xtime_def POLY_def Let_def)
qed

lemma xtime_xor: "xtime (a XOR b) = xtime a XOR xtime b"
  by (auto simp: xtime_bit push_bit_xor bit_xor_iff xor.assoc xor.left_commute xor.commute)

lemma xtime_0 [simp]: "xtime 0 = 0"
  by (simp add: xtime_bit)

lemma xtime_pow_xor: "(xtime ^^ n) (a XOR b) = (xtime ^^ n) a XOR (xtime ^^ n) b"
  by (induction n) (simp_all add: xtime_xor)

lemma xtime_pow_0 [simp]: "(xtime ^^ n) 0 = 0"
  by (induction n) simp_all

text \<open>The reference multiplication: add \<open>xtime ^^ i\<close> of the first factor for each bit \<open>i\<close> of
  the second.\<close>

fun pm_upto :: "nat \<Rightarrow> u8 \<Rightarrow> u8 \<Rightarrow> u8" where
  "pm_upto 0 a b = 0"
| "pm_upto (Suc n) a b = pm_upto n a b XOR (if bit b n then (xtime ^^ n) a else 0)"

definition pm :: "u8 \<Rightarrow> u8 \<Rightarrow> u8" where
  "pm a b = pm_upto 8 a b"

lemmas xor_ac = xor.assoc xor.left_commute xor.commute

lemma pm_upto_xor_left: "pm_upto n (a XOR a') b = pm_upto n a b XOR pm_upto n a' b"
  by (induction n) (auto simp: xtime_pow_xor xor_ac)

lemma pm_upto_xor_right: "pm_upto n a (b XOR b') = pm_upto n a b XOR pm_upto n a b'"
  by (induction n) (auto simp: bit_xor_iff xor_ac)

lemma pm_upto_xtime_left: "pm_upto n (xtime a) b = xtime (pm_upto n a b)"
  by (induction n) (auto simp: xtime_xor funpow_swap1)

lemma pm_xor_left: "pm (a XOR a') b = pm a b XOR pm a' b"
  by (simp add: pm_def pm_upto_xor_left)

lemma pm_xor_right: "pm a (b XOR b') = pm a b XOR pm a b'"
  by (simp add: pm_def pm_upto_xor_right)

lemma pm_xtime_left: "pm (xtime a) b = xtime (pm a b)"
  by (simp add: pm_def pm_upto_xtime_left)

lemma pm_xtime_pow_left: "pm ((xtime ^^ n) a) b = (xtime ^^ n) (pm a b)"
  by (induction n) (simp_all add: pm_xtime_left)

lemma pm_0 [simp]: "pm 0 b = 0" "pm a 0 = 0"
  by (simp_all add: pm_def numeral_eq_Suc)

lemma xtime_pow_one: "(xtime ^^ n) 1 = push_bit n 1" if "n < 8"
  using that
proof (induction n)
  case (Suc n)
  then have "\<not> bit (push_bit n 1 :: u8) 7" by (simp add: bit_simps)
  then show ?case using Suc by (simp add: xtime_bit push_bit_push_bit)
qed simp

lemma pm_upto_one: "n \<le> 8 \<Longrightarrow> pm_upto n 1 b = take_bit n b"
proof (induction n)
  case (Suc n)
  have "take_bit (Suc n) b = take_bit n b XOR (if bit b n then push_bit n 1 else 0)"
    by (rule bit_word_eqI) (auto simp: bit_simps less_Suc_eq)
  then show ?case using Suc by (simp add: xtime_pow_one)
qed simp

lemma pm_one_left [simp]: "pm 1 b = b"
proof -
  have "take_bit 8 b = b" by (rule bit_word_eqI) (simp add: bit_simps)
  then show ?thesis by (simp add: pm_def pm_upto_one)
qed

text \<open>The generator satisfies the field polynomial.\<close>

lemma xtime_pow_8:
  "(xtime ^^ 8) a = a XOR (xtime ^^ 2) a XOR (xtime ^^ 3) a XOR (xtime ^^ 4) a"
proof -
  have one: "(xtime ^^ 8) 1 = 1 XOR (xtime ^^ 2) 1 XOR (xtime ^^ 3) 1 XOR (xtime ^^ 4) 1"
    by code_simp
  have "(xtime ^^ n) a = pm ((xtime ^^ n) 1) a" for n
    by (simp add: pm_xtime_pow_left)
  then have "(xtime ^^ 8) a = pm (1 XOR (xtime ^^ 2) 1 XOR (xtime ^^ 3) 1 XOR (xtime ^^ 4) 1) a"
    using one by metis
  then show ?thesis by (simp add: pm_xor_left pm_xtime_pow_left)
qed

lemma xtime_one_bit: "pm a (push_bit n 1) = (xtime ^^ n) a" if "n < 8"
proof -
  have "pm_upto k a (push_bit n 1) = (if n < k then (xtime ^^ n) a else 0)" if "k \<le> 8" for k
    using that \<open>n < 8\<close> by (induction k) (auto simp: bit_simps less_Suc_eq)
  then show ?thesis using that by (simp add: pm_def)
qed

lemma pm_xtime_right: "pm a (xtime b) = xtime (pm a b)"
proof -
  have basis: "pm a (xtime (push_bit n 1)) = xtime (pm a (push_bit n 1))" if n: "n < 8" for n
  proof (cases "n = 7")
    case False
    then have "Suc n < 8" using n by simp
    then have "pm a (xtime (push_bit n 1)) = pm a (push_bit (Suc n) 1)"
      using n xtime_pow_one [of n] xtime_pow_one [of "Suc n"] by simp
    also have "\<dots> = (xtime ^^ Suc n) a" using \<open>Suc n < 8\<close> by (rule xtime_one_bit)
    also have "\<dots> = xtime (pm a (push_bit n 1))" using xtime_one_bit [OF n, of a] by simp
    finally show ?thesis .
  next
    case True
    have "xtime (push_bit 7 1) = push_bit 0 1 XOR push_bit 2 1 XOR push_bit 3 1 XOR push_bit 4 1"
      by code_simp
    then have "pm a (xtime (push_bit 7 1))
      = a XOR (xtime ^^ 2) a XOR (xtime ^^ 3) a XOR (xtime ^^ 4) a"
      by (simp only: pm_xor_right xtime_one_bit) simp
    also have "\<dots> = xtime ((xtime ^^ 7) a)"
      using xtime_pow_8 [of a] by (simp add: numeral_eq_Suc)
    finally show ?thesis using True xtime_one_bit [of 7 a] by simp
  qed
  have "pm a (xtime (take_bit n b)) = xtime (pm a (take_bit n b))" if "n \<le> 8" for n
    using that
  proof (induction n)
    case (Suc n)
    have "take_bit (Suc n) b = take_bit n b XOR (if bit b n then push_bit n 1 else 0)"
      by (rule bit_word_eqI) (auto simp: bit_simps less_Suc_eq)
    then show ?case using Suc basis [of n] by (simp add: xtime_xor pm_xor_right)
  qed simp
  from this [of 8] show ?thesis
    by (metis le_refl pm_one_left pm_def pm_upto_one)
qed

subsection \<open>The generator has order 255\<close>

text \<open>\<open>gpow i\<close> is the \<open>i\<close>-th power of the generator 2.\<close>

definition gpow :: "nat \<Rightarrow> u8" where
  "gpow i = (xtime ^^ i) 1"

lemma gpow_0 [simp]: "gpow 0 = 1"
  by (simp add: gpow_def)

lemma gpow_Suc: "gpow (Suc i) = xtime (gpow i)"
  by (simp add: gpow_def)

lemma xtime_pow_gpow: "(xtime ^^ i) a = pm (gpow i) a"
  by (simp add: gpow_def pm_xtime_pow_left)

lemma pm_gpow: "pm (gpow i) (gpow j) = gpow (i + j)"
  using xtime_pow_gpow [of i "gpow j"] by (simp add: gpow_def funpow_add)

lemma gpow_values:
  "gpow 15 = 38" "gpow 17 = 152" "gpow 34 = 78" "gpow 51 = 10" "gpow 85 = 214" "gpow 255 = 1"
proof -
  have 2: "gpow 2 = 4" unfolding gpow_def by code_simp
  have "pm 4 4 = 16" by code_simp
  then have 4: "gpow 4 = 16" using pm_gpow [of 2 2] 2 by simp
  have "pm 16 16 = 29" by code_simp
  then have 8: "gpow 8 = 29" using pm_gpow [of 4 4] 4 by simp
  have "pm 29 29 = 76" by code_simp
  then have 16: "gpow 16 = 76" using pm_gpow [of 8 8] 8 by simp
  have "pm 29 16 = 205" by code_simp
  then have 12: "gpow 12 = 205" using pm_gpow [of 8 4] 4 8 by simp
  have "pm 4 205 = 19" by code_simp
  then have 14: "gpow 14 = 19" using pm_gpow [of 2 12] 2 12 by simp
  have "xtime 19 = 38" by code_simp
  then show 15: "gpow 15 = 38" using gpow_Suc [of 14] 14 by simp
  have "pm 4 38 = 152" by code_simp
  then show 17: "gpow 17 = 152" using pm_gpow [of 2 15] 2 15 by simp
  have "pm 152 152 = 78" by code_simp
  then show 34: "gpow 34 = 78" using pm_gpow [of 17 17] 17 by simp
  have "pm 152 78 = 10" by code_simp
  then show 51: "gpow 51 = 10" using pm_gpow [of 17 34] 17 34 by simp
  have "pm 10 78 = 214" by code_simp
  then show 85: "gpow 85 = 214" using pm_gpow [of 51 34] 51 34 by simp
  have "pm 214 214 = 215" by code_simp
  then have 170: "gpow 170 = 215" using pm_gpow [of 85 85] 85 by simp
  have "pm 214 215 = 1" by code_simp
  then show "gpow 255 = 1" using pm_gpow [of 85 170] 85 170 by simp
qed

lemma gpow_mult: "gpow i = 1 \<Longrightarrow> gpow (i * n) = 1"
proof (induction n)
  case (Suc n)
  then show ?case using pm_gpow [of i "i * n"] by simp
qed simp

lemma gpow_period: "gpow (i + 255 * n) = gpow i"
  using pm_gpow [of "255 * n" i] gpow_mult [OF gpow_values(6), of n] by (simp add: add.commute)

lemma gpow_cancel: "gpow (i + d) = gpow i \<Longrightarrow> gpow d = 1"
proof -
  assume "gpow (i + d) = gpow i"
  then have "pm (gpow (254 * i)) (gpow (i + d)) = pm (gpow (254 * i)) (gpow i)" by simp
  then have "gpow (d + 255 * i) = gpow (0 + 255 * i)"
    unfolding pm_gpow by (simp add: algebra_simps)
  then show "gpow d = 1" unfolding gpow_period by simp
qed

lemma gpow_gcd:
  assumes "gpow i = 1" "i \<noteq> 0"
  shows "gpow (gcd i 255) = 1"
proof -
  obtain u v where "i * u = 255 * v + gcd i 255"
    using bezout_nat [OF assms(2), of 255] by blast
  then have "gpow (gcd i 255 + 255 * v) = 1"
    using gpow_mult [OF assms(1), of u] by (simp add: add.commute)
  then show ?thesis unfolding gpow_period .
qed

lemma divisor_255: "d dvd 255 \<Longrightarrow> d \<noteq> 255 \<Longrightarrow> d dvd 15 \<or> d dvd 51 \<or> d dvd 85" for d :: nat
proof -
  assume "d dvd 255" "d \<noteq> 255"
  then obtain q where q: "255 = d * q" "q \<noteq> 1" by auto
  from q(1) have "d \<noteq> 0" "q \<noteq> 0" by (metis mult_0 mult_0_right zero_neq_numeral)+
  have "d \<le> 15 \<or> q \<le> 16"
  proof (rule ccontr)
    assume "\<not> (d \<le> 15 \<or> q \<le> 16)"
    then have "16 * 17 \<le> d * q" by (intro mult_le_mono) auto
    then show False using q by simp
  qed
  then show ?thesis
  proof
    assume "d \<le> 15"
    then have "d = 1 \<or> d = 2 \<or> d = 3 \<or> d = 4 \<or> d = 5 \<or> d = 6 \<or> d = 7 \<or> d = 8 \<or> d = 9 \<or> d = 10 \<or> d = 11 \<or> d = 12 \<or> d = 13 \<or> d = 14 \<or> d = 15" using \<open>d \<noteq> 0\<close> by presburger
    then show ?thesis using q(1) by (elim disjE; simp; presburger)
  next
    assume "q \<le> 16"
    then have "q = 2 \<or> q = 3 \<or> q = 4 \<or> q = 5 \<or> q = 6 \<or> q = 7 \<or> q = 8 \<or> q = 9 \<or> q = 10 \<or> q = 11 \<or> q = 12 \<or> q = 13 \<or> q = 14 \<or> q = 15 \<or> q = 16"
      using \<open>q \<noteq> 0\<close> q(2) by presburger
    then have "d = 85 \<or> d = 51 \<or> d = 17 \<or> d = 15" using q(1) by (elim disjE; simp; presburger)
    then show ?thesis by auto
  qed
qed

lemma gpow_eq_one: "gpow i = 1 \<longleftrightarrow> 255 dvd i"
proof
  assume one: "gpow i = 1"
  show "255 dvd i"
  proof (cases "i = 0")
    case False
    have g: "gpow (gcd i 255) = 1" using gpow_gcd [OF one False] .
    have "gpow n = 1" if "gcd i 255 dvd n" for n using gpow_mult [OF g] that by auto
    then have "\<not> (gcd i 255 dvd 15 \<or> gcd i 255 dvd 51 \<or> gcd i 255 dvd 85)"
      using gpow_values by fastforce
    then have "gcd i 255 = 255" using divisor_255 [of "gcd i 255"] by auto
    then show ?thesis by (metis gcd_dvd1)
  qed simp
next
  assume "255 dvd i"
  then show "gpow i = 1" using gpow_mult [OF gpow_values(6)] by auto
qed

lemma gpow_inj: "i < 255 \<Longrightarrow> j < 255 \<Longrightarrow> gpow i = gpow j \<Longrightarrow> i = j"
proof (induction i j rule: linorder_wlog)
  case (le i j)
  then have "gpow (i + (j - i)) = gpow i" by simp
  then have "255 dvd j - i" using gpow_cancel gpow_eq_one by blast
  then show ?case using le dvd_imp_le [of 255 "j - i"] by fastforce
next
  case (sym i j)
  then show ?case by simp
qed

lemma gpow_nonzero [simp]: "gpow i \<noteq> 0"
proof
  assume "gpow i = 0"
  then have "gpow (i * 255) = 0" using pm_gpow [of i "i * 254"] by (simp add: algebra_simps)
  then show False using gpow_eq_one [of "i * 255"] by simp
qed

lemma gpow_surj:
  assumes "a \<noteq> 0"
  obtains i where "i < 255" "a = gpow i"
proof -
  have inj: "inj_on gpow {..<255}" by (auto intro: inj_onI gpow_inj)
  have "card (gpow ` {..<255}) = 255" using card_image [OF inj] by simp
  moreover have "card (UNIV - {0 :: u8}) = 255" by (simp add: card_Diff_subset card_word)
  ultimately have "gpow ` {..<255} = UNIV - {0}"
    by (intro card_subset_eq) auto
  then show ?thesis using assms that by blast
qed

lemma gpow_mod: "gpow (i mod 255) = gpow i"
  using gpow_period [of "i mod 255" "i div 255"] by (simp add: add.commute)

subsection \<open>The tables hold the powers\<close>

definition table_inv :: "nat \<Rightarrow> gf256 \<Rightarrow> bool" where
  "table_inv i t \<longleftrightarrow> length (gf_exp t) = 512 \<and> length (gf_log t) = 256
     \<and> (\<forall>k < i. gf_exp t ! k = gpow k \<and> gf_log t ! unat (gpow k) = of_nat k)"

lemma gf_fill_inv: "table_inv i t \<Longrightarrow> i + n = 255 \<Longrightarrow> table_inv 255 (gf_fill n i (gpow i) t)"
proof (induction n arbitrary: i t)
  case (Suc n)
  let ?t = "\<lparr>gf_exp = (gf_exp t)[i := gpow i], gf_log = (gf_log t)[unat (gpow i) := of_nat i]\<rparr>"
  have "unat (gpow i) \<noteq> unat (gpow k)" if "k < i" for k
  proof
    assume "unat (gpow i) = unat (gpow k)"
    then have "gpow i = gpow k" by (rule unsigned_word_eqI)
    then show False using that Suc.prems(2) gpow_inj [of i k] by simp
  qed
  moreover have "unat (gpow k) < 256" for k by (rule unat_u8_less)
  ultimately have "table_inv (Suc i) ?t"
    using Suc.prems by (auto simp: table_inv_def less_Suc_eq nth_list_update)
  then show ?case using Suc.IH [of "Suc i" ?t] Suc.prems by (simp add: gpow_Suc)
qed simp

lemma gf_extend_inv:
  "length e = 512 \<Longrightarrow> 255 \<le> i \<Longrightarrow> i + n = 512 \<Longrightarrow> \<forall>k < i. e ! k = gpow k \<Longrightarrow>
   length (gf_extend n i e) = 512 \<and> (\<forall>k < 512. gf_extend n i e ! k = gpow k)"
proof (induction n arbitrary: i e)
  case (Suc n)
  have "e ! (i - 255) = gpow i"
    using Suc.prems gpow_period [of "i - 255" 1] by simp
  then have "\<forall>k < Suc i. e[i := e ! (i - 255)] ! k = gpow k"
    using Suc.prems by (auto simp: less_Suc_eq nth_list_update)
  then show ?case using Suc.IH [of "e[i := e ! (i - 255)]" "Suc i"] Suc.prems by simp
qed simp

lemma tables: "k < 512 \<Longrightarrow> gf_exp GF ! k = gpow k" "k < 255 \<Longrightarrow> gf_log GF ! unat (gpow k) = of_nat k"
proof -
  let ?t = "gf_fill 255 0 1 \<lparr>gf_exp = replicate 512 0, gf_log = replicate 256 0\<rparr>"
  have inv: "table_inv 255 ?t"
    using gf_fill_inv [of 0 _ 255] by (simp add: table_inv_def)
  then show "k < 512 \<Longrightarrow> gf_exp GF ! k = gpow k"
    using gf_extend_inv [of "gf_exp ?t" 255 257] by (simp add: GF_def gf256_new_def table_inv_def Let_def)
  show "k < 255 \<Longrightarrow> gf_log GF ! unat (gpow k) = of_nat k"
    using inv by (simp add: GF_def gf256_new_def table_inv_def Let_def)
qed

lemma gf_mul_gpow: "i < 255 \<Longrightarrow> j < 255 \<Longrightarrow> gf_mul (gpow i) (gpow j) = gpow (i + j)"
  by (simp add: gf_mul_def tables)

lemma gf_mul_pm: "gf_mul a b = pm a b"
proof (cases "a = 0 \<or> b = 0")
  case False
  then obtain i j where "i < 255" "a = gpow i" "j < 255" "b = gpow j"
    by (metis gpow_surj)
  then show ?thesis by (simp add: gf_mul_gpow pm_gpow)
qed (auto simp: gf_mul_def)

lemma gf_inv_gpow: "i < 255 \<Longrightarrow> gf_inv (gpow i) = Some (gpow (255 - i))"
proof -
  assume i: "i < 255"
  have "(of_nat (255 - i) :: u64) AND 0xff = of_nat (255 - i)"
  proof -
    have "(0xff :: u64) = mask 8" by (simp add: mask_eq_exp_minus_1)
    then have "(of_nat (255 - i) :: u64) AND 0xff = take_bit 8 (of_nat (255 - i))"
      by (simp only: take_bit_eq_mask)
    also have "\<dots> = of_nat (take_bit 8 (255 - i))"
      by (simp add: of_nat_take_bit)
    also have "take_bit 8 (255 - i) = 255 - i" using i by (simp add: take_bit_nat_eq_self)
    finally show ?thesis .
  qed
  moreover have "unat (of_nat (255 - i) :: u64) = 255 - i"
    using i by (simp add: unat_of_nat del: of_nat_diff)
  ultimately show ?thesis using i by (simp add: gf_inv_def tables del: of_nat_diff)
qed

lemma gf_div_gpow: "i < 255 \<Longrightarrow> j < 255 \<Longrightarrow> gf_div (gpow i) (gpow j) = Some (gpow (255 + i - j))"
  by (simp add: gf_div_def tables)

subsection \<open>The field\<close>

text \<open>Bytes as field elements: addition is exclusive or, multiplication is \<open>gf_mul\<close>.\<close>

typedef gf = "UNIV :: u8 set"
  morphisms to_byte of_byte
  by simp

setup_lifting type_definition_gf

definition gf_inverse :: "u8 \<Rightarrow> u8" where
  "gf_inverse a = (case gf_inv a of None \<Rightarrow> 0 | Some b \<Rightarrow> b)"

lemma pm_commute: "pm a b = pm b a"
proof (cases "a = 0 \<or> b = 0")
  case False
  then obtain i j where "a = gpow i" "b = gpow j" by (metis gpow_surj)
  then show ?thesis by (simp add: pm_gpow add.commute)
qed auto

lemma pm_assoc: "pm (pm a b) c = pm a (pm b c)"
proof (cases "a = 0 \<or> b = 0 \<or> c = 0")
  case False
  then obtain i j k where "a = gpow i" "b = gpow j" "c = gpow k" by (metis gpow_surj)
  then show ?thesis by (simp add: pm_gpow add.assoc)
qed auto

lemma pm_inverse: "a \<noteq> 0 \<Longrightarrow> pm (gf_inverse a) a = 1"
proof -
  assume "a \<noteq> 0"
  then obtain i where i: "i < 255" "a = gpow i" by (metis gpow_surj)
  then have "pm (gf_inverse a) a = gpow 255"
    by (simp add: gf_inverse_def gf_inv_gpow pm_gpow)
  then show ?thesis by (simp add: gpow_values)
qed

instantiation gf :: field
begin

lift_definition zero_gf :: gf is 0 .
lift_definition one_gf :: gf is 1 .
lift_definition plus_gf :: "gf \<Rightarrow> gf \<Rightarrow> gf" is "(XOR)" .
lift_definition minus_gf :: "gf \<Rightarrow> gf \<Rightarrow> gf" is "(XOR)" .
lift_definition uminus_gf :: "gf \<Rightarrow> gf" is "\<lambda>x. x" .
lift_definition times_gf :: "gf \<Rightarrow> gf \<Rightarrow> gf" is gf_mul .
lift_definition inverse_gf :: "gf \<Rightarrow> gf" is gf_inverse .

definition divide_gf :: "gf \<Rightarrow> gf \<Rightarrow> gf" where
  "divide_gf a b = a * inverse b"

instance
proof
  fix a b c :: gf
  show "a + b + c = a + (b + c)" by transfer (rule xor.assoc)
  show "a + b = b + a" by transfer (rule xor.commute)
  show "0 + a = a" by transfer simp
  show "- a + a = 0" by transfer simp
  show "a - b = a + - b" by transfer simp
  show "a * b * c = a * (b * c)" by transfer (simp add: gf_mul_pm pm_assoc)
  show "a * b = b * a" by transfer (simp add: gf_mul_pm pm_commute)
  show "1 * a = a" by transfer (simp add: gf_mul_pm)
  show "(a + b) * c = a * c + b * c" by transfer (simp add: gf_mul_pm pm_xor_left)
  show "(0::gf) \<noteq> 1" by transfer simp
  show "a \<noteq> 0 \<Longrightarrow> inverse a * a = 1" by transfer (simp add: gf_mul_pm pm_inverse)
  show "a div b = a * inverse b" by (rule divide_gf_def)
  show "inverse (0::gf) = 0" by transfer (simp add: gf_inverse_def gf_inv_def)
qed

end

named_theorems gf_simps \<open>byte operations as field operations\<close>

lemma of_byte_xor [gf_simps]: "of_byte (a XOR b) = of_byte a + of_byte b"
  by (simp add: plus_gf.abs_eq)

lemma of_byte_mul [gf_simps]: "of_byte (gf_mul a b) = of_byte a * of_byte b"
  by (simp add: times_gf.abs_eq)

lemma of_byte_0 [simp, gf_simps]: "of_byte 0 = 0" and of_byte_1 [simp, gf_simps]: "of_byte 1 = 1"
  by (simp_all add: zero_gf.abs_eq one_gf.abs_eq)

lemma of_byte_inj [simp]: "of_byte a = of_byte b \<longleftrightarrow> a = b"
  by (simp add: of_byte_inject)

lemma of_byte_eq_0 [simp]: "of_byte a = 0 \<longleftrightarrow> a = 0"
  using of_byte_inj [of a 0] by simp

lemma of_byte_eq_1 [simp]: "of_byte a = 1 \<longleftrightarrow> a = 1"
  using of_byte_inj [of a 1] by simp

lemma gf_inv_inverse: "a \<noteq> 0 \<Longrightarrow> \<exists>b. gf_inv a = Some b \<and> of_byte b = inverse (of_byte a)"
  by (cases "gf_inv a") (auto simp: inverse_gf.abs_eq gf_inverse_def gf_inv_def split: if_splits)

lemma gf_add_self [simp]: "x + x = 0" for x :: gf
  by transfer simp

lemma gf_uminus [simp]: "- x = x" for x :: gf
  by transfer simp

lemma gf_diff [simp]: "x - y = x + y" for x y :: gf
  by transfer simp

lemma gf_add_eq_0: "x + y = 0 \<longleftrightarrow> x = y" for x y :: gf
  by (metis gf_add_self add_left_cancel)

subsection \<open>Properties\<close>

text \<open>C30. The table lookup of \<open>mul\<close> computes the product of polynomials over GF(2) modulo
  \<open>0x11d\<close>: for all bytes it equals the shift-and-add multiplication by repeated doubling.\<close>

theorem gf_mul_is_polynomial_product: "gf_mul a b = pm a b"
  by (rule gf_mul_pm)

text \<open>Division and inversion: \<open>div\<close> panics exactly for a non-zero dividend and a zero
  divisor, \<open>inv\<close> exactly for zero; otherwise the quotient times the divisor is the dividend,
  and the inverse times the element is one.\<close>

theorem gf_div_inv_correct:
  "(gf_div a b = None \<longleftrightarrow> a \<noteq> 0 \<and> b = 0) \<and> (gf_inv a = None \<longleftrightarrow> a = 0)
   \<and> (case gf_div a b of None \<Rightarrow> True | Some q \<Rightarrow> gf_mul q b = a)
   \<and> (case gf_inv a of None \<Rightarrow> True | Some i \<Rightarrow> gf_mul i a = 1)"
proof -
  have d: "\<exists>q. gf_div a b = Some q \<and> gf_mul q b = a" if nz: "a \<noteq> 0" "b \<noteq> 0"
  proof -
    obtain i j where ij: "i < 255" "a = gpow i" "j < 255" "b = gpow j"
      using nz by (metis gpow_surj)
    then have "pm (gpow (255 + i - j)) (gpow j) = gpow (i + 255 * 1)"
      by (simp add: pm_gpow add.commute)
    then show ?thesis using ij unfolding gpow_period by (simp add: gf_div_gpow gf_mul_pm)
  qed
  have i: "\<exists>q. gf_inv a = Some q \<and> gf_mul q a = 1" if nz: "a \<noteq> 0"
  proof -
    obtain b where b: "gf_inv a = Some b" "of_byte b = inverse (of_byte a)"
      using gf_inv_inverse [OF nz] by blast
    then have "of_byte (gf_mul b a) = 1" using nz by (simp add: gf_simps)
    then show ?thesis using b(1) by simp
  qed
  show ?thesis
    using d i by (cases "a = 0"; cases "b = 0") (auto simp: gf_div_def gf_inv_def gf_mul_def)
qed

end
