(* ===== verification/Gf_System.thy ===== *)
theory Gf_System
  imports Gf256
begin

text \<open>
  \<open>solve_system\<close> of \<open>src/src/fec/gf256.rs\<close>: Gauss-Jordan elimination over GF(256) on an
  \<open>n\<close> by \<open>n + 1\<close> matrix. A matrix is a list of rows. The model returns the solution and not
  the reduced matrix, which no caller reads. The proof follows the set of vectors that every
  row annihilates (the right-hand side being one more coordinate): each column step keeps it.
\<close>

subsection \<open>The elimination\<close>

definition swap_rows :: "nat \<Rightarrow> nat \<Rightarrow> 'a list \<Rightarrow> 'a list" where
  "swap_rows i j xs = xs[i := xs ! j, j := xs ! i]"

text \<open>\<open>for j in col..=n { rows[col][j] = mul(rows[col][j], inv_p) }\<close>\<close>

definition scale_row :: "nat \<Rightarrow> u8 \<Rightarrow> bytes \<Rightarrow> bytes" where
  "scale_row col inv_p row = take col row @ map (\<lambda>x. gf_mul x inv_p) (drop col row)"

text \<open>\<open>for j in col..=n { rows[r][j] ^= mul(factor, rows[col][j]) }\<close>, unless the factor is zero.\<close>

definition elim_row :: "nat \<Rightarrow> bytes \<Rightarrow> bytes \<Rightarrow> bytes" where
  "elim_row col prow row =
     (let factor = row ! col
      in if factor = 0 then row
         else take col row @ map2 (\<lambda>x y. x XOR gf_mul factor y) (drop col row) (drop col prow))"

definition gauss_col :: "nat \<Rightarrow> nat \<Rightarrow> bytes list \<Rightarrow> string + bytes list" where
  "gauss_col n col rows =
     try_bind (ok_or (find (\<lambda>r. rows ! r ! col \<noteq> 0) [col..<n]) ''singular matrix'') (\<lambda>piv.
       let rows = (if piv \<noteq> col then swap_rows col piv rows else rows)
       in try_bind (ok_or (gf_inv (rows ! col ! col)) ''gf256 inverse of zero'') (\<lambda>inv_p.
            let prow = scale_row col inv_p (rows ! col)
            in Inr (map (\<lambda>r. if r = col then prow else elim_row col prow (rows ! r)) [0..<n])))"

fun gauss_cols :: "nat \<Rightarrow> nat list \<Rightarrow> bytes list \<Rightarrow> string + bytes list" where
  "gauss_cols n [] rows = Inr rows"
| "gauss_cols n (col # cols) rows = try_bind (gauss_col n col rows) (gauss_cols n cols)"

definition solve_system :: "bytes list \<Rightarrow> nat \<Rightarrow> string + bytes" where
  "solve_system rows n =
     (if length rows \<noteq> n then Inl ''row count mismatch''
      else if \<not> list_all (\<lambda>row. length row = n + 1) rows then Inl ''column count mismatch''
      else try_bind (gauss_cols n [0..<n] rows) (\<lambda>rows. Inr (map (\<lambda>r. rows ! r ! n) [0..<n])))"

subsection \<open>Invariants of the elimination\<close>

definition wf_sys :: "nat \<Rightarrow> bytes list \<Rightarrow> bool" where
  "wf_sys n rows \<longleftrightarrow> length rows = n \<and> (\<forall>r < n. length (rows ! r) = n + 1)"

text \<open>A row applied to a vector of \<open>n + 1\<close> coordinates, and the common zeros of all rows.\<close>

definition ev :: "nat \<Rightarrow> bytes \<Rightarrow> (nat \<Rightarrow> gf) \<Rightarrow> gf" where
  "ev n row y = (\<Sum>j \<le> n. of_byte (row ! j) * y j)"

definition zeros :: "nat \<Rightarrow> bytes list \<Rightarrow> (nat \<Rightarrow> gf) \<Rightarrow> bool" where
  "zeros n rows y \<longleftrightarrow> (\<forall>r < n. ev n (rows ! r) y = 0)"

definition unit_cols :: "nat \<Rightarrow> nat \<Rightarrow> bytes list \<Rightarrow> bool" where
  "unit_cols n c rows \<longleftrightarrow> (\<forall>j < c. \<forall>r < n. rows ! r ! j = (if r = j then 1 else 0))"

lemma nth_scale_row:
  assumes "length row = n + 1" "col \<le> n" "\<forall>j < col. row ! j = 0" "j \<le> n"
  shows "of_byte (scale_row col c row ! j) = of_byte (row ! j) * of_byte c"
  using assms by (auto simp: scale_row_def nth_append gf_simps)

lemma nth_elim_row:
  assumes "length row = n + 1" "length prow = n + 1" "col \<le> n" "\<forall>j < col. prow ! j = 0" "j \<le> n"
  shows "of_byte (elim_row col prow row ! j)
    = of_byte (row ! j) + of_byte (row ! col) * of_byte (prow ! j)"
  using assms by (auto simp: elim_row_def Let_def nth_append gf_simps)

lemma length_scale_row [simp]: "col \<le> length row \<Longrightarrow> length (scale_row col c row) = length row"
  by (simp add: scale_row_def)

lemma length_elim_row [simp]:
  "col \<le> length row \<Longrightarrow> length prow = length row \<Longrightarrow> length (elim_row col prow row) = length row"
  by (simp add: elim_row_def Let_def)

lemma ev_scale_row:
  assumes "length row = n + 1" "col \<le> n" "\<forall>j < col. row ! j = 0"
  shows "ev n (scale_row col c row) y = of_byte c * ev n row y"
  unfolding ev_def sum_distrib_left
  by (rule sum.cong) (use nth_scale_row [OF assms] in \<open>auto simp: ac_simps\<close>)

lemma ev_elim_row:
  assumes "length row = n + 1" "length prow = n + 1" "col \<le> n" "\<forall>j < col. prow ! j = 0"
  shows "ev n (elim_row col prow row) y = ev n row y + of_byte (row ! col) * ev n prow y"
  unfolding ev_def sum_distrib_left sum.distrib [symmetric]
  by (rule sum.cong) (use nth_elim_row [OF assms] in \<open>auto simp: algebra_simps\<close>)

lemma nth_swap_rows:
  "i < length xs \<Longrightarrow> j < length xs \<Longrightarrow> r < length xs \<Longrightarrow>
   swap_rows i j xs ! r = (if r = i then xs ! j else if r = j then xs ! i else xs ! r)"
  by (auto simp: swap_rows_def nth_list_update)

lemma swap_keeps:
  assumes "wf_sys n rows" "unit_cols n col rows" "col < n" "piv < n" "col \<le> piv"
  shows "wf_sys n (swap_rows col piv rows)" "unit_cols n col (swap_rows col piv rows)"
    "zeros n (swap_rows col piv rows) y \<longleftrightarrow> zeros n rows y"
proof -
  have nth: "swap_rows col piv rows ! r =
    (if r = col then rows ! piv else if r = piv then rows ! col else rows ! r)" if "r < n" for r
    using that assms by (simp add: nth_swap_rows wf_sys_def)
  show "wf_sys n (swap_rows col piv rows)"
    using assms nth by (simp add: wf_sys_def) (simp add: swap_rows_def)
  show "unit_cols n col (swap_rows col piv rows)"
    using assms nth by (simp add: unit_cols_def)
  show "zeros n (swap_rows col piv rows) y \<longleftrightarrow> zeros n rows y"
    using assms nth unfolding zeros_def by (metis)
qed

text \<open>The part of a column step after the swap.\<close>

definition reduce_col :: "nat \<Rightarrow> nat \<Rightarrow> u8 \<Rightarrow> bytes list \<Rightarrow> bytes list" where
  "reduce_col n col inv_p rows =
     (let prow = scale_row col inv_p (rows ! col)
      in map (\<lambda>r. if r = col then prow else elim_row col prow (rows ! r)) [0..<n])"

lemma reduce_col_keeps:
  assumes wf: "wf_sys n rows" and uc: "unit_cols n col rows" and col: "col < n"
    and inv: "rows ! col ! col \<noteq> 0" "of_byte c = inverse (of_byte (rows ! col ! col))"
  shows "wf_sys n (reduce_col n col c rows)" "unit_cols n (Suc col) (reduce_col n col c rows)"
    "zeros n (reduce_col n col c rows) y \<longleftrightarrow> zeros n rows y"
proof -
  define p where "p = scale_row col c (rows ! col)"
  have len: "length (rows ! r) = n + 1" if "r < n" for r using wf that by (simp add: wf_sys_def)
  have row0: "\<forall>j < col. rows ! col ! j = 0" using uc col by (simp add: unit_cols_def)
  have p: "of_byte (p ! j) = of_byte (rows ! col ! j) * of_byte c" if "j \<le> n" for j
    using nth_scale_row [OF len [OF col] _ row0 that] col by (simp add: p_def)
  have lenp: "length p = n + 1" using len [OF col] col by (simp add: p_def)
  have p0: "\<forall>j < col. p ! j = 0"
  proof (intro allI impI)
    fix j assume "j < col"
    then have "of_byte (p ! j) = 0" using p [of j] row0 col by simp
    then show "p ! j = 0" by simp
  qed
  have pc: "of_byte (p ! col) = 1" using p [of col] col inv by simp
  have nth: "reduce_col n col c rows ! r = (if r = col then p else elim_row col p (rows ! r))"
    if "r < n" for r using that by (simp add: reduce_col_def p_def Let_def)
  have el: "of_byte (elim_row col p (rows ! r) ! j)
      = of_byte (rows ! r ! j) + of_byte (rows ! r ! col) * of_byte (p ! j)"
    if "r < n" "j \<le> n" for r j
    using nth_elim_row [OF len [OF that(1)] lenp _ p0 that(2)] col by simp
  show "wf_sys n (reduce_col n col c rows)"
    using len lenp col nth by (auto simp: wf_sys_def reduce_col_def p_def [symmetric] Let_def)
  show "unit_cols n (Suc col) (reduce_col n col c rows)"
    unfolding unit_cols_def
  proof (intro allI impI)
    fix j r assume j: "j < Suc col" and r: "r < n"
    have "of_byte (reduce_col n col c rows ! r ! j) = of_byte (if r = j then 1 else 0)"
    proof (cases "j = col")
      case True
      then show ?thesis using r col pc el [of r col] nth by auto
    next
      case False
      then show ?thesis using j r col p0 el [of r j] nth uc by (auto simp: unit_cols_def)
    qed
    then show "reduce_col n col c rows ! r ! j = (if r = j then 1 else 0)" by (simp only: of_byte_inj)
  qed
  have evp: "ev n p y = of_byte c * ev n (rows ! col) y"
    using ev_scale_row [OF len [OF col] _ row0] col by (simp add: p_def)
  have eve: "ev n (elim_row col p (rows ! r)) y
      = ev n (rows ! r) y + of_byte (rows ! r ! col) * ev n p y" if "r < n" for r
    using ev_elim_row [OF len [OF that] lenp _ p0] col by simp
  have "of_byte c \<noteq> 0" using inv by simp
  then show "zeros n (reduce_col n col c rows) y \<longleftrightarrow> zeros n rows y"
    unfolding zeros_def using nth evp eve col by (metis add.right_neutral mult_eq_0_iff)
qed

lemma gauss_col_Inr:
  assumes wf: "wf_sys n rows" and uc: "unit_cols n col rows" and col: "col < n"
    and res: "gauss_col n col rows = Inr rows'"
  shows "wf_sys n rows' \<and> unit_cols n (Suc col) rows' \<and> (\<forall>y. zeros n rows' y \<longleftrightarrow> zeros n rows y)"
proof -
  obtain piv where piv: "find (\<lambda>r. rows ! r ! col \<noteq> 0) [col..<n] = Some piv"
    using res by (auto simp: gauss_col_def try_bind_eq_Inr)
  then have pv: "col \<le> piv" "piv < n" "rows ! piv ! col \<noteq> 0"
    by (auto simp: find_Some_iff)
  define sw where "sw = (if piv \<noteq> col then swap_rows col piv rows else rows)"
  have sw: "wf_sys n sw" "unit_cols n col sw" "\<forall>y. zeros n sw y \<longleftrightarrow> zeros n rows y"
    using swap_keeps [OF wf uc col pv(2,1)] wf uc by (auto simp: sw_def)
  have nz: "sw ! col ! col \<noteq> 0"
    using pv col wf by (cases "piv = col") (auto simp: sw_def nth_swap_rows wf_sys_def)
  then obtain c where c: "gf_inv (sw ! col ! col) = Some c" "of_byte c = inverse (of_byte (sw ! col ! col))"
    using gf_inv_inverse by blast
  have "rows' = reduce_col n col c sw"
    using res piv c(1) by (simp add: gauss_col_def reduce_col_def sw_def Let_def)
  then show ?thesis using reduce_col_keeps [OF sw(1,2) col nz c(2)] sw(3) by simp
qed

text \<open>When no pivot is found, the first \<open>col + 1\<close> columns are linearly dependent.\<close>

lemma gauss_col_Inl:
  assumes wf: "wf_sys n rows" and uc: "unit_cols n col rows" and col: "col < n"
    and res: "gauss_col n col rows = Inl e"
  shows "\<exists>y. y n = 0 \<and> y col = 1 \<and> zeros n rows y"
proof -
  have none: "rows ! r ! col = 0" if "col \<le> r" "r < n" for r
  proof (rule ccontr)
    assume "rows ! r ! col \<noteq> 0"
    then have "find (\<lambda>r. rows ! r ! col \<noteq> 0) [col..<n] \<noteq> None"
      using that by (auto simp: find_None_iff)
    then obtain piv where piv: "find (\<lambda>r. rows ! r ! col \<noteq> 0) [col..<n] = Some piv" by auto
    then have "col \<le> piv" "piv < n" "rows ! piv ! col \<noteq> 0" by (auto simp: find_Some_iff)
    then have "(if piv \<noteq> col then swap_rows col piv rows else rows) ! col ! col \<noteq> 0"
      using col wf by (cases "piv = col") (auto simp: nth_swap_rows wf_sys_def)
    then show False
      using res piv gf_inv_inverse by (fastforce simp: gauss_col_def Let_def)
  qed
  define y where "y j = (if j < col then of_byte (rows ! j ! col) else if j = col then 1 else 0)" for j
  have "ev n (rows ! r) y = 0" if r: "r < n" for r
  proof -
    have "ev n (rows ! r) y =
      (\<Sum>j \<le> n. (if j = r then (if r < col then of_byte (rows ! r ! col) else 0) else 0)
        + (if j = col then of_byte (rows ! r ! col) else 0))"
      unfolding ev_def
      by (rule sum.cong) (use uc r col in \<open>auto simp: unit_cols_def y_def\<close>)
    also have "\<dots> = (if r < col then of_byte (rows ! r ! col) else 0) + of_byte (rows ! r ! col)"
      using r col by (simp add: sum.distrib)
    finally show ?thesis using none [of r] r by auto
  qed
  then show ?thesis using col by (intro exI [of _ y]) (auto simp: zeros_def y_def)
qed

lemma gauss_cols_correct:
  assumes "wf_sys n rows" "unit_cols n c rows" "c \<le> n"
  shows "case gauss_cols n [c..<n] rows of
      Inr rows' \<Rightarrow> wf_sys n rows' \<and> unit_cols n n rows' \<and> (\<forall>y. zeros n rows' y \<longleftrightarrow> zeros n rows y)
    | Inl e \<Rightarrow> \<exists>y j. y n = 0 \<and> j < n \<and> y j \<noteq> 0 \<and> zeros n rows y"
  using assms
proof (induction "n - c" arbitrary: c rows)
  case 0
  then show ?case by simp
next
  case (Suc d)
  then have c: "c < n" "[c..<n] = c # [Suc c..<n]" by (auto simp: upt_conv_Cons)
  show ?case
  proof (cases "gauss_col n c rows")
    case (Inl e)
    then show ?thesis using gauss_col_Inl [OF Suc.prems(1,2) c(1) Inl] c by fastforce
  next
    case (Inr rows1)
    note step = gauss_col_Inr [OF Suc.prems(1,2) c(1) Inr]
    have "case gauss_cols n [Suc c..<n] rows1 of
        Inr rows' \<Rightarrow> wf_sys n rows' \<and> unit_cols n n rows' \<and> (\<forall>y. zeros n rows' y \<longleftrightarrow> zeros n rows1 y)
      | Inl e \<Rightarrow> \<exists>y j. y n = 0 \<and> j < n \<and> y j \<noteq> 0 \<and> zeros n rows1 y"
      using Suc.hyps(1) [of "Suc c" rows1] Suc.hyps(2) step c(1) by simp
    then show ?thesis using step c(2) Inr by (auto split: sum.splits)
  qed
qed

lemma unit_rows_ev:
  assumes "unit_cols n n rows" "r < n"
  shows "ev n (rows ! r) y = y r + of_byte (rows ! r ! n) * y n"
proof -
  have "ev n (rows ! r) y = (\<Sum>j < n. of_byte (rows ! r ! j) * y j) + of_byte (rows ! r ! n) * y n"
    by (simp add: ev_def lessThan_Suc_atMost [symmetric])
  also have "(\<Sum>j < n. of_byte (rows ! r ! j) * y j) = (\<Sum>j < n. if j = r then y r else 0)"
    by (rule sum.cong) (use assms in \<open>auto simp: unit_cols_def\<close>)
  also have "\<dots> = y r" using assms by simp
  finally show ?thesis .
qed

text \<open>The central fact: a returned solution is the only one; a failure has a non-trivial zero.\<close>

lemma solve_system_Inr:
  assumes "wf_sys n rows" "solve_system rows n = Inr out"
  shows "length out = n"
    "y n = 1 \<Longrightarrow> zeros n rows y \<longleftrightarrow> (\<forall>r < n. y r = of_byte (out ! r))"
proof -
  have la: "list_all (\<lambda>row. length row = n + 1) rows"
    using assms(1) by (auto simp: wf_sys_def list_all_length)
  then obtain rows' where rows': "gauss_cols n [0..<n] rows = Inr rows'"
    "out = map (\<lambda>r. rows' ! r ! n) [0..<n]"
    using assms by (auto simp: solve_system_def wf_sys_def try_bind_eq_Inr)
  then show "length out = n" by simp
  have "unit_cols n n rows'" "zeros n rows' y \<longleftrightarrow> zeros n rows y"
    using gauss_cols_correct [OF assms(1), of 0] rows'(1) by (auto simp: unit_cols_def)
  then show "y n = 1 \<Longrightarrow> zeros n rows y \<longleftrightarrow> (\<forall>r < n. y r = of_byte (out ! r))"
    using rows'(2) unfolding zeros_def by (simp add: unit_rows_ev gf_add_eq_0)
qed

lemma solve_system_Inl:
  assumes "wf_sys n rows" "solve_system rows n = Inl e"
  shows "\<exists>y j. y n = 0 \<and> j < n \<and> y j \<noteq> 0 \<and> zeros n rows y"
proof -
  have "list_all (\<lambda>row. length row = n + 1) rows"
    using assms(1) by (auto simp: wf_sys_def list_all_length)
  then obtain e' where "gauss_cols n [0..<n] rows = Inl e'"
    using assms by (auto simp: solve_system_def wf_sys_def try_bind_eq_Inl)
  then show ?thesis using gauss_cols_correct [OF assms(1), of 0] by (simp add: unit_cols_def)
qed

subsection \<open>Properties\<close>

text \<open>The scalar product of the code's bytes.\<close>

definition gf_dot :: "bytes \<Rightarrow> bytes \<Rightarrow> u8" where
  "gf_dot xs ys = foldr (\<lambda>(x, y) acc. gf_mul x y XOR acc) (zip xs ys) 0"

lemma of_byte_gf_dot:
  "length xs = length ys \<Longrightarrow> of_byte (gf_dot xs ys) = (\<Sum>j < length ys. of_byte (xs ! j) * of_byte (ys ! j))"
proof (induction xs ys rule: list_induct2)
  case Nil
  then show ?case by (simp add: gf_dot_def)
next
  case (Cons x xs y ys)
  then show ?case by (simp add: gf_dot_def gf_simps sum.lessThan_Suc_shift del: sum.lessThan_Suc)
qed

lemma ev_gf_dot:
  assumes "length row = n + 1" "length xs = n"
  shows "ev n row (\<lambda>j. if j < n then of_byte (xs ! j) else z)
    = of_byte (gf_dot (take n row) xs) + of_byte (row ! n) * z"
  using assms by (simp add: of_byte_gf_dot ev_def lessThan_Suc_atMost [symmetric])

lemma zeros_gf_dot:
  assumes "wf_sys n rows" "length xs = n"
  shows "zeros n rows (\<lambda>j. if j < n then of_byte (xs ! j) else of_byte z) \<longleftrightarrow>
    list_all (\<lambda>row. gf_dot (take n row) xs = gf_mul (row ! n) z) rows"
  using assms by (auto simp: zeros_def ev_gf_dot wf_sys_def list_all_length gf_add_eq_0
      of_byte_mul [symmetric])

text \<open>C29. \<open>solve_system\<close> solves: on an \<open>n\<close> by \<open>n + 1\<close> matrix, a returned vector is the unique
  solution of the equations; a failure means that the homogeneous system has a solution with
  a non-zero entry, that is, the matrix is singular.\<close>

theorem solve_system_correct:
  assumes "length rows = n" "list_all (\<lambda>row. length row = n + 1) rows"
  shows "case solve_system rows n of
      Inr out \<Rightarrow> length out = n \<and>
        (\<forall>xs. length xs = n \<longrightarrow> (list_all (\<lambda>row. gf_dot (take n row) xs = row ! n) rows \<longleftrightarrow> xs = out))
    | Inl e \<Rightarrow> \<exists>xs. length xs = n \<and> xs \<noteq> replicate n 0 \<and>
        list_all (\<lambda>row. gf_dot (take n row) xs = 0) rows"
proof -
  have wf: "wf_sys n rows" using assms by (simp add: wf_sys_def list_all_length)
  have one: "gf_mul b 1 = b" "gf_mul b 0 = 0" for b
  proof -
    have "of_byte (gf_mul b 1) = of_byte b" by (simp only: gf_simps mult_1_right)
    then show "gf_mul b 1 = b" by simp
  qed (simp add: gf_mul_def)
  show ?thesis
  proof (cases "solve_system rows n")
    case (Inr out)
    note sol = solve_system_Inr [OF wf Inr]
    have "list_all (\<lambda>row. gf_dot (take n row) xs = row ! n) rows \<longleftrightarrow> xs = out"
      if len: "length xs = n" for xs
    proof -
      have "list_all (\<lambda>row. gf_dot (take n row) xs = row ! n) rows \<longleftrightarrow>
        (\<forall>r < n. of_byte (xs ! r) = of_byte (out ! r))"
        using zeros_gf_dot [OF wf len, of 1] sol(2) [of "\<lambda>j. if j < n then of_byte (xs ! j) else 1"]
        by (simp add: one cong: if_cong)
      then show ?thesis using sol(1) len by (auto intro: nth_equalityI)
    qed
    then show ?thesis using Inr sol(1) by simp
  next
    case (Inl e)
    then obtain y j where y: "y n = 0" "j < n" "y j \<noteq> 0" "zeros n rows y"
      using solve_system_Inl [OF wf] by blast
    define xs where "xs = map (to_byte \<circ> y) [0..<n]"
    have xs: "of_byte (xs ! i) = y i" if "i < n" for i
      using that by (simp add: xs_def to_byte_inverse)
    have "ev n (rows ! r) (\<lambda>j. if j < n then of_byte (xs ! j) else of_byte 0) = ev n (rows ! r) y" for r
      unfolding ev_def by (rule sum.cong) (use xs y(1) in auto)
    then have "list_all (\<lambda>row. gf_dot (take n row) xs = 0) rows"
      using zeros_gf_dot [OF wf, of xs 0] y(4) by (simp add: xs_def zeros_def one)
    moreover have "xs \<noteq> replicate n 0" using xs [OF y(2)] y(2,3) by auto
    ultimately show ?thesis using Inl by (auto intro!: exI [of _ xs] simp: xs_def)
  qed
qed

theorem solve_system_correct_witness:
  "\<exists>xs. length xs = 1 \<and> xs \<noteq> replicate 1 0 \<and> list_all (\<lambda>row. gf_dot (take 1 row) xs = 0) [[0, 5]]"
  using solve_system_correct [of "[[0, 5]]" 1]
  by (simp add: solve_system_def gauss_col_def)

end
