(* ===== verification/Reed_Solomon.thy ===== *)
theory Reed_Solomon
  imports Gf_System
begin

text \<open>
  The systematic Reed-Solomon erasure code of \<open>src/src/fec/reed_solomon.rs\<close>: construction of
  the generator matrix, encoding, and decoding by linear algebra. The proofs show the MDS
  property: any \<open>k\<close> of the \<open>k + m\<close> symbols give back the sources.
\<close>

subsection \<open>Data\<close>

datatype FecError =
    InvalidParams nat nat
  | WrongSourceCount nat nat
  | UnequalLengths nat nat
  | WrongTotal nat nat
  | Insufficient nat nat
  | Singular
  | Inactive

record ReedSolomon =
  rs_k :: nat
  rs_m :: nat
  rs_g :: "bytes list"

subsection \<open>Construction\<close>

definition exp2 :: "nat \<Rightarrow> u8" where
  "exp2 e = ((\<lambda>r. gf_mul r 2) ^^ e) 1"

fun invert_cols :: "bytes list \<Rightarrow> nat \<Rightarrow> nat list \<Rightarrow> bytes list \<Rightarrow> FecError + bytes list" where
  "invert_cols m k [] mi = Inr mi"
| "invert_cols m k (col # cols) mi =
     try_bind (map_err (\<lambda>_. Singular)
         (solve_system (map (\<lambda>r. m ! r @ [if r = col then 1 else 0]) [0..<length m]) k)) (\<lambda>sol.
       invert_cols m k cols (map (\<lambda>r. (mi ! r)[col := sol ! r]) [0..<k]))"

definition invert_matrix :: "bytes list \<Rightarrow> nat \<Rightarrow> FecError + bytes list" where
  "invert_matrix m k = invert_cols m k [0..<k] (replicate k (replicate k 0))"

definition vandermonde :: "nat \<Rightarrow> nat \<Rightarrow> bytes list" where
  "vandermonde n k = map (\<lambda>i. map (\<lambda>j. exp2 ((i * j) mod 255)) [0..<k]) [0..<n]"

definition mat_mul :: "nat \<Rightarrow> nat \<Rightarrow> bytes list \<Rightarrow> bytes list \<Rightarrow> bytes list" where
  "mat_mul n k v w =
     map (\<lambda>i. map (\<lambda>j. foldl (\<lambda>acc t. acc XOR gf_mul (v ! i ! t) (w ! t ! j)) 0 [0..<k]) [0..<k]) [0..<n]"

definition rs_new :: "nat \<Rightarrow> nat \<Rightarrow> FecError + ReedSolomon" where
  "rs_new k m =
     (if k = 0 \<or> k + m > 255 then Inl (InvalidParams k m)
      else let n = k + m; v = vandermonde n k
        in try_bind (invert_matrix (take k v) k) (\<lambda>v_top_inv.
             Inr \<lparr>rs_k = k, rs_m = m, rs_g = mat_mul n k v v_top_inv\<rparr>))"

subsection \<open>Encoding\<close>

text \<open>\<open>for (b, &x) in sm { p[b] ^= mul(coef, x) }\<close>, skipped for a zero coefficient.\<close>

definition add_scaled :: "u8 \<Rightarrow> bytes \<Rightarrow> bytes \<Rightarrow> bytes" where
  "add_scaled coef sm p = (if coef = 0 then p else map2 (\<lambda>pb x. pb XOR gf_mul coef x) p sm)"

definition check_lengths :: "nat \<Rightarrow> bytes list \<Rightarrow> FecError + unit" where
  "check_lengths len syms =
     (case find (\<lambda>s. length s \<noteq> len) syms of
        Some s \<Rightarrow> Inl (UnequalLengths len (length s))
      | None \<Rightarrow> Inr ())"

definition parity_row :: "bytes \<Rightarrow> nat \<Rightarrow> bytes list \<Rightarrow> bytes" where
  "parity_row row len sources =
     foldl (\<lambda>p (coef, sm). add_scaled coef sm p) (replicate len 0) (zip row sources)"

definition rs_encode :: "ReedSolomon \<Rightarrow> bytes list \<Rightarrow> FecError + bytes list" where
  "rs_encode rs sources =
     (if length sources \<noteq> rs_k rs then Inl (WrongSourceCount (rs_k rs) (length sources))
      else let len = length (sources ! 0)
        in try_bind (check_lengths len sources) (\<lambda>_.
             Inr (map (\<lambda>i. parity_row (rs_g rs ! i) len sources) [rs_k rs..<rs_k rs + rs_m rs])))"

subsection \<open>Decoding\<close>

text \<open>The right-hand side of one surviving parity row: the known data is removed.\<close>

definition remove_known :: "bytes \<Rightarrow> bytes option list \<Rightarrow> bytes \<Rightarrow> bytes" where
  "remove_known row recovered sm =
     foldl (\<lambda>rhs (coef, rec). case rec of None \<Rightarrow> rhs | Some known \<Rightarrow> add_scaled coef known rhs)
       sm (zip row recovered)"

fun gather_eqs :: "bytes list \<Rightarrow> nat \<Rightarrow> bytes option list \<Rightarrow> nat list \<Rightarrow> bytes option list
    \<Rightarrow> nat list \<Rightarrow> FecError + (bytes \<times> bytes) list" where
  "gather_eqs g len recovered erased symbols [] = Inr []"
| "gather_eqs g len recovered erased symbols (i # is) =
     (case symbols ! i of
        None \<Rightarrow> gather_eqs g len recovered erased symbols is
      | Some sm \<Rightarrow>
          if length sm \<noteq> len then Inl (UnequalLengths len (length sm))
          else try_bind (gather_eqs g len recovered erased symbols is) (\<lambda>eqs.
            Inr ((map (\<lambda>j. g ! i ! j) erased, remove_known (g ! i) recovered sm) # eqs)))"

definition place_byte :: "nat list \<Rightarrow> bytes \<Rightarrow> nat \<Rightarrow> bytes list \<Rightarrow> bytes list" where
  "place_byte erased sol b out =
     foldl (\<lambda>out (idx, pos). out[pos := (out ! pos)[b := sol ! idx]]) out (enumerate 0 erased)"

text \<open>The loop over the byte positions; every round overwrites the whole matrix.\<close>

fun solve_bytes :: "(bytes \<times> bytes) list \<Rightarrow> nat list \<Rightarrow> nat list \<Rightarrow> bytes list
    \<Rightarrow> FecError + bytes list" where
  "solve_bytes eqs erased [] out = Inr out"
| "solve_bytes eqs erased (b # bs) out =
     try_bind (map_err (\<lambda>_. Singular)
         (solve_system (map (\<lambda>(coefs, rhs). coefs @ [rhs ! b]) (take (length erased) eqs)) (length erased)))
       (\<lambda>sol. solve_bytes eqs erased bs (place_byte erased sol b out))"

definition rs_decode :: "ReedSolomon \<Rightarrow> bytes option list \<Rightarrow> FecError + bytes list" where
  "rs_decode rs symbols =
     (let k = rs_k rs; n = k + rs_m rs
      in if length symbols \<noteq> n then Inl (WrongTotal n (length symbols))
      else try_bind (ok_or (find_map (map_option length) symbols) (Insufficient 0 k)) (\<lambda>len.
        try_bind (check_lengths len (List.map_filter id symbols)) (\<lambda>_.
          let recovered = map (\<lambda>i. symbols ! i) [0..<k];
              erased = filter (\<lambda>i. recovered ! i = None) [0..<k]
          in if erased = [] then Inr (map the recovered)
          else try_bind (gather_eqs (rs_g rs) len recovered erased symbols [k..<n]) (\<lambda>eq_rows.
            if length eq_rows < length erased
            then Inl (Insufficient (length eq_rows) (length erased))
            else solve_bytes eq_rows erased [0..<len]
              (map (\<lambda>r. case r of Some s \<Rightarrow> s | None \<Rightarrow> replicate len 0) recovered)))))"

subsection \<open>Polynomials of bounded degree\<close>

lemma poly_with_many_roots:
  fixes c :: "nat \<Rightarrow> 'a::idom"
  assumes "finite S" "k \<le> card S" "\<forall>x \<in> S. (\<Sum>j<k. c j * x ^ j) = 0" "j < k"
  shows "c j = 0"
  using assms
proof (induction k arbitrary: c S j)
  case (Suc n)
  obtain a where a: "a \<in> S" using Suc.prems(1,2) by fastforce
  define b where "b i = (\<Sum>l = Suc i..n. c l * a ^ (l - Suc i))" for i
  have ea: "(\<Sum>j\<le>n. c j * a ^ j) = 0" using Suc.prems(3) a by (simp add: lessThan_Suc_atMost)
  have b0: "b i = 0" if "i < n" for i
  proof (rule Suc.IH [OF _ _ _ that])
    show "finite (S - {a})" using Suc.prems(1) by simp
    show "n \<le> card (S - {a})" using Suc.prems(1,2) a by simp
    show "\<forall>x \<in> S - {a}. (\<Sum>j<n. b j * x ^ j) = 0"
    proof
      fix x assume x: "x \<in> S - {a}"
      then have "(\<Sum>j\<le>n. c j * x ^ j) = 0" using Suc.prems(3) by (simp add: lessThan_Suc_atMost)
      then have "(x - a) * (\<Sum>j<n. b j * x ^ j) = 0"
        using that ea polyfun_diff [of n c x a] by (simp add: b_def)
      then show "(\<Sum>j<n. b j * x ^ j) = 0" using x by simp
    qed
  qed
  have cS: "c (Suc i) = 0" if "i < n" for i
  proof -
    have "b i = c (Suc i) + (\<Sum>l = Suc (Suc i)..n. c l * a ^ (l - Suc i))"
      using that by (simp add: b_def sum.atLeast_Suc_atMost)
    also have "(\<Sum>l = Suc (Suc i)..n. c l * a ^ (l - Suc i)) = a * b (Suc i)"
      unfolding b_def sum_distrib_left
      by (rule sum.cong) (auto simp: Suc_diff_Suc [symmetric] algebra_simps)
    moreover have "b (Suc i) = 0" using b0 [of "Suc i"] that by (cases "Suc i < n") (auto simp: b_def)
    ultimately show ?thesis using b0 [OF that] by simp
  qed
  have "c 0 = 0"
    using ea cS by (simp add: lessThan_Suc_atMost [symmetric] sum.lessThan_Suc_shift del: sum.lessThan_Suc)
  then show ?case using cS Suc.prems(4) by (cases j) auto
qed simp

subsection \<open>The Vandermonde matrix\<close>

lemma of_byte_pm: "of_byte (pm a b) = of_byte a * of_byte b"
  by (simp add: of_byte_mul gf_mul_pm [symmetric])

lemma of_byte_gpow: "of_byte (gpow i) = of_byte 2 ^ i"
proof (induction i)
  case (Suc i)
  have "gpow 1 = 2" unfolding gpow_def by code_simp
  then have "gpow (Suc i) = pm 2 (gpow i)" using pm_gpow [of 1 i] by simp
  then show ?case using Suc by (simp add: of_byte_pm)
qed simp

lemma of_byte_exp2: "of_byte (exp2 e) = of_byte 2 ^ e"
  by (induction e) (simp_all add: exp2_def of_byte_mul)

lemma nth_vandermonde:
  "i < n \<Longrightarrow> j < k \<Longrightarrow> of_byte (vandermonde n k ! i ! j) = of_byte (gpow i) ^ j"
  using arg_cong [OF gpow_mod [of "i * j"], of of_byte]
  by (simp add: vandermonde_def of_byte_exp2 of_byte_gpow power_mult del: of_byte_inj)

lemma vandermonde_rows:
  assumes "I \<subseteq> {..<n}" "n \<le> 255" "k \<le> card I" "t < k"
    and "\<forall>i \<in> I. (\<Sum>t<k. of_byte (vandermonde n k ! i ! t) * c t) = 0"
  shows "c t = 0"
proof (rule poly_with_many_roots)
  have "inj_on gpow I"
    using assms(1,2) by (intro inj_onI gpow_inj) auto
  then have "card ((\<lambda>i. of_byte (gpow i)) ` I) = card I"
    by (intro card_image inj_onI) (auto dest: inj_onD)
  then show "k \<le> card ((\<lambda>i. of_byte (gpow i)) ` I)" using assms(3) by simp
  show "finite ((\<lambda>i. of_byte (gpow i)) ` I)" using assms(1) finite_subset by blast
  show "\<forall>x \<in> (\<lambda>i. of_byte (gpow i)) ` I. (\<Sum>j<k. c j * x ^ j) = 0"
  proof clarify
    fix i assume i: "i \<in> I"
    have "(\<Sum>j<k. c j * of_byte (gpow i) ^ j) = (\<Sum>t<k. of_byte (vandermonde n k ! i ! t) * c t)"
      by (rule sum.cong) (use i assms(1) in \<open>auto simp: nth_vandermonde subset_iff mult.commute\<close>)
    then show "(\<Sum>j<k. c j * of_byte (gpow i) ^ j) = 0" using assms(5) i by simp
  qed
qed (use assms in simp)

subsection \<open>Solving square systems\<close>

lemma ev_snoc:
  "length row = n \<Longrightarrow> ev n (row @ [b]) y = (\<Sum>j<n. of_byte (row ! j) * y j) + of_byte b * y n"
  by (simp add: ev_def lessThan_Suc_atMost [symmetric] nth_append)

definition regular :: "nat \<Rightarrow> bytes list \<Rightarrow> bool" where
  "regular k M \<longleftrightarrow> (\<forall>c :: nat \<Rightarrow> gf. (\<forall>r<k. (\<Sum>j<k. of_byte (M ! r ! j) * c j) = 0) \<longrightarrow> (\<forall>j<k. c j = 0))"

text \<open>A square system without a non-trivial homogeneous solution is solved, and every other
  solution agrees with the returned one.\<close>

lemma solve_regular:
  assumes A: "length A = n" "\<forall>r<n. length (A ! r) = n" and b: "length b = n"
    and reg: "regular n A"
  obtains x where "solve_system (map (\<lambda>r. A ! r @ [b ! r]) [0..<n]) n = Inr x" "length x = n"
    "\<forall>y. (\<forall>r<n. (\<Sum>j<n. of_byte (A ! r ! j) * y j) = of_byte (b ! r)) \<longleftrightarrow> (\<forall>j<n. y j = of_byte (x ! j))"
proof -
  define rows where "rows = map (\<lambda>r. A ! r @ [b ! r]) [0..<n]"
  have wf: "wf_sys n rows" using A by (simp add: wf_sys_def rows_def)
  have ev: "ev n (rows ! r) y = (\<Sum>j<n. of_byte (A ! r ! j) * y j) + of_byte (b ! r) * y n"
    if "r < n" for r y using that A by (simp add: rows_def ev_snoc)
  show thesis
  proof (cases "solve_system rows n")
    case (Inl e)
    from solve_system_Inl [OF wf Inl] obtain y j
      where y: "y n = 0" "j < n" "y j \<noteq> 0" "zeros n rows y" by blast
    then show ?thesis using reg ev by (fastforce simp: zeros_def regular_def)
  next
    case (Inr x)
    note sol = solve_system_Inr [OF wf Inr]
    have "(\<forall>r<n. (\<Sum>j<n. of_byte (A ! r ! j) * y j) = of_byte (b ! r)) \<longleftrightarrow> (\<forall>j<n. y j = of_byte (x ! j))"
      for y
    proof -
      define z where "z j = (if j < n then y j else 1)" for j
      have "(\<Sum>j<n. of_byte (A ! r ! j) * z j) = (\<Sum>j<n. of_byte (A ! r ! j) * y j)" for r
        by (rule sum.cong) (auto simp: z_def)
      then have "zeros n rows z \<longleftrightarrow> (\<forall>r<n. (\<Sum>j<n. of_byte (A ! r ! j) * y j) = of_byte (b ! r))"
        by (simp add: zeros_def ev gf_add_eq_0 z_def)
      then show ?thesis using sol(2) [of z] by (simp add: z_def)
    qed
    then show ?thesis using that Inr sol(1) by (simp add: rows_def)
  qed
qed

subsection \<open>Matrix inversion\<close>

definition square :: "nat \<Rightarrow> bytes list \<Rightarrow> bool" where
  "square k M \<longleftrightarrow> length M = k \<and> (\<forall>r<k. length (M ! r) = k)"

definition right_inverse_upto :: "nat \<Rightarrow> nat \<Rightarrow> bytes list \<Rightarrow> bytes list \<Rightarrow> bool" where
  "right_inverse_upto k c M X \<longleftrightarrow> square k X \<and>
     (\<forall>r<k. \<forall>j<c. (\<Sum>t<k. of_byte (M ! r ! t) * of_byte (X ! t ! j)) = (if r = j then 1 else 0))"

lemma invert_cols_correct:
  assumes sq: "square k M"
    and reg: "regular k M"
    and "c \<le> k" "right_inverse_upto k c M X"
  shows "\<exists>Y. invert_cols M k [c..<k] X = Inr Y \<and> right_inverse_upto k k M Y"
  using assms(3,4)
proof (induction "k - c" arbitrary: c X)
  case (Suc d)
  then have c: "c < k" "[c..<k] = c # [Suc c..<k]" by (auto simp: upt_conv_Cons)
  have A: "length M = k" "\<forall>r<k. length (M ! r) = k" using sq by (auto simp: square_def)
  define e where "e = map (\<lambda>r. if r = c then 1 else 0 :: u8) [0..<k]"
  have e: "length e = k" by (simp add: e_def)
  obtain x where x: "solve_system (map (\<lambda>r. M ! r @ [e ! r]) [0..<k]) k = Inr x" "length x = k"
    "\<forall>y. (\<forall>r<k. (\<Sum>j<k. of_byte (M ! r ! j) * y j) = of_byte (e ! r)) \<longleftrightarrow> (\<forall>j<k. y j = of_byte (x ! j))"
    by (rule solve_regular [OF A e reg])
  have sys: "map (\<lambda>r. M ! r @ [e ! r]) [0..<k] = map (\<lambda>r. M ! r @ [if r = c then 1 else 0]) [0..<length M]"
    using A(1) by (simp add: e_def)
  define X' where "X' = map (\<lambda>r. (X ! r)[c := x ! r]) [0..<k]"
  have col: "(\<Sum>t<k. of_byte (M ! r ! t) * of_byte (x ! t)) = (if r = c then 1 else 0)" if "r < k" for r
    using spec [OF x(3), of "\<lambda>t. of_byte (x ! t)"] that by (auto simp: e_def)
  have "right_inverse_upto k (Suc c) M X'"
    using Suc.prems(2) c(1) col unfolding right_inverse_upto_def X'_def
    by (auto simp: square_def less_Suc_eq)
  then have "\<exists>Y. invert_cols M k [Suc c..<k] X' = Inr Y \<and> right_inverse_upto k k M Y"
    using Suc.hyps(1) [of "Suc c" X'] Suc.hyps(2) c(1) by simp
  then show ?case using x(1) c(2) by (simp add: sys X'_def)
qed simp

lemma invert_matrix_correct:
  assumes "square k M" "regular k M"
  shows "\<exists>Y. invert_matrix M k = Inr Y \<and> right_inverse_upto k k M Y"
  unfolding invert_matrix_def
  by (rule invert_cols_correct [OF assms]) (auto simp: right_inverse_upto_def square_def)

subsection \<open>The generator matrix\<close>

text \<open>The three facts about a generator that decoding rests on: its shape, the identity block
  on top, and that any \<open>k\<close> rows determine the coefficients.\<close>

definition mds_gen :: "nat \<Rightarrow> nat \<Rightarrow> bytes list \<Rightarrow> bool" where
  "mds_gen k m g \<longleftrightarrow> length g = k + m \<and> (\<forall>i < k + m. length (g ! i) = k) \<and>
     (\<forall>i < k. \<forall>j < k. g ! i ! j = (if i = j then 1 else 0)) \<and>
     (\<forall>I (c :: nat \<Rightarrow> gf). I \<subseteq> {..<k + m} \<longrightarrow> k \<le> card I \<longrightarrow>
        (\<forall>i \<in> I. (\<Sum>j<k. of_byte (g ! i ! j) * c j) = 0) \<longrightarrow> (\<forall>j < k. c j = 0))"

lemma of_byte_foldl_xor:
  "of_byte (foldl (\<lambda>acc t. acc XOR f t) a [0..<k]) = of_byte a + (\<Sum>t<k. of_byte (f t))"
  by (induction k) (simp_all add: gf_simps ac_simps)

lemma nth_mat_mul:
  "i < n \<Longrightarrow> j < k \<Longrightarrow>
   of_byte (mat_mul n k v w ! i ! j) = (\<Sum>t<k. of_byte (v ! i ! t) * of_byte (w ! t ! j))"
  by (simp add: mat_mul_def of_byte_foldl_xor of_byte_mul)

lemma mat_mul_apply:
  assumes "i < n"
  shows "(\<Sum>j<k. of_byte (mat_mul n k v w ! i ! j) * c j)
    = (\<Sum>t<k. of_byte (v ! i ! t) * (\<Sum>j<k. of_byte (w ! t ! j) * c j))"
proof -
  have "(\<Sum>j<k. of_byte (mat_mul n k v w ! i ! j) * c j)
    = (\<Sum>j<k. \<Sum>t<k. of_byte (v ! i ! t) * of_byte (w ! t ! j) * c j)"
    by (rule sum.cong) (use assms in \<open>auto simp: nth_mat_mul sum_distrib_right\<close>)
  also have "\<dots> = (\<Sum>t<k. \<Sum>j<k. of_byte (v ! i ! t) * of_byte (w ! t ! j) * c j)"
    by (rule sum.swap)
  finally show ?thesis by (simp add: sum_distrib_left mult.assoc)
qed

lemma rs_new_ok:
  assumes k: "1 \<le> k" and n: "k + m \<le> 255"
  shows "\<exists>g. rs_new k m = Inr \<lparr>rs_k = k, rs_m = m, rs_g = g\<rparr> \<and> mds_gen k m g"
proof -
  define v where "v = vandermonde (k + m) k"
  have len: "length v = k + m" "\<And>i. i < k + m \<Longrightarrow> length (v ! i) = k"
    by (simp_all add: v_def vandermonde_def)
  have zero: "c t = 0" if "I \<subseteq> {..<k + m}" "k \<le> card I" "t < k"
    "\<forall>i \<in> I. (\<Sum>t<k. of_byte (v ! i ! t) * c t) = 0" for I c t
    using vandermonde_rows [OF that(1) n that(2,3)] that(4) by (simp add: v_def)
  have sq: "square k (take k v)" using len by (simp add: square_def)
  have "regular k (take k v)"
    unfolding regular_def using zero [of "{..<k}"] by auto
  then obtain X where X: "invert_matrix (take k v) k = Inr X" "right_inverse_upto k k (take k v) X"
    using invert_matrix_correct [OF sq] by blast
  have rinv: "(\<Sum>t<k. of_byte (v ! r ! t) * of_byte (X ! t ! j)) = (if r = j then 1 else 0)"
    if "r < k" "j < k" for r j using X(2) that by (simp add: right_inverse_upto_def)
  define g where "g = mat_mul (k + m) k v X"
  have sys: "g ! i ! j = (if i = j then 1 else 0)" if "i < k" "j < k" for i j
  proof -
    have "of_byte (g ! i ! j) = of_byte (if i = j then 1 else 0)"
      using that rinv by (simp add: g_def nth_mat_mul)
    then show ?thesis by (simp only: of_byte_inj)
  qed
  have mds: "c j = 0" if I: "I \<subseteq> {..<k + m}" "k \<le> card I" "j < k"
    "\<forall>i \<in> I. (\<Sum>j<k. of_byte (g ! i ! j) * c j) = 0" for I c j
  proof -
    define d where "d t = (\<Sum>j<k. of_byte (X ! t ! j) * c j)" for t
    have g: "(\<Sum>j<k. of_byte (g ! i ! j) * c j) = (\<Sum>t<k. of_byte (v ! i ! t) * d t)" if "i < k + m" for i
      using mat_mul_apply [OF that] by (simp add: g_def d_def)
    have "d t = 0" if "t < k" for t using zero [OF I(1,2) that, of d] I(1,4) g by fastforce
    then have "(\<Sum>l<k. of_byte (g ! j ! l) * c l) = 0" using g [of j] I(3) by simp
    moreover have "(\<Sum>l<k. of_byte (g ! j ! l) * c l) = (\<Sum>l<k. if l = j then c j else 0)"
      by (rule sum.cong) (use sys I(3) in auto)
    ultimately show ?thesis using I(3) by simp
  qed
  have "mds_gen k m g"
    unfolding mds_gen_def using sys mds by (auto simp: g_def mat_mul_def)
  moreover have "rs_new k m = Inr \<lparr>rs_k = k, rs_m = m, rs_g = g\<rparr>"
    using X(1) k n by (simp add: rs_new_def Let_def v_def g_def)
  ultimately show ?thesis by blast
qed

lemma rs_new_Inr: "rs_new k m = Inr rs \<Longrightarrow> rs_k rs = k \<and> rs_m rs = m \<and> mds_gen k m (rs_g rs)"
proof -
  assume new: "rs_new k m = Inr rs"
  then have "1 \<le> k" "k + m \<le> 255" by (auto simp: rs_new_def split: if_splits)
  then show ?thesis using rs_new_ok [of k m] new by auto
qed

subsection \<open>Sums over symbols\<close>

lemma remove_known_spec:
  assumes "length row = length rec" "\<forall>s. Some s \<in> set rec \<longrightarrow> length s = len" "length p = len"
  shows "length (remove_known row rec p) = len \<and> (\<forall>b < len.
    of_byte (remove_known row rec p ! b) = of_byte (p ! b) +
      (\<Sum>j<length rec. case rec ! j of None \<Rightarrow> 0 | Some s \<Rightarrow> of_byte (row ! j) * of_byte (s ! b)))"
  using assms
proof (induction row rec arbitrary: p rule: list_induct2)
  case Nil
  then show ?case by (simp add: remove_known_def)
next
  case (Cons x xs r rs)
  define p' where "p' = (case r of None \<Rightarrow> p | Some known \<Rightarrow> add_scaled x known p)"
  have p': "length p' = len" "\<And>b. b < len \<Longrightarrow> of_byte (p' ! b) = of_byte (p ! b) +
      (case r of None \<Rightarrow> 0 | Some s \<Rightarrow> of_byte x * of_byte (s ! b))"
    using Cons.prems by (auto simp: p'_def add_scaled_def gf_simps split: option.splits)
  have step: "remove_known (x # xs) (r # rs) p = remove_known xs rs p'"
    by (simp add: remove_known_def p'_def)
  show ?case
    unfolding step using Cons.IH [of p'] Cons.prems p'
    by (simp add: sum.lessThan_Suc_shift ac_simps del: sum.lessThan_Suc cong: option.case_cong)
qed

lemma parity_row_remove_known:
  "parity_row row len sources = remove_known row (map Some sources) (replicate len 0)"
  by (auto simp: parity_row_def remove_known_def zip_map2 foldl_map split_def)

lemma parity_row_spec:
  assumes "length row = length src" "\<forall>s \<in> set src. length s = len"
  shows "length (parity_row row len src) = len"
    "b < len \<Longrightarrow> of_byte (parity_row row len src ! b)
      = (\<Sum>j<length src. of_byte (row ! j) * of_byte (src ! j ! b))"
  using remove_known_spec [of row "map Some src" len "replicate len 0"] assms
  by (auto simp: parity_row_remove_known)

subsection \<open>Decoding\<close>

text \<open>The reduced system of the decoder: the rows of \<open>P\<close> restricted to the erased columns.\<close>

definition scatter :: "nat list \<Rightarrow> (nat \<Rightarrow> gf) \<Rightarrow> nat \<Rightarrow> gf" where
  "scatter E c t = (\<Sum>j<length E. if E ! j = t then c j else 0)"

lemma scatter_nth: "distinct E \<Longrightarrow> j < length E \<Longrightarrow> scatter E c (E ! j) = c j"
  by (simp add: scatter_def nth_eq_iff_index_eq cong: if_cong)

lemma scatter_notin: "t \<notin> set E \<Longrightarrow> scatter E c t = 0"
  unfolding scatter_def by (rule sum.neutral) auto

lemma sum_scatter:
  assumes "set E \<subseteq> {..<k}"
  shows "(\<Sum>t<k. a t * scatter E c t) = (\<Sum>j<length E. a (E ! j) * c j)"
proof -
  have "(\<Sum>t<k. a t * scatter E c t) = (\<Sum>j<length E. \<Sum>t<k. if E ! j = t then a t * c j else 0)"
    unfolding scatter_def sum_distrib_left by (subst sum.swap) (rule sum.cong, auto intro: sum.cong)
  also have "\<dots> = (\<Sum>j<length E. a (E ! j) * c j)"
    by (rule sum.cong) (use assms in \<open>auto simp: subset_iff\<close>)
  finally show ?thesis .
qed

lemma reduced_regular:
  assumes g: "mds_gen k m g" and E: "distinct E" "set E \<subseteq> {..<k}"
    and P: "distinct P" "set P \<subseteq> {k..<k + m}" "length P = length E"
  shows "regular (length E) (map (\<lambda>i. map (\<lambda>j. g ! i ! j) E) P)"
  unfolding regular_def
proof (intro allI impI)
  fix c :: "nat \<Rightarrow> gf" and j
  assume eq: "\<forall>r<length E. (\<Sum>j<length E. of_byte (map (\<lambda>i. map (\<lambda>j. g ! i ! j) E) P ! r ! j) * c j) = 0"
    and j: "j < length E"
  define I where "I = ({..<k} - set E) \<union> set P"
  have "card I = card ({..<k} - set E) + card (set P)"
    unfolding I_def by (rule card_Un_disjoint) (use P(2) in auto)
  also have "\<dots> = k"
    using E P card_mono [OF _ E(2)] by (simp add: card_Diff_subset distinct_card)
  finally have I: "k \<le> card I" "I \<subseteq> {..<k + m}" using E P by (auto simp: I_def)
  have "(\<Sum>t<k. of_byte (g ! i ! t) * scatter E c t) = 0" if i: "i \<in> I" for i
  proof (cases "i \<in> set P")
    case True
    then obtain r where r: "r < length P" "P ! r = i" by (auto simp: in_set_conv_nth)
    then show ?thesis using spec [OF eq, of r] P(3) by (simp add: sum_scatter [OF E(2)])
  next
    case False
    then have i: "i < k" "i \<notin> set E" using i by (auto simp: I_def)
    have "(\<Sum>t<k. of_byte (g ! i ! t) * scatter E c t) = (\<Sum>t<k. if t = i then scatter E c i else 0)"
      by (rule sum.cong) (use g i in \<open>auto simp: mds_gen_def\<close>)
    then show ?thesis using i by (simp add: scatter_notin)
  qed
  then have "\<forall>t<k. scatter E c t = 0" using g I unfolding mds_gen_def by blast
  moreover have "E ! j < k" using E(2) j nth_mem by blast
  ultimately show "c j = 0" using scatter_nth [OF E(1) j] by metis
qed

lemma sum_nth_set: "distinct E \<Longrightarrow> (\<Sum>j<length E. f (E ! j)) = (\<Sum>t\<in>set E. f t)"
  by (simp add: sum.distinct_set_conv_list sum_list_sum_nth atLeast0LessThan)

lemma sum_split_erased:
  fixes f :: "nat \<Rightarrow> gf"
  assumes "distinct E" "set E \<subseteq> {..<k}"
  shows "(\<Sum>j<length E. f (E ! j)) = (\<Sum>t<k. f t) + (\<Sum>t<k. if t \<in> set E then 0 else f t)"
proof -
  have "(\<Sum>t<k. f t) = (\<Sum>t<k. if t \<in> set E then f t else 0) + (\<Sum>t<k. if t \<in> set E then 0 else f t)"
    unfolding sum.distrib [symmetric] by (rule sum.cong) auto
  moreover have "(\<Sum>t<k. if t \<in> set E then f t else 0) = (\<Sum>t\<in>set E. f t)"
    using assms(2) by (simp add: sum.If_cases Int_absorb1)
  ultimately show ?thesis using sum_nth_set [OF assms(1), of f] by (simp add: add.assoc)
qed

definition codeword :: "nat \<Rightarrow> nat \<Rightarrow> bytes list \<Rightarrow> nat \<Rightarrow> bytes list \<Rightarrow> bytes list \<Rightarrow> bool" where
  "codeword k m g len src cw \<longleftrightarrow> length cw = k + m \<and> take k cw = src \<and>
     (\<forall>i < k + m. length (cw ! i) = len \<and>
        (\<forall>b < len. of_byte (cw ! i ! b) = (\<Sum>j<k. of_byte (g ! i ! j) * of_byte (src ! j ! b))))"

lemma codeword_encode:
  assumes g: "mds_gen k m (rs_g rs)" "rs_k rs = k" "rs_m rs = m" and src: "1 \<le> k" "length src = k"
    "\<forall>s \<in> set src. length s = len"
  obtains par where "rs_encode rs src = Inr par" "codeword k m (rs_g rs) len src (src @ par)"
proof
  define par where "par = map (\<lambda>i. parity_row (rs_g rs ! i) len src) [k..<k + m]"
  have len: "length (src ! 0) = len" using src by simp
  have "find (\<lambda>s. length s \<noteq> len) src = None" using src(3) by (simp add: find_None_iff)
  then show "rs_encode rs src = Inr par"
    using g src len by (simp add: rs_encode_def Let_def check_lengths_def par_def)
  have glen: "length (rs_g rs ! i) = length src" if "i < k + m" for i
    using g src that by (simp add: mds_gen_def)
  have "(\<Sum>j<k. of_byte (rs_g rs ! i ! j) * of_byte (src ! j ! b)) = of_byte (src ! i ! b)" if "i < k" for i b
  proof -
    have "(\<Sum>j<k. of_byte (rs_g rs ! i ! j) * of_byte (src ! j ! b))
        = (\<Sum>j<k. if j = i then of_byte (src ! i ! b) else 0)"
      by (rule sum.cong) (use g that in \<open>auto simp: mds_gen_def\<close>)
    then show ?thesis using that by simp
  qed
  then show "codeword k m (rs_g rs) len src (src @ par)"
    using src parity_row_spec [OF glen src(3)]
    by (simp add: codeword_def par_def nth_append)
qed

lemma solve_one_byte:
  assumes g: "mds_gen k m g" and cw: "codeword k m g len src cw"
    and E: "distinct E" "set E \<subseteq> {..<k}"
    and P: "distinct P" "set P \<subseteq> {k..<k + m}" "length P = length E"
    and rec: "length rec = k" "\<forall>j<k. rec ! j = (if j \<in> set E then None else Some (src ! j))"
    and b: "b < len"
  shows "solve_system (map (\<lambda>i. map (\<lambda>j. g ! i ! j) E @ [remove_known (g ! i) rec (cw ! i) ! b]) P) (length E)
    = Inr (map (\<lambda>t. src ! t ! b) E)"
proof -
  define A where "A = map (\<lambda>i. map (\<lambda>j. g ! i ! j) E) P"
  define r where "r = map (\<lambda>i. remove_known (g ! i) rec (cw ! i) ! b) P"
  have A: "length A = length E" "\<forall>r<length E. length (A ! r) = length E" "length r = length E"
    using P(3) by (simp_all add: A_def r_def)
  have reg: "regular (length E) A" using reduced_regular [OF g E P] by (simp add: A_def)
  obtain x where x: "solve_system (map (\<lambda>i. A ! i @ [r ! i]) [0..<length E]) (length E) = Inr x"
    "length x = length E"
    "\<forall>y. (\<forall>i<length E. (\<Sum>j<length E. of_byte (A ! i ! j) * y j) = of_byte (r ! i)) \<longleftrightarrow>
      (\<forall>j<length E. y j = of_byte (x ! j))"
    by (rule solve_regular [OF A reg])
  have slen: "length s = len" if s: "Some s \<in> set rec" for s
  proof -
    obtain j where j: "j < length rec" "rec ! j = Some s"
      using s unfolding in_set_conv_nth by blast
    then have "Some s = (if j \<in> set E then None else Some (src ! j))" using rec by simp
    then show ?thesis using j(1) rec(1) cw by (auto simp: codeword_def split: if_splits)
  qed
  have sys: "(\<Sum>j<length E. of_byte (A ! i ! j) * of_byte (src ! (E ! j) ! b)) = of_byte (r ! i)"
    if i: "i < length E" for i
  proof -
    have "P ! i \<in> set P" using i P(3) by simp
    then have p: "P ! i < k + m" using P(2) by auto
    define f where "f t = of_byte (g ! (P ! i) ! t) * of_byte (src ! t ! b)" for t
    have "of_byte (r ! i) = (\<Sum>t<k. f t) +
      (\<Sum>j<k. case rec ! j of None \<Rightarrow> 0 | Some s \<Rightarrow> of_byte (g ! (P ! i) ! j) * of_byte (s ! b))"
      using remove_known_spec [of "g ! (P ! i)" rec len "cw ! (P ! i)"] g cw p rec(1) slen b i P(3)
      by (simp add: r_def f_def mds_gen_def codeword_def)
    also have "(\<Sum>j<k. case rec ! j of None \<Rightarrow> 0 | Some s \<Rightarrow> of_byte (g ! (P ! i) ! j) * of_byte (s ! b))
      = (\<Sum>t<k. if t \<in> set E then 0 else f t)"
      by (rule sum.cong) (use rec(2) in \<open>auto simp: f_def\<close>)
    finally show ?thesis
      using sum_split_erased [OF E, of f] i P(3) by (simp add: A_def f_def)
  qed
  then have "\<forall>j<length E. of_byte (src ! (E ! j) ! b) = of_byte (x ! j)"
    using spec [OF x(3), of "\<lambda>j. of_byte (src ! (E ! j) ! b)"] by simp
  then have "x = map (\<lambda>t. src ! t ! b) E" using x(2) by (auto intro: nth_equalityI)
  moreover have "map (\<lambda>i. A ! i @ [r ! i]) [0..<length E] =
    map (\<lambda>i. map (\<lambda>j. g ! i ! j) E @ [remove_known (g ! i) rec (cw ! i) ! b]) P"
    using P(3) by (intro nth_equalityI) (auto simp: A_def r_def)
  ultimately show ?thesis using x(1) by simp
qed

text \<open>Writing one solved byte back into the erased positions.\<close>

lemma place_byte_gen:
  assumes "distinct E" "set E \<subseteq> {..<length out}" "\<forall>i<length E. sol ! (n + i) = f (E ! i)"
  shows "foldl (\<lambda>out (idx, pos). out[pos := (out ! pos)[b := sol ! idx]]) out (enumerate n E)
    = map (\<lambda>t. if t \<in> set E then (out ! t)[b := f t] else out ! t) [0..<length out]"
  using assms
proof (induction E arbitrary: n out)
  case Nil
  then show ?case by (simp add: map_nth)
next
  case (Cons e E)
  have "sol ! n = f e" using spec [OF Cons.prems(3), of 0] by simp
  moreover have "\<forall>i<length E. sol ! (Suc n + i) = f (E ! i)" using Cons.prems(3) by fastforce
  ultimately show ?case
    using Cons.prems Cons.IH [of "out[e := (out ! e)[b := f e]]" "Suc n"]
    by (auto intro!: nth_equalityI simp: nth_list_update)
qed

lemma place_byte_map:
  "distinct E \<Longrightarrow> set E \<subseteq> {..<length out} \<Longrightarrow>
   place_byte E (map f E) b out = map (\<lambda>t. if t \<in> set E then (out ! t)[b := f t] else out ! t) [0..<length out]"
  unfolding place_byte_def by (rule place_byte_gen) auto

lemma solve_bytes_correct:
  assumes E: "distinct E" "set E \<subseteq> {..<k}"
    and src: "length src = k" "\<forall>t<k. length (src ! t) = len"
    and one: "\<And>b. b < len \<Longrightarrow>
      solve_system (map (\<lambda>(coefs, rhs). coefs @ [rhs ! b]) (take (length E) eqs)) (length E)
        = Inr (map (\<lambda>t. src ! t ! b) E)"
    and "b \<le> len"
  shows "solve_bytes eqs E [b..<len]
      (map (\<lambda>t. if t \<in> set E then take b (src ! t) @ replicate (len - b) 0 else src ! t) [0..<k]) = Inr src"
  using \<open>b \<le> len\<close>
proof (induction "len - b" arbitrary: b)
  case 0
  then show ?case using src by (auto intro: nth_equalityI)
next
  case (Suc d)
  then have b: "b < len" "[b..<len] = b # [Suc b..<len]" by (auto simp: upt_conv_Cons)
  have upd: "(take b s @ replicate (len - b) 0)[b := s ! b] = take (Suc b) s @ replicate (len - Suc b) 0"
    if "length s = len" for s :: bytes
    using b(1) that by (auto intro!: nth_equalityI simp: nth_append nth_list_update less_Suc_eq)
  have "place_byte E (map (\<lambda>t. src ! t ! b) E) b
      (map (\<lambda>t. if t \<in> set E then take b (src ! t) @ replicate (len - b) 0 else src ! t) [0..<k])
    = map (\<lambda>t. if t \<in> set E then take (Suc b) (src ! t) @ replicate (len - Suc b) 0 else src ! t) [0..<k]"
    using E src upd by (subst place_byte_map) auto
  then show ?case using Suc.hyps(1) [of "Suc b"] Suc.hyps(2) b one [OF b(1)] by simp
qed

lemma gather_eqs_spec:
  assumes "\<forall>i \<in> set is. symbols ! i = None \<or> symbols ! i = Some (cw ! i) \<and> length (cw ! i) = len"
  shows "gather_eqs g len rec E symbols is
    = Inr (map (\<lambda>i. (map (\<lambda>j. g ! i ! j) E, remove_known (g ! i) rec (cw ! i)))
        (filter (\<lambda>i. symbols ! i \<noteq> None) is))"
  using assms by (induction "is") auto

lemma length_filter_upt:
  "length (filter (\<lambda>i. P (xs ! i)) [a..<length xs]) = length (filter P (drop a xs))"
proof -
  have "drop a xs = map ((!) xs) [a..<length xs]"
    by (rule nth_equalityI) auto
  then have "filter P (drop a xs) = map ((!) xs) (filter (\<lambda>i. P (xs ! i)) [a..<length xs])"
    by (simp add: filter_map o_def)
  then show ?thesis by simp
qed

text \<open>The received symbols: each slot is erased or holds the symbol that was sent.\<close>

definition erasure_of :: "'a list \<Rightarrow> 'a option list \<Rightarrow> bool" where
  "erasure_of cw syms \<longleftrightarrow> list_all2 (\<lambda>c s. s = None \<or> s = Some c) cw syms"

lemma erasure_of_nth:
  "erasure_of cw syms \<longleftrightarrow> length syms = length cw \<and> (\<forall>i<length cw. syms ! i = None \<or> syms ! i = Some (cw ! i))"
  by (auto simp: erasure_of_def list_all2_conv_all_nth)

lemma decode_prefix:
  assumes "length syms = rs_k rs + rs_m rs" "\<exists>i<length syms. syms ! i \<noteq> None"
    and "\<forall>i<length syms. \<forall>s. syms ! i = Some s \<longrightarrow> length s = len"
  shows "rs_decode rs syms =
    (let k = rs_k rs; n = k + rs_m rs; rec = take k syms; E = filter (\<lambda>i. rec ! i = None) [0..<k]
     in if E = [] then Inr (map the rec)
        else try_bind (gather_eqs (rs_g rs) len rec E syms [k..<n]) (\<lambda>eqs.
          if length eqs < length E then Inl (Insufficient (length eqs) (length E))
          else solve_bytes eqs E [0..<len]
            (map (\<lambda>r. case r of Some s \<Rightarrow> s | None \<Rightarrow> replicate len 0) rec)))"
proof -
  have "find_map (map_option length) syms \<noteq> None"
    using assms(2) by (auto simp: find_map_eq_None set_conv_nth)
  then obtain l where l: "find_map (map_option length) syms = Some l" by auto
  then have len: "l = len"
    using find_map_SomeD [OF l] assms(3) by (auto simp: in_set_conv_nth)
  have ok: "check_lengths len (List.map_filter id syms) = Inr ()"
  proof -
    have "find (\<lambda>s. length s \<noteq> len) (List.map_filter id syms) = None"
      using assms(3) by (force simp: find_None_iff map_filter_def in_set_conv_nth)
    then show ?thesis by (simp add: check_lengths_def)
  qed
  have take: "map ((!) syms) [0..<rs_k rs] = take (rs_k rs) syms"
    using assms(1) by (intro nth_equalityI) auto
  show ?thesis using assms(1) l len ok take by (simp add: rs_decode_def Let_def)
qed

lemma rs_decode_erasure:
  assumes g: "mds_gen k m (rs_g rs)" "rs_k rs = k" "rs_m rs = m" "1 \<le> k"
    and cw: "codeword k m (rs_g rs) len src cw" and er: "erasure_of cw syms"
  shows "rs_decode rs syms =
    (if k \<le> length (filter (\<lambda>s. s \<noteq> None) syms) then Inr src
     else Inl (Insufficient (length (filter (\<lambda>s. s \<noteq> None) (drop k syms)))
       (length (filter (\<lambda>s. s = None) (take k syms)))))"
proof -
  have syms: "length syms = k + m"
    "\<And>i. i < k + m \<Longrightarrow> syms ! i = None \<or> syms ! i = Some (cw ! i) \<and> length (cw ! i) = len"
    using er cw by (auto simp: erasure_of_nth codeword_def)
  have src: "length src = k" "\<forall>t<k. length (src ! t) = len" "\<forall>t<k. src ! t = cw ! t"
    using cw by (auto simp: codeword_def)
  show ?thesis
  proof (cases "\<exists>i<length syms. syms ! i \<noteq> None")
    case False
    then have all: "\<forall>s \<in> set syms. s = None" by (auto simp: in_set_conv_nth)
    then have "find_map (map_option length) syms = None" by (auto simp: find_map_eq_None)
    moreover have "filter (\<lambda>s. s \<noteq> None) syms = []" "filter (\<lambda>s. s \<noteq> None) (drop k syms) = []"
      "filter (\<lambda>s. s = None) (take k syms) = take k syms"
      using all by (auto simp: filter_empty_conv filter_id_conv dest: in_set_dropD in_set_takeD)
    ultimately show ?thesis using syms(1) g by (simp add: rs_decode_def Let_def)
  next
    case True
    define rec where "rec = take k syms"
    define E where "E = filter (\<lambda>i. rec ! i = None) [0..<k]"
    define Q where "Q = filter (\<lambda>i. syms ! i \<noteq> None) [k..<k + m]"
    define eqs where "eqs = map (\<lambda>i. (map (\<lambda>j. rs_g rs ! i ! j) E, remove_known (rs_g rs ! i) rec (cw ! i))) Q"
    have E: "distinct E" "set E \<subseteq> {..<k}" by (auto simp: E_def)
    have rec: "length rec = k" "\<forall>j<k. rec ! j = (if j \<in> set E then None else Some (src ! j))"
      using syms(1) syms(2) [OF trans_less_add1] src(3) by (force simp: rec_def E_def)+
    have dec: "rs_decode rs syms = (if E = [] then Inr (map the rec)
      else if length eqs < length E then Inl (Insufficient (length eqs) (length E))
      else solve_bytes eqs E [0..<len] (map (\<lambda>r. case r of Some s \<Rightarrow> s | None \<Rightarrow> replicate len 0) rec))"
    proof -
      have "\<forall>i<length syms. \<forall>s. syms ! i = Some s \<longrightarrow> length s = len" using syms by fastforce
      moreover have "gather_eqs (rs_g rs) len rec E syms [k..<k + m] = Inr eqs"
        unfolding eqs_def Q_def by (rule gather_eqs_spec) (use syms(2) in auto)
      ultimately show ?thesis
        using decode_prefix [of syms rs len] syms(1) True g by (simp add: Let_def rec_def E_def)
    qed
    have lenE: "length E = length (filter (\<lambda>s. s = None) (take k syms))"
      using length_filter_upt [of "\<lambda>s. s = None" rec 0] rec(1) by (simp add: E_def rec_def)
    have lenQ: "length Q = length (filter (\<lambda>s. s \<noteq> None) (drop k syms))"
      using length_filter_upt [of "\<lambda>s. s \<noteq> None" syms k] syms(1) by (simp add: Q_def)
    have "length (filter (\<lambda>s. s \<noteq> None) syms)
      = length (filter (\<lambda>s. s \<noteq> None) (take k syms)) + length (filter (\<lambda>s. s \<noteq> None) (drop k syms))"
      by (metis append_take_drop_id filter_append length_append)
    then have "length (filter (\<lambda>s. s \<noteq> None) syms) + length E = k + length Q"
      using sum_length_filter_compl [of "\<lambda>s. s = None" "take k syms"] syms(1) by (simp add: lenE lenQ)
    then have enough: "k \<le> length (filter (\<lambda>s. s \<noteq> None) syms) \<longleftrightarrow> length E \<le> length Q" by linarith
    have none: "map the rec = src" if "E = []"
      using that rec src(1) by (intro nth_equalityI) auto
    have solved: "solve_bytes eqs E [0..<len]
        (map (\<lambda>r. case r of Some s \<Rightarrow> s | None \<Rightarrow> replicate len 0) rec) = Inr src"
      if Q: "length E \<le> length Q"
    proof -
      have init: "map (\<lambda>r. case r of Some s \<Rightarrow> s | None \<Rightarrow> replicate len 0) rec
        = map (\<lambda>t. if t \<in> set E then take 0 (src ! t) @ replicate (len - 0) 0 else src ! t) [0..<k]"
        using rec by (intro nth_equalityI) auto
      have P: "distinct (take (length E) Q)" "set (take (length E) Q) \<subseteq> {k..<k + m}"
        "length (take (length E) Q) = length E"
        using Q by (auto simp: Q_def dest!: in_set_takeD)
      have "solve_system (map (\<lambda>(coefs, rhs). coefs @ [rhs ! b]) (take (length E) eqs)) (length E)
          = Inr (map (\<lambda>t. src ! t ! b) E)" if "b < len" for b
        using solve_one_byte [OF g(1) cw E P rec that] by (simp add: eqs_def take_map o_def)
      then show ?thesis unfolding init by (rule solve_bytes_correct [OF E src(1,2)]) auto
    qed
    show ?thesis using dec enough none solved lenE lenQ by (auto simp: eqs_def)
  qed
qed

text \<open>Successful encoding gives a codeword of the constructed code.\<close>

lemma rs_encode_Inr:
  assumes "rs_new k m = Inr rs" "rs_encode rs src = Inr par"
  shows "1 \<le> k" "length src = k" "\<forall>s \<in> set src. length s = length (src ! 0)"
    "codeword k m (rs_g rs) (length (src ! 0)) src (src @ par)"
proof -
  note g = rs_new_Inr [OF assms(1)]
  show k: "1 \<le> k" using assms(1) by (auto simp: rs_new_def split: if_splits)
  show len: "length src = k" "\<forall>s \<in> set src. length s = length (src ! 0)"
    using assms(2) g by (auto simp: rs_encode_def Let_def check_lengths_def try_bind_eq_Inr find_None_iff
        split: if_splits option.splits)
  obtain par' where "rs_encode rs src = Inr par'"
    "codeword k m (rs_g rs) (length (src ! 0)) src (src @ par')"
    using codeword_encode [of k m rs src "length (src ! 0)"] g k len by blast
  then show "codeword k m (rs_g rs) (length (src ! 0)) src (src @ par)" using assms(2) by simp
qed

subsection \<open>Properties\<close>

text \<open>\<open>ReedSolomon::new\<close> fails exactly for \<open>k = 0\<close> or \<open>k + m > 255\<close>, always with
  \<open>InvalidParams\<close> (the inversion never finds a singular matrix); otherwise the top \<open>k\<close> rows of
  the generator are the identity, so the debug assertion of the constructor holds.\<close>

theorem rs_new_systematic:
  "case rs_new k m of
     Inl e \<Rightarrow> e = InvalidParams k m \<and> (k = 0 \<or> 255 < k + m)
   | Inr rs \<Rightarrow> 1 \<le> k \<and> k + m \<le> 255 \<and> rs_k rs = k \<and> rs_m rs = m \<and> length (rs_g rs) = k + m
       \<and> (\<forall>i. i < k \<longrightarrow> rs_g rs ! i = map (\<lambda>j. if i = j then 1 else 0) [0..<k])"
proof (cases "k = 0 \<or> 255 < k + m")
  case True
  then show ?thesis by (auto simp: rs_new_def)
next
  case False
  then obtain g where "rs_new k m = Inr \<lparr>rs_k = k, rs_m = m, rs_g = g\<rparr>" "mds_gen k m g"
    using rs_new_ok [of k m] by auto
  then show ?thesis using False by (auto simp: mds_gen_def intro!: nth_equalityI)
qed

theorem rs_new_systematic_witness:
  "\<exists>rs. rs_new 3 2 = Inr rs \<and> rs_g rs ! 2 = [0, 0, 1]"
proof -
  obtain g where g: "rs_new 3 2 = Inr \<lparr>rs_k = 3, rs_m = 2, rs_g = g\<rparr>" using rs_new_ok [of 3 2] by auto
  show ?thesis using rs_new_systematic [of 3 2] unfolding g by (simp add: numeral_3_eq_3 numeral_2_eq_2)
qed

text \<open>C1. Reed-Solomon recovery: encode \<open>k\<close> sources into \<open>m\<close> parity symbols and erase any
  of the \<open>k + m\<close> symbols. \<open>decode\<close> returns exactly the sources if at least \<open>k\<close> symbols
  survive, and otherwise the error \<open>Insufficient\<close> with the numbers of surviving parity symbols
  and of erased sources.\<close>

theorem rs_decode_recovers:
  assumes "rs_new k m = Inr rs" "rs_encode rs src = Inr par" "erasure_of (src @ par) syms"
  shows "rs_decode rs syms =
    (if k \<le> length (filter (\<lambda>s. s \<noteq> None) syms) then Inr src
     else Inl (Insufficient (length (filter (\<lambda>s. s \<noteq> None) (drop k syms)))
       (length (filter (\<lambda>s. s = None) (take k syms)))))"
  using rs_decode_erasure [of k m rs _ src "src @ par" syms] rs_new_Inr [OF assms(1)]
    rs_encode_Inr(1,4) [OF assms(1,2)] assms(3) by simp

theorem rs_decode_recovers_witness:
  "\<exists>rs p. rs_new 2 1 = Inr rs \<and> rs_encode rs [[7, 8], [9, 10]] = Inr [p]
     \<and> rs_decode rs [None, Some [9, 10], Some p] = Inr [[7, 8], [9, 10]]
     \<and> rs_decode rs [None, None, Some p] = Inl (Insufficient 1 2)"
proof -
  obtain rs where rs: "rs_new 2 1 = Inr rs" "rs_k rs = 2" "rs_m rs = 1"
    using rs_new_ok [of 2 1] by auto
  have two: "[2..<Suc 2] = [2]" by (simp add: upt_rec)
  obtain p where p: "rs_encode rs [[7, 8], [9, 10]] = Inr [p]"
    using rs(2,3) by (simp add: rs_encode_def Let_def check_lengths_def two)
  show ?thesis
    using rs_decode_recovers [OF rs(1) p, of "[None, Some [9, 10], Some p]"]
      rs_decode_recovers [OF rs(1) p, of "[None, None, Some p]"] rs(1) p
    by (auto simp: erasure_of_def)
qed

end
