(* ===== verification/Fec_Scheme.thy ===== *)
theory Fec_Scheme
  imports Reed_Solomon
begin

text \<open>
  The erasure-code seam of \<open>src/src/fec/mod.rs\<close>: the trait \<open>FecScheme\<close>, its two
  implementations, their wire ids and their selection by name. The trait is a locale; it is
  interpreted for both implementations.
\<close>

subsection \<open>Scheme kinds\<close>

datatype FecSchemeKind = ReedSolomonKind | NoneKind

definition FEC_REED_SOLOMON :: u8 where "FEC_REED_SOLOMON = 1"
definition FEC_NONE_ID :: u8 where "FEC_NONE_ID = 2"
definition DEFAULT_FEC_SCHEME :: string where "DEFAULT_FEC_SCHEME = ''reed-solomon''"
definition FEC_NONE :: string where "FEC_NONE = ''none''"

fun fec_name :: "FecSchemeKind \<Rightarrow> string" where
  "fec_name ReedSolomonKind = DEFAULT_FEC_SCHEME"
| "fec_name NoneKind = FEC_NONE"

fun fec_id :: "FecSchemeKind \<Rightarrow> u8" where
  "fec_id ReedSolomonKind = FEC_REED_SOLOMON"
| "fec_id NoneKind = FEC_NONE_ID"

definition fec_from_id :: "u8 \<Rightarrow> FecSchemeKind option" where
  "fec_from_id i = (if i = FEC_REED_SOLOMON then Some ReedSolomonKind
     else if i = FEC_NONE_ID then Some NoneKind else None)"

record UnknownFecScheme =
  ufs_name :: string
  ufs_supported :: string

definition select_fec_scheme :: "string \<Rightarrow> UnknownFecScheme + FecSchemeKind" where
  "select_fec_scheme name =
     (let n = trim name
      in if n = '''' \<or> n = DEFAULT_FEC_SCHEME then Inr ReedSolomonKind
         else if n = FEC_NONE \<or> n = ''off'' \<or> n = ''disabled'' then Inr NoneKind
         else Inl \<lparr>ufs_name = n, ufs_supported = DEFAULT_FEC_SCHEME @ '', '' @ FEC_NONE\<rparr>)"

subsection \<open>The implementations\<close>

type_synonym encode_op = "nat \<Rightarrow> nat \<Rightarrow> bytes list \<Rightarrow> FecError + bytes list"
type_synonym decode_op = "nat \<Rightarrow> nat \<Rightarrow> bytes option list \<Rightarrow> FecError + bytes list"

definition rs_scheme_encode :: encode_op where
  "rs_scheme_encode k m sources = try_bind (rs_new k m) (\<lambda>rs. rs_encode rs sources)"

definition rs_scheme_decode :: decode_op where
  "rs_scheme_decode k m symbols = try_bind (rs_new k m) (\<lambda>rs. rs_decode rs symbols)"

definition no_fec_encode :: encode_op where
  "no_fec_encode k m sources = Inl Inactive"

definition no_fec_decode :: decode_op where
  "no_fec_decode k m symbols = Inl Inactive"

record FecSchemeImpl =
  fs_name :: string
  fs_id :: u8
  fs_active :: bool
  fs_encode :: encode_op
  fs_decode :: decode_op

fun fec_build :: "FecSchemeKind \<Rightarrow> FecSchemeImpl" where
  "fec_build ReedSolomonKind = \<lparr>fs_name = DEFAULT_FEC_SCHEME, fs_id = FEC_REED_SOLOMON, fs_active = True,
     fs_encode = rs_scheme_encode, fs_decode = rs_scheme_decode\<rparr>"
| "fec_build NoneKind = \<lparr>fs_name = FEC_NONE, fs_id = FEC_NONE_ID, fs_active = False,
     fs_encode = no_fec_encode, fs_decode = no_fec_decode\<rparr>"

definition build_fec_scheme :: "string \<Rightarrow> UnknownFecScheme + FecSchemeImpl" where
  "build_fec_scheme name = try_bind (select_fec_scheme name) (\<lambda>kind. Inr (fec_build kind))"

subsection \<open>The contract of a scheme\<close>

text \<open>What the tunnel relies on: parity comes in the right number and length, and any \<open>k\<close>
  survivors of a group give back its sources.\<close>

locale fec_scheme =
  fixes enc :: encode_op and dec :: decode_op
  assumes enc_shape: "enc k m src = Inr par \<Longrightarrow>
      length src = k \<and> length par = m \<and> (\<forall>p \<in> set par. \<forall>s \<in> set src. length p = length s)"
    and dec_enc: "enc k m src = Inr par \<Longrightarrow> erasure_of (src @ par) syms \<Longrightarrow>
      k \<le> length (filter (\<lambda>s. s \<noteq> None) syms) \<Longrightarrow> dec k m syms = Inr src"
begin

lemma dec_all_data:
  assumes "enc k m src = Inr par"
  shows "dec k m (map Some src @ replicate m None) = Inr src"
proof (rule dec_enc [OF assms])
  note sh = enc_shape [OF assms]
  have "list_all2 (\<lambda>c s. s = None \<or> s = Some c) src (map Some src)"
    by (simp add: list_all2_conv_all_nth)
  moreover have "list_all2 (\<lambda>c s. s = None \<or> s = Some c) par (replicate m None)"
    using sh by (simp add: list_all2_conv_all_nth)
  ultimately show "erasure_of (src @ par) (map Some src @ replicate m None)"
    unfolding erasure_of_def by (rule list_all2_appendI)
  show "k \<le> length (filter (\<lambda>s. s \<noteq> None) (map Some src @ replicate m None))"
    using sh by (simp add: filter_map o_def)
qed

text \<open>With one source per group, the default of the tunnel, any single surviving symbol suffices.\<close>

lemma dec_single:
  assumes "enc 1 m [s] = Inr par" "erasure_of (s # par) syms" "sm \<in> set syms" "sm \<noteq> None"
  shows "dec 1 m syms = Inr [s]"
proof (rule dec_enc [OF assms(1)])
  show "erasure_of ([s] @ par) syms" using assms(2) by simp
  have "filter (\<lambda>s. s \<noteq> None) syms \<noteq> []" using assms(3,4) by (auto simp: filter_empty_conv)
  then show "1 \<le> length (filter (\<lambda>s. s \<noteq> None) syms)" by (cases "filter (\<lambda>s. s \<noteq> None) syms") auto
qed

end

lemma rs_encode_shape:
  assumes "rs_new k m = Inr rs" "rs_encode rs src = Inr par"
  shows "length src = k \<and> length par = m \<and> (\<forall>p \<in> set par. \<forall>s \<in> set src. length p = length s)"
proof -
  note cw = rs_encode_Inr [OF assms]
  have "length p = length (src ! 0)" if p: "p \<in> set par" for p
  proof -
    have "p \<in> set (src @ par)" using p by simp
    then obtain i where "i < length (src @ par)" "(src @ par) ! i = p" unfolding in_set_conv_nth by blast
    then show ?thesis using cw(4) unfolding codeword_def by metis
  qed
  moreover have "length par = m" using cw(2,4) by (simp add: codeword_def)
  ultimately show ?thesis using cw(2,3) by metis
qed

interpretation rs_fec: fec_scheme rs_scheme_encode rs_scheme_decode
proof
  fix k m src par
  assume "rs_scheme_encode k m src = Inr par"
  then show "length src = k \<and> length par = m \<and> (\<forall>p \<in> set par. \<forall>s \<in> set src. length p = length s)"
    by (auto simp: rs_scheme_encode_def try_bind_eq_Inr dest!: rs_encode_shape)
next
  fix k m src par syms
  assume enc: "rs_scheme_encode k m src = Inr par" and er: "erasure_of (src @ par) syms"
    and enough: "k \<le> length (filter (\<lambda>s. s \<noteq> None) syms)"
  obtain rs where rs: "rs_new k m = Inr rs" "rs_encode rs src = Inr par"
    using enc by (auto simp: rs_scheme_encode_def try_bind_eq_Inr)
  show "rs_scheme_decode k m syms = Inr src"
    using rs_decode_erasure [of k m rs _ src "src @ par" syms] rs_new_Inr [OF rs(1)]
      rs_encode_Inr(1,4) [OF rs] rs(1) er enough by (simp add: rs_scheme_decode_def)
qed

interpretation none_fec: fec_scheme no_fec_encode no_fec_decode
  by unfold_locales (simp_all add: no_fec_encode_def)

subsection \<open>Properties\<close>

text \<open>Every scheme that can be built from a wire id is selected by its own name, carries
  the id it is found by, and keeps the erasure-code contract: encoded sources come back from
  any \<open>k\<close> surviving symbols of the group.\<close>

theorem built_scheme_recovers:
  assumes "fec_from_id i = Some kind" "fs_encode (fec_build kind) k m src = Inr par"
    and "erasure_of (src @ par) syms" "k \<le> length (filter (\<lambda>s. s \<noteq> None) syms)"
  shows "fs_id (fec_build kind) = i \<and> build_fec_scheme (fs_name (fec_build kind)) = Inr (fec_build kind)
    \<and> fs_active (fec_build kind) \<and> length par = m \<and> fs_decode (fec_build kind) k m syms = Inr src"
proof (cases kind)
  case ReedSolomonKind
  then show ?thesis
    using assms rs_fec.enc_shape rs_fec.dec_enc
    by (auto simp: fec_from_id_def build_fec_scheme_def select_fec_scheme_def DEFAULT_FEC_SCHEME_def
        trim_def is_whitespace_def Let_def split: if_splits)
next
  case NoneKind
  then show ?thesis using assms(2) by (simp add: no_fec_encode_def)
qed

theorem built_scheme_recovers_witness:
  "\<exists>p q. fs_encode (fec_build ReedSolomonKind) 1 2 [[42]] = Inr [p, q]
    \<and> fs_decode (fec_build ReedSolomonKind) 1 2 [None, None, Some q] = Inr [[42]]"
proof -
  obtain rs where rs: "rs_new 1 2 = Inr rs" "rs_k rs = 1" "rs_m rs = 2"
    using rs_new_ok [of 1 2] by auto
  have two: "[Suc 0..<3] = [1, 2]" by (simp add: upt_rec)
  obtain p q where p: "rs_scheme_encode 1 2 [[42]] = Inr [p, q]"
    using rs by (simp add: rs_scheme_encode_def rs_encode_def Let_def check_lengths_def two)
  show ?thesis
    using built_scheme_recovers [of 1 ReedSolomonKind 1 2 "[[42]]" "[p, q]" "[None, None, Some q]"] p
    by (auto simp: erasure_of_def fec_from_id_def FEC_REED_SOLOMON_def)
qed

end
