(* ===== verification/Adaptive_Fec.thy ===== *)
theory Adaptive_Fec
  imports Fec_Scheme
begin

text \<open>
  The adaptive redundancy controller of \<open>src/src/fec/adaptive.rs\<close>. Parity counts are \<open>u8\<close>
  words; loss ratios and thresholds are \<open>f64\<close>. The properties bound what the controller can
  return, show that its answers are valid code parameters, and that it settles under constant
  loss or none.
\<close>

subsection \<open>Data\<close>

record FecParams =
  fp_k :: u8
  fp_m :: u8

record AdaptiveFec =
  af_k :: u8
  af_min_m :: u8
  af_max_m :: u8
  af_up :: "f64 list"
  af_down :: "f64 list"
  af_current_m :: u8
  af_smoothed_loss :: f64
  af_ema_alpha :: f64

definition overhead :: "FecParams \<Rightarrow> f64" where
  "overhead p = (if fp_k p = 0 then 0 else real (unat (fp_m p)) / real (unat (fp_k p)))"

subsection \<open>Construction\<close>

definition default_for_vpn :: AdaptiveFec where
  "default_for_vpn =
     (let up = [5 / 100, 12 / 100, 22 / 100, 35 / 100]
      in \<lparr>af_k = 1, af_min_m = 0, af_max_m = 4, af_up = up, af_down = map (\<lambda>u. u * (6 / 10)) up,
          af_current_m = 2, af_smoothed_loss = 0, af_ema_alpha = 25 / 100\<rparr>)"

definition with_params :: "u8 \<Rightarrow> u8 \<Rightarrow> u8 \<Rightarrow> u8 \<Rightarrow> f64 \<Rightarrow> AdaptiveFec" where
  "with_params k min_m max_m initial_m ema_alpha =
     (let n_bands = unat (max max_m 1);
          up = map (\<lambda>i. if n_bands \<le> 1 then 3 / 100
                 else 3 / 100 + (89 / 100 - 3 / 100) * (real i / real (n_bands - 1))) [0..<n_bands]
      in \<lparr>af_k = k, af_min_m = min_m, af_max_m = max_m, af_up = up, af_down = map (\<lambda>u. u * (7 / 10)) up,
          af_current_m = initial_m, af_smoothed_loss = 0, af_ema_alpha = ema_alpha\<rparr>)"

subsection \<open>Operations\<close>

definition fec_params :: "AdaptiveFec \<Rightarrow> FecParams" where
  "fec_params af = \<lparr>fp_k = min (af_k af) (255 - af_current_m af), fp_m = af_current_m af\<rparr>"

text \<open>The loop over the \<open>up\<close> thresholds.\<close>

definition raise_m :: "u8 \<Rightarrow> f64 list \<Rightarrow> f64 \<Rightarrow> u8 \<Rightarrow> u8" where
  "raise_m max_m up s cur =
     foldl (\<lambda>cur (i, t). if s > t then min (of_nat (i + 1)) max_m else cur) cur (enumerate 0 up)"

text \<open>The reverse loop over the \<open>down\<close> thresholds, from the highest band.\<close>

definition lower_m :: "u8 \<Rightarrow> nat \<Rightarrow> f64 list \<Rightarrow> f64 \<Rightarrow> u8 \<Rightarrow> u8" where
  "lower_m min_m n down s cur =
     foldl (\<lambda>cur i. if of_nat (i + 1) < cur \<and> s < down ! i then max (of_nat (i + 1)) min_m else cur)
       cur (rev [0..<n])"

text \<open>The decision of \<open>observe\<close> for a smoothed loss \<open>s\<close>.\<close>

definition decide_m :: "AdaptiveFec \<Rightarrow> f64 \<Rightarrow> u8" where
  "decide_m af s =
     (let cur = raise_m (af_max_m af) (af_up af) s (af_current_m af);
          cur = lower_m (af_min_m af) (length (af_up af)) (af_down af) s cur;
          cur = (if af_down af \<noteq> [] \<and> s < af_down af ! 0 then af_min_m af else cur);
          cur = (if cur > af_max_m af then af_max_m af else cur)
      in if cur < af_min_m af then af_min_m af else cur)"

definition fec_observe :: "AdaptiveFec \<Rightarrow> f64 \<Rightarrow> AdaptiveFec \<times> FecParams" where
  "fec_observe af loss =
     (let s = af_smoothed_loss af * (1 - af_ema_alpha af) + loss * af_ema_alpha af;
          af = af\<lparr>af_smoothed_loss := s, af_current_m := decide_m af s\<rparr>
      in (af, fec_params af))"

definition observe_unrecoverable :: "AdaptiveFec \<Rightarrow> u64 \<Rightarrow> u64 \<Rightarrow> AdaptiveFec \<times> FecParams" where
  "observe_unrecoverable af lost tot =
     (if tot = 0 then (af, fec_params af)
      else fec_observe af (max 0 (min 1 (real (unat lost) / real (unat tot)))))"

definition observe_all :: "AdaptiveFec \<Rightarrow> f64 list \<Rightarrow> AdaptiveFec" where
  "observe_all af losses = foldl (\<lambda>af l. fst (fec_observe af l)) af losses"

subsection \<open>Lemmas\<close>

lemma decide_m_bounds:
  "af_min_m af \<le> af_max_m af \<Longrightarrow> af_min_m af \<le> decide_m af s \<and> decide_m af s \<le> af_max_m af"
  by (auto simp: decide_m_def Let_def)

lemma fec_params_sum: "unat (fp_k (fec_params af)) + unat (fp_m (fec_params af)) \<le> 255"
proof -
  define m where "m = af_current_m af"
  have "m \<le> 255" using unat_u8_less [of m] by (simp add: word_le_nat_alt)
  then have "unat (255 - m) = 255 - unat m" by (simp add: unat_sub)
  moreover have "unat (min (af_k af) (255 - m)) \<le> unat (255 - m)" by (simp add: word_le_nat_alt [symmetric])
  ultimately show ?thesis using \<open>m \<le> 255\<close> by (simp add: fec_params_def m_def word_le_nat_alt)
qed

lemma observe_keeps [simp]:
  "af_k (fst (fec_observe af l)) = af_k af" "af_min_m (fst (fec_observe af l)) = af_min_m af"
  "af_max_m (fst (fec_observe af l)) = af_max_m af" "af_up (fst (fec_observe af l)) = af_up af"
  "af_down (fst (fec_observe af l)) = af_down af" "af_ema_alpha (fst (fec_observe af l)) = af_ema_alpha af"
  by (simp_all add: fec_observe_def Let_def)

lemma raise_m_snoc:
  "raise_m mx (up @ [t]) s cur = (if s > t then min (of_nat (length up + 1)) mx else raise_m mx up s cur)"
  by (simp add: raise_m_def enumerate_append_eq)

lemma raise_m_above:
  "up \<noteq> [] \<Longrightarrow> \<forall>t \<in> set up. t < s \<Longrightarrow> raise_m mx up s cur = min (of_nat (length up)) mx"
  by (induction up rule: rev_induct) (simp_all add: raise_m_snoc)

lemma raise_m_memoryless: "up \<noteq> [] \<Longrightarrow> up ! 0 < s \<Longrightarrow> raise_m mx up s cur = raise_m mx up s cur'"
  by (cases up) (simp_all add: raise_m_def)

lemma lower_m_idle: "\<forall>i<n. down ! i \<le> s \<Longrightarrow> lower_m mn n down s cur = cur"
  unfolding lower_m_def by (induction n) (auto simp: not_less)

lemma decide_m_low:
  "af_min_m af \<le> af_max_m af \<Longrightarrow> af_down af \<noteq> [] \<Longrightarrow> s < af_down af ! 0 \<Longrightarrow> decide_m af s = af_min_m af"
  by (simp add: decide_m_def Let_def)

lemma decide_m_high:
  assumes "af_min_m af \<le> af_max_m af" "length (af_up af) = unat (max (af_max_m af) 1)"
    "\<forall>t \<in> set (af_up af). t < s" "\<forall>i<length (af_up af). af_down af ! i \<le> s"
    "af_down af \<noteq> [] \<longrightarrow> af_down af ! 0 \<le> s"
  shows "decide_m af s = af_max_m af"
proof -
  have "af_up af \<noteq> []"
  proof
    assume "af_up af = []"
    then have "unat (max (af_max_m af) 1) = 0" using assms(2) by simp
    moreover have "(1 :: u8) \<le> max (af_max_m af) 1" by simp
    ultimately show False by (simp add: word_le_nat_alt)
  qed
  then have "raise_m (af_max_m af) (af_up af) s (af_current_m af) = af_max_m af"
    using assms(2,3) by (simp add: raise_m_above)
  then show ?thesis using assms lower_m_idle [OF assms(4)] by (auto simp: decide_m_def Let_def)
qed

lemma observe_all_Suc:
  "observe_all af (replicate (Suc n) l) = fst (fec_observe (observe_all af (replicate n l)) l)"
  unfolding observe_all_def replicate_Suc replicate_append_same [symmetric] by simp

lemma observe_all_keeps [simp]:
  "af_min_m (observe_all af ls) = af_min_m af" "af_max_m (observe_all af ls) = af_max_m af"
  "af_up (observe_all af ls) = af_up af" "af_down (observe_all af ls) = af_down af"
  "af_ema_alpha (observe_all af ls) = af_ema_alpha af"
  by (induction ls rule: rev_induct) (simp_all add: observe_all_def)

lemma smoothed_const:
  "af_smoothed_loss (observe_all af (replicate n l))
    = l + (af_smoothed_loss af - l) * (1 - af_ema_alpha af) ^ n"
proof (induction n)
  case 0
  then show ?case by (simp add: observe_all_def)
next
  case (Suc n)
  then show ?case
    unfolding observe_all_Suc by (simp add: fec_observe_def Let_def) (simp add: algebra_simps)
qed

lemma current_const:
  "af_current_m (observe_all af (replicate (Suc n) l))
    = decide_m (observe_all af (replicate n l)) (af_smoothed_loss (observe_all af (replicate (Suc n) l)))"
  unfolding observe_all_Suc by (simp add: fec_observe_def Let_def)

lemma smoothed_converges:
  assumes "0 < af_ema_alpha af" "af_ema_alpha af \<le> 1" "0 < eps"
  shows "\<exists>N. \<forall>n\<ge>N. \<bar>af_smoothed_loss (observe_all af (replicate n l)) - l\<bar> < eps"
proof -
  have "(\<lambda>n. (1 - af_ema_alpha af) ^ n) \<longlonglongrightarrow> 0"
    using assms by (intro LIMSEQ_realpow_zero) auto
  then have "(\<lambda>n. (af_smoothed_loss af - l) * (1 - af_ema_alpha af) ^ n) \<longlonglongrightarrow> (af_smoothed_loss af - l) * 0"
    by (rule tendsto_mult_left)
  then show ?thesis
    using assms(3) LIMSEQ_D [of _ "0 :: real" eps] by (simp add: smoothed_const)
qed

lemma with_params_bands:
  assumes "i < unat (max max_m 1)"
  shows "af_up (with_params k mn max_m im a) ! i \<le> 89 / 100"
    "3 / 100 \<le> af_up (with_params k mn max_m im a) ! i"
    "af_down (with_params k mn max_m im a) ! i = af_up (with_params k mn max_m im a) ! i * (7 / 10)"
proof -
  define n where "n = unat (max max_m 1)"
  have i: "i < n" using assms by (simp add: n_def)
  define q where "q = real i / real (n - 1)"
  have q: "0 \<le> q" "q \<le> 1" using i by (cases "n \<le> 1"; auto simp: q_def divide_le_eq_1)+
  have "af_up (with_params k mn max_m im a) ! i = (if n \<le> 1 then 3 / 100 else 3 / 100 + (89 / 100 - 3 / 100) * q)"
    using i by (simp add: with_params_def Let_def n_def [symmetric] q_def)
  then show "af_up (with_params k mn max_m im a) ! i \<le> 89 / 100"
    "3 / 100 \<le> af_up (with_params k mn max_m im a) ! i"
    using q by simp_all
  show "af_down (with_params k mn max_m im a) ! i = af_up (with_params k mn max_m im a) ! i * (7 / 10)"
    using i by (simp add: with_params_def Let_def n_def [symmetric])
qed

lemma with_params_fields [simp]:
  "af_min_m (with_params k mn mx im a) = mn" "af_max_m (with_params k mn mx im a) = mx"
  "af_ema_alpha (with_params k mn mx im a) = a"
  "length (af_up (with_params k mn mx im a)) = unat (max mx 1)"
  "length (af_down (with_params k mn mx im a)) = unat (max mx 1)"
  by (simp_all add: with_params_def Let_def)

lemma unat_max_1: "0 < unat (max (mx :: u8) 1)"
proof -
  have "(1 :: u8) \<le> max mx 1" by simp
  then show ?thesis by (simp only: word_le_nat_alt) simp
qed

subsection \<open>Properties\<close>

text \<open>C35. Whatever loss is observed, the parity count stays between \<open>min_m\<close> and \<open>max_m\<close>, the
  returned parameters are those of the new state, and for \<open>k\<close> at least one and \<open>max_m\<close> below
  255 they are accepted by \<open>ReedSolomon::new\<close>.\<close>

theorem observe_gives_valid_code:
  assumes "af_min_m af \<le> af_max_m af" "1 \<le> af_k af" "af_max_m af < 255"
    "fec_observe af loss = (af', p)"
  shows "af_min_m af \<le> fp_m p \<and> fp_m p \<le> af_max_m af \<and> fp_m p = af_current_m af'
    \<and> unat (fp_k p) + unat (fp_m p) \<le> 255 \<and> (\<exists>rs. rs_new (unat (fp_k p)) (unat (fp_m p)) = Inr rs)"
proof -
  have p: "p = fec_params af'" "af_current_m af' = decide_m af (af_smoothed_loss af')" "af_k af' = af_k af"
    using assms(4) by (auto simp: fec_observe_def Let_def)
  have b: "af_min_m af \<le> af_current_m af'" "af_current_m af' \<le> af_max_m af"
    using decide_m_bounds [OF assms(1)] p(2) by auto
  then have "af_current_m af' < 255" using assms(3) by simp
  then have "1 \<le> 255 - af_current_m af'"
    by (simp add: word_le_nat_alt word_less_nat_alt unat_sub)
  then have "1 \<le> fp_k p" using assms(2) p by (simp add: fec_params_def)
  then have "1 \<le> unat (fp_k p)" by (simp add: word_le_nat_alt)
  then show ?thesis
    using rs_new_ok [of "unat (fp_k p)" "unat (fp_m p)"] fec_params_sum [of af'] b p(1)
    by (auto simp: fec_params_def)
qed

theorem observe_gives_valid_code_witness:
  "unat (fp_k (snd (fec_observe default_for_vpn (1 / 2)))) + unat (fp_m (snd (fec_observe default_for_vpn (1 / 2)))) \<le> 255"
  using observe_gives_valid_code [of default_for_vpn "1 / 2"]
  by (cases "fec_observe default_for_vpn (1 / 2)") (auto simp: default_for_vpn_def Let_def)

text \<open>The hypotheses on the limits matter: \<open>configure_fec\<close> checks the parameters a tunnel starts with, but not the limits. With
  \<open>min_m\<close> above \<open>max_m\<close> the controller always answers \<open>min_m\<close>, and at 255 parity symbols there is no room for a source, which
  no code accepts.\<close>

lemma inverted_limits: "af_max_m af < af_min_m af \<Longrightarrow> fp_m (snd (fec_observe af loss)) = af_min_m af"
  by (auto simp: fec_observe_def fec_params_def decide_m_def Let_def)

lemma full_parity_rejected:
  assumes "af_min_m af = 255"
  shows "snd (fec_observe af loss) = \<lparr>fp_k = 0, fp_m = 255\<rparr>" "\<exists>e. rs_new 0 255 = Inl e"
proof -
  have "x \<le> 255" for x :: u8 using unat_u8_less [of x] by (simp add: word_le_nat_alt)
  then have "decide_m af s = 255" for s using assms by (auto simp: decide_m_def Let_def intro: antisym)
  then show "snd (fec_observe af loss) = \<lparr>fp_k = 0, fp_m = 255\<rparr>" by (simp add: fec_observe_def fec_params_def Let_def)
qed (simp add: rs_new_def)

text \<open>A controller built by \<open>with_params\<close> settles: under a constant loss of zero the parity
  count eventually stays at \<open>min_m\<close>, under constant total loss at \<open>max_m\<close>.\<close>

theorem controller_settles:
  assumes "mn \<le> mx" "0 < a" "a \<le> 1"
  shows "\<exists>N. \<forall>n. N \<le> n \<longrightarrow>
    af_current_m (observe_all (with_params k mn mx im a) (replicate n 0)) = mn \<and>
    af_current_m (observe_all (with_params k mn mx im a) (replicate n 1)) = mx"
proof -
  define af where "af = with_params k mn mx im a"
  have fields: "af_min_m af = mn" "af_max_m af = mx" "af_ema_alpha af = a"
    "length (af_up af) = unat (max mx 1)" "length (af_down af) = unat (max mx 1)"
    by (simp_all add: af_def)
  have bands: "3 / 100 \<le> af_up af ! i" "af_up af ! i \<le> 89 / 100" "af_down af ! i = af_up af ! i * (7 / 10)"
    if "i < unat (max mx 1)" for i using with_params_bands [OF that] by (simp_all add: af_def)
  obtain N0 N1 where
    N0: "\<forall>n\<ge>N0. \<bar>af_smoothed_loss (observe_all af (replicate n 0)) - 0\<bar> < 1 / 100" and
    N1: "\<forall>n\<ge>N1. \<bar>af_smoothed_loss (observe_all af (replicate n 1)) - 1\<bar> < 1 / 100"
    using smoothed_converges [of af "1 / 100"] assms fields by (metis zero_less_divide_1_iff zero_less_numeral)
  have "af_current_m (observe_all af (replicate n 0)) = mn \<and> af_current_m (observe_all af (replicate n 1)) = mx"
    if n: "Suc (max N0 N1) \<le> n" for n
  proof -
    obtain l where l: "n = Suc l" using n by (cases n) auto
    define s0 where "s0 = af_smoothed_loss (observe_all af (replicate n 0))"
    define s1 where "s1 = af_smoothed_loss (observe_all af (replicate n 1))"
    have "\<bar>s0 - 0\<bar> < 1 / 100" "\<bar>s1 - 1\<bar> < 1 / 100" using N0 N1 n by (simp_all add: s0_def s1_def)
    then have s: "s0 < 1 / 100" "99 / 100 < s1" by linarith+
    have "decide_m (observe_all af (replicate l 0)) s0 = mn"
      using decide_m_low [of "observe_all af (replicate l 0)" s0] bands [OF unat_max_1] s(1) assms(1) fields
        unat_max_1 [of mx] by fastforce
    moreover have "decide_m (observe_all af (replicate l 1)) s1 = mx"
    proof -
      have "t < s1" if "t \<in> set (af_up af)" for t
        using that bands(2) s(2) fields(4) by (fastforce simp: in_set_conv_nth)
      moreover have "af_down af ! i \<le> s1" if "i < unat (max mx 1)" for i
        using bands(2,3) [OF that] s(2) by simp
      ultimately show ?thesis
        using decide_m_high [of "observe_all af (replicate l 1)" s1] assms(1) fields unat_max_1 [of mx] by simp
    qed
    ultimately show ?thesis
      using current_const [of af l 0] current_const [of af l 1] by (simp add: l s0_def s1_def)
  qed
  then show ?thesis unfolding af_def by blast
qed

theorem controller_settles_witness:
  "\<exists>N. \<forall>n. N \<le> n \<longrightarrow>
    af_current_m (observe_all (with_params 1 0 4 2 (1 / 4)) (replicate n 0)) = 0 \<and>
    af_current_m (observe_all (with_params 1 0 4 2 (1 / 4)) (replicate n 1)) = 4"
  using controller_settles [of 0 4 "1 / 4" 1 2] by simp

text \<open>Above the first \<open>up\<close> threshold the decision does not depend on the current parity
  count: there the hysteresis bands between \<open>down\<close> and \<open>up\<close> have no effect.\<close>

theorem decision_memoryless_above_first_band:
  assumes "af_up af \<noteq> []" "af_up af ! 0 < s"
  shows "decide_m (af\<lparr>af_current_m := c\<rparr>) s = decide_m (af\<lparr>af_current_m := d\<rparr>) s"
  using raise_m_memoryless [OF assms, of "af_max_m af" c d] by (simp add: decide_m_def Let_def)

theorem decision_memoryless_above_first_band_witness:
  "decide_m (default_for_vpn\<lparr>af_current_m := 4\<rparr>) (3 / 10) = 3"
proof -
  have "decide_m (default_for_vpn\<lparr>af_current_m := 4\<rparr>) (3 / 10)
      = decide_m (default_for_vpn\<lparr>af_current_m := 0\<rparr>) (3 / 10)"
    by (rule decision_memoryless_above_first_band) (simp_all add: default_for_vpn_def Let_def)
  also have "\<dots> = 3"
    by (simp add: decide_m_def Let_def default_for_vpn_def raise_m_def lower_m_def upt_rec)
  finally show ?thesis .
qed

end
