(* ===== verification/Transport_Layer.thy ===== *)
theory Transport_Layer
  imports Rn_Prelude
begin

text \<open>
  The message envelope of \<open>src/src/transport/mod.rs\<close>: the trait \<open>Transport\<close> with its two
  implementations, and their selection by name and by wire id. The trait is a locale,
  interpreted for both.
\<close>

subsection \<open>Implementations\<close>

datatype TransportError = UnwrapFailed | TransportTooLarge nat

datatype transport = PlainTransport | TaggedTransport u8 u8

fun tag_bytes :: "transport \<Rightarrow> bytes" where
  "tag_bytes PlainTransport = []"
| "tag_bytes (TaggedTransport a b) = [a, b]"

fun transport_label :: "transport \<Rightarrow> string" where
  "transport_label PlainTransport = ''plain''"
| "transport_label (TaggedTransport a b) = ''tagged''"

definition plain_wrap :: "bytes \<Rightarrow> bytes" where
  "plain_wrap frame = frame"

definition plain_unwrap :: "bytes \<Rightarrow> TransportError + bytes" where
  "plain_unwrap message = Inr message"

definition tagged_wrap :: "u8 \<Rightarrow> u8 \<Rightarrow> bytes \<Rightarrow> bytes" where
  "tagged_wrap a b frame = [a, b] @ frame"

definition tagged_unwrap :: "u8 \<Rightarrow> u8 \<Rightarrow> bytes \<Rightarrow> TransportError + bytes" where
  "tagged_unwrap a b message =
     (if length message < 2 then Inl UnwrapFailed
      else if take 2 message \<noteq> [a, b] then Inl UnwrapFailed
      else Inr (drop 2 message))"

fun wrap :: "transport \<Rightarrow> bytes \<Rightarrow> bytes" where
  "wrap PlainTransport = plain_wrap"
| "wrap (TaggedTransport a b) = tagged_wrap a b"

fun unwrap :: "transport \<Rightarrow> bytes \<Rightarrow> TransportError + bytes" where
  "unwrap PlainTransport = plain_unwrap"
| "unwrap (TaggedTransport a b) = tagged_unwrap a b"

subsection \<open>Selection\<close>

definition DEFAULT_TRANSPORT :: string where "DEFAULT_TRANSPORT = ''plain''"
definition TRANSPORT_SAME_AS_HANDSHAKE :: string where
  "TRANSPORT_SAME_AS_HANDSHAKE = ''same-as-handshake''"
definition DEFAULT_TAG :: "u8 \<times> u8" where "DEFAULT_TAG = (0x52, 0x4E)"
definition TRANSPORT_PLAIN :: u8 where "TRANSPORT_PLAIN = 1"
definition TRANSPORT_TAGGED :: u8 where "TRANSPORT_TAGGED = 2"

definition build_transport :: "string \<Rightarrow> u8 \<times> u8 \<Rightarrow> transport" where
  "build_transport name tag =
     (let n = trim name
      in if n = '''' \<or> n = DEFAULT_TRANSPORT then PlainTransport
         else if n = ''tagged'' then TaggedTransport (fst tag) (snd tag)
         else PlainTransport)"

definition transport_id :: "string \<Rightarrow> u8 option" where
  "transport_id name =
     (let n = trim name
      in if n = '''' \<or> n = DEFAULT_TRANSPORT then Some TRANSPORT_PLAIN
         else if n = ''tagged'' then Some TRANSPORT_TAGGED
         else None)"

definition transport_name :: "u8 \<Rightarrow> string option" where
  "transport_name i =
     (if i = TRANSPORT_PLAIN then Some DEFAULT_TRANSPORT
      else if i = TRANSPORT_TAGGED then Some ''tagged'' else None)"

definition build_transport_id :: "u8 \<Rightarrow> u8 \<times> u8 \<Rightarrow> transport option" where
  "build_transport_id i tag =
     (if i = TRANSPORT_PLAIN then Some PlainTransport
      else if i = TRANSPORT_TAGGED then Some (TaggedTransport (fst tag) (snd tag)) else None)"

text \<open>\<open>hex_decode\<close> stands for \<open>hex::decode\<close> of the crate \<open>hex\<close>.\<close>

definition parse_tag :: "(string \<Rightarrow> bytes option) \<Rightarrow> string option \<Rightarrow> TransportError + u8 \<times> u8" where
  "parse_tag hex_decode hex_str =
     (case Option.bind hex_str (\<lambda>s. let t = trim s in if t = [] then None else Some t) of
        None \<Rightarrow> Inr DEFAULT_TAG
      | Some s \<Rightarrow> (case hex_decode s of
            None \<Rightarrow> Inl UnwrapFailed
          | Some bs \<Rightarrow> (case bs of [a, b] \<Rightarrow> Inr (a, b) | _ \<Rightarrow> Inl UnwrapFailed)))"

subsection \<open>The contract of a transport\<close>

text \<open>A transport removes exactly what it added, and accepts nothing else.\<close>

locale transport_seam =
  fixes wr :: "bytes \<Rightarrow> bytes" and un :: "bytes \<Rightarrow> TransportError + bytes" and added :: nat
  assumes un_wr: "un (wr f) = Inr f"
    and un_exact: "un msg = Inr f \<Longrightarrow> msg = wr f"
    and wr_length: "length (wr f) = added + length f"
begin

lemma un_iff: "un msg = Inr f \<longleftrightarrow> msg = wr f"
  using un_wr un_exact by auto

lemma wr_inj: "wr f = wr g \<longleftrightarrow> f = g"
  by (metis un_wr sum.inject(2))

lemma un_length: "un msg = Inr f \<Longrightarrow> length msg = added + length f"
  by (simp add: un_iff wr_length)

end

interpretation plain: transport_seam plain_wrap plain_unwrap 0
  by unfold_locales (simp_all add: plain_wrap_def plain_unwrap_def)

lemma tagged_unwrap_Inr: "tagged_unwrap a b msg = Inr f \<longleftrightarrow> msg = a # b # f"
proof
  assume "tagged_unwrap a b msg = Inr f"
  then show "msg = a # b # f"
    by (metis (no_types, lifting) tagged_unwrap_def sum.distinct(1) sum.inject(2)
        append_take_drop_id append_Cons append_Nil)
qed (simp add: tagged_unwrap_def)

interpretation tagged: transport_seam "tagged_wrap a b" "tagged_unwrap a b" 2 for a b
  by unfold_locales (simp_all add: tagged_wrap_def tagged_unwrap_Inr)

lemma unwrap_iff: "unwrap t msg = Inr f \<longleftrightarrow> msg = wrap t f"
  by (cases t) (simp_all add: plain.un_iff tagged.un_iff)

lemma unwrap_wrap [simp]: "unwrap t (wrap t f) = Inr f"
  by (simp add: unwrap_iff)

lemma length_wrap [simp]: "length (wrap t f) = length (tag_bytes t) + length f"
  by (cases t) (simp_all add: plain.wr_length tagged.wr_length)

subsection \<open>Properties\<close>

text \<open>A transport accepts a message exactly if it is the wrapping of the frame it
  returns; wrapping adds a fixed number of bytes, so it loses nothing.\<close>

theorem transport_exact:
  "(unwrap t msg = Inr f \<longleftrightarrow> msg = wrap t f) \<and> length (wrap t f) = length (tag_bytes t) + length f"
  by (simp add: unwrap_iff)

text \<open>Both ends build the same transport: the name of a wire id resolves to that id and
  builds the transport the id builds, and a name has an id exactly if it does not fall back.\<close>

theorem transport_selection_agrees:
  "(case transport_name i of
      None \<Rightarrow> build_transport_id i tag = None
    | Some n \<Rightarrow> transport_id n = Some i \<and> build_transport_id i tag = Some (build_transport n tag))
   \<and> (case transport_id nm of
        None \<Rightarrow> build_transport nm tag = PlainTransport
      | Some j \<Rightarrow> build_transport_id j tag = Some (build_transport nm tag))"
  by (auto simp: transport_name_def transport_id_def build_transport_id_def build_transport_def Let_def
      DEFAULT_TRANSPORT_def TRANSPORT_PLAIN_def TRANSPORT_TAGGED_def trim_def is_whitespace_def
      split: option.splits)

end
