(* ===== verification/Obfuscation.thy ===== *)
theory Obfuscation
  imports Frame_Codec Transport_Layer
begin

text \<open>
  The obfuscation stack of \<open>src/src/obfuscation/\<close>: size padding, timing with decoy frames,
  header whitening, and their ordered composition. Random draws and the clock are arguments;
  \<open>hkdf\<close> stands for HKDF-SHA256 of the crate \<open>hkdf\<close> (seed, info, output length). Times and
  durations are natural numbers of nanoseconds.
\<close>

subsection \<open>Configuration and errors\<close>

datatype ObfuscationError = Rejected | ObfTooLarge nat

record ObfuscationConfig =
  oc_layers :: "string list"
  oc_padding_buckets :: "nat list"
  oc_padding_max :: nat
  oc_timing_max_jitter_us :: nat
  oc_timing_decoy_interval_ms :: nat
  oc_timing_decoy_max_len :: nat

subsection \<open>Size padding\<close>

definition LEN_PREFIX :: nat where "LEN_PREFIX = 2"
definition DEFAULT_BUCKETS :: "nat list" where "DEFAULT_BUCKETS = [128, 256, 512, 1024, 1400]"
definition DEFAULT_MAX :: nat where "DEFAULT_MAX = 1400"

record SizePadding =
  sp_buckets :: "nat list"
  sp_max :: nat

text \<open>\<open>Vec::dedup\<close>: consecutive duplicates are removed; on a sorted list this is \<open>remdups_adj\<close>.\<close>

definition padding_new :: "nat list \<Rightarrow> nat \<Rightarrow> SizePadding" where
  "padding_new buckets mx =
     \<lparr>sp_buckets = filter (\<lambda>b. LEN_PREFIX \<le> b) (remdups_adj (sort buckets)), sp_max = mx\<rparr>"

definition padding_from_config :: "ObfuscationConfig \<Rightarrow> SizePadding" where
  "padding_from_config cfg =
     padding_new (if oc_padding_buckets cfg = [] then DEFAULT_BUCKETS else oc_padding_buckets cfg)
       (if oc_padding_max cfg = 0 then DEFAULT_MAX else oc_padding_max cfg)"

definition pick_bucket :: "SizePadding \<Rightarrow> nat \<Rightarrow> nat option" where
  "pick_bucket p frame_len = find (\<lambda>b. frame_len + LEN_PREFIX \<le> b) (sp_buckets p)"

definition padding_apply :: "SizePadding \<Rightarrow> bytes \<Rightarrow> bytes" where
  "padding_apply p frame =
     (let need = length frame + LEN_PREFIX;
          prefix = to_be_bytes16 (of_nat (length frame))
      in if need > sp_max p then prefix @ frame
         else let tot = (case pick_bucket p (length frame) of Some b \<Rightarrow> b | None \<Rightarrow> need)
           in if tot > need then prefix @ frame @ replicate (tot - need) 0 else prefix @ frame)"

definition padding_reverse :: "bytes \<Rightarrow> ObfuscationError + bytes" where
  "padding_reverse buf =
     (if length buf < LEN_PREFIX then Inl Rejected
      else let len = unat (from_be_bytes16 (buf ! 0) (buf ! 1))
        in if length buf < LEN_PREFIX + len then Inl Rejected
           else Inr (slice LEN_PREFIX (LEN_PREFIX + len) buf))"

subsection \<open>Header whitening\<close>

definition HKDF_INFO :: string where "HKDF_INFO = ''rustnies-obfuscation-header-xor''"

type_synonym hkdf_fun = "bytes \<Rightarrow> string \<Rightarrow> nat \<Rightarrow> bytes"

definition derive :: "hkdf_fun \<Rightarrow> bytes \<Rightarrow> bytes" where
  "derive hkdf seed = hkdf seed HKDF_INFO HEADER_LEN"

definition xor_header :: "bytes option \<Rightarrow> bytes \<Rightarrow> bytes" where
  "xor_header keystream buf =
     (case keystream of
        None \<Rightarrow> buf
      | Some ks \<Rightarrow> if length buf < HEADER_LEN then buf
          else map2 (XOR) (take HEADER_LEN buf) ks @ drop HEADER_LEN buf)"

subsection \<open>Timing and decoys\<close>

definition DEFAULT_MAX_JITTER_US :: nat where "DEFAULT_MAX_JITTER_US = 2000"
definition DEFAULT_DECOY_INTERVAL_MS :: nat where "DEFAULT_DECOY_INTERVAL_MS = 200"
definition DEFAULT_DECOY_MAX_LEN :: nat where "DEFAULT_DECOY_MAX_LEN = 256"
definition DECOY_PACKET_TYPE :: u8 where "DECOY_PACKET_TYPE = 0x7F"

record TimingJitter =
  tj_last_send :: "nat option"
  tj_last_decoy :: "nat option"
  tj_max_jitter :: nat
  tj_decoy_interval :: nat
  tj_decoy_max_len :: nat

definition from_micros :: "nat \<Rightarrow> nat" where "from_micros us = us * 1000"
definition from_millis :: "nat \<Rightarrow> nat" where "from_millis ms = ms * 1000000"

definition timing_new :: "nat \<Rightarrow> nat \<Rightarrow> nat \<Rightarrow> TimingJitter" where
  "timing_new max_jitter decoy_interval decoy_max_len =
     \<lparr>tj_last_send = None, tj_last_decoy = None, tj_max_jitter = max_jitter,
      tj_decoy_interval = decoy_interval, tj_decoy_max_len = decoy_max_len\<rparr>"

definition timing_from_config :: "ObfuscationConfig \<Rightarrow> TimingJitter" where
  "timing_from_config cfg =
     timing_new
       (from_micros (if oc_timing_max_jitter_us cfg = 0 then DEFAULT_MAX_JITTER_US
          else oc_timing_max_jitter_us cfg))
       (from_millis (if oc_timing_decoy_interval_ms cfg = 0 then DEFAULT_DECOY_INTERVAL_MS
          else oc_timing_decoy_interval_ms cfg))
       (if oc_timing_decoy_max_len cfg = 0 then DEFAULT_DECOY_MAX_LEN else oc_timing_decoy_max_len cfg)"

text \<open>\<open>draw n\<close> is the number \<open>gen_range(0..=n)\<close> gives.\<close>

definition next_send_delay :: "(nat \<Rightarrow> nat) \<Rightarrow> nat \<Rightarrow> TimingJitter \<Rightarrow> TimingJitter \<times> nat" where
  "next_send_delay draw now tj =
     (let tj = tj\<lparr>tj_last_send := Some now\<rparr>
      in if tj_max_jitter tj = 0 then (tj, 0)
         else (tj, from_micros (draw (tj_max_jitter tj div 1000))))"

definition should_emit_decoy :: "nat \<Rightarrow> TimingJitter \<Rightarrow> TimingJitter \<times> bool" where
  "should_emit_decoy now tj =
     (if tj_decoy_interval tj = 0 then (tj, False)
      else case (case tj_last_decoy tj of Some d \<Rightarrow> Some d | None \<Rightarrow> tj_last_send tj) of
          None \<Rightarrow> (tj\<lparr>tj_last_decoy := Some now\<rparr>, True)
        | Some prev \<Rightarrow>
            if now - prev \<ge> tj_decoy_interval tj then (tj\<lparr>tj_last_decoy := Some now\<rparr>, True)
            else (tj, False))"

definition decoy_frame :: "(nat \<Rightarrow> nat) \<Rightarrow> TimingJitter \<Rightarrow> session_id \<Rightarrow> u32 \<Rightarrow> bytes" where
  "decoy_frame draw tj sid s =
     (let payload_len = draw (tj_decoy_max_len tj);
          hdr = (new_header Data sid s)\<lparr>hdr_version := DECOY_PACKET_TYPE\<rparr>
      in to_bytes hdr @ replicate payload_len 0)"

definition is_decoy_frame :: "bytes \<Rightarrow> bool" where
  "is_decoy_frame frame = (case frame of [] \<Rightarrow> False | b # _ \<Rightarrow> b = DECOY_PACKET_TYPE)"

subsection \<open>Layers and the stack\<close>

datatype obf_layer = LPadding SizePadding | LTiming TimingJitter | LHeaderXor "bytes option"

fun layer_name :: "obf_layer \<Rightarrow> string" where
  "layer_name (LPadding p) = ''padding''"
| "layer_name (LTiming tj) = ''timing''"
| "layer_name (LHeaderXor ks) = ''header_xor''"

fun layer_apply :: "nat \<Rightarrow> obf_layer \<Rightarrow> bytes \<Rightarrow> obf_layer \<times> bytes" where
  "layer_apply now (LPadding p) frame = (LPadding p, padding_apply p frame)"
| "layer_apply now (LTiming tj) frame = (LTiming (tj\<lparr>tj_last_send := Some now\<rparr>), frame)"
| "layer_apply now (LHeaderXor ks) frame = (LHeaderXor ks, xor_header ks frame)"

fun layer_reverse :: "obf_layer \<Rightarrow> bytes \<Rightarrow> ObfuscationError + bytes" where
  "layer_reverse (LPadding p) buf = padding_reverse buf"
| "layer_reverse (LTiming tj) buf = Inr buf"
| "layer_reverse (LHeaderXor ks) buf = Inr (xor_header ks buf)"

fun layer_init :: "hkdf_fun \<Rightarrow> bytes \<Rightarrow> obf_layer \<Rightarrow> obf_layer" where
  "layer_init hkdf seed (LHeaderXor ks) = LHeaderXor (Some (derive hkdf seed))"
| "layer_init hkdf seed l = l"

record ObfuscationStack =
  os_layers :: "obf_layer list"
  os_active :: bool

definition stack_new :: ObfuscationStack where
  "stack_new = \<lparr>os_layers = [], os_active = False\<rparr>"

definition stack_push :: "ObfuscationStack \<Rightarrow> obf_layer \<Rightarrow> ObfuscationStack" where
  "stack_push st l = st\<lparr>os_layers := os_layers st @ [l], os_active := True\<rparr>"

definition from_layers :: "obf_layer list \<Rightarrow> ObfuscationStack" where
  "from_layers ls = \<lparr>os_layers = ls, os_active = (ls \<noteq> [])\<rparr>"

definition stack_init :: "hkdf_fun \<Rightarrow> bytes \<Rightarrow> ObfuscationStack \<Rightarrow> ObfuscationStack" where
  "stack_init hkdf seed st = st\<lparr>os_layers := map (layer_init hkdf seed) (os_layers st)\<rparr>"

fun apply_layers :: "nat \<Rightarrow> obf_layer list \<Rightarrow> bytes \<Rightarrow> obf_layer list \<times> bytes" where
  "apply_layers now [] buf = ([], buf)"
| "apply_layers now (l # ls) buf =
     (let (l', buf) = layer_apply now l buf; (ls', buf) = apply_layers now ls buf in (l' # ls', buf))"

definition stack_apply :: "nat \<Rightarrow> ObfuscationStack \<Rightarrow> bytes \<Rightarrow> ObfuscationStack \<times> bytes" where
  "stack_apply now st frame =
     (if \<not> os_active st then (st, frame)
      else let (ls, buf) = apply_layers now (os_layers st) frame in (st\<lparr>os_layers := ls\<rparr>, buf))"

fun reverse_layers :: "obf_layer list \<Rightarrow> bytes \<Rightarrow> ObfuscationError + bytes" where
  "reverse_layers [] buf = Inr buf"
| "reverse_layers (l # ls) buf = try_bind (layer_reverse l buf) (reverse_layers ls)"

definition stack_reverse :: "ObfuscationStack \<Rightarrow> bytes \<Rightarrow> ObfuscationError + bytes" where
  "stack_reverse st buf =
     (if \<not> os_active st then Inr buf else reverse_layers (rev (os_layers st)) buf)"

definition build_stack :: "ObfuscationConfig option \<Rightarrow> ObfuscationStack" where
  "build_stack cfg =
     (case cfg of
        None \<Rightarrow> stack_new
      | Some cfg \<Rightarrow>
          if oc_layers cfg = [] then stack_new
          else foldl (\<lambda>st name.
              if name = ''padding'' then stack_push st (LPadding (padding_from_config cfg))
              else if name = ''timing'' then stack_push st (LTiming (timing_from_config cfg))
              else if name = ''header_xor'' then stack_push st (LHeaderXor None)
              else st) stack_new (oc_layers cfg))"

text \<open>A sender that passes a sequence of frames, each at its time, through its stack.\<close>

fun send_frames :: "ObfuscationStack \<Rightarrow> (nat \<times> bytes) list \<Rightarrow> bytes list" where
  "send_frames st [] = []"
| "send_frames st ((now, f) # fs) = (let (st, out) = stack_apply now st f in out # send_frames st fs)"

subsection \<open>The contract of a layer\<close>

text \<open>\<open>peer l r\<close>: the receiving layer \<open>r\<close> can undo the sending layer \<open>l\<close>. \<open>fits l n\<close>: the layer
  carries frames of length \<open>n\<close>; its output has length \<open>grow l n\<close>.\<close>

fun chain_fits :: "('l \<Rightarrow> nat \<Rightarrow> bool) \<Rightarrow> ('l \<Rightarrow> nat \<Rightarrow> nat) \<Rightarrow> 'l list \<Rightarrow> nat \<Rightarrow> bool" where
  "chain_fits fits grow [] n \<longleftrightarrow> True"
| "chain_fits fits grow (l # ls) n \<longleftrightarrow> fits l n \<and> chain_fits fits grow ls (grow l n)"

locale obf_seam =
  fixes app :: "'l \<Rightarrow> bytes \<Rightarrow> bytes" and rv :: "'l \<Rightarrow> bytes \<Rightarrow> ObfuscationError + bytes"
    and peer :: "'l \<Rightarrow> 'l \<Rightarrow> bool" and fits :: "'l \<Rightarrow> nat \<Rightarrow> bool" and grow :: "'l \<Rightarrow> nat \<Rightarrow> nat"
  assumes rv_app: "peer l r \<Longrightarrow> fits l (length f) \<Longrightarrow> rv r (app l f) = Inr f"
    and length_app: "peer l r \<Longrightarrow> length (app l f) = grow l (length f)"
begin

lemma chain_roundtrip:
  "list_all2 peer ls rs \<Longrightarrow> chain_fits fits grow ls (length f) \<Longrightarrow>
   foldr (\<lambda>r res. try_bind res (rv r)) rs (Inr (fold app ls f)) = Inr f"
  by (induction ls rs arbitrary: f rule: list_all2_induct) (simp_all add: rv_app length_app)

lemma chain_length: "list_all2 peer ls rs \<Longrightarrow> length (fold app ls f) = fold grow ls (length f)"
  by (induction ls rs arbitrary: f rule: list_all2_induct) (simp_all add: length_app)

end

fun peer_layer :: "obf_layer \<Rightarrow> obf_layer \<Rightarrow> bool" where
  "peer_layer (LPadding p) (LPadding q) \<longleftrightarrow> True"
| "peer_layer (LTiming s) (LTiming t) \<longleftrightarrow> True"
| "peer_layer (LHeaderXor ks) (LHeaderXor ks') \<longleftrightarrow>
     ks = ks' \<and> (case ks of None \<Rightarrow> True | Some k \<Rightarrow> length k = HEADER_LEN)"
| "peer_layer _ _ \<longleftrightarrow> False"

fun layer_fits :: "obf_layer \<Rightarrow> nat \<Rightarrow> bool" where
  "layer_fits (LPadding p) n \<longleftrightarrow> n < 65536"
| "layer_fits _ n \<longleftrightarrow> True"

definition padded_len :: "SizePadding \<Rightarrow> nat \<Rightarrow> nat" where
  "padded_len p n =
     (if n + LEN_PREFIX > sp_max p then n + LEN_PREFIX
      else case pick_bucket p n of Some b \<Rightarrow> b | None \<Rightarrow> n + LEN_PREFIX)"

fun layer_grow :: "obf_layer \<Rightarrow> nat \<Rightarrow> nat" where
  "layer_grow (LPadding p) n = padded_len p n"
| "layer_grow _ n = n"

lemma pick_bucket_ge: "pick_bucket p n = Some b \<Longrightarrow> n + LEN_PREFIX \<le> b"
  by (auto simp: pick_bucket_def find_Some_iff)

lemma pick_bucket_in: "pick_bucket p n = Some b \<Longrightarrow> b \<in> set (sp_buckets p)"
  by (auto simp: pick_bucket_def find_Some_iff)

lemma padding_apply_shape:
  "padding_apply p f = to_be_bytes16 (of_nat (length f)) @ f
     @ replicate (padded_len p (length f) - (length f + LEN_PREFIX)) 0"
  by (auto simp: padding_apply_def padded_len_def Let_def split: option.splits)

lemma padded_len_ge: "n + LEN_PREFIX \<le> padded_len p n"
  by (auto simp: padded_len_def pick_bucket_ge split: option.splits)

lemma length_padding_apply: "length (padding_apply p f) = padded_len p (length f)"
  using padded_len_ge [of "length f" p] by (simp add: padding_apply_shape LEN_PREFIX_def)

lemma padding_reverse_prefix:
  assumes "length f < 65536"
  shows "padding_reverse (to_be_bytes16 (of_nat (length f)) @ f @ pad) = Inr f"
  using assms by (simp add: to_be_bytes16_def padding_reverse_def LEN_PREFIX_def slice_def)

lemma xor_header_involution:
  assumes "\<forall>k. ks = Some k \<longrightarrow> length k = HEADER_LEN"
  shows "xor_header ks (xor_header ks f) = f"
proof (cases "\<exists>k. ks = Some k \<and> HEADER_LEN \<le> length f")
  case True
  then obtain k where k: "ks = Some k" "length k = HEADER_LEN" "HEADER_LEN \<le> length f" using assms by auto
  have "map2 (XOR) (map2 (XOR) (take HEADER_LEN f) k) k = take HEADER_LEN f"
    using k by (intro nth_equalityI) (auto simp: xor.assoc)
  then show ?thesis using k by (simp add: xor_header_def)
next
  case False
  then show ?thesis by (auto simp: xor_header_def split: option.splits)
qed

lemma length_xor_header:
  "\<forall>k. ks = Some k \<longrightarrow> length k = HEADER_LEN \<Longrightarrow> length (xor_header ks f) = length f"
  by (auto simp: xor_header_def split: option.splits)

interpretation layers: obf_seam "\<lambda>l f. snd (layer_apply now l f)" layer_reverse peer_layer layer_fits layer_grow
  for now
proof
  fix l r f
  assume peer: "peer_layer l r"
  show "length (snd (layer_apply now l f)) = layer_grow l (length f)"
    using peer by (induction l r rule: peer_layer.induct)
      (auto simp: length_padding_apply length_xor_header split: option.splits)
  assume fits: "layer_fits l (length f)"
  show "layer_reverse r (snd (layer_apply now l f)) = Inr f"
    using peer fits by (induction l r rule: peer_layer.induct)
      (auto simp: padding_apply_shape padding_reverse_prefix xor_header_involution split: option.splits)
qed

subsection \<open>Stacks\<close>

lemma apply_layers_fold:
  "snd (apply_layers now ls f) = fold (\<lambda>l f. snd (layer_apply now l f)) ls f"
  by (induction ls arbitrary: f) (simp_all add: split_def Let_def)

lemma layer_apply_peer: "peer_layer l r \<Longrightarrow> peer_layer (fst (layer_apply now l f)) r"
  by (induction l r rule: peer_layer.induct) simp_all

lemma apply_layers_peer:
  "list_all2 peer_layer ls rs \<Longrightarrow> list_all2 peer_layer (fst (apply_layers now ls f)) rs"
  by (induction ls rs arbitrary: f rule: list_all2_induct) (simp_all add: split_def Let_def layer_apply_peer)

lemma reverse_layers_append:
  "reverse_layers (xs @ ys) buf = try_bind (reverse_layers xs buf) (reverse_layers ys)"
proof (induction xs arbitrary: buf)
  case (Cons l xs)
  then show ?case by (cases "layer_reverse l buf") simp_all
qed simp

lemma reverse_layers_one: "reverse_layers [l] = layer_reverse l"
proof
  show "reverse_layers [l] buf = layer_reverse l buf" for buf by (cases "layer_reverse l buf") simp_all
qed

lemma reverse_layers_foldr:
  "reverse_layers (rev ls) buf = foldr (\<lambda>r res. try_bind res (layer_reverse r)) ls (Inr buf)"
  by (induction ls) (simp_all add: reverse_layers_append reverse_layers_one del: reverse_layers.simps(2))

definition wf_stack :: "ObfuscationStack \<Rightarrow> bool" where
  "wf_stack st \<longleftrightarrow> os_active st = (os_layers st \<noteq> [])"

definition peer_stack :: "ObfuscationStack \<Rightarrow> ObfuscationStack \<Rightarrow> bool" where
  "peer_stack s r \<longleftrightarrow> wf_stack s \<and> wf_stack r \<and> list_all2 peer_layer (os_layers s) (os_layers r)"

lemma stack_roundtrip:
  assumes "peer_stack s r" "chain_fits layer_fits layer_grow (os_layers s) (length f)"
  shows "stack_reverse r (snd (stack_apply now s f)) = Inr f" "peer_stack (fst (stack_apply now s f)) r"
proof -
  have p: "list_all2 peer_layer (os_layers s) (os_layers r)" "wf_stack s" "wf_stack r"
    using assms(1) by (auto simp: peer_stack_def)
  note len = list_all2_lengthD [OF p(1)] list_all2_lengthD [OF apply_layers_peer [OF p(1)]]
  have "os_layers s = [] \<longleftrightarrow> os_layers r = []" using len(1) by auto
  then show "stack_reverse r (snd (stack_apply now s f)) = Inr f"
    using layers.chain_roundtrip [OF p(1) assms(2), of now] p(2,3)
    by (cases "os_layers r = []")
      (simp_all add: stack_reverse_def stack_apply_def reverse_layers_foldr apply_layers_fold wf_stack_def split_def)
  have "fst (apply_layers now (os_layers s) f) = [] \<longleftrightarrow> os_layers r = []" using len(2) [of now f] by auto
  then show "peer_stack (fst (stack_apply now s f)) r"
    using p apply_layers_peer [OF p(1), of now f] \<open>os_layers s = [] \<longleftrightarrow> os_layers r = []\<close>
    by (auto simp: peer_stack_def stack_apply_def wf_stack_def split_def Let_def)
qed

lemma peer_layer_commute: "peer_layer l r = peer_layer r l"
  by (cases l; cases r) auto

lemma peer_stack_commute: "peer_stack s r \<Longrightarrow> peer_stack r s"
  by (auto simp: peer_stack_def list_all2_conv_all_nth peer_layer_commute)

text \<open>The layer a configured name stands for.\<close>

definition layer_of_name :: "ObfuscationConfig \<Rightarrow> string \<Rightarrow> obf_layer option" where
  "layer_of_name cfg name =
     (if name = ''padding'' then Some (LPadding (padding_from_config cfg))
      else if name = ''timing'' then Some (LTiming (timing_from_config cfg))
      else if name = ''header_xor'' then Some (LHeaderXor None)
      else None)"

lemma build_stack_layers:
  "os_layers (build_stack (Some cfg)) = List.map_filter (layer_of_name cfg) (oc_layers cfg)
   \<and> wf_stack (build_stack (Some cfg))"
proof -
  define push where "push st name = (case layer_of_name cfg name of None \<Rightarrow> st | Some l \<Rightarrow> stack_push st l)"
    for st name
  have f: "(\<lambda>st name. if name = ''padding'' then stack_push st (LPadding (padding_from_config cfg))
      else if name = ''timing'' then stack_push st (LTiming (timing_from_config cfg))
      else if name = ''header_xor'' then stack_push st (LHeaderXor None) else st) = push"
    by (intro ext) (simp add: push_def layer_of_name_def)
  have "os_layers (foldl push st names) = os_layers st @ List.map_filter (layer_of_name cfg) names
      \<and> wf_stack (foldl push st names)" if "wf_stack st" for st names
    using that
  proof (induction names arbitrary: st)
    case (Cons n ns)
    then show ?case
      by (cases "layer_of_name cfg n") (simp_all add: push_def stack_push_def wf_stack_def map_filter_simps)
  qed (simp add: map_filter_simps)
  then show ?thesis
    by (simp add: build_stack_def f) (simp add: stack_new_def wf_stack_def map_filter_simps)
qed

lemma stack_init_simps [simp]:
  "os_layers (stack_init hkdf seed st) = map (layer_init hkdf seed) (os_layers st)"
  "wf_stack (stack_init hkdf seed st) = wf_stack st"
  by (simp_all add: stack_init_def wf_stack_def)

lemma built_peers:
  assumes "oc_layers c1 = oc_layers c2" "\<forall>s i n. length (hkdf s i n) = n"
  shows "peer_stack (build_stack (Some c1)) (build_stack (Some c2))"
    "peer_stack (stack_init hkdf seed (build_stack (Some c1))) (stack_init hkdf seed (build_stack (Some c2)))"
proof -
  have "list_all2 peer_layer (List.map_filter (layer_of_name c1) ns) (List.map_filter (layer_of_name c2) ns)" for ns
    by (induction ns) (auto simp: map_filter_simps layer_of_name_def)
  then show "peer_stack (build_stack (Some c1)) (build_stack (Some c2))"
    using build_stack_layers assms(1) by (simp add: peer_stack_def)
  have "list_all2 peer_layer (map (layer_init hkdf seed) (List.map_filter (layer_of_name c1) ns))
    (map (layer_init hkdf seed) (List.map_filter (layer_of_name c2) ns))" for ns
    using assms(2) by (induction ns) (auto simp: map_filter_simps layer_of_name_def derive_def)
  then show "peer_stack (stack_init hkdf seed (build_stack (Some c1))) (stack_init hkdf seed (build_stack (Some c2)))"
    using build_stack_layers assms(1) by (simp add: peer_stack_def)
qed

fun layer_buckets :: "obf_layer \<Rightarrow> nat list" where
  "layer_buckets (LPadding p) = sp_buckets p"
| "layer_buckets _ = []"

lemma padded_len_le: "padded_len p n \<le> n + 2 \<or> padded_len p n \<in> set (sp_buckets p)"
  using pick_bucket_in by (auto simp: padded_len_def LEN_PREFIX_def split: option.splits)

lemma layer_grow_le: "layer_grow l n \<le> n + 2 \<or> layer_grow l n \<in> set (layer_buckets l)"
  using padded_len_le by (cases l) auto

lemma small_chain_fits:
  "n + 2 * length ls < 65536 \<Longrightarrow> \<forall>l \<in> set ls. \<forall>b \<in> set (layer_buckets l). b + 2 * length ls < 65536 \<Longrightarrow>
   chain_fits layer_fits layer_grow ls n"
proof (induction ls arbitrary: n)
  case (Cons l ls)
  have "layer_fits l n" using Cons.prems(1) by (cases l) auto
  moreover have "layer_grow l n + 2 * length ls < 65536"
    using layer_grow_le [of l n] Cons.prems by auto
  moreover have "\<forall>l \<in> set ls. \<forall>b \<in> set (layer_buckets l). b + 2 * length ls < 65536"
    using Cons.prems(2) by fastforce
  ultimately show ?case using Cons.IH by simp
qed simp

lemma layer_of_name_buckets:
  "layer_of_name cfg nm = Some l \<Longrightarrow> layer_buckets l = [] \<or> layer_buckets l = sp_buckets (padding_from_config cfg)"
  by (auto simp: layer_of_name_def split: if_splits)

lemma layer_init_buckets [simp]: "layer_buckets (layer_init hkdf seed l) = layer_buckets l"
  by (cases l) simp_all

lemma built_layer_buckets:
  "l \<in> set (os_layers (build_stack (Some cfg))) \<Longrightarrow>
   layer_buckets l = [] \<or> layer_buckets l = sp_buckets (padding_from_config cfg)"
proof -
  assume "l \<in> set (os_layers (build_stack (Some cfg)))"
  then obtain nm where "layer_of_name cfg nm = Some l"
    using build_stack_layers [of cfg] by (auto simp: map_filter_def)
  then show ?thesis by (rule layer_of_name_buckets)
qed

lemma build_chain_fits:
  assumes "n + 2 * length (oc_layers cfg) < 65536"
    and "\<forall>b \<in> set (sp_buckets (padding_from_config cfg)). b + 2 * length (oc_layers cfg) < 65536"
    and "ls = os_layers (build_stack (Some cfg)) \<or> ls = map (layer_init hkdf seed) (os_layers (build_stack (Some cfg)))"
  shows "chain_fits layer_fits layer_grow ls n"
proof (rule small_chain_fits)
  have len: "length ls \<le> length (oc_layers cfg)"
    using assms(3) build_stack_layers [of cfg] by (auto simp: map_filter_def intro: le_trans [OF length_filter_le])
  then show "n + 2 * length ls < 65536" using assms(1) by simp
  have lb: "layer_buckets l = [] \<or> layer_buckets l = sp_buckets (padding_from_config cfg)" if "l \<in> set ls" for l
    using that assms(3) by (auto dest!: built_layer_buckets)
  show "\<forall>l \<in> set ls. \<forall>b \<in> set (layer_buckets l). b + 2 * length ls < 65536"
  proof (intro ballI)
    fix l b assume "l \<in> set ls" "b \<in> set (layer_buckets l)"
    then have "b \<in> set (sp_buckets (padding_from_config cfg))" using lb [of l] by auto
    then have "b + 2 * length (oc_layers cfg) < 65536" using assms(2) by blast
    then show "b + 2 * length ls < 65536" using len by linarith
  qed
qed

text \<open>Sending changes only the timing bookkeeping, so what fits before fits after.\<close>

lemma layer_apply_static:
  "layer_fits (fst (layer_apply now l f)) = layer_fits l" "layer_grow (fst (layer_apply now l f)) = layer_grow l"
  by (cases l; simp add: fun_eq_iff)+

lemma apply_layers_fits:
  "chain_fits layer_fits layer_grow (fst (apply_layers now ls f)) n = chain_fits layer_fits layer_grow ls n"
  by (induction ls arbitrary: f n) (simp_all add: split_def Let_def layer_apply_static)

text \<open>The stack \<open>st\<close> can send frames of up to \<open>n\<close> bytes to \<open>r\<close>, now and after any sends.\<close>

definition stack_carries :: "ObfuscationStack \<Rightarrow> ObfuscationStack \<Rightarrow> nat \<Rightarrow> bool" where
  "stack_carries st r n \<longleftrightarrow> peer_stack st r \<and> (\<forall>k \<le> n. chain_fits layer_fits layer_grow (os_layers st) k)"

lemma stack_carries_apply:
  assumes "stack_carries st r n" "length f \<le> n"
  shows "stack_reverse r (snd (stack_apply now st f)) = Inr f" "stack_carries (fst (stack_apply now st f)) r n"
proof -
  have p: "peer_stack st r" and fits: "\<And>k. k \<le> n \<Longrightarrow> chain_fits layer_fits layer_grow (os_layers st) k"
    using assms(1) by (auto simp: stack_carries_def)
  show "stack_reverse r (snd (stack_apply now st f)) = Inr f" by (rule stack_roundtrip(1) [OF p fits [OF assms(2)]])
  show "stack_carries (fst (stack_apply now st f)) r n"
    using stack_roundtrip(2) [OF p fits [OF assms(2)], of now] fits
    by (auto simp: stack_carries_def stack_apply_def split_def Let_def apply_layers_fits)
qed

lemma send_frames_received:
  assumes "peer_stack s r"
    and "\<forall>f \<in> snd ` set fs. chain_fits layer_fits layer_grow (os_layers s) (length f)"
  shows "map (stack_reverse r) (send_frames s fs) = map (\<lambda>(_, f). Inr f) fs"
  using assms
proof (induction fs arbitrary: s)
  case (Cons x fs)
  obtain now f where x: "x = (now, f)" by (cases x)
  have st: "stack_reverse r (snd (stack_apply now s f)) = Inr f" "peer_stack (fst (stack_apply now s f)) r"
    using stack_roundtrip [OF Cons.prems(1), of f now] Cons.prems(2) by (auto simp: x)
  have "chain_fits layer_fits layer_grow (os_layers (fst (stack_apply now s f))) n
      = chain_fits layer_fits layer_grow (os_layers s) n" for n
    by (simp add: stack_apply_def split_def Let_def apply_layers_fits)
  then show ?case using st Cons.IH [OF st(2)] Cons.prems(2) by (simp add: x split_def Let_def)
qed simp

lemma find_sorted_Min:
  fixes xs :: "nat list"
  assumes "sorted xs"
  shows "find (\<lambda>b. n \<le> b) xs = (if \<exists>b \<in> set xs. n \<le> b then Some (Min {b \<in> set xs. n \<le> b}) else None)"
  using assms
proof (induction xs)
  case (Cons x xs)
  show ?case
  proof (cases "n \<le> x")
    case True
    then have "Min {b \<in> set (x # xs). n \<le> b} = x"
      using Cons.prems by (intro Min_eqI) auto
    then show ?thesis using True by simp
  next
    case False
    then have "{b \<in> set (x # xs). n \<le> b} = {b \<in> set xs. n \<le> b}" by auto
    then show ?thesis using False Cons by simp
  qed
qed simp

lemma decoy_first_byte: "\<exists>rest. decoy_frame draw tj sid s = DECOY_PACKET_TYPE # rest"
  by (simp add: decoy_frame_def Let_def to_bytes_layout wire_layout_def)

lemma read_header_first_byte:
  "read_header d buf = Inr h \<Longrightarrow> buf ! 0 = PROTOCOL_VERSION \<or> buf ! 0 = V2_TLV_MAGIC"
  by (cases d) (auto simp: v1_read_header_def read_from_def v2_read_header_def split: if_splits)

subsection \<open>Properties\<close>

text \<open>C19. Two peers whose configurations name the same layers undo each other's stack: for
  every sequence of frames, sent at any times, before or after both are keyed with the session
  seed, the receiver gets back exactly the frames sent. The bucket sizes and the timing
  parameters of the two ends may differ. The only limit is the two-byte length prefix of the
  padding layer.\<close>

theorem obfuscation_peers_agree:
  assumes "oc_layers c1 = oc_layers c2" "\<forall>s i n. length (hkdf s i n) = n"
    and "\<forall>f \<in> snd ` set fs. length f + 2 * length (oc_layers c1) < 65536"
    and "\<forall>b \<in> set (sp_buckets (padding_from_config c1)). b + 2 * length (oc_layers c1) < 65536"
  shows "map (stack_reverse (build_stack (Some c2))) (send_frames (build_stack (Some c1)) fs)
      = map (\<lambda>(_, f). Inr f) fs
    \<and> map (stack_reverse (stack_init hkdf seed (build_stack (Some c2))))
        (send_frames (stack_init hkdf seed (build_stack (Some c1))) fs) = map (\<lambda>(_, f). Inr f) fs"
proof
  note peers = built_peers [OF assms(1,2)]
  show "map (stack_reverse (build_stack (Some c2))) (send_frames (build_stack (Some c1)) fs)
      = map (\<lambda>(_, f). Inr f) fs"
    using assms(3) build_chain_fits [OF _ assms(4)] by (intro send_frames_received [OF peers(1)]) blast
  show "map (stack_reverse (stack_init hkdf seed (build_stack (Some c2))))
        (send_frames (stack_init hkdf seed (build_stack (Some c1))) fs) = map (\<lambda>(_, f). Inr f) fs"
    using assms(3) build_chain_fits [OF _ assms(4)]
    by (intro send_frames_received [OF peers(2)]) (simp del: map_map, blast)
qed

theorem obfuscation_peers_agree_witness:
  "map (stack_reverse (stack_init (\<lambda>s i n. replicate n 7) [] (build_stack
       (Some \<lparr>oc_layers = [''header_xor'', ''timing'', ''padding''], oc_padding_buckets = [64], oc_padding_max = 0,
         oc_timing_max_jitter_us = 0, oc_timing_decoy_interval_ms = 0, oc_timing_decoy_max_len = 0\<rparr>))))
     (send_frames (stack_init (\<lambda>s i n. replicate n 7) [] (build_stack
       (Some \<lparr>oc_layers = [''header_xor'', ''timing'', ''padding''], oc_padding_buckets = [], oc_padding_max = 0,
         oc_timing_max_jitter_us = 0, oc_timing_decoy_interval_ms = 0, oc_timing_decoy_max_len = 0\<rparr>)))
       [(5, [1, 2, 3]), (9, [])]) = [Inr [1, 2, 3], Inr []]"
  using obfuscation_peers_agree [of
    "\<lparr>oc_layers = [''header_xor'', ''timing'', ''padding''], oc_padding_buckets = [], oc_padding_max = 0,
       oc_timing_max_jitter_us = 0, oc_timing_decoy_interval_ms = 0, oc_timing_decoy_max_len = 0\<rparr>"
    "\<lparr>oc_layers = [''header_xor'', ''timing'', ''padding''], oc_padding_buckets = [64], oc_padding_max = 0,
       oc_timing_max_jitter_us = 0, oc_timing_decoy_interval_ms = 0, oc_timing_decoy_max_len = 0\<rparr>"
    "\<lambda>s i n. replicate n 7" "[(5, [1, 2, 3]), (9, [])]" "[]"]
  by (simp add: padding_from_config_def padding_new_def DEFAULT_BUCKETS_def LEN_PREFIX_def)

text \<open>The output of the padding layer: the length prefix, the frame and zeros, of total
  length the smallest configured bucket that holds prefix and frame; without such a bucket, or
  if prefix and frame exceed the maximum, nothing is added beyond the prefix.\<close>

theorem padding_output:
  "padding_apply (padding_new buckets mx) f =
     to_be_bytes16 (of_nat (length f)) @ f @
       (let need = length f + 2; fitting = {b \<in> set buckets. need \<le> b}
        in if need \<le> mx \<and> fitting \<noteq> {} then replicate (Min fitting - need) 0 else [])"
proof -
  define p where "p = padding_new buckets mx"
  have sorted: "sorted (sp_buckets p)" by (simp add: p_def padding_new_def sorted_wrt_filter)
  have set: "{b \<in> set (sp_buckets p). length f + 2 \<le> b} = {b \<in> set buckets. length f + 2 \<le> b}"
    by (auto simp: p_def padding_new_def LEN_PREFIX_def)
  have "pick_bucket p (length f) = (let fitting = {b \<in> set buckets. length f + 2 \<le> b}
      in if fitting \<noteq> {} then Some (Min fitting) else None)"
    unfolding pick_bucket_def find_sorted_Min [OF sorted] LEN_PREFIX_def set [symmetric] by (auto simp: Let_def)
  then have "padded_len p (length f) - (length f + 2) = (let need = length f + 2; fitting = {b \<in> set buckets. need \<le> b}
        in if need \<le> mx \<and> fitting \<noteq> {} then Min fitting - need else 0)"
    by (auto simp: padded_len_def Let_def LEN_PREFIX_def p_def padding_new_def)
  then show ?thesis
    unfolding padding_apply_shape p_def [symmetric] by (auto simp: Let_def LEN_PREFIX_def)
qed

lemma encoded_not_decoy:
  assumes "codec_carries c h" "encode_frame c h body = Inr frame"
  shows "\<not> is_decoy_frame frame"
proof (cases c)
  case V1FixedCodec
  then show ?thesis using assms
    by (auto simp: encode_frame_def v1.wr_enc to_bytes_layout wire_layout_def is_decoy_frame_def
        wf_header_def PROTOCOL_VERSION_def DECOY_PACKET_TYPE_def)
next
  case V2TlvCodec
  then show ?thesis using assms
    by (auto simp: encode_frame_def v2.wr_enc v2_bytes_def is_decoy_frame_def V2_TLV_MAGIC_def
        DECOY_PACKET_TYPE_def)
qed

text \<open>Decoys and real traffic never mix: every decoy frame is recognised as one and is
  rejected by both header readers, and no frame that a codec encodes is taken for a decoy.\<close>

theorem decoys_separated:
  assumes "codec_carries c h" "encode_frame c h body = Inr frame"
  shows "\<not> is_decoy_frame frame \<and> is_decoy_frame (decoy_frame draw tj sid s)
    \<and> (\<forall>d g. read_header d (decoy_frame draw tj sid s) \<noteq> Inr g)"
proof -
  have "\<not> is_decoy_frame frame" by (rule encoded_not_decoy [OF assms])
  moreover obtain rest where rest: "decoy_frame draw tj sid s = DECOY_PACKET_TYPE # rest"
    using decoy_first_byte by blast
  moreover have "read_header d (DECOY_PACKET_TYPE # rest) \<noteq> Inr g" for d g
    using read_header_first_byte [of d "DECOY_PACKET_TYPE # rest" g]
    by (auto simp: DECOY_PACKET_TYPE_def PROTOCOL_VERSION_def V2_TLV_MAGIC_def)
  ultimately show ?thesis by (simp add: is_decoy_frame_def)
qed

theorem decoys_separated_witness:
  "\<exists>frame. encode_frame V1FixedCodec (new_header Data 3 4) [9] = Inr frame \<and> \<not> is_decoy_frame frame
    \<and> is_decoy_frame (decoy_frame (\<lambda>n. 2) (timing_new 1 2 3) 5 6)"
proof -
  have h: "codec_carries V1FixedCodec (new_header Data 3 4)"
    by (simp add: wf_header_def new_header_def)
  obtain frame where f: "encode_frame V1FixedCodec (new_header Data 3 4) [9] = Inr frame"
    using h by (auto simp: encode_frame_def v1.wr_enc)
  show ?thesis using decoys_separated [OF h f] f by blast
qed

text \<open>The decision times of \<open>should_emit_decoy\<close>, called at the times \<open>ts\<close>, with the real sends
  between the calls.\<close>

datatype timing_event = RealSend nat | IdleTick nat

fun event_time :: "timing_event \<Rightarrow> nat" where
  "event_time (RealSend t) = t"
| "event_time (IdleTick t) = t"

fun decoy_times :: "TimingJitter \<Rightarrow> timing_event list \<Rightarrow> nat list" where
  "decoy_times tj [] = []"
| "decoy_times tj (RealSend now # es) = decoy_times (tj\<lparr>tj_last_send := Some now\<rparr>) es"
| "decoy_times tj (IdleTick now # es) =
     (let (tj, emit) = should_emit_decoy now tj
      in if emit then now # decoy_times tj es else decoy_times tj es)"

lemma decoy_times_tick:
  "decoy_times tj (IdleTick now # es) =
     (let d = decoy_times (fst (should_emit_decoy now tj)) es
      in if snd (should_emit_decoy now tj) then now # d else d)"
  by (simp add: split_def Let_def)

lemma should_emit_keeps [simp]:
  "tj_decoy_interval (fst (should_emit_decoy now tj)) = tj_decoy_interval tj"
  by (auto simp: should_emit_decoy_def split: option.splits)

lemma should_emit_True:
  "snd (should_emit_decoy now tj) \<Longrightarrow> tj_last_decoy (fst (should_emit_decoy now tj)) = Some now"
  by (auto simp: should_emit_decoy_def split: if_splits option.splits)

lemma should_emit_after:
  assumes "tj_last_decoy tj = Some d" "0 < tj_decoy_interval tj"
  shows "snd (should_emit_decoy now tj) \<longleftrightarrow> d + tj_decoy_interval tj \<le> now"
    "\<not> snd (should_emit_decoy now tj) \<Longrightarrow> tj_last_decoy (fst (should_emit_decoy now tj)) = Some d"
  using assms by (auto simp: should_emit_decoy_def)

lemma should_emit_send:
  assumes "tj_last_decoy tj \<noteq> None"
  shows "snd (should_emit_decoy now (tj\<lparr>tj_last_send := x\<rparr>)) = snd (should_emit_decoy now tj)"
    "fst (should_emit_decoy now (tj\<lparr>tj_last_send := x\<rparr>)) = (fst (should_emit_decoy now tj))\<lparr>tj_last_send := x\<rparr>"
    "tj_last_decoy (fst (should_emit_decoy now tj)) \<noteq> None"
  using assms by (auto simp: should_emit_decoy_def split: if_splits)

lemma decoy_times_after:
  "tj_last_decoy tj = Some d \<Longrightarrow> 0 < tj_decoy_interval tj \<Longrightarrow>
   sorted_wrt (\<lambda>a b. a + tj_decoy_interval tj \<le> b) (d # decoy_times tj es)"
proof (induction es arbitrary: tj d)
  case (Cons e es)
  show ?case
  proof (cases e)
    case (RealSend t)
    then show ?thesis using Cons.IH [of "tj\<lparr>tj_last_send := Some t\<rparr>" d] Cons.prems by simp
  next
    case (IdleTick t)
    let ?tj = "fst (should_emit_decoy t tj)"
    show ?thesis
    proof (cases "snd (should_emit_decoy t tj)")
      case True
      then show ?thesis
        using Cons.IH [of ?tj t] Cons.prems should_emit_True [OF True] should_emit_after(1) [OF Cons.prems, of t]
        unfolding IdleTick decoy_times_tick by (fastforce simp: Let_def)
    next
      case False
      then show ?thesis
        using Cons.IH [of ?tj d] Cons.prems should_emit_after(2) [OF Cons.prems False]
        unfolding IdleTick decoy_times_tick by (simp add: Let_def)
    qed
  qed
qed simp

lemma decoy_times_off: "tj_decoy_interval tj = 0 \<Longrightarrow> decoy_times tj es = []"
proof (induction es arbitrary: tj)
  case (Cons e es)
  then show ?case by (cases e) (simp_all add: should_emit_decoy_def)
qed simp

lemma decoy_times_spaced:
  "0 < tj_decoy_interval tj \<Longrightarrow> sorted_wrt (\<lambda>a b. a + tj_decoy_interval tj \<le> b) (decoy_times tj es)"
proof (induction es arbitrary: tj)
  case (Cons e es)
  show ?case
  proof (cases e)
    case (RealSend t)
    then show ?thesis using Cons.IH [of "tj\<lparr>tj_last_send := Some t\<rparr>"] Cons.prems by simp
  next
    case (IdleTick t)
    show ?thesis
      using Cons.IH [of "fst (should_emit_decoy t tj)"] Cons.prems should_emit_True [of t tj]
        decoy_times_after [of "fst (should_emit_decoy t tj)" t es]
      unfolding IdleTick decoy_times_tick by (simp add: Let_def del: sorted_wrt.simps)
  qed
qed simp

lemma decoy_times_send:
  "tj_last_decoy tj \<noteq> None \<Longrightarrow> decoy_times (tj\<lparr>tj_last_send := x\<rparr>) es = decoy_times tj es"
proof (induction es arbitrary: tj x)
  case (Cons e es)
  then show ?case
    by (cases e) (simp_all add: decoy_times_tick should_emit_send del: decoy_times.simps(3) not_None_eq)
qed simp

lemma decoy_times_ticks:
  "tj_last_decoy tj \<noteq> None \<Longrightarrow>
   decoy_times tj (filter (\<lambda>e. e = IdleTick (event_time e)) es) = decoy_times tj es"
proof (induction es arbitrary: tj)
  case (Cons e es)
  then show ?case
    by (cases e) (simp_all add: decoy_times_tick decoy_times_send should_emit_send
        del: decoy_times.simps(3) not_None_eq)
qed simp

text \<open>Decoys are paced: however idle ticks and real sends are interleaved, two decoys are at
  least the configured interval apart, and with interval zero none is sent. Once a first decoy
  was sent, real sends no longer influence when the next decoys go out.\<close>

theorem decoys_paced:
  "(tj_decoy_interval tj = 0 \<longrightarrow> decoy_times tj es = [])
   \<and> sorted_wrt (\<lambda>a b. a + tj_decoy_interval tj \<le> b) (decoy_times tj es)
   \<and> (tj_last_decoy tj \<noteq> None \<longrightarrow> decoy_times tj es = decoy_times tj (filter (\<lambda>e. e = IdleTick (event_time e)) es))"
  using decoy_times_off [of tj es] decoy_times_spaced [of tj es] decoy_times_ticks [of tj es]
  by (cases "tj_decoy_interval tj = 0") auto

theorem decoys_paced_witness:
  "decoy_times ((timing_new 0 10 5)\<lparr>tj_last_decoy := Some 0\<rparr>) [RealSend 9, IdleTick 12, RealSend 15, IdleTick 20]
   = [12]"
proof -
  have "decoy_times ((timing_new 0 10 5)\<lparr>tj_last_decoy := Some 0\<rparr>) [RealSend 9, IdleTick 12, RealSend 15, IdleTick 20]
    = decoy_times ((timing_new 0 10 5)\<lparr>tj_last_decoy := Some 0\<rparr>) [IdleTick 12, IdleTick 20]"
    using decoys_paced [of "(timing_new 0 10 5)\<lparr>tj_last_decoy := Some 0\<rparr>"
        "[RealSend 9, IdleTick 12, RealSend 15, IdleTick 20]"] by simp
  then show ?thesis by (simp add: timing_new_def should_emit_decoy_def)
qed

end
