(* ===== verification/Net_Addr.thy ===== *)
theory Net_Addr
  imports Rn_Prelude
begin

text \<open>
  What the program uses of \<open>std::net\<close>: IP addresses, socket addresses, and the text form of an
  address, printed as \<open>Display\<close> prints it and parsed as \<open>FromStr\<close> parses it. A parser takes the
  remaining text and returns the value with the text left over, or nothing (the parser is then
  back where it started, as \<open>read_atomically\<close> provides). The lemmas end in \<open>parse_ip_display\<close>:
  every printed address parses, to an address of the same family.
\<close>

subsection \<open>Addresses\<close>

text \<open>An IPv6 address is the list of its 16-bit segments; \<open>ip_wf\<close> says what the Rust type guarantees, that there are eight, and is a
  hypothesis where an address is an argument.\<close>

datatype IpAddr = V4 u8 u8 u8 u8 | V6 "u16 list"

fun ip_wf :: "IpAddr \<Rightarrow> bool" where
  "ip_wf (V4 a b c d) = True"
| "ip_wf (V6 segs) = (length segs = 8)"

fun is_v4 :: "IpAddr \<Rightarrow> bool" where
  "is_v4 (V4 a b c d) = True"
| "is_v4 (V6 segs) = False"

record SocketAddr =
  sock_ip :: IpAddr
  sock_port :: u16

subsection \<open>Parsing\<close>

definition to_digit :: "nat \<Rightarrow> char \<Rightarrow> nat option" where
  "to_digit radix c = (let n = of_char c :: nat;
       d = (if 48 \<le> n \<and> n \<le> 57 then Some (n - 48)
            else if 97 \<le> n \<and> n \<le> 122 then Some (n - 87)
            else if 65 \<le> n \<and> n \<le> 90 then Some (n - 55) else None)
     in case d of None \<Rightarrow> None | Some v \<Rightarrow> if v < radix then Some v else None)"

fun digits_loop :: "nat \<Rightarrow> nat \<Rightarrow> nat \<Rightarrow> nat \<Rightarrow> string \<Rightarrow> (nat \<times> nat \<times> string) option" where
  "digits_loop radix max_digits result count [] = Some (result, count, [])"
| "digits_loop radix max_digits result count (c # s) = (case to_digit radix c of
       None \<Rightarrow> Some (result, count, c # s)
     | Some d \<Rightarrow> if count + 1 > max_digits then None
         else digits_loop radix max_digits (result * radix + d) (count + 1) s)"

text \<open>\<open>Parser::read_number\<close>; \<open>bound\<close> is one more than the greatest value of the target type.\<close>

definition read_number :: "nat \<Rightarrow> nat \<Rightarrow> bool \<Rightarrow> nat \<Rightarrow> string \<Rightarrow> (nat \<times> string) option" where
  "read_number radix max_digits allow_zero_prefix bound s =
     (case digits_loop radix max_digits 0 0 s of
        None \<Rightarrow> None
      | Some (result, count, rest) \<Rightarrow>
          if count = 0 then None
          else if \<not> allow_zero_prefix \<and> take 1 s = ''0'' \<and> count > 1 then None
          else if result < bound then Some (result, rest) else None)"

fun read_given_char :: "char \<Rightarrow> string \<Rightarrow> string option" where
  "read_given_char x [] = None"
| "read_given_char x (c # s) = (if c = x then Some s else None)"

definition read_separator :: "char \<Rightarrow> nat \<Rightarrow> (string \<Rightarrow> 'a option) \<Rightarrow> string \<Rightarrow> 'a option" where
  "read_separator sep index inner s =
     (if index > 0 then Option.bind (read_given_char sep s) inner else inner s)"

definition read_octet :: "nat \<Rightarrow> string \<Rightarrow> (nat \<times> string) option" where
  "read_octet i = read_separator CHR ''.'' i (read_number 10 3 False 256)"

definition read_ipv4_addr :: "string \<Rightarrow> ((nat \<times> nat \<times> nat \<times> nat) \<times> string) option" where
  "read_ipv4_addr s =
     Option.bind (read_octet 0 s) (\<lambda>(a, s).
     Option.bind (read_octet 1 s) (\<lambda>(b, s).
     Option.bind (read_octet 2 s) (\<lambda>(c, s).
     Option.bind (read_octet 3 s) (\<lambda>(d, s). Some ((a, b, c, d), s)))))"

text \<open>\<open>read_groups\<close>: up to \<open>limit\<close> groups from index \<open>i\<close> on, an IPv4 tail standing for two; the
  result is the groups read, whether an IPv4 tail ended them, and the text left over. The first
  argument counts the groups still to read.\<close>

fun read_groups :: "nat \<Rightarrow> nat \<Rightarrow> string \<Rightarrow> nat list \<times> bool \<times> string" where
  "read_groups 0 i s = ([], False, s)"
| "read_groups (Suc n) i s =
     (case (if n = 0 then None else read_separator CHR '':'' i read_ipv4_addr s) of
        Some ((a, b, c, d), rest) \<Rightarrow> ([a * 256 + b, c * 256 + d], True, rest)
      | None \<Rightarrow>
          (case read_separator CHR '':'' i (read_number 16 4 True 65536) s of
             None \<Rightarrow> ([], False, s)
           | Some (g, rest) \<Rightarrow>
               (let (gs, v4, rest') = read_groups n (i + 1) rest in (g # gs, v4, rest'))))"

definition read_ipv6_addr :: "string \<Rightarrow> (nat list \<times> string) option" where
  "read_ipv6_addr s = (let (head, head_ipv4, s1) = read_groups 8 0 s in
     if length head = 8 then Some (head, s1)
     else if head_ipv4 then None
     else Option.bind (read_given_char CHR '':'' s1) (\<lambda>s2.
          Option.bind (read_given_char CHR '':'' s2) (\<lambda>s3.
            let (tail, _, s4) = read_groups (8 - (length head + 1)) 0 s3
            in Some (head @ replicate (8 - length head - length tail) 0 @ tail, s4))))"

definition parse_ipv4 :: "string \<Rightarrow> IpAddr option" where
  "parse_ipv4 s = (if length s > 15 then None else case read_ipv4_addr s of
     Some ((a, b, c, d), []) \<Rightarrow> Some (V4 (of_nat a) (of_nat b) (of_nat c) (of_nat d)) | _ \<Rightarrow> None)"

definition read_ip_addr :: "string \<Rightarrow> (IpAddr \<times> string) option" where
  "read_ip_addr s = (case read_ipv4_addr s of
     Some ((a, b, c, d), rest) \<Rightarrow> Some (V4 (of_nat a) (of_nat b) (of_nat c) (of_nat d), rest)
   | None \<Rightarrow> map_option (\<lambda>(segs, rest). (V6 (map of_nat segs), rest)) (read_ipv6_addr s))"

definition parse_ip :: "string \<Rightarrow> IpAddr option" where
  "parse_ip s = (case read_ip_addr s of Some (ip, []) \<Rightarrow> Some ip | _ \<Rightarrow> None)"

subsection \<open>Printing\<close>

definition hex_digit :: "nat \<Rightarrow> char" where
  "hex_digit d = char_of (if d < 10 then 48 + d else 87 + d)"

fun show_hex :: "nat \<Rightarrow> string" where
  "show_hex n = (if n < 16 then [hex_digit n] else show_hex (n div 16) @ [hex_digit (n mod 16)])"

declare show_hex.simps [simp del]

definition show_v4 :: "u8 \<Rightarrow> u8 \<Rightarrow> u8 \<Rightarrow> u8 \<Rightarrow> string" where
  "show_v4 a b c d = show_nat (unat a) @ ''.'' @ show_nat (unat b) @ ''.'' @
     show_nat (unat c) @ ''.'' @ show_nat (unat d)"

text \<open>The longest run of zero segments, the first of several: \<open>(start, len)\<close> of the run being
  read and of the longest one so far.\<close>

fun zero_span :: "nat \<Rightarrow> nat \<times> nat \<Rightarrow> nat \<times> nat \<Rightarrow> u16 list \<Rightarrow> nat \<times> nat" where
  "zero_span i current longest [] = longest"
| "zero_span i current longest (g # gs) =
     (if g = 0 then
        let current = (if snd current = 0 then i else fst current, snd current + 1) in
        zero_span (i + 1) current (if snd current > snd longest then current else longest) gs
      else zero_span (i + 1) (0, 0) longest gs)"

fun show_groups :: "u16 list \<Rightarrow> string" where
  "show_groups [] = []"
| "show_groups [g] = show_hex (unat g)"
| "show_groups (g # gs) = show_hex (unat g) @ '':'' @ show_groups gs"

fun to_ipv4_mapped :: "u16 list \<Rightarrow> (u8 \<times> u8 \<times> u8 \<times> u8) option" where
  "to_ipv4_mapped segs = (if take 6 segs = [0, 0, 0, 0, 0, 0xffff] \<and> length segs = 8
     then Some (ucast (drop_bit 8 (segs ! 6)), ucast (segs ! 6), ucast (drop_bit 8 (segs ! 7)), ucast (segs ! 7))
     else None)"

fun show_ip :: "IpAddr \<Rightarrow> string" where
  "show_ip (V4 a b c d) = show_v4 a b c d"
| "show_ip (V6 segs) = (case to_ipv4_mapped segs of
      Some (a, b, c, d) \<Rightarrow> ''::ffff:'' @ show_v4 a b c d
    | None \<Rightarrow> (let (start, len) = zero_span 0 (0, 0) (0, 0) segs in
        if len > 1 then show_groups (take start segs) @ ''::'' @ show_groups (drop (start + len) segs)
        else show_groups segs))"

subsection \<open>Every printed address parses\<close>

definition digits :: "nat \<Rightarrow> string \<Rightarrow> bool" where
  "digits radix s \<longleftrightarrow> (\<forall>c \<in> set s. to_digit radix c \<noteq> None)"

definition digits_value :: "nat \<Rightarrow> nat \<Rightarrow> string \<Rightarrow> nat" where
  "digits_value radix = foldl (\<lambda>v c. v * radix + the (to_digit radix c))"

definition stops :: "nat \<Rightarrow> string \<Rightarrow> bool" where
  "stops radix rest \<longleftrightarrow> (case rest of [] \<Rightarrow> True | c # _ \<Rightarrow> to_digit radix c = None)"

lemma digits_loop_digits:
  assumes "digits radix s" "stops radix rest" "count + length s \<le> m"
  shows "digits_loop radix m v count (s @ rest) =
    Some (digits_value radix v s, count + length s, rest)"
  using assms
proof (induction s arbitrary: v count)
  case Nil
  then show ?case by (cases rest) (auto simp: digits_value_def stops_def)
next
  case (Cons c s)
  then show ?case by (auto simp: digits_def digits_value_def)
qed

lemma to_digit_dec: "d < 10 \<Longrightarrow> d < radix \<Longrightarrow> to_digit radix (char_of (48 + d)) = Some d"
  by (simp add: to_digit_def Let_def)

lemma to_digit_hex: "d < 16 \<Longrightarrow> to_digit 16 (hex_digit d) = Some d"
  by (auto simp: to_digit_def hex_digit_def Let_def)

lemma show_nat_digits: "digits 10 (show_nat n) \<and> digits_value 10 0 (show_nat n) = n"
proof (induction n rule: show_nat.induct)
  case (1 n)
  show ?case
  proof (cases "n < 10")
    case True
    then show ?thesis
      by (simp add: show_nat.simps digits_def digits_value_def to_digit_dec)
  next
    case False
    then show ?thesis using 1
      by (simp add: show_nat.simps [of n] digits_def digits_value_def to_digit_dec ball_Un)
  qed
qed

lemma show_hex_digits: "digits 16 (show_hex n) \<and> digits_value 16 0 (show_hex n) = n"
proof (induction n rule: show_hex.induct)
  case (1 n)
  show ?case
  proof (cases "n < 16")
    case True
    then show ?thesis
      by (simp add: show_hex.simps digits_def digits_value_def to_digit_hex)
  next
    case False
    then show ?thesis using 1
      by (simp add: show_hex.simps [of n] digits_def digits_value_def to_digit_hex ball_Un)
  qed
qed

lemma show_nat_inject [simp]: "show_nat m = show_nat n \<longleftrightarrow> m = n"
  using show_nat_digits [of m] show_nat_digits [of n] by metis

lemma show_nat_not_Nil [simp]: "show_nat n \<noteq> []"
  by (simp add: show_nat.simps)

lemma show_hex_not_Nil [simp]: "show_hex n \<noteq> []"
  by (simp add: show_hex.simps)

lemma length_show_nat: "n < 1000 \<Longrightarrow> length (show_nat n) \<le> 3"
  by (simp add: show_nat.simps [of n] show_nat.simps [of "n div 10"] show_nat.simps [of "n div 10 div 10"])

lemma length_show_hex: "n < 65536 \<Longrightarrow> length (show_hex n) \<le> 4"
  by (simp add: show_hex.simps [of n] show_hex.simps [of "n div 16"] show_hex.simps [of "n div 16 div 16"]
    show_hex.simps [of "n div 16 div 16 div 16"])

lemma show_nat_leading: "0 < n \<Longrightarrow> take 1 (show_nat n) \<noteq> ''0''"
proof (induction n rule: show_nat.induct)
  case (1 n)
  show ?case
  proof (cases "n < 10")
    case True
    then have "char_of (48 + n) \<noteq> CHR ''0''" using 1(2) True by (auto dest: arg_cong [where f = "of_char :: char \<Rightarrow> nat"])
    then show ?thesis using True by (simp add: show_nat.simps)
  next
    case False
    then have "take 1 (show_nat (n div 10)) \<noteq> ''0''" using 1 by simp
    then show ?thesis using False by (cases "show_nat (n div 10)") (simp_all add: show_nat.simps [of n])
  qed
qed

lemma show_nat_one_digit: "take 1 (show_nat n) = ''0'' \<Longrightarrow> length (show_nat n) = 1"
  using show_nat_leading [of n] by (cases "n = 0") (auto simp: show_nat.simps)

lemma read_number_show_nat:
  assumes "n < 256" "stops 10 rest"
  shows "read_number 10 3 False 256 (show_nat n @ rest) = Some (n, rest)"
proof -
  have l: "length (show_nat n) \<le> 3" using length_show_nat [of n] assms by simp
  have "digits_loop 10 3 0 0 (show_nat n @ rest) = Some (n, length (show_nat n), rest)"
    using digits_loop_digits [of 10 "show_nat n" rest 0 3 0] show_nat_digits [of n] assms l by simp
  moreover have "\<not> (take 1 (show_nat n @ rest) = ''0'' \<and> length (show_nat n) > 1)"
    using show_nat_one_digit [of n] by (cases "show_nat n") auto
  ultimately show ?thesis using assms by (auto simp: read_number_def)
qed

lemma read_number_show_hex:
  assumes "n < 65536" "stops 16 rest"
  shows "read_number 16 4 True 65536 (show_hex n @ rest) = Some (n, rest)"
proof -
  have "digits_loop 16 4 0 0 (show_hex n @ rest) = Some (n, length (show_hex n), rest)"
    using digits_loop_digits [of 16 "show_hex n" rest 0 4 0] show_hex_digits [of n] assms
      length_show_hex [of n] by simp
  then show ?thesis using assms by (simp add: read_number_def)
qed

lemma stops_simps [simp]:
  "stops radix []" "stops 10 (CHR ''.'' # s)" "stops 10 (CHR '':'' # s)" "stops 16 (CHR '':'' # s)"
  by (auto simp: stops_def to_digit_def)

lemma read_octet_0: "n < 256 \<Longrightarrow> stops 10 rest \<Longrightarrow> read_octet 0 (show_nat n @ rest) = Some (n, rest)"
  by (simp add: read_octet_def read_separator_def read_number_show_nat)

lemma read_octet_Suc:
  "n < 256 \<Longrightarrow> stops 10 rest \<Longrightarrow> read_octet (Suc i) (CHR ''.'' # show_nat n @ rest) = Some (n, rest)"
  by (simp add: read_octet_def read_separator_def read_number_show_nat)

lemma read_ipv4_show_v4:
  "stops 10 rest \<Longrightarrow>
   read_ipv4_addr (show_v4 a b c d @ rest) = Some ((unat a, unat b, unat c, unat d), rest)"
  using read_octet_Suc [of _ _ 0] read_octet_Suc [of _ _ 1] read_octet_Suc [of _ _ 2]
  by (simp add: read_ipv4_addr_def show_v4_def read_octet_0 unat_u8_less numeral_2_eq_2 numeral_3_eq_3)

text \<open>A text whose leading decimal digits are not followed by a full stop is no IPv4 address.\<close>

lemma digits_loop_rest:
  "digits_loop radix m v count s = Some (v', n, rest) \<Longrightarrow> \<exists>p. s = p @ rest \<and> digits radix p \<and> stops radix rest"
proof (induction s arbitrary: v count)
  case Nil
  then show ?case by (auto simp: digits_def intro: exI [of _ "[]"])
next
  case (Cons c s)
  show ?case
  proof (cases "to_digit radix c")
    case None
    then show ?thesis using Cons.prems by (auto simp: digits_def stops_def intro: exI [of _ "[]"])
  next
    case (Some d)
    then obtain p where "s = p @ rest" "digits radix p" "stops radix rest"
      using Cons.IH [of "v * radix + d" "count + 1"] Cons.prems by (auto split: if_splits)
    then show ?thesis using Some by (auto simp: digits_def intro!: exI [of _ "c # p"])
  qed
qed

definition no_dot :: "string \<Rightarrow> bool" where
  "no_dot s \<longleftrightarrow> (\<nexists>p rest. s = p @ CHR ''.'' # rest \<and> digits 10 p)"

lemma read_ipv4_no_dot: "no_dot s \<Longrightarrow> read_ipv4_addr s = None"
proof (rule ccontr)
  assume s: "no_dot s" "read_ipv4_addr s \<noteq> None"
  then obtain a rest where o: "read_octet 0 s = Some (a, rest)" "read_octet 1 rest \<noteq> None"
    by (auto simp: read_ipv4_addr_def Option.bind_eq_Some_conv split: prod.splits)
  obtain p where "s = p @ rest" "digits 10 p"
    using o(1) digits_loop_rest [of 10 3 0 0 s]
    by (auto simp: read_octet_def read_separator_def read_number_def split: option.splits if_splits)
  moreover obtain r where "rest = CHR ''.'' # r"
    using o(2) by (cases rest) (auto simp: read_octet_def read_separator_def split: if_splits)
  ultimately show False using s by (auto simp: no_dot_def)
qed

lemma not_digit_char [simp]: "to_digit radix CHR ''.'' = None" "to_digit radix CHR '':'' = None"
  by (auto simp: to_digit_def)

lemma digits_no_dot: "digits radix s \<Longrightarrow> CHR ''.'' \<notin> set s"
  by (auto simp: digits_def)

lemma no_dot_hex:
  assumes "digits 16 s"
  shows "no_dot (s @ CHR '':'' # rest)" "no_dot s"
proof -
  have "False" if "s @ CHR '':'' # rest = p @ CHR ''.'' # q" "digits 10 p" for p q
  proof -
    have "CHR '':'' \<notin> set p" using that(2) by (auto simp: digits_def)
    then show False using that(1) digits_no_dot [OF assms] by (auto simp: append_eq_append_conv2 append_eq_Cons_conv Cons_eq_append_conv)
  qed
  then show "no_dot (s @ CHR '':'' # rest)" by (auto simp: no_dot_def)
  show "no_dot s" using digits_no_dot [OF assms] by (auto simp: no_dot_def)
qed

text \<open>Text that follows a list of printed groups: the end, or the double colon.\<close>

definition group_end :: "string \<Rightarrow> bool" where
  "group_end r \<longleftrightarrow> r = [] \<or> (\<exists>s. r = CHR '':'' # CHR '':'' # s)"

definition tail_groups :: "u16 list \<Rightarrow> string" where
  "tail_groups gs = concat (map (\<lambda>g. CHR '':'' # show_hex (unat g)) gs)"

lemma show_groups_Cons: "show_groups (g # gs) = show_hex (unat g) @ tail_groups gs"
  by (induction gs arbitrary: g) (simp_all add: tail_groups_def)

lemma colon_not_number [simp]:
  "read_number 16 4 True b (CHR '':'' # s) = None" "read_number 16 4 True b [] = None"
  by (simp_all add: read_number_def)

lemma colon_not_ipv4 [simp]: "read_ipv4_addr (CHR '':'' # s) = None" "read_ipv4_addr [] = None"
  using no_dot_hex [of "[]"] read_ipv4_no_dot by (auto simp: digits_def)

lemma tail_groups_head:
  assumes "group_end r"
  shows "tail_groups gs @ r = [] \<or> (\<exists>s. tail_groups gs @ r = CHR '':'' # s)"
  using assms by (cases gs) (auto simp: tail_groups_def group_end_def)

lemma read_group:
  assumes "X = [] \<or> (\<exists>s. X = CHR '':'' # s)"
  shows "read_ipv4_addr (show_hex (unat g) @ X) = None"
    "read_number 16 4 True 65536 (show_hex (unat (g :: u16)) @ X) = Some (unat g, X)"
proof -
  have d: "digits 16 (show_hex (unat g))" using show_hex_digits by blast
  have "no_dot (show_hex (unat g) @ X)" using assms no_dot_hex [OF d] by auto
  then show "read_ipv4_addr (show_hex (unat g) @ X) = None" by (rule read_ipv4_no_dot)
  have "stops 16 X" using assms by auto
  then show "read_number 16 4 True 65536 (show_hex (unat g) @ X) = Some (unat g, X)"
    by (simp add: read_number_show_hex unat_u16_less)
qed

lemma read_groups_end: "group_end r \<Longrightarrow> read_groups n i r = ([], False, r)"
  by (cases n) (auto simp: group_end_def read_separator_def)

lemma read_groups_tail:
  "group_end r \<Longrightarrow> length gs \<le> n \<Longrightarrow>
   read_groups n (Suc i) (tail_groups gs @ r) = (map unat gs, False, r)"
proof (induction gs arbitrary: n i)
  case Nil
  then show ?case by (simp add: tail_groups_def read_groups_end)
next
  case (Cons g gs)
  then obtain k where n: "n = Suc k" "length gs \<le> k" by (cases n) auto
  have "tail_groups (g # gs) @ r = CHR '':'' # show_hex (unat g) @ (tail_groups gs @ r)"
    by (simp add: tail_groups_def)
  then show ?case using n Cons read_group [OF tail_groups_head [OF Cons.prems(1)], of g gs]
    by (cases "k = 0") (auto simp: read_separator_def tail_groups_def)
qed

lemma read_groups_show:
  assumes "group_end r" "length gs \<le> n"
  shows "read_groups n 0 (show_groups gs @ r) = (map unat gs, False, r)"
proof (cases gs)
  case Nil
  then show ?thesis using assms by (simp add: read_groups_end)
next
  case (Cons g gs')
  then obtain k where n: "n = Suc k" "length gs' \<le> k" using assms by (cases n) auto
  show ?thesis
    using n read_groups_tail [OF assms(1) n(2)] read_group [OF tail_groups_head [OF assms(1)], of g gs']
    by (cases "k = 0") (auto simp: read_separator_def Cons show_groups_Cons tail_groups_def)
qed

lemma zero_span_bound:
  assumes "fst cur + snd cur = i \<or> snd cur = 0" "fst lg + snd lg \<le> i"
  shows "(case zero_span i cur lg gs of (st, zl) \<Rightarrow> st + zl \<le> i + length gs)"
  using assms
proof (induction gs arbitrary: i cur lg)
  case Nil
  then show ?case by auto
next
  case (Cons g gs)
  show ?case
  proof (cases "g = 0")
    case True
    define cur' where "cur' = (if snd cur = 0 then i else fst cur, snd cur + 1)"
    define lg' where "lg' = (if snd cur' > snd lg then cur' else lg)"
    have "fst cur' + snd cur' = i + 1" using Cons.prems by (auto simp: cur'_def)
    moreover have "fst lg' + snd lg' \<le> i + 1" using calculation Cons.prems by (auto simp: lg'_def)
    ultimately have "(case zero_span (i + 1) cur' lg' gs of (st, zl) \<Rightarrow> st + zl \<le> i + 1 + length gs)"
      by (intro Cons.IH) auto
    moreover have "zero_span i cur lg (g # gs) = zero_span (i + 1) cur' lg' gs"
      using True by (simp add: cur'_def lg'_def Let_def)
    ultimately show ?thesis by simp
  next
    case False
    then show ?thesis using Cons.IH [of "(0, 0)" "i + 1" lg] Cons.prems by simp
  qed
qed

lemma read_ipv6_full:
  "length gs = 8 \<Longrightarrow> read_ipv6_addr (show_groups gs) = Some (map unat gs, [])"
  using read_groups_show [of "[]" gs 8] by (simp add: read_ipv6_addr_def group_end_def)

lemma read_ipv6_short:
  assumes "length h + length t \<le> 7"
  shows "\<exists>v. read_ipv6_addr (show_groups h @ ''::'' @ show_groups t) = Some (v, [])"
  using read_groups_show [of "CHR '':'' # CHR '':'' # show_groups t" h 8]
    read_groups_show [of "[]" t "8 - (length h + 1)"] assms
  by (simp add: read_ipv6_addr_def group_end_def Let_def)

lemma read_ipv6_mapped: "\<exists>v. read_ipv6_addr (''::ffff:'' @ show_v4 a b c d) = Some (v, [])"
proof -
  have f: "show_hex (unat (0xffff :: u16)) = ''ffff''"
    by (simp add: show_hex.simps hex_digit_def char_of_eq_iff take_bit_eq_mod)
  have v: "read_ipv4_addr (show_v4 a b c d) = Some ((unat a, unat b, unat c, unat d), [])"
    using read_ipv4_show_v4 [of "[]"] by simp
  define T where "T = CHR '':'' # show_v4 a b c d"
  have T: "read_groups 6 1 T = ([unat a * 256 + unat b, unat c * 256 + unat d], True, [])"
    using v by (simp add: T_def read_separator_def numeral_eq_Suc)
  have g: "read_ipv4_addr (''ffff'' @ T) = None" "read_number 16 4 True 65536 (''ffff'' @ T) = Some (0xffff, T)"
    using read_group [of T "0xffff"] f by (simp_all add: T_def)
  have "read_groups (Suc 6) 0 (''ffff'' @ T) = (0xffff # [unat a * 256 + unat b, unat c * 256 + unat d], True, [])"
    using g T by (simp only: read_groups.simps(2) read_separator_def) simp
  then have "read_groups 7 0 (''ffff'' @ T) = (0xffff # [unat a * 256 + unat b, unat c * 256 + unat d], True, [])"
    by (simp only: numeral_eq_Suc) simp
  moreover have "read_groups 8 0 (''::ffff'' @ T) = ([], False, ''::ffff'' @ T)"
    by (rule read_groups_end) (simp add: group_end_def)
  ultimately show ?thesis by (simp add: read_ipv6_addr_def T_def)
qed

lemma show_groups_not_ipv4:
  "group_end r \<Longrightarrow> read_ipv4_addr (show_groups gs @ r) = None"
  using read_group(1) [OF tail_groups_head, of r] by (cases gs) (auto simp: show_groups_Cons group_end_def)

lemma show_v6_parses:
  assumes "length segs = 8"
  shows "read_ipv4_addr (show_ip (V6 segs)) = None \<and> (\<exists>v. read_ipv6_addr (show_ip (V6 segs)) = Some (v, []))"
proof (cases "to_ipv4_mapped segs")
  case (Some q)
  then show ?thesis using read_ipv6_mapped by (cases q) simp
next
  case None
  obtain st zl where z: "zero_span 0 (0, 0) (0, 0) segs = (st, zl)" by fastforce
  then have b: "st + zl \<le> 8" using zero_span_bound [of "(0, 0)" 0 "(0, 0)" segs] assms by simp
  show ?thesis
  proof (cases "zl > 1")
    case True
    have "length (take st segs) + length (drop (st + zl) segs) \<le> 7" using True b assms by simp
    moreover have "show_ip (V6 segs) = show_groups (take st segs) @ ''::'' @ show_groups (drop (st + zl) segs)"
      using None True z by simp
    ultimately show ?thesis using read_ipv6_short show_groups_not_ipv4 by (simp add: group_end_def)
  next
    case False
    have "show_ip (V6 segs) = show_groups segs" using None False z by simp
    then show ?thesis using read_ipv6_full [OF assms] show_groups_not_ipv4 [of "[]" segs]
      by (simp add: group_end_def)
  qed
qed

lemma parse_ip_display:
  assumes "ip_wf ip"
  shows "\<exists>ip'. parse_ip (show_ip ip) = Some ip' \<and> is_v4 ip' = is_v4 ip"
proof (cases ip)
  case (V4 a b c d)
  then show ?thesis using read_ipv4_show_v4 [of "[]" a b c d] by (simp add: parse_ip_def read_ip_addr_def)
next
  case (V6 segs)
  then show ?thesis using show_v6_parses [of segs] assms by (auto simp: parse_ip_def read_ip_addr_def)
qed

end
