(* ===== verification/Carrier_Stream.thy ===== *)
theory Carrier_Stream
  imports Net_Addr "HOL-Library.Sublist"
begin

text \<open>
  The stream carrier of \<open>src/src/carrier/mod.rs\<close>: messages on a TCP connection carry a two-byte
  length, and the reader reassembles them from whatever chunks the socket returns. A connection
  is the list of chunks that successive \<open>read\<close> calls return, an empty chunk being end of file;
  a reader that runs out of chunks is waiting. Sockets and \<open>async\<close> scheduling are not modelled.
\<close>

subsection \<open>The carriers\<close>

datatype io_error = InvalidInput string | UnexpectedEof string

datatype carrier_kind = UdpCarrier | TcpCarrier

fun carrier_name :: "carrier_kind \<Rightarrow> string" where
  "carrier_name UdpCarrier = ''udp''"
| "carrier_name TcpCarrier = ''tcp''"

fun preserves_boundaries :: "carrier_kind \<Rightarrow> bool" where
  "preserves_boundaries UdpCarrier = True"
| "preserves_boundaries TcpCarrier = False"

fun supports_roaming :: "carrier_kind \<Rightarrow> bool" where
  "supports_roaming UdpCarrier = preserves_boundaries UdpCarrier"
| "supports_roaming TcpCarrier = False"

definition KNOWN_CARRIERS :: "string list" where "KNOWN_CARRIERS = [''udp'', ''tcp'']"

definition is_known_carrier :: "string \<Rightarrow> bool" where
  "is_known_carrier name \<longleftrightarrow> name \<in> set KNOWN_CARRIERS"

text \<open>The \<open>Debug\<close> format of a string; bytes beyond ASCII are printed as they are.\<close>

definition escape_char :: "char \<Rightarrow> string" where
  "escape_char c = (let n = of_char c :: nat in
     if n = 0 then [CHR 0x5C, CHR ''0'']
     else if n = 9 then [CHR 0x5C, CHR ''t'']
     else if n = 10 then [CHR 0x5C, CHR ''n'']
     else if n = 13 then [CHR 0x5C, CHR ''r'']
     else if n = 34 \<or> n = 92 then [CHR 0x5C, c]
     else if n < 32 \<or> n = 127 then [CHR 0x5C] @ ''u{'' @ show_hex n @ ''}''
     else [c])"

definition debug_string :: "string \<Rightarrow> string" where
  "debug_string s = [CHR 0x22] @ concat (map escape_char s) @ [CHR 0x22]"

definition unknown_carrier :: "string \<Rightarrow> io_error" where
  "unknown_carrier name =
     InvalidInput (''unknown carrier '' @ debug_string name @ ''; this build implements udp, tcp'')"

subsection \<open>Framing\<close>

definition STREAM_LEN_PREFIX :: nat where "STREAM_LEN_PREFIX = 2"
definition STREAM_MAX_MESSAGE :: nat where "STREAM_MAX_MESSAGE = 65535"

text \<open>What \<open>TcpCarrier::send\<close> writes to the connection.\<close>

definition tcp_send :: "bytes \<Rightarrow> io_error + bytes" where
  "tcp_send data =
     (if length data > STREAM_MAX_MESSAGE
      then Inl (InvalidInput ''message exceeds the stream carrier limit'')
      else Inr (to_be_bytes16 (of_nat (length data)) @ data))"

text \<open>\<open>take_message\<close>: the message and the bytes left in the buffer.\<close>

definition take_message :: "bytes \<Rightarrow> bytes option \<times> bytes" where
  "take_message buf =
     (if length buf < STREAM_LEN_PREFIX then (None, buf)
      else let len = unat (from_be_bytes16 (buf ! 0) (buf ! 1))
        in if len = 0 then (None, buf)
           else if length buf < STREAM_LEN_PREFIX + len then (None, buf)
           else (Some (slice STREAM_LEN_PREFIX (STREAM_LEN_PREFIX + len) buf),
                 drop (STREAM_LEN_PREFIX + len) buf))"

text \<open>\<open>read_message\<close>: the result (\<open>None\<close> while waiting), the leftover and the chunks not read.\<close>

fun read_message :: "bytes \<Rightarrow> bytes list \<Rightarrow> (io_error + bytes) option \<times> bytes \<times> bytes list" where
  "read_message leftover [] =
     (case take_message leftover of
        (Some msg, rest) \<Rightarrow> (Some (Inr msg), rest, [])
      | (None, _) \<Rightarrow> (None, leftover, []))"
| "read_message leftover (chunk # chunks) =
     (case take_message leftover of
        (Some msg, rest) \<Rightarrow> (Some (Inr msg), rest, chunk # chunks)
      | (None, _) \<Rightarrow>
          if chunk = []
          then (Some (Inl (UnexpectedEof (if leftover = [] then ''carrier closed''
                  else ''carrier closed mid-message''))), leftover, chunks)
          else read_message (leftover @ chunk) chunks)"

text \<open>One framed message.\<close>

definition framed :: "bytes \<Rightarrow> bytes" where
  "framed msg = to_be_bytes16 (of_nat (length msg)) @ msg"

definition sendable :: "bytes \<Rightarrow> bool" where
  "sendable msg \<longleftrightarrow> msg \<noteq> [] \<and> length msg \<le> STREAM_MAX_MESSAGE"

lemma take_message_Cons2:
  "take_message (a # b # t) =
     (let len = unat (from_be_bytes16 a b)
      in if len = 0 \<or> length t < len then (None, a # b # t) else (Some (take len t), drop len t))"
  by (simp add: take_message_def STREAM_LEN_PREFIX_def Let_def slice_def)

lemma take_message_framed [simp]: "sendable msg \<Longrightarrow> take_message (framed msg @ rest) = (Some msg, rest)"
  by (simp add: framed_def to_be_bytes16_def take_message_Cons2 sendable_def STREAM_MAX_MESSAGE_def)

lemma take_message_Some:
  assumes "take_message buf = (Some msg, rest)"
  shows "buf = framed msg @ rest" "sendable msg"
proof -
  obtain a b t where buf: "buf = a # b # t"
    using assms by (cases buf; cases "tl buf") (auto simp: take_message_def STREAM_LEN_PREFIX_def)
  define len where "len = unat (from_be_bytes16 a b)"
  have m: "len \<noteq> 0" "len \<le> length t" "msg = take len t" "rest = drop len t"
    using assms by (auto simp: buf take_message_Cons2 len_def Let_def split: if_splits)
  have "len < 65536" by (simp add: len_def unat_u16_less)
  then show "sendable msg" using m by (auto simp: sendable_def STREAM_MAX_MESSAGE_def)
  have "of_nat (length msg) = from_be_bytes16 a b" using m by (simp add: len_def)
  then show "buf = framed msg @ rest" using m by (simp add: framed_def buf)
qed

lemma read_message_Some:
  "read_message lo cs = (Some (Inr msg), lo', cs') \<Longrightarrow>
   sendable msg \<and> lo @ concat cs = framed msg @ lo' @ concat cs'"
proof (induction lo cs rule: read_message.induct)
  case (1 lo)
  then show ?case
    by (auto split: prod.splits option.splits dest: take_message_Some)
next
  case (2 lo c cs)
  obtain m rest where tm: "take_message lo = (m, rest)" by (cases "take_message lo")
  then show ?case
    using 2 by (cases m) (auto split: if_splits dest: take_message_Some)
qed

lemma read_message_less:
  "(Some (Inr msg), lo', cs') = read_message lo cs \<Longrightarrow>
   length (lo' @ concat cs') < length (lo @ concat cs)"
  using read_message_Some [of lo cs msg lo' cs'] by (simp add: sendable_def framed_def)

text \<open>All messages that can be received before the reader waits or the connection ends.\<close>

function recv_all :: "bytes \<Rightarrow> bytes list \<Rightarrow> bytes list" where
  "recv_all leftover chunks =
     (case read_message leftover chunks of
        (Some (Inr msg), leftover', chunks') \<Rightarrow> msg # recv_all leftover' chunks'
      | _ \<Rightarrow> [])"
  by auto
termination
  by (relation "measure (\<lambda>(lo, cs). length (lo @ concat cs))") (auto dest: read_message_less)

declare recv_all.simps [simp del]

subsection \<open>Reassembly\<close>

text \<open>A reader whose stream starts with a complete message returns it, whatever the chunks.\<close>

lemma read_message_complete:
  assumes "sendable msg" "lo @ concat cs = framed msg @ rest" "[] \<notin> set cs"
  shows "\<exists>lo' cs'. read_message lo cs = (Some (Inr msg), lo', cs') \<and> lo' @ concat cs' = rest \<and> [] \<notin> set cs'"
  using assms
proof (induction lo cs rule: read_message.induct)
  case (1 lo)
  then show ?case by simp
next
  case (2 lo c cs)
  show ?case
  proof (cases "take_message lo")
    case (Pair m r)
    show ?thesis
    proof (cases m)
      case None
      then show ?thesis using 2 Pair by auto
    next
      case (Some m')
      have lo: "lo = framed m' @ r" "sendable m'" using take_message_Some [of lo m' r] Pair Some by auto
      have "take_message (lo @ c @ concat cs) = (Some m', r @ c @ concat cs)" using lo by simp
      moreover have "take_message (lo @ c @ concat cs) = (Some msg, rest)" using 2(2,3) by simp
      ultimately show ?thesis using 2(4) Pair Some by auto
    qed
  qed
qed

lemma read_message_incomplete:
  assumes "take_message (lo @ concat cs) = (None, x)"
  shows "\<nexists>msg lo' cs'. read_message lo cs = (Some (Inr msg), lo', cs')"
proof clarify
  fix msg lo' cs' assume "read_message lo cs = (Some (Inr msg), lo', cs')"
  then show False using assms read_message_Some [of lo cs msg lo' cs'] by simp
qed

lemma recv_all_framed:
  "\<forall>m \<in> set ms. sendable m \<Longrightarrow> lo @ concat cs = concat (map framed ms) @ tl_bytes \<Longrightarrow> [] \<notin> set cs \<Longrightarrow>
   \<exists>lo' cs'. recv_all lo cs = ms @ recv_all lo' cs' \<and> lo' @ concat cs' = tl_bytes"
proof (induction ms arbitrary: lo cs)
  case (Cons m ms)
  obtain lo1 cs1 where r: "read_message lo cs = (Some (Inr m), lo1, cs1)"
    "lo1 @ concat cs1 = concat (map framed ms) @ tl_bytes" "[] \<notin> set cs1"
    using read_message_complete [of m lo cs "concat (map framed ms) @ tl_bytes"] Cons.prems by auto
  then show ?case using Cons.IH [OF _ r(2,3)] Cons.prems(1) by (simp add: recv_all.simps [of lo cs])
qed auto

lemma recv_all_stuck: "take_message (lo @ concat cs) = (None, x) \<Longrightarrow> recv_all lo cs = []"
  using read_message_incomplete [of lo cs x]
  by (subst recv_all.simps) (auto split: prod.splits option.splits sum.splits)

lemma take_message_partial:
  assumes "sendable m" "strict_prefix p (framed m)"
  shows "take_message p = (None, p)"
proof (cases "take_message p")
  case (Pair r rest)
  show ?thesis
  proof (cases r)
    case None
    then show ?thesis using Pair by (auto simp: take_message_def Let_def split: if_splits)
  next
    case (Some m')
    then have p: "p = framed m' @ rest" "sendable m'" using take_message_Some [of p m' rest] Pair by auto
    obtain q where q: "framed m = p @ q" "q \<noteq> []" using assms(2) by (auto elim: strict_prefixE')
    have "take_message (framed m @ []) = (Some m', rest @ q)" using p q by simp
    moreover have "take_message (framed m @ []) = (Some m, [])" using assms(1) by (rule take_message_framed)
    ultimately show ?thesis using q(2) by simp
  qed
qed

lemma stream_prefix_cases:
  "prefix b (concat (map framed ms)) \<Longrightarrow>
   \<exists>ms1 ms2 p. ms = ms1 @ ms2 \<and> b = concat (map framed ms1) @ p \<and>
     (case ms2 of [] \<Rightarrow> p = [] | m # _ \<Rightarrow> strict_prefix p (framed m))"
proof (induction ms arbitrary: b)
  case (Cons m ms)
  show ?case
  proof (cases "strict_prefix b (framed m)")
    case True
    then show ?thesis by (intro exI [of _ "[]"] exI [of _ "m # ms"] exI [of _ b]) simp
  next
    case False
    then obtain b' where b: "b = framed m @ b'"
      using Cons.prems by (auto simp: prefix_append strict_prefix_def)
    then have "prefix b' (concat (map framed ms))" using Cons.prems by simp
    from Cons.IH [OF this] obtain ms1 ms2 p where "ms = ms1 @ ms2" "b' = concat (map framed ms1) @ p"
      "case ms2 of [] \<Rightarrow> p = [] | m # _ \<Rightarrow> strict_prefix p (framed m)" by blast
    then show ?thesis using b by (intro exI [of _ "m # ms1"] exI [of _ ms2] exI [of _ p]) simp
  qed
qed simp

lemma recv_all_prefix:
  assumes "\<forall>m \<in> set ms. sendable m" "[] \<notin> set cs" "ms = ms1 @ ms2" "concat cs = concat (map framed ms1) @ p"
    "case ms2 of [] \<Rightarrow> p = [] | m # _ \<Rightarrow> strict_prefix p (framed m)"
  shows "recv_all [] cs = ms1"
proof -
  obtain lo' cs' where r: "recv_all [] cs = ms1 @ recv_all lo' cs'" "lo' @ concat cs' = p"
    using recv_all_framed [of ms1 "[]" cs p] assms by auto
  have "take_message p = (None, p)"
  proof (cases ms2)
    case Nil
    then show ?thesis using assms(5) by (simp add: take_message_def STREAM_LEN_PREFIX_def)
  next
    case (Cons m l)
    then show ?thesis using assms take_message_partial [of m p] by simp
  qed
  then show ?thesis using r recv_all_stuck [of lo' cs'] by simp
qed

lemma tcp_send_framed:
  "[] \<notin> set ms \<Longrightarrow> map tcp_send ms = map Inr ws \<Longrightarrow> ws = map framed ms \<and> (\<forall>m \<in> set ms. sendable m)"
proof (induction ms arbitrary: ws)
  case (Cons m ms)
  then show ?case
    by (cases ws) (auto simp: tcp_send_def framed_def sendable_def split: if_splits)
qed simp

subsection \<open>Properties\<close>

text \<open>C17. The stream carrier reassembles messages: send any non-empty messages that \<open>send\<close>
  accepts, and let any part of the stream arrive, cut into chunks in any way. Then the messages
  received are a prefix of those sent, and every sent message whose bytes have all arrived is
  among them.\<close>

theorem tcp_reassembles:
  assumes "[] \<notin> set ms" "map tcp_send ms = map Inr ws" "prefix (concat chunks) (concat ws)" "[] \<notin> set chunks"
  shows "prefix (recv_all [] chunks) ms \<and>
    (\<forall>n. n \<le> length ms \<longrightarrow> length (concat (take n ws)) \<le> length (concat chunks) \<longrightarrow>
       prefix (take n ms) (recv_all [] chunks))"
proof -
  have ws: "ws = map framed ms" "\<forall>m \<in> set ms. sendable m" using tcp_send_framed [OF assms(1,2)] by auto
  then obtain ms1 ms2 p where d: "ms = ms1 @ ms2" "concat chunks = concat (map framed ms1) @ p"
    "case ms2 of [] \<Rightarrow> p = [] | m # _ \<Rightarrow> strict_prefix p (framed m)"
    using stream_prefix_cases [of "concat chunks" ms] assms(3) by blast
  have r: "recv_all [] chunks = ms1" by (rule recv_all_prefix [OF ws(2) assms(4) d])
  have "prefix (take n ms) ms1"
    if le: "n \<le> length ms" "length (concat (take n ws)) \<le> length (concat chunks)" for n
  proof (rule ccontr)
    assume "\<not> prefix (take n ms) ms1"
    then have n: "length ms1 < n" using d(1) by (auto simp: take_is_prefix not_le [symmetric])
    then obtain m l where m: "ms2 = m # l" using d(1) le(1) by (cases ms2) auto
    have "take n ws = map framed ms1 @ framed m # take (n - length ms1 - 1) (map framed l)"
      using n m d(1) ws(1) by (cases "n - length ms1") (simp_all add: take_map)
    moreover have "length p < length (framed m)" using d(3) m by (simp add: prefix_length_less)
    ultimately show False using le(2) d(2) by simp
  qed
  then show ?thesis using r d(1) by simp
qed

theorem tcp_reassembles_witness:
  "prefix [[7, 8], [9]] (recv_all [] [[0], [2, 7], [8, 0, 1], [9, 0]])"
proof -
  have "prefix (take 2 [[7, 8], [9], [5, 5]]) (recv_all [] [[0], [2, 7], [8, 0, 1], [9, 0]])"
    by (rule tcp_reassembles [of _ "[[0, 2, 7, 8], [0, 1, 9], [0, 2, 5, 5]]", THEN conjunct2, rule_format])
      (simp_all add: tcp_send_def STREAM_MAX_MESSAGE_def to_be_bytes16_def)
  then show ?thesis by (simp add: numeral_2_eq_2)
qed

text \<open>An empty message is accepted by \<open>send\<close> and ends reception: it is never delivered and
  never removed from the buffer, so no later message on that connection is received.\<close>

theorem tcp_empty_message_stalls:
  assumes "tcp_send [] = Inr w" "concat chunks = w @ rest"
  shows "recv_all [] chunks = []"
proof -
  have w: "w = [0, 0]" using assms(1) by (simp add: tcp_send_def to_be_bytes16_def)
  have "take_message ([] @ concat chunks) = (None, 0 # 0 # rest)"
    by (simp add: assms(2) w take_message_Cons2 from_be_bytes16_def)
  then show ?thesis by (rule recv_all_stuck)
qed

theorem tcp_empty_message_stalls_witness: "recv_all [] [[0, 0], [0, 1, 42]] = []"
  using tcp_empty_message_stalls [of "[0, 0]" "[[0, 0], [0, 1, 42]]" "[0, 1, 42]"]
  by (simp add: tcp_send_def to_be_bytes16_def)

end
