(* ===== verification/Session_State.thy ===== *)
theory Session_State
  imports Packet_Header
begin

text \<open>
  Session bookkeeping of \<open>src/src/protocol/session.rs\<close>: the session id derived from the
  handshake hash, the sliding replay window, the selective-ack tracker, and the session
  record with its sequence counter, and the AEAD nonce construction of
  \<open>src/src/crypto/aead.rs\<close> that the sequence numbers feed. All integers keep their width.
  The replay window refines a specification over the set of all sequence numbers ever
  accepted; the ack tracker and \<open>peer_acked\<close> together form a sound acknowledgement channel.
\<close>

subsection \<open>Session identity\<close>

definition session_id_from_hash :: "bytes \<Rightarrow> session_id" where
  "session_id_from_hash h =
     (let i = foldl (\<lambda>i b. push_bit 8 i OR ucast b) 0 (take 4 h)
      in if i = 0 then 1 else i)"

datatype session_role = Initiator | Responder

subsection \<open>The replay window\<close>

record replay_window =
  rw_highest :: u32
  rw_bits :: u64

definition WINDOW :: u32 where "WINDOW = 64"

definition rw_new :: replay_window where
  "rw_new = \<lparr>rw_highest = 0, rw_bits = 0\<rparr>"

definition check_and_record :: "u32 \<Rightarrow> replay_window \<Rightarrow> bool \<times> replay_window" where
  "check_and_record s w =
     (if s = 0 then (False, w)
      else if rw_highest w < s then
        let shift = s - rw_highest w;
            bits = (if WINDOW \<le> shift then 0 else push_bit (unat shift) (rw_bits w))
        in (True, \<lparr>rw_highest = s, rw_bits = bits OR 1\<rparr>)
      else
        let back = rw_highest w - s
        in if WINDOW \<le> back then (False, w)
           else
             let mask = push_bit (unat back) (1 :: u64)
             in if rw_bits w AND mask \<noteq> 0 then (False, w)
                else (True, w\<lparr>rw_bits := rw_bits w OR mask\<rparr>))"

definition next_expected :: "replay_window \<Rightarrow> u32" where
  "next_expected w = rw_highest w + 1"

subsection \<open>The ack tracker\<close>

record ack_tracker =
  at_anchor :: u32
  at_bitmap :: u32

definition at_default :: ack_tracker where
  "at_default = \<lparr>at_anchor = 0, at_bitmap = 0\<rparr>"

text \<open>\<open>u32::MAX >> 1\<close>.\<close>

definition U32_HALF :: u32 where "U32_HALF = drop_bit 1 (- 1)"

definition record_ack :: "u32 \<Rightarrow> ack_tracker \<Rightarrow> ack_tracker" where
  "record_ack s a =
     (if s = 0 then a
      else if at_anchor a = 0 then a\<lparr>at_anchor := s\<rparr>
      else
        let advance = s - at_anchor a
        in if advance = 0 then a
           else if advance \<le> U32_HALF then
             let b = (if 32 \<le> advance then 0 else push_bit (unat advance) (at_bitmap a));
                 b = (if advance \<le> 32 then b OR push_bit (unat (advance - 1)) 1 else b)
             in \<lparr>at_anchor = s, at_bitmap = b\<rparr>
           else
             let back = at_anchor a - s
             in if 1 \<le> back \<and> back \<le> 32
                then a\<lparr>at_bitmap := at_bitmap a OR push_bit (unat (back - 1)) 1\<rparr>
                else a)"

definition snapshot :: "ack_tracker \<Rightarrow> u32 \<times> u32" where
  "snapshot a = (at_anchor a, at_bitmap a)"

subsection \<open>The session\<close>

record session =
  ss_id :: session_id
  ss_role :: session_role
  ss_next_seq :: u32
  ss_replay :: replay_window
  ss_ack :: ack_tracker
  ss_peer_ack :: u32
  ss_peer_bitmap :: u32

definition session_new :: "session_id \<Rightarrow> session_role \<Rightarrow> session" where
  "session_new i r =
     \<lparr>ss_id = i, ss_role = r, ss_next_seq = 1, ss_replay = rw_new, ss_ack = at_default,
      ss_peer_ack = 0, ss_peer_bitmap = 0\<rparr>"

definition alloc_seq :: "session \<Rightarrow> u32 \<times> session" where
  "alloc_seq s = (ss_next_seq s, s\<lparr>ss_next_seq := ss_next_seq s + 1\<rparr>)"

definition observe_acks :: "u32 \<Rightarrow> u32 \<Rightarrow> session \<Rightarrow> session" where
  "observe_acks ack bitmap s = s\<lparr>ss_peer_ack := ack, ss_peer_bitmap := bitmap\<rparr>"

definition peer_acked :: "session \<Rightarrow> u32 \<Rightarrow> bool" where
  "peer_acked s n =
     (if n = 0 \<or> ss_peer_ack s = 0 then False
      else if n = ss_peer_ack s then True
      else
        let back = ss_peer_ack s - n
        in if 1 \<le> back \<and> back \<le> 32
           then drop_bit (unat (back - 1)) (ss_peer_bitmap s) AND 1 = 1
           else False)"

definition receive_reliable :: "u32 \<Rightarrow> session \<Rightarrow> bool \<times> session" where
  "receive_reliable n s =
     (let (fresh, w) = check_and_record n (ss_replay s);
          s = s\<lparr>ss_replay := w\<rparr>
      in if fresh then (fresh, s\<lparr>ss_ack := record_ack n (ss_ack s)\<rparr>) else (fresh, s))"

definition ack_snapshot :: "session \<Rightarrow> u32 \<times> u32" where
  "ack_snapshot s = snapshot (ss_ack s)"

definition is_reliable_in :: "packet_type \<Rightarrow> bool" where
  "is_reliable_in p = is_reliable p"

subsection \<open>Nonces\<close>

datatype direction = InitiatorToResponder | ResponderToInitiator

fun direction_byte :: "direction \<Rightarrow> u8" where
  "direction_byte InitiatorToResponder = 0"
| "direction_byte ResponderToInitiator = 1"

definition make_nonce :: "session_id \<Rightarrow> u32 \<Rightarrow> direction \<Rightarrow> bytes" where
  "make_nonce sid s dir =
     (let n = replicate 12 0;
          n = copy_slice 0 (to_le_bytes32 sid) n;
          n = copy_slice 4 (to_le_bytes32 s) n
      in n[8 := direction_byte dir])"

subsection \<open>Runs\<close>

text \<open>Feeding a list of received sequence numbers, with the verdict for each.\<close>

fun rw_run :: "replay_window \<Rightarrow> u32 list \<Rightarrow> bool list \<times> replay_window" where
  "rw_run w [] = ([], w)"
| "rw_run w (s # ss) =
     (let (b, w') = check_and_record s w; (bs, w'') = rw_run w' ss in (b # bs, w''))"

definition record_all :: "u32 list \<Rightarrow> ack_tracker \<Rightarrow> ack_tracker" where
  "record_all ss a = fold record_ack ss a"

fun alloc_many :: "nat \<Rightarrow> session \<Rightarrow> u32 list \<times> session" where
  "alloc_many 0 s = ([], s)"
| "alloc_many (Suc n) s =
     (let (x, s') = alloc_seq s; (xs, s'') = alloc_many n s' in (x # xs, s''))"

subsection \<open>The replay window refines a set\<close>

text \<open>
  The specification keeps every accepted sequence number. A number is accepted when it is not
  the reserved zero, was never accepted before, and is less than 64 behind every accepted one.
\<close>

definition replay_spec :: "u32 list \<Rightarrow> u32 \<Rightarrow> bool" where
  "replay_spec acc s \<longleftrightarrow>
     s \<noteq> 0 \<and> s \<notin> set acc \<and> list_all (\<lambda>a. unat a < unat s + 64) acc"

fun replay_spec_run :: "u32 list \<Rightarrow> u32 list \<Rightarrow> bool list" where
  "replay_spec_run acc [] = []"
| "replay_spec_run acc (s # ss) =
     (if replay_spec acc s then True # replay_spec_run (s # acc) ss
      else False # replay_spec_run acc ss)"

text \<open>The coupling: bit \<open>i\<close> says whether \<open>highest - i\<close> was accepted.\<close>

definition rw_inv :: "replay_window \<Rightarrow> nat set \<Rightarrow> bool" where
  "rw_inv w A \<longleftrightarrow>
     (\<forall>i < 64. bit (rw_bits w) i \<longleftrightarrow> i < unat (rw_highest w) \<and> unat (rw_highest w) - i \<in> A)
     \<and> (\<forall>a \<in> A. 0 < a \<and> a \<le> unat (rw_highest w))
     \<and> (rw_highest w = 0 \<or> unat (rw_highest w) \<in> A)"

lemma rw_inv_new: "rw_inv rw_new {}"
  by (simp add: rw_inv_def rw_new_def)

lemma rw_inv_advance:
  assumes inv: "rw_inv w A" and adv: "rw_highest w < s"
  shows "fst (check_and_record s w) \<and> rw_inv (snd (check_and_record s w)) (insert (unat s) A)"
proof -
  define sh where "sh = unat (s - rw_highest w)"
  define b where "b = (if WINDOW \<le> s - rw_highest w then 0 else push_bit sh (rw_bits w))"
  have nz: "s \<noteq> 0" using adv by auto
  have sh: "unat s = unat (rw_highest w) + sh" "0 < sh"
    using adv by (auto simp: sh_def unat_sub word_less_nat_alt word_le_nat_alt)
  have chk: "check_and_record s w = (True, \<lparr>rw_highest = s, rw_bits = b OR 1\<rparr>)"
    using adv nz by (simp add: check_and_record_def b_def sh_def Let_def)
  have le: "a \<le> unat (rw_highest w)" "0 < a" if "a \<in> A" for a
    using inv that by (auto simp: rw_inv_def)
  have bits: "bit (rw_bits w) i \<longleftrightarrow> i < unat (rw_highest w) \<and> unat (rw_highest w) - i \<in> A"
    if "i < 64" for i using inv that by (auto simp: rw_inv_def)
  have "bit (b OR 1) i \<longleftrightarrow> i < unat s \<and> unat s - i \<in> insert (unat s) A" if i: "i < 64" for i
  proof (cases "i < sh")
    case True
    have "unat s - i \<notin> A \<or> i = 0" using True sh le [of "unat s - i"] by auto
    moreover have "\<not> bit b i" using True by (simp add: b_def bit_simps)
    ultimately show ?thesis using True sh by (auto simp: bit_simps)
  next
    case False
    then have "\<not> WINDOW \<le> s - rw_highest w"
      using i by (simp add: WINDOW_def word_le_nat_alt sh_def)
    then have "bit b i \<longleftrightarrow> bit (rw_bits w) (i - sh)"
      using False i by (simp add: b_def bit_simps)
    then show ?thesis using False i sh bits [of "i - sh"]
      by (auto simp: bit_simps)
  qed
  then show ?thesis using chk sh le by (fastforce simp: rw_inv_def)
qed

lemma rw_inv_behind:
  assumes inv: "rw_inv w A" and nz: "s \<noteq> 0" and beh: "\<not> rw_highest w < s"
  shows "fst (check_and_record s w) \<longleftrightarrow> unat s \<notin> A \<and> unat (rw_highest w) < unat s + 64"
    "fst (check_and_record s w) \<Longrightarrow> rw_inv (snd (check_and_record s w)) (insert (unat s) A)"
    "\<not> fst (check_and_record s w) \<Longrightarrow> snd (check_and_record s w) = w"
proof -
  define bk where "bk = unat (rw_highest w - s)"
  have bk: "unat (rw_highest w) = unat s + bk" "0 < unat s"
    using beh nz by (auto simp: bk_def unat_sub word_less_nat_alt word_le_nat_alt not_less
        unat_gt_0)
  have win: "WINDOW \<le> rw_highest w - s \<longleftrightarrow> 64 \<le> bk"
    by (simp add: WINDOW_def word_le_nat_alt bk_def)
  have chk: "check_and_record s w =
    (if 64 \<le> bk then (False, w)
     else if bit (rw_bits w) bk then (False, w)
     else (True, w\<lparr>rw_bits := rw_bits w OR push_bit bk 1\<rparr>))"
    using nz beh win by (simp add: check_and_record_def Let_def bk_def
        bit_iff_and_push_bit_not_eq_0)
  have bits: "bit (rw_bits w) i \<longleftrightarrow> i < unat (rw_highest w) \<and> unat (rw_highest w) - i \<in> A"
    if "i < 64" for i using inv that by (auto simp: rw_inv_def)
  show 1: "fst (check_and_record s w) \<longleftrightarrow> unat s \<notin> A \<and> unat (rw_highest w) < unat s + 64"
    using chk bk bits [of bk] by (auto split: if_splits)
  show "\<not> fst (check_and_record s w) \<Longrightarrow> snd (check_and_record s w) = w"
    using chk by (auto split: if_splits)
  assume acc: "fst (check_and_record s w)"
  then have w': "snd (check_and_record s w) = w\<lparr>rw_bits := rw_bits w OR push_bit bk 1\<rparr>"
    and "bk < 64" using chk 1 bk by (auto split: if_splits)
  have "bit (rw_bits w OR push_bit bk 1) i \<longleftrightarrow>
      i < unat (rw_highest w) \<and> unat (rw_highest w) - i \<in> insert (unat s) A" if "i < 64" for i
    using that bits [of i] bk by (auto simp: bit_simps)
  then show "rw_inv (snd (check_and_record s w)) (insert (unat s) A)"
    using inv w' bk by (auto simp: rw_inv_def)
qed

lemma check_and_record_refines:
  assumes "rw_inv w (unat ` set acc)"
  shows "fst (check_and_record s w) = replay_spec acc s"
    "rw_inv (snd (check_and_record s w)) (unat ` set (if replay_spec acc s then s # acc else acc))"
proof -
  have mem: "unat s \<in> unat ` set acc \<longleftrightarrow> s \<in> set acc"
    by (auto dest: unsigned_word_eqI)
  have le: "unat a \<le> unat (rw_highest w)" if "a \<in> set acc" for a
    using assms that by (auto simp: rw_inv_def)
  have top: "rw_highest w = 0 \<or> rw_highest w \<in> set acc"
    using assms by (auto simp: rw_inv_def dest: unsigned_word_eqI)
  consider (zero) "s = 0" | (adv) "rw_highest w < s" | (beh) "s \<noteq> 0" "\<not> rw_highest w < s"
    by blast
  then have "fst (check_and_record s w) = replay_spec acc s \<and>
    rw_inv (snd (check_and_record s w)) (unat ` set (if replay_spec acc s then s # acc else acc))"
  proof cases
    case zero
    then show ?thesis using assms by (simp add: check_and_record_def replay_spec_def)
  next
    case adv
    then have "replay_spec acc s"
      using le by (fastforce simp: replay_spec_def list_all_iff word_less_nat_alt)
    then show ?thesis using rw_inv_advance [OF assms adv] by simp
  next
    case beh
    have "unat (rw_highest w) < unat s + 64 \<longleftrightarrow> list_all (\<lambda>a. unat a < unat s + 64) acc"
      using le top by (fastforce simp: list_all_iff)
    then have "fst (check_and_record s w) = replay_spec acc s"
      using rw_inv_behind(1) [OF assms beh] beh mem by (simp add: replay_spec_def)
    then show ?thesis
      using rw_inv_behind(2,3) [OF assms beh] assms by auto
  qed
  then show "fst (check_and_record s w) = replay_spec acc s"
    "rw_inv (snd (check_and_record s w)) (unat ` set (if replay_spec acc s then s # acc else acc))"
    by blast+
qed

lemma rw_run_refines:
  "rw_inv w (unat ` set acc) \<Longrightarrow> fst (rw_run w ss) = replay_spec_run acc ss"
proof (induction ss arbitrary: w acc)
  case (Cons s ss)
  note step = check_and_record_refines [OF Cons.prems, of s]
  show ?case
    using step Cons.IH [OF step(2)]
    by (auto simp: Let_def split: prod.splits)
qed simp

lemma replay_spec_run_fresh:
  "j < length ss \<Longrightarrow> replay_spec_run acc ss ! j \<Longrightarrow>
   ss ! j \<notin> set acc \<and> (\<forall>i < j. replay_spec_run acc ss ! i \<longrightarrow> ss ! i \<noteq> ss ! j)"
proof (induction ss arbitrary: acc j)
  case (Cons s ss)
  show ?case
  proof (cases j)
    case 0
    then show ?thesis using Cons.prems by (auto simp: replay_spec_def split: if_splits)
  next
    case (Suc j')
    let ?acc = "if replay_spec acc s then s # acc else acc"
    have run: "replay_spec_run acc (s # ss) = replay_spec acc s # replay_spec_run ?acc ss" by simp
    have "ss ! j' \<notin> set ?acc \<and> (\<forall>i < j'. replay_spec_run ?acc ss ! i \<longrightarrow> ss ! i \<noteq> ss ! j')"
      using Cons.IH [of j' ?acc] Cons.prems Suc run by simp
    then show ?thesis
      using Suc unfolding run by (auto simp: less_Suc_eq_0_disj split: if_splits)
  qed
qed simp

subsection \<open>The ack tracker\<close>

text \<open>Soundness holds for every history, wrap-around included: a set bit is a recorded number.\<close>

definition ack_sound :: "ack_tracker \<Rightarrow> u32 set \<Rightarrow> bool" where
  "ack_sound a R \<longleftrightarrow>
     (if at_anchor a = 0 then at_bitmap a = 0 else at_anchor a \<in> R)
     \<and> (\<forall>i < 32. bit (at_bitmap a) i \<longrightarrow> at_anchor a - 1 - of_nat i \<in> R)"

lemma record_ack_sound:
  assumes "ack_sound a R"
  shows "ack_sound (record_ack s a) (insert s R)"
proof -
  define adv where "adv = s - at_anchor a"
  consider (keep) "s = 0 \<or> adv = 0" | (first) "s \<noteq> 0" "at_anchor a = 0"
    | (fwd) "s \<noteq> 0" "at_anchor a \<noteq> 0" "adv \<noteq> 0" "adv \<le> U32_HALF"
    | (behind) "s \<noteq> 0" "at_anchor a \<noteq> 0" "adv \<noteq> 0" "\<not> adv \<le> U32_HALF" by blast
  then show ?thesis
  proof cases
    case keep
    then show ?thesis using assms
      by (auto simp: record_ack_def ack_sound_def adv_def Let_def split: if_splits)
  next
    case first
    then show ?thesis using assms by (simp add: record_ack_def ack_sound_def)
  next
    case fwd
    define b where "b = (if 32 \<le> adv then 0 else push_bit (unat adv) (at_bitmap a))"
    have rec: "record_ack s a =
      \<lparr>at_anchor = s, at_bitmap = (if adv \<le> 32 then b OR push_bit (unat (adv - 1)) 1 else b)\<rparr>"
      using fwd by (simp add: record_ack_def adv_def b_def Let_def)
    have anc: "at_anchor a = s - adv" by (simp add: adv_def)
    have old: "s - 1 - of_nat i \<in> R" if "i < 32" "bit b i" for i
    proof -
      from that have "unat adv \<le> i" "bit (at_bitmap a) (i - unat adv)"
        by (auto simp: b_def bit_simps split: if_splits)
      moreover have "i - unat adv < 32" using that by simp
      ultimately have "at_anchor a - 1 - of_nat (i - unat adv) \<in> R"
        using assms unfolding ack_sound_def by blast
      moreover have "at_anchor a - 1 - of_nat (i - unat adv) = s - 1 - of_nat i"
        using \<open>unat adv \<le> i\<close> by (simp add: anc)
      ultimately show ?thesis by simp
    qed
    have new: "s - 1 - of_nat i \<in> R" if "i = unat (adv - 1)" for i
      using assms fwd that by (simp add: ack_sound_def adv_def)
    have bits: "\<forall>i < 32. bit (at_bitmap (record_ack s a)) i \<longrightarrow> s - 1 - of_nat i \<in> insert s R"
      using old new by (auto simp: rec bit_simps)
    show ?thesis using fwd(1) bits by (auto simp: ack_sound_def rec)
  next
    case behind
    define bk where "bk = at_anchor a - s"
    have rec: "record_ack s a = (if 1 \<le> bk \<and> bk \<le> 32
      then a\<lparr>at_bitmap := at_bitmap a OR push_bit (unat (bk - 1)) 1\<rparr> else a)"
      using behind by (simp add: record_ack_def adv_def bk_def Let_def)
    have "at_anchor a - 1 - of_nat i = s" if "i = unat (bk - 1)" for i
      using that by (simp add: bk_def)
    then have bits: "\<forall>i < 32. bit (at_bitmap (record_ack s a)) i \<longrightarrow>
        at_anchor a - 1 - of_nat i \<in> insert s R"
      using assms by (auto simp: rec bit_simps ack_sound_def)
    show ?thesis using behind(2) assms bits by (auto simp: ack_sound_def rec)
  qed
qed

lemma record_all_sound: "ack_sound a R \<Longrightarrow> ack_sound (record_all ss a) (set ss \<union> R)"
  unfolding record_all_def
proof (induction ss arbitrary: a R)
  case (Cons s ss)
  from Cons.IH [OF record_ack_sound [OF Cons.prems, of s]] show ?case by (simp add: Un_commute)
qed simp

lemma peer_acked_bit:
  "peer_acked (observe_acks a b s) n \<longleftrightarrow>
     n \<noteq> 0 \<and> a \<noteq> 0 \<and> (n = a \<or> (\<exists>i < 32. n = a - 1 - of_nat i \<and> bit b i))"
proof -
  define bk where "bk = a - n"
  have n: "n = a - bk" by (simp add: bk_def)
  have unfolded: "peer_acked (observe_acks a b s) n \<longleftrightarrow>
    n \<noteq> 0 \<and> a \<noteq> 0 \<and> (n = a \<or> 1 \<le> bk \<and> bk \<le> 32 \<and> bit b (unat (bk - 1)))"
    by (auto simp: peer_acked_def observe_acks_def bk_def Let_def bit_iff_odd_drop_bit
        and_one_eq odd_iff_mod_2_eq_one)
  have "(1 \<le> bk \<and> bk \<le> 32 \<and> bit b (unat (bk - 1))) \<longleftrightarrow>
    (\<exists>i < 32. n = a - 1 - of_nat i \<and> bit b i)"
  proof
    assume *: "1 \<le> bk \<and> bk \<le> 32 \<and> bit b (unat (bk - 1))"
    have "unat (bk - 1) < 32"
      using * unat_sub [of 1 bk] by (auto simp: word_le_nat_alt)
    then show "\<exists>i < 32. n = a - 1 - of_nat i \<and> bit b i"
      using * by (intro exI [of _ "unat (bk - 1)"]) (simp add: n)
  next
    assume "\<exists>i < 32. n = a - 1 - of_nat i \<and> bit b i"
    then obtain i where i: "i < 32" "n = a - 1 - of_nat i" "bit b i" by blast
    have bk_i: "bk = 1 + of_nat i" using i(2) by (simp add: bk_def)
    have u: "unat bk = Suc i"
      using i(1) by (simp add: bk_i unat_word_ariths unat_of_nat)
    then show "1 \<le> bk \<and> bk \<le> 32 \<and> bit b (unat (bk - 1))"
      using i by (simp add: word_le_nat_alt unat_sub)
  qed
  then show ?thesis using unfolded by simp
qed

text \<open>
  Exactness, for numbers below \<open>2 ^ 31\<close>, where the signed comparison of the tracker is the
  order of the numbers: the anchor is the largest recorded number, and a bit is set exactly
  for the recorded ones.
\<close>

definition ack_exact :: "ack_tracker \<Rightarrow> nat set \<Rightarrow> bool" where
  "ack_exact a R \<longleftrightarrow>
     (if R = {} then at_anchor a = 0
      else unat (at_anchor a) \<in> R \<and> (\<forall>r \<in> R. 0 < r \<and> r \<le> unat (at_anchor a)))
     \<and> (\<forall>i < 32. bit (at_bitmap a) i \<longleftrightarrow>
          Suc i \<le> unat (at_anchor a) \<and> unat (at_anchor a) - Suc i \<in> R)"

lemma half_u32: "x \<le> U32_HALF \<longleftrightarrow> unat x < 2147483648"
proof -
  have "unat U32_HALF = 2147483647" by (simp add: U32_HALF_def mask_eq_exp_minus_1)
  then show ?thesis unfolding word_le_nat_alt by linarith
qed

lemma record_ack_forward:
  assumes ex: "ack_exact a R" and ne: "at_anchor a \<noteq> 0" and lt: "at_anchor a < s"
    and bound: "unat s < 2147483648"
  shows "ack_exact (record_ack s a) (insert (unat s) R)"
proof -
  define A where "A = unat (at_anchor a)"
  define adv where "adv = s - at_anchor a"
  have uadv: "unat s = A + unat adv" "0 < unat adv"
    using lt by (auto simp: A_def adv_def unat_sub word_less_nat_alt word_le_nat_alt)
  have nz: "s \<noteq> 0" "adv \<noteq> 0" using lt uadv(2) by (auto simp: unat_gt_0)
  have uadv1: "unat (adv - 1) = unat adv - 1" using nz by (simp add: unat_minus_one)
  define b where "b = (if 32 \<le> adv then 0 else push_bit (unat adv) (at_bitmap a))"
  have rec: "record_ack s a =
      \<lparr>at_anchor = s, at_bitmap = (if adv \<le> 32 then b OR push_bit (unat (adv - 1)) 1 else b)\<rparr>"
    using ne nz bound uadv by (simp add: record_ack_def adv_def b_def Let_def half_u32)
  have R: "R \<noteq> {}" "A \<in> R" "\<forall>r \<in> R. 0 < r \<and> r \<le> A"
    using ex ne by (auto simp: ack_exact_def A_def split: if_splits)
  have old: "bit (at_bitmap a) i \<longleftrightarrow> Suc i \<le> A \<and> A - Suc i \<in> R" if "i < 32" for i
    using ex that by (auto simp: ack_exact_def A_def)
  have "bit (at_bitmap (record_ack s a)) i \<longleftrightarrow>
      Suc i \<le> unat s \<and> unat s - Suc i \<in> insert (unat s) R" if i: "i < 32" for i
  proof -
    consider "Suc i < unat adv" | "Suc i = unat adv" | "unat adv \<le> i" by linarith
    then show ?thesis
    proof cases
      case 1
      then have "unat s - Suc i \<notin> R" using R(3) uadv by force
      then show ?thesis using 1 i uadv uadv1 by (auto simp: rec b_def bit_simps)
    next
      case 2
      then show ?thesis using i uadv uadv1 R(2) by (auto simp: rec bit_simps word_le_nat_alt)
    next
      case 3
      then have "bit b i \<longleftrightarrow> bit (at_bitmap a) (i - unat adv)"
        using i by (auto simp: b_def bit_simps word_le_nat_alt)
      moreover have "unat s - Suc i = A - Suc (i - unat adv)"
        "Suc i \<le> unat s \<longleftrightarrow> Suc (i - unat adv) \<le> A" using 3 uadv by linarith+
      ultimately show ?thesis
        using 3 i uadv uadv1 old [of "i - unat adv"] by (auto simp: rec bit_simps)
    qed
  qed
  then show ?thesis using R uadv by (auto simp: ack_exact_def rec)
qed

lemma record_ack_behind:
  assumes ex: "ack_exact a R" and nz: "s \<noteq> 0" and lt: "s < at_anchor a"
    and bound: "unat (at_anchor a) < 2147483648"
  shows "ack_exact (record_ack s a) (insert (unat s) R)"
proof -
  define A where "A = unat (at_anchor a)"
  define bk where "bk = at_anchor a - s"
  have ubk: "A = unat s + unat bk" "0 < unat bk"
    using lt by (auto simp: A_def bk_def unat_sub word_less_nat_alt word_le_nat_alt)
  then have ubk1: "unat (bk - 1) = unat bk - 1" by (simp add: unat_minus_one unat_gt_0)
  have ne: "at_anchor a \<noteq> 0" using lt by auto
  have neg: "s - at_anchor a = - bk" by (simp add: bk_def)
  have "unat (- bk) = 4294967296 - unat bk" using ubk(2) unat_sub_if' [of 0 bk] by simp
  then have "\<not> - bk \<le> U32_HALF" using bound ubk by (simp add: half_u32 A_def)
  moreover have "- bk \<noteq> 0" using ubk(2) by auto
  ultimately have rec: "record_ack s a = (if 1 \<le> bk \<and> bk \<le> 32
      then a\<lparr>at_bitmap := at_bitmap a OR push_bit (unat (bk - 1)) 1\<rparr> else a)"
    unfolding record_ack_def Let_def neg using nz ne by (simp add: bk_def)
  have R: "R \<noteq> {}" "A \<in> R" "\<forall>r \<in> R. 0 < r \<and> r \<le> A"
    using ex ne by (auto simp: ack_exact_def A_def split: if_splits)
  have old: "bit (at_bitmap a) i \<longleftrightarrow> Suc i \<le> A \<and> A - Suc i \<in> R" if "i < 32" for i
    using ex that by (auto simp: ack_exact_def A_def)
  have "bit (at_bitmap (record_ack s a)) i \<longleftrightarrow>
      Suc i \<le> A \<and> A - Suc i \<in> insert (unat s) R" if i: "i < 32" for i
    using i old [of i] ubk ubk1 by (auto simp: rec bit_simps word_le_nat_alt)
  moreover have "0 < unat s" using nz by (simp add: unat_gt_0)
  ultimately show ?thesis using R ubk by (auto simp: ack_exact_def rec A_def)
qed

lemma record_ack_exact:
  assumes ex: "ack_exact a R" and R: "\<forall>r \<in> R. r < 2147483648" and bound: "unat s < 2147483648"
  shows "ack_exact (record_ack s a) (if s = 0 then R else insert (unat s) R)"
proof -
  consider (zero) "s = 0" | (first) "s \<noteq> 0" "at_anchor a = 0"
    | (same) "s \<noteq> 0" "at_anchor a \<noteq> 0" "s = at_anchor a"
    | (fwd) "at_anchor a \<noteq> 0" "at_anchor a < s" | (behind) "s \<noteq> 0" "s < at_anchor a"
    by (meson linorder_neqE)
  then show ?thesis
  proof cases
    case zero
    then show ?thesis using ex by (simp add: record_ack_def)
  next
    case first
    then have "R = {}" using ex by (auto simp: ack_exact_def split: if_splits)
    then show ?thesis using ex first by (auto simp: ack_exact_def record_ack_def unat_gt_0)
  next
    case same
    then have "unat s \<in> R" using ex by (auto simp: ack_exact_def split: if_splits)
    then show ?thesis using ex same by (simp add: record_ack_def insert_absorb)
  next
    case fwd
    then show ?thesis using record_ack_forward [OF ex _ _ bound] by auto
  next
    case behind
    have "unat (at_anchor a) < 2147483648"
      using ex behind R by (auto simp: ack_exact_def split: if_splits)
    then show ?thesis using record_ack_behind [OF ex behind] behind by simp
  qed
qed

lemma record_all_exact:
  assumes "ack_exact a R" "\<forall>r \<in> R. r < 2147483648" "list_all (\<lambda>s. unat s < 2147483648) ss"
  shows "ack_exact (record_all ss a) (R \<union> unat ` (set ss - {0}))"
  using assms unfolding record_all_def
proof (induction ss arbitrary: a R)
  case (Cons s ss)
  let ?R = "if s = 0 then R else insert (unat s) R"
  have "ack_exact (fold record_ack ss (record_ack s a)) (?R \<union> unat ` (set ss - {0}))"
    by (rule Cons.IH) (use Cons.prems record_ack_exact in \<open>auto split: if_splits\<close>)
  moreover have "?R \<union> unat ` (set ss - {0}) = R \<union> unat ` (set (s # ss) - {0})" by auto
  ultimately show ?case by simp
qed simp

lemma ack_exact_peer_acked:
  assumes ex: "ack_exact a R"
  shows "peer_acked (observe_acks (at_anchor a) (at_bitmap a) s) n \<longleftrightarrow>
    unat n \<in> R \<and> (\<forall>r \<in> R. r \<le> unat n + 32)"
proof (cases "R = {}")
  case True
  then show ?thesis using ex by (simp add: ack_exact_def peer_acked_bit)
next
  case False
  define A where "A = at_anchor a"
  have A: "unat A \<in> R" "\<forall>r \<in> R. 0 < r \<and> r \<le> unat A"
    and bits: "\<forall>i < 32. bit (at_bitmap a) i \<longleftrightarrow> Suc i \<le> unat A \<and> unat A - Suc i \<in> R"
    using ex False by (auto simp: ack_exact_def A_def)
  have one: "n = A - 1 - of_nat i \<and> bit (at_bitmap a) i \<longleftrightarrow>
      Suc i \<le> unat A \<and> unat n = unat A - Suc i \<and> unat n \<in> R" if "i < 32" for i
  proof -
    have "unat (1 + of_nat i :: u32) = Suc i"
      using that by (simp add: unat_word_ariths unat_of_nat)
    then have "Suc i \<le> unat A \<Longrightarrow> unat (A - 1 - of_nat i) = unat A - Suc i"
      by (simp add: diff_diff_eq unat_sub word_le_nat_alt)
    then show ?thesis using bits that by (metis unsigned_word_eqI)
  qed
  have "(\<exists>i < 32. n = A - 1 - of_nat i \<and> bit (at_bitmap a) i) \<longleftrightarrow>
    (\<exists>i < 32. Suc i \<le> unat A \<and> unat n = unat A - Suc i \<and> unat n \<in> R)"
    using one by blast
  also have "\<dots> \<longleftrightarrow> unat n < unat A \<and> unat A \<le> unat n + 32 \<and> unat n \<in> R"
    using A by (auto intro!: exI [of _ "unat A - unat n - 1"])
  finally have "peer_acked (observe_acks A (at_bitmap a) s) n \<longleftrightarrow>
    n \<noteq> 0 \<and> A \<noteq> 0 \<and> (n = A \<or> unat n < unat A \<and> unat A \<le> unat n + 32 \<and> unat n \<in> R)"
    unfolding peer_acked_bit by simp
  moreover have "n = A \<longleftrightarrow> unat n = unat A" by (auto dest: unsigned_word_eqI)
  moreover have "n \<noteq> 0 \<and> A \<noteq> 0" if "unat n \<in> R" using that A by fastforce
  moreover have "unat n \<le> unat A" if "unat n \<in> R" using that A by blast
  moreover have "(\<forall>r \<in> R. r \<le> unat n + 32) \<longleftrightarrow> unat A \<le> unat n + 32"
    using A by (meson order_trans)
  moreover have "unat n \<in> R" if "unat n = unat A" using that A by simp
  ultimately have "peer_acked (observe_acks A (at_bitmap a) s) n \<longleftrightarrow>
    unat n \<in> R \<and> (\<forall>r \<in> R. r \<le> unat n + 32)" by (cases "unat n = unat A") auto
  then show ?thesis by (simp add: A_def)
qed

subsection \<open>Sequence allocation and nonces\<close>

lemma alloc_many_seqs:
  "fst (alloc_many n s) = map (\<lambda>k. ss_next_seq s + of_nat k) [0..<n]"
proof (induction n arbitrary: s)
  case (Suc n)
  have "[0..<Suc n] = 0 # map Suc [0..<n]" by (simp add: upt_conv_Cons map_Suc_upt)
  then show ?case using Suc.IH [of "snd (alloc_seq s)"]
    by (auto simp: alloc_seq_def Let_def add.assoc comp_def split: prod.splits)
qed simp

lemma distinct_of_nat_offsets:
  "distinct (map (\<lambda>k. x + of_nat k) [0..<n]) \<longleftrightarrow> n \<le> 4294967296" for x :: u32
proof
  assume "distinct (map (\<lambda>k. x + of_nat k) [0..<n])"
  then have "card (set (map (\<lambda>k. x + of_nat k) [0..<n])) = n"
    by (subst distinct_card) auto
  moreover have "card (set (map (\<lambda>k. x + of_nat k) [0..<n])) \<le> card (UNIV :: u32 set)"
    by (rule card_mono) auto
  ultimately show "n \<le> 4294967296" by (simp add: card_word)
next
  assume "n \<le> 4294967296"
  then have "inj_on (\<lambda>k. x + of_nat k) {0..<n}"
    by (auto intro!: inj_onI simp: word_of_nat_eq_iff take_bit_nat_eq_self)
  then show "distinct (map (\<lambda>k. x + of_nat k) [0..<n])" by (simp add: distinct_map)
qed

lemma make_nonce_bytes:
  "make_nonce sid s dir = to_le_bytes32 sid @ to_le_bytes32 s @ [direction_byte dir, 0, 0, 0]"
proof -
  have "copy_slice 0 (to_le_bytes32 sid) (replicate 12 0) = to_le_bytes32 sid @ replicate 8 0"
    by (simp add: copy_slice_def)
  moreover have "copy_slice 4 (to_le_bytes32 s) (to_le_bytes32 sid @ replicate 8 0)
    = (to_le_bytes32 sid @ to_le_bytes32 s) @ replicate 4 0"
    by (simp add: copy_slice_def)
  moreover have "(replicate 4 0)[0 := x] = [x, 0, 0, 0]" for x :: u8
    by (simp add: numeral_eq_Suc)
  ultimately show ?thesis
    unfolding make_nonce_def Let_def by (simp add: list_update_append)
qed

lemma direction_byte_inj [simp]: "direction_byte d = direction_byte e \<longleftrightarrow> d = e"
  by (cases d; cases e) simp_all

lemma make_nonce_inj:
  "make_nonce i s d = make_nonce j t e \<longleftrightarrow> i = j \<and> s = t \<and> d = e"
  by (auto simp: make_nonce_bytes)

subsection \<open>Properties\<close>

text \<open>C4. The replay window refines its specification: for every sequence of received numbers,
  the 64-bit window answers exactly as the specification that remembers the whole history.\<close>

theorem replay_window_refines: "fst (rw_run rw_new ss) = replay_spec_run [] ss"
  using rw_run_refines [of rw_new "[]"] rw_inv_new by simp

text \<open>C13. No replay is ever accepted: in any run of received sequence numbers, two positions
  with the same number are never both accepted.\<close>

theorem no_replay_accepted:
  assumes "i < j" "j < length ss" "fst (rw_run rw_new ss) ! i" "fst (rw_run rw_new ss) ! j"
  shows "ss ! i \<noteq> ss ! j"
  using assms rw_run_refines [of rw_new "[]" ss] rw_inv_new replay_spec_run_fresh [of j ss "[]"]
  by auto

theorem no_replay_accepted_witness:
  "fst (rw_run rw_new [5, 3, 5, 9]) = [True, True, False, True] \<and> [5, 3, 5, 9] ! 1 \<noteq> ([5, 3, 5, 9] ! 3 :: u32)"
proof -
  have run: "fst (rw_run rw_new [5, 3, 5, 9]) = [True, True, False, True]" by code_simp
  show ?thesis using no_replay_accepted [of 1 3 "[5, 3, 5, 9]"] run by simp
qed

text \<open>Acknowledgements are sound for every history, wrap-around included: whatever numbers a
  receiver recorded, if the peer that observed its advertisement reports a number as acked,
  the receiver recorded that number.\<close>

theorem acks_sound:
  assumes "peer_acked (observe_acks (fst (snapshot (record_all ss at_default)))
             (snd (snapshot (record_all ss at_default))) s) n"
  shows "n \<in> set ss"
proof -
  have "ack_sound (record_all ss at_default) (set ss)"
    using record_all_sound [of at_default "{}" ss] by (simp add: ack_sound_def at_default_def)
  then show ?thesis
    using assms by (auto simp: snapshot_def peer_acked_bit ack_sound_def split: if_splits)
qed

theorem acks_sound_witness:
  "peer_acked (observe_acks (fst (snapshot (record_all [4294967295, 1] at_default)))
     (snd (snapshot (record_all [4294967295, 1] at_default))) (session_new 1 Initiator)) 4294967295
   \<and> 4294967295 \<in> set [4294967295, 1 :: u32]"
proof -
  have h: "peer_acked (observe_acks (fst (snapshot (record_all [4294967295, 1] at_default)))
     (snd (snapshot (record_all [4294967295, 1] at_default))) (session_new 1 Initiator)) 4294967295"
    by code_simp
  show ?thesis using h acks_sound [OF h] by simp
qed

text \<open>C31. Acknowledgements are exact within the window: when all recorded numbers are below
  \<open>2 ^ 31\<close>, a non-zero number is reported as acked iff it was recorded and is at most 32
  behind every recorded number.\<close>

theorem acks_exact:
  assumes "list_all (\<lambda>r. unat r < 2 ^ 31) ss"
  shows "peer_acked (observe_acks (fst (snapshot (record_all ss at_default)))
             (snd (snapshot (record_all ss at_default))) s) n \<longleftrightarrow>
     n \<noteq> 0 \<and> n \<in> set ss \<and> list_all (\<lambda>r. unat r \<le> unat n + 32) ss"
proof -
  have "ack_exact (record_all ss at_default) (unat ` (set ss - {0}))"
    using record_all_exact [of at_default "{}" ss] assms by (simp add: ack_exact_def at_default_def)
  moreover have "unat n \<in> unat ` (set ss - {0}) \<longleftrightarrow> n \<in> set ss \<and> n \<noteq> 0"
    by (auto dest: unsigned_word_eqI)
  moreover have "list_all (\<lambda>r. unat r \<le> unat n + 32) ss \<longleftrightarrow>
      (\<forall>r \<in> unat ` (set ss - {0}). r \<le> unat n + 32)"
    by (auto simp: list_all_iff)
  ultimately show ?thesis by (auto simp: snapshot_def ack_exact_peer_acked)
qed

theorem acks_exact_witness:
  "list_all (\<lambda>r. unat r < 2 ^ 31) [1, 2, 40 :: u32] \<and>
   \<not> peer_acked (observe_acks (fst (snapshot (record_all [1, 2, 40] at_default)))
             (snd (snapshot (record_all [1, 2, 40] at_default))) (session_new 1 Initiator)) 2"
  using acks_exact [of "[1, 2, 40]" "session_new 1 Initiator" 2] by simp

text \<open>C32. Nonces: the AEAD nonces of one direction of a session are pairwise distinct for exactly
  the first \<open>2 ^ 32\<close> packets; the allocator has no guard, so one packet more reuses a nonce.\<close>

theorem nonces_distinct_iff:
  "distinct (map (\<lambda>n. make_nonce sid n dir) (fst (alloc_many k (session_new i r)))) \<longleftrightarrow> k \<le> 2 ^ 32"
proof -
  have "inj (\<lambda>n. make_nonce sid n dir)" by (rule injI) (simp add: make_nonce_inj)
  then have "distinct (map (\<lambda>n. make_nonce sid n dir) xs) \<longleftrightarrow> distinct xs" for xs
    by (metis distinct_map inj_on_subset subset_UNIV)
  then show ?thesis
    by (simp only: alloc_many_seqs distinct_of_nat_offsets) simp
qed

text \<open>The two directions of a session and different sessions never share a nonce: nonces
  are equal only for the same session id, sequence number and direction.\<close>

theorem make_nonce_injective:
  "make_nonce i s d = make_nonce j t e \<longleftrightarrow> i = j \<and> s = t \<and> d = e"
  by (rule make_nonce_inj)

end
