(* ===== verification/Cipher_Suite.thy ===== *)
theory Cipher_Suite
  imports Session_State
begin

text \<open>
  The AEAD cipher registry of \<open>src/src/crypto/suite.rs\<close> and the call sites of
  \<open>src/src/crypto/aead.rs\<close>. ChaCha20-Poly1305 itself is the crate \<open>chacha20poly1305\<close>: its
  encryption and decryption are the parameters \<open>enc\<close> and \<open>dec\<close> (key, nonce, associated data,
  text), with \<open>None\<close> for its error; \<open>aead_laws\<close> states what RFC 8439 promises of them.
\<close>

datatype CryptoError = Encryption | Decryption

type_synonym aead_fun = "bytes \<Rightarrow> bytes \<Rightarrow> bytes \<Rightarrow> bytes \<Rightarrow> bytes option"

definition TAG_LEN :: nat where "TAG_LEN = 16"

definition encrypt :: "aead_fun \<Rightarrow> bytes \<Rightarrow> bytes \<Rightarrow> bytes \<Rightarrow> bytes \<Rightarrow> CryptoError + bytes" where
  "encrypt enc key nonce aad plaintext = ok_or (enc key nonce aad plaintext) Encryption"

definition decrypt :: "aead_fun \<Rightarrow> bytes \<Rightarrow> bytes \<Rightarrow> bytes \<Rightarrow> bytes \<Rightarrow> CryptoError + bytes" where
  "decrypt dec key nonce aad ciphertext = ok_or (dec key nonce aad ciphertext) Decryption"

definition as_nonce_bytes :: "bytes \<Rightarrow> CryptoError + bytes" where
  "as_nonce_bytes nonce = (if length nonce = 12 then Inr nonce else Inl Decryption)"

definition seal :: "aead_fun \<Rightarrow> bytes \<Rightarrow> bytes \<Rightarrow> bytes \<Rightarrow> bytes \<Rightarrow> CryptoError + bytes" where
  "seal enc key nonce aad plaintext =
     try_bind (as_nonce_bytes nonce) (\<lambda>n. encrypt enc key n aad plaintext)"

definition open_sealed :: "aead_fun \<Rightarrow> bytes \<Rightarrow> bytes \<Rightarrow> bytes \<Rightarrow> bytes \<Rightarrow> CryptoError + bytes" where
  "open_sealed dec key nonce aad ciphertext =
     try_bind (as_nonce_bytes nonce) (\<lambda>n. decrypt dec key n aad ciphertext)"

subsection \<open>The registry\<close>

datatype CipherKind = ChaCha20Poly1305

definition CIPHER_CHACHA20POLY1305 :: u8 where "CIPHER_CHACHA20POLY1305 = 1"
definition DEFAULT_CIPHER :: string where "DEFAULT_CIPHER = ''chacha20poly1305''"

fun cipher_name :: "CipherKind \<Rightarrow> string" where
  "cipher_name ChaCha20Poly1305 = DEFAULT_CIPHER"

fun cipher_id :: "CipherKind \<Rightarrow> u8" where
  "cipher_id ChaCha20Poly1305 = CIPHER_CHACHA20POLY1305"

definition cipher_from_id :: "u8 \<Rightarrow> CipherKind option" where
  "cipher_from_id i = (if i = CIPHER_CHACHA20POLY1305 then Some ChaCha20Poly1305 else None)"

fun key_schedule :: "CipherKind \<Rightarrow> string" where
  "key_schedule ChaCha20Poly1305 = ''rustnies/aead/chacha20poly1305''"

record UnknownCipher =
  ucp_name :: string
  ucp_supported :: string

definition select_cipher :: "string \<Rightarrow> UnknownCipher + CipherKind" where
  "select_cipher name =
     (let n = trim name
      in if n = '''' \<or> n = DEFAULT_CIPHER then Inr ChaCha20Poly1305
         else Inl \<lparr>ucp_name = n, ucp_supported = DEFAULT_CIPHER\<rparr>)"

subsection \<open>What the sessions rely on\<close>

text \<open>An AEAD opens what it sealed under the same key, nonce and associated data, adds a tag of 16
  bytes, and seals every plaintext of a packet's size.\<close>

definition aead_laws :: "aead_fun \<Rightarrow> aead_fun \<Rightarrow> bool" where
  "aead_laws enc dec \<longleftrightarrow>
     (\<forall>key nonce aad p c. enc key nonce aad p = Some c \<longrightarrow> dec key nonce aad c = Some p \<and> length c = length p + TAG_LEN)
     \<and> (\<forall>key nonce aad p. length p < 65536 \<longrightarrow> enc key nonce aad p \<noteq> None)"

lemma open_seal:
  assumes "aead_laws enc dec" "length p < 65536"
  obtains c where "seal enc key (make_nonce sid s dir) aad p = Inr c" "length c = length p + TAG_LEN"
    "open_sealed dec key (make_nonce sid s dir) aad c = Inr p"
proof -
  have n: "as_nonce_bytes (make_nonce sid s dir) = Inr (make_nonce sid s dir)"
    by (simp add: as_nonce_bytes_def make_nonce_bytes)
  obtain c where c: "enc key (make_nonce sid s dir) aad p = Some c"
    using assms unfolding aead_laws_def by fastforce
  then have "dec key (make_nonce sid s dir) aad c = Some p" "length c = length p + TAG_LEN"
    using assms(1) unfolding aead_laws_def by blast+
  then show thesis
    using that [of c] c n by (simp add: seal_def encrypt_def open_sealed_def decrypt_def)
qed

end
