(* ===== verification/Congestion_Control.thy ===== *)
theory Congestion_Control
  imports Rn_Prelude
begin

text \<open>
  The rate controllers of \<open>src/src/congestion/\<close>: the TCP-like controller of \<open>tcp.rs\<close> with its
  byte window, pacer and RTT estimator, and the disabled controller of \<open>mod.rs\<close>. A \<open>u64\<close> is a
  natural number with its saturating operations written out; instants and durations are natural
  numbers of nanoseconds, and the clock is an argument. The RTT estimator computes in \<open>i64\<close>: its casts truncate and
  its operations wrap, as in the release build (a debug build panics instead). \<open>f64\<close> arithmetic is exact.
\<close>

subsection \<open>Arithmetic\<close>

definition U64_MAX :: nat where "U64_MAX = 2 ^ 64 - 1"

definition sat_add64 :: "nat \<Rightarrow> nat \<Rightarrow> nat" where "sat_add64 a b = min (a + b) U64_MAX"
definition sat_mul64 :: "nat \<Rightarrow> nat \<Rightarrow> nat" where "sat_mul64 a b = min (a * b) U64_MAX"

text \<open>\<open>x as u64\<close> of an \<open>f64\<close>: truncation towards zero, saturating.\<close>

definition f64_as_u64 :: "f64 \<Rightarrow> nat" where "f64_as_u64 x = min (nat \<lfloor>x\<rfloor>) U64_MAX"

definition clamp :: "f64 \<Rightarrow> f64 \<Rightarrow> f64 \<Rightarrow> f64" where "clamp lo hi x = max lo (min hi x)"

text \<open>\<open>i64\<close> arithmetic: the two's-complement value of an integer, and division, which rounds towards zero.\<close>

definition wrap_i64 :: "int \<Rightarrow> int" where "wrap_i64 x = (x + 2 ^ 63) mod 2 ^ 64 - 2 ^ 63"

definition div_i64 :: "int \<Rightarrow> int \<Rightarrow> int" where "div_i64 x k = (if x < 0 then - (- x div k) else x div k)"

text \<open>\<open>Duration::from_secs_f64\<close>, to the nearest nanosecond, and \<open>as_secs_f64\<close>.\<close>

definition from_secs_f64 :: "f64 \<Rightarrow> nat" where "from_secs_f64 x = nat (round (x * 1000000000))"
definition as_secs_f64 :: "nat \<Rightarrow> f64" where "as_secs_f64 ns = real ns / 1000000000"

subsection \<open>State\<close>

definition MIN_CWND_BYTES :: nat where "MIN_CWND_BYTES = 2 * 1300"
definition INITIAL_CWND_BYTES :: nat where "INITIAL_CWND_BYTES = 10 * 1300"
definition INITIAL_SSTHRESH_BYTES :: nat where "INITIAL_SSTHRESH_BYTES = 64 * 1300"
definition DEFAULT_MTU :: nat where "DEFAULT_MTU = 1400"
definition MIN_PACING_RATE :: f64 where "MIN_PACING_RATE = 8000"
definition MAX_PACING_RATE :: f64 where "MAX_PACING_RATE = 625000000"
definition INITIAL_RTT_MS :: nat where "INITIAL_RTT_MS = 100"
definition INITIAL_PACING_RATE :: f64 where "INITIAL_PACING_RATE = 125000"
definition ms :: "nat \<Rightarrow> nat" where "ms n = n * 1000000"

record CongestionController =
  cc_cwnd :: nat
  cc_ssthresh :: nat
  cc_in_flight :: nat
  cc_srtt :: nat
  cc_rttvar :: nat
  cc_rto :: nat
  cc_last_loss :: f64
  cc_pacing_rate :: f64
  cc_next_send_at :: "nat option"
  cc_mtu :: nat

definition cc_new :: CongestionController where
  "cc_new = \<lparr>cc_cwnd = INITIAL_CWND_BYTES, cc_ssthresh = INITIAL_SSTHRESH_BYTES, cc_in_flight = 0,
     cc_srtt = ms INITIAL_RTT_MS, cc_rttvar = ms (INITIAL_RTT_MS div 2), cc_rto = ms (INITIAL_RTT_MS * 2),
     cc_last_loss = 0, cc_pacing_rate = INITIAL_PACING_RATE, cc_next_send_at = None, cc_mtu = DEFAULT_MTU\<rparr>"

subsection \<open>Operations\<close>

definition set_mtu :: "nat \<Rightarrow> CongestionController \<Rightarrow> CongestionController" where
  "set_mtu mtu cc = (if mtu > 0 then cc\<lparr>cc_mtu := mtu\<rparr> else cc)"

definition in_flight_packets :: "CongestionController \<Rightarrow> nat" where
  "in_flight_packets cc = (cc_in_flight cc + max (cc_mtu cc) 1 - 1) div max (cc_mtu cc) 1"

definition send_budget :: "CongestionController \<Rightarrow> nat" where
  "send_budget cc = cc_cwnd cc - cc_in_flight cc"

definition release :: "nat \<Rightarrow> CongestionController \<Rightarrow> CongestionController" where
  "release bytes cc = cc\<lparr>cc_in_flight := cc_in_flight cc - bytes\<rparr>"

text \<open>\<open>Instant::checked_sub\<close> gives \<open>None\<close> below the origin of the clock.\<close>

definition refund_send_bytes :: "nat \<Rightarrow> CongestionController \<Rightarrow> CongestionController" where
  "refund_send_bytes bytes cc =
     (let cc = release bytes cc
      in case cc_next_send_at cc of
           None \<Rightarrow> cc
         | Some next \<Rightarrow>
             let delay = from_secs_f64 (real (max bytes 1) / cc_pacing_rate cc)
             in cc\<lparr>cc_next_send_at := (if delay \<le> next then Some (next - delay) else None)\<rparr>)"

definition release_packets :: "nat \<Rightarrow> CongestionController \<Rightarrow> CongestionController" where
  "release_packets n cc = release (sat_mul64 n (cc_mtu cc)) cc"

definition advance_pacer :: "nat \<Rightarrow> nat \<Rightarrow> CongestionController \<Rightarrow> CongestionController" where
  "advance_pacer now len cc =
     (let rate = clamp MIN_PACING_RATE MAX_PACING_RATE (cc_pacing_rate cc);
          interval = from_secs_f64 (real len / rate);
          base = (case cc_next_send_at cc of Some t \<Rightarrow> if t > now then t else now | None \<Rightarrow> now);
          max_debt = max (cc_srtt cc) (ms 1);
          next = base + interval
      in cc\<lparr>cc_next_send_at := Some (if next - now > max_debt then now + interval else next)\<rparr>)"

definition may_send :: "nat \<Rightarrow> nat \<Rightarrow> CongestionController \<Rightarrow> CongestionController \<times> bool" where
  "may_send now len cc =
     (let need = max len 1
      in if need > send_budget cc then (cc, False)
         else case cc_next_send_at cc of
             Some t \<Rightarrow> if now < t then (cc, False) else (advance_pacer now need cc, True)
           | None \<Rightarrow> (advance_pacer now need cc, True))"

definition next_send_deadline :: "nat \<Rightarrow> CongestionController \<Rightarrow> nat option" where
  "next_send_deadline now cc =
     (case cc_next_send_at cc of None \<Rightarrow> None | Some next \<Rightarrow> if next > now then Some next else None)"

definition reset_pacer :: "CongestionController \<Rightarrow> CongestionController" where
  "reset_pacer cc = cc\<lparr>cc_next_send_at := None\<rparr>"

definition on_send_bytes :: "nat \<Rightarrow> CongestionController \<Rightarrow> CongestionController" where
  "on_send_bytes len cc =
     cc\<lparr>cc_in_flight := min (sat_add64 (cc_in_flight cc) (max len 1)) (max (cc_cwnd cc) 1)\<rparr>"

definition try_send_parity :: "nat \<Rightarrow> nat \<Rightarrow> CongestionController \<Rightarrow> CongestionController \<times> bool" where
  "try_send_parity now len cc =
     (let need = max len 1
      in if need > send_budget cc then (cc, False)
         else (advance_pacer now need (on_send_bytes len cc), True))"

definition recompute_pacing_rate :: "CongestionController \<Rightarrow> CongestionController" where
  "recompute_pacing_rate cc =
     (let srtt = max (as_secs_f64 (cc_srtt cc)) (1 / 1000000);
          rate = real (cc_cwnd cc) / srtt
      in cc\<lparr>cc_pacing_rate := clamp MIN_PACING_RATE MAX_PACING_RATE rate\<rparr>)"

definition set_cwnd :: "nat \<Rightarrow> CongestionController \<Rightarrow> CongestionController" where
  "set_cwnd bytes cc = recompute_pacing_rate (cc\<lparr>cc_cwnd := max bytes MIN_CWND_BYTES\<rparr>)"

definition pacing_delay :: "nat \<Rightarrow> nat \<Rightarrow> CongestionController \<Rightarrow> nat option" where
  "pacing_delay now len cc =
     (case cc_next_send_at cc of
        None \<Rightarrow> None
      | Some t \<Rightarrow>
          let delay = t - now
          in if delay = 0 then None
             else if max len 1 > send_budget cc then None
             else Some delay)"

definition on_send :: "CongestionController \<Rightarrow> CongestionController" where
  "on_send cc = on_send_bytes (cc_mtu cc) cc"

definition ack_common :: "nat \<Rightarrow> CongestionController \<Rightarrow> CongestionController" where
  "ack_common bytes cc =
     (let n = max bytes 1;
          cc = cc\<lparr>cc_in_flight := cc_in_flight cc - n\<rparr>;
          cc = (if cc_cwnd cc < cc_ssthresh cc
                then cc\<lparr>cc_cwnd := sat_add64 (cc_cwnd cc) n\<rparr>
                else let mss = real (max (cc_mtu cc) 1);
                         added = real n * mss / real (max (cc_cwnd cc) 1)
                     in cc\<lparr>cc_cwnd := sat_add64 (cc_cwnd cc) (f64_as_u64 added)\<rparr>)
      in recompute_pacing_rate cc)"

definition on_ack_bytes :: "nat \<Rightarrow> CongestionController \<Rightarrow> CongestionController" where
  "on_ack_bytes bytes cc = ack_common bytes cc"

definition on_ack :: "nat \<Rightarrow> CongestionController \<Rightarrow> CongestionController" where
  "on_ack n cc = (if n = 0 then cc else on_ack_bytes (sat_mul64 n (cc_mtu cc)) cc)"

definition on_rtt_sample :: "nat \<Rightarrow> CongestionController \<Rightarrow> CongestionController" where
  "on_rtt_sample rtt cc =
     (let r = wrap_i64 (int rtt); s = wrap_i64 (int (cc_srtt cc)); v = wrap_i64 (int (cc_rttvar cc));
          diff = wrap_i64 \<bar>wrap_i64 (s - r)\<bar>;
          new_v = div_i64 (wrap_i64 (wrap_i64 (3 * v) + diff)) 4;
          new_s = div_i64 (wrap_i64 (wrap_i64 (7 * s) + r)) 8;
          g = 1000000;
          rto_ns = wrap_i64 (new_s + wrap_i64 (4 * new_v));
          rto_ns = max rto_ns (wrap_i64 (new_s + g))
      in recompute_pacing_rate (cc\<lparr>cc_srtt := nat (max new_s 1000), cc_rttvar := nat (max new_v 1000),
           cc_rto := nat (max rto_ns 1000000)\<rparr>))"

definition on_ack_with_rtt :: "nat \<Rightarrow> nat \<Rightarrow> CongestionController \<Rightarrow> CongestionController" where
  "on_ack_with_rtt bytes sample cc = ack_common bytes (on_rtt_sample sample cc)"

definition on_loss :: "nat \<Rightarrow> nat \<Rightarrow> CongestionController \<Rightarrow> CongestionController" where
  "on_loss lost tot cc =
     (if tot = 0 \<or> lost = 0 then cc
      else let ratio = clamp 0 1 (real lost / real tot);
               factor = clamp (1 / 2) (875 / 1000) (1 - ratio * (1 / 2));
               reduced = f64_as_u64 (real (cc_cwnd cc) * factor);
               th = max reduced MIN_CWND_BYTES
           in recompute_pacing_rate (cc\<lparr>cc_last_loss := ratio, cc_ssthresh := th, cc_cwnd := th\<rparr>))"

subsection \<open>The disabled controller\<close>

datatype no_congestion_control = NoCongestionControl

definition none_send_budget :: "no_congestion_control \<Rightarrow> nat" where "none_send_budget c = U64_MAX"

definition none_may_send :: "nat \<Rightarrow> nat \<Rightarrow> no_congestion_control \<Rightarrow> no_congestion_control \<times> bool" where
  "none_may_send now len c = (c, True)"

definition none_try_send_parity :: "nat \<Rightarrow> nat \<Rightarrow> no_congestion_control \<Rightarrow> no_congestion_control \<times> bool" where
  "none_try_send_parity now len c = (c, True)"

definition none_on_bytes :: "nat \<Rightarrow> no_congestion_control \<Rightarrow> no_congestion_control" where
  "none_on_bytes n c = c"

datatype CongestionKind = TcpReno | NoneCongestion

definition DEFAULT_CONGESTION :: string where "DEFAULT_CONGESTION = ''tcp-reno''"
definition CONGESTION_NONE :: string where "CONGESTION_NONE = ''none''"

fun congestion_name :: "CongestionKind \<Rightarrow> string" where
  "congestion_name TcpReno = DEFAULT_CONGESTION"
| "congestion_name NoneCongestion = CONGESTION_NONE"

record UnknownCongestion =
  uc_name :: string
  uc_supported :: string

definition select_congestion :: "string \<Rightarrow> UnknownCongestion + CongestionKind" where
  "select_congestion name =
     (let n = trim name
      in if n = '''' \<or> n = DEFAULT_CONGESTION \<or> n = ''tcp'' then Inr TcpReno
         else if n = CONGESTION_NONE \<or> n = ''off'' \<or> n = ''disabled'' then Inr NoneCongestion
         else Inl \<lparr>uc_name = n, uc_supported = DEFAULT_CONGESTION @ '', '' @ CONGESTION_NONE\<rparr>)"

subsection \<open>Reachable controller states\<close>

text \<open>Every call the tunnel can make on the controller; byte counts are \<open>u64\<close> values.\<close>

inductive cc_step :: "CongestionController \<Rightarrow> CongestionController \<Rightarrow> bool" where
  step_mtu: "cc_step cc (set_mtu n cc)"
| step_release: "cc_step cc (release n cc)"
| step_refund: "cc_step cc (refund_send_bytes n cc)"
| step_release_packets: "cc_step cc (release_packets n cc)"
| step_may_send: "cc_step cc (fst (may_send now n cc))"
| step_parity: "cc_step cc (fst (try_send_parity now n cc))"
| step_reset: "cc_step cc (reset_pacer cc)"
| step_cwnd: "n \<le> U64_MAX \<Longrightarrow> cc_step cc (set_cwnd n cc)"
| step_send: "cc_step cc (on_send cc)"
| step_send_bytes: "cc_step cc (on_send_bytes n cc)"
| step_ack: "cc_step cc (on_ack n cc)"
| step_ack_bytes: "cc_step cc (on_ack_bytes n cc)"
| step_ack_rtt: "cc_step cc (on_ack_with_rtt n r cc)"
| step_loss: "cc_step cc (on_loss n t cc)"
| step_rtt: "cc_step cc (on_rtt_sample r cc)"

inductive cc_reachable :: "CongestionController \<Rightarrow> bool" where
  reach_new: "cc_reachable cc_new"
| reach_step: "cc_reachable cc \<Longrightarrow> cc_step cc cc' \<Longrightarrow> cc_reachable cc'"

inductive_cases cc_stepE: "cc_step cc cc'"

text \<open>The pacing rate belongs to the window and the smoothed RTT.\<close>

definition rate_of :: "nat \<Rightarrow> nat \<Rightarrow> f64" where
  "rate_of cwnd srtt = clamp MIN_PACING_RATE MAX_PACING_RATE (real cwnd / max (as_secs_f64 srtt) (1 / 1000000))"

definition cc_inv :: "CongestionController \<Rightarrow> bool" where
  "cc_inv cc \<longleftrightarrow>
     MIN_CWND_BYTES \<le> cc_cwnd cc \<and> cc_cwnd cc \<le> U64_MAX \<and>
     MIN_CWND_BYTES \<le> cc_ssthresh cc \<and> cc_ssthresh cc \<le> U64_MAX \<and>
     cc_in_flight cc \<le> U64_MAX \<and>
     1000 \<le> cc_srtt cc \<and> 1000 \<le> cc_rttvar cc \<and> 1000000 \<le> cc_rto cc \<and> cc_srtt cc \<le> cc_rto cc \<and>
     1 \<le> cc_mtu cc \<and> 0 \<le> cc_last_loss cc \<and> cc_last_loss cc \<le> 1 \<and>
     MIN_PACING_RATE \<le> cc_pacing_rate cc \<and> cc_pacing_rate cc \<le> MAX_PACING_RATE \<and>
     (cc_pacing_rate cc = rate_of (cc_cwnd cc) (cc_srtt cc) \<or>
      cc_pacing_rate cc = INITIAL_PACING_RATE \<and> cc_cwnd cc = INITIAL_CWND_BYTES \<and> cc_srtt cc = ms INITIAL_RTT_MS)"

lemma clamp_bounds [simp]: "lo \<le> hi \<Longrightarrow> lo \<le> clamp lo hi x" "lo \<le> hi \<Longrightarrow> clamp lo hi x \<le> hi"
  by (auto simp: clamp_def)

lemma rate_bounds [simp]: "MIN_PACING_RATE \<le> MAX_PACING_RATE"
  "MIN_PACING_RATE \<le> INITIAL_PACING_RATE" "INITIAL_PACING_RATE \<le> MAX_PACING_RATE"
  by (simp_all add: MIN_PACING_RATE_def MAX_PACING_RATE_def INITIAL_PACING_RATE_def)

lemma window_consts [simp]: "MIN_CWND_BYTES \<le> U64_MAX" "MIN_CWND_BYTES \<le> INITIAL_CWND_BYTES"
  "INITIAL_CWND_BYTES \<le> U64_MAX" "MIN_CWND_BYTES \<le> INITIAL_SSTHRESH_BYTES" "INITIAL_SSTHRESH_BYTES \<le> U64_MAX"
  by (simp_all add: MIN_CWND_BYTES_def U64_MAX_def INITIAL_CWND_BYTES_def INITIAL_SSTHRESH_BYTES_def)

lemma recompute_simps [simp]:
  "cc_cwnd (recompute_pacing_rate cc) = cc_cwnd cc" "cc_ssthresh (recompute_pacing_rate cc) = cc_ssthresh cc"
  "cc_in_flight (recompute_pacing_rate cc) = cc_in_flight cc" "cc_srtt (recompute_pacing_rate cc) = cc_srtt cc"
  "cc_rttvar (recompute_pacing_rate cc) = cc_rttvar cc" "cc_rto (recompute_pacing_rate cc) = cc_rto cc"
  "cc_mtu (recompute_pacing_rate cc) = cc_mtu cc" "cc_last_loss (recompute_pacing_rate cc) = cc_last_loss cc"
  "cc_next_send_at (recompute_pacing_rate cc) = cc_next_send_at cc"
  "cc_pacing_rate (recompute_pacing_rate cc) = rate_of (cc_cwnd cc) (cc_srtt cc)"
  by (simp_all add: recompute_pacing_rate_def rate_of_def Let_def)

lemma advance_pacer_inv [simp]: "cc_inv (advance_pacer now n cc) = cc_inv cc"
  by (simp add: advance_pacer_def cc_inv_def Let_def)

lemma set_next_inv [simp]: "cc_inv (cc\<lparr>cc_next_send_at := x\<rparr>) = cc_inv cc"
  by (simp add: cc_inv_def)

lemma release_inv: "cc_inv cc \<Longrightarrow> cc_inv (release n cc)"
  by (auto simp: cc_inv_def release_def)

lemma on_send_inv: "cc_inv cc \<Longrightarrow> cc_inv (on_send_bytes n cc)"
  by (auto simp: cc_inv_def on_send_bytes_def sat_add64_def)

lemma ack_common_inv:
  assumes "cc_inv cc"
  shows "cc_inv (ack_common n cc)"
proof -
  have *: "MIN_CWND_BYTES \<le> sat_add64 (cc_cwnd cc) x" "sat_add64 (cc_cwnd cc) x \<le> U64_MAX" for x
    using assms by (auto simp: sat_add64_def cc_inv_def)
  have "cc_in_flight cc - x \<le> U64_MAX" for x using assms by (auto simp: cc_inv_def)
  then show ?thesis using assms * by (simp add: ack_common_def cc_inv_def Let_def rate_of_def)
qed

lemma on_loss_inv: "cc_inv cc \<Longrightarrow> cc_inv (on_loss n t cc)"
  by (simp add: on_loss_def cc_inv_def Let_def rate_of_def f64_as_u64_def)

lemma wrap_i64_range: "- (2 ^ 63) \<le> wrap_i64 x" "wrap_i64 x < 2 ^ 63"
  using pos_mod_bound [of "2 ^ 64" "x + 2 ^ 63"] pos_mod_sign [of "2 ^ 64" "x + 2 ^ 63"] by (simp_all add: wrap_i64_def)

lemma wrap_i64_id: "- (2 ^ 63) \<le> x \<Longrightarrow> x < 2 ^ 63 \<Longrightarrow> wrap_i64 x = x"
  unfolding wrap_i64_def by (subst mod_pos_pos_trivial) auto

lemma div_8_range: "- (2 ^ 60) \<le> div_i64 (wrap_i64 x) 8 \<and> div_i64 (wrap_i64 x) 8 \<le> 2 ^ 60"
  using wrap_i64_range [of x] by (auto simp: div_i64_def)

text \<open>Whatever wraps, the smoothed RTT is an eighth of an \<open>i64\<close>, so adding the granularity to it does not wrap.\<close>

lemma rto_bounds:
  assumes "- (2 ^ 60) \<le> a" "a \<le> 2 ^ 60"
  shows "nat (max a 1000) \<le> nat (max (max b (wrap_i64 (a + 1000000))) 1000000)"
proof -
  have "wrap_i64 (a + 1000000) = a + 1000000" by (rule wrap_i64_id) (use assms in auto)
  then show ?thesis by (intro nat_mono) auto
qed

lemma on_rtt_inv: "cc_inv cc \<Longrightarrow> cc_inv (on_rtt_sample r cc)"
proof -
  assume inv: "cc_inv cc"
  define a where "a = div_i64 (wrap_i64 (wrap_i64 (7 * wrap_i64 (int (cc_srtt cc))) + wrap_i64 (int r))) 8"
  obtain v b where "on_rtt_sample r cc = recompute_pacing_rate (cc\<lparr>cc_srtt := nat (max a 1000), cc_rttvar := nat (max v 1000),
      cc_rto := nat (max (max b (wrap_i64 (a + 1000000))) 1000000)\<rparr>)"
    unfolding on_rtt_sample_def Let_def a_def by blast
  moreover have "- (2 ^ 60) \<le> a" "a \<le> 2 ^ 60" using div_8_range by (auto simp: a_def)
  moreover have "m \<le> nat (max y (int m))" for y m by simp
  from this [of 1000] this [of 1000000] have "1000 \<le> nat (max y 1000)" "1000000 \<le> nat (max y 1000000)" for y by simp_all
  ultimately show ?thesis using inv rto_bounds [of a b] by (simp add: cc_inv_def rate_of_def)
qed

text \<open>The estimator does wrap on samples the tunnel takes: it bounds the RTT of an acknowledgement but not that of a pong,
  whose timestamp the peer echoes. Eight pongs with timestamp zero, each a sample of some 57 years, make the smoothed RTT
  negative, and it becomes the minimum of a microsecond.\<close>

definition rtt_estimate :: "nat \<Rightarrow> nat \<times> nat \<Rightarrow> nat \<times> nat" where
  "rtt_estimate r = (\<lambda>(s, v).
     (nat (max (div_i64 (wrap_i64 (wrap_i64 (7 * wrap_i64 (int s)) + wrap_i64 (int r))) 8) 1000),
      nat (max (div_i64 (wrap_i64 (wrap_i64 (3 * wrap_i64 (int v)) + wrap_i64 \<bar>wrap_i64 (wrap_i64 (int s) - wrap_i64 (int r))\<bar>)) 4) 1000)))"

lemma on_rtt_estimate:
  "(cc_srtt (on_rtt_sample r cc), cc_rttvar (on_rtt_sample r cc)) = rtt_estimate r (cc_srtt cc, cc_rttvar cc)"
  by (simp add: on_rtt_sample_def rtt_estimate_def Let_def)

lemma fold_rtt_estimate:
  "(cc_srtt (fold on_rtt_sample rs cc), cc_rttvar (fold on_rtt_sample rs cc)) = fold rtt_estimate rs (cc_srtt cc, cc_rttvar cc)"
  by (induction rs arbitrary: cc) (simp_all add: on_rtt_estimate [symmetric])

lemmas i64_numeral =
  wrap_i64_def [of "numeral n" for n] wrap_i64_def [of "- numeral n" for n]
  div_i64_def [of "numeral n" for n] div_i64_def [of "- numeral n" for n]

lemma rtt_estimate_wraps:
  defines "year57 \<equiv> 1800000000000000000"
  shows "cc_srtt (fold on_rtt_sample [year57, year57, year57, year57, year57, year57, year57, year57] cc_new) = 1000"
proof -
  let ?rs = "[year57, year57, year57, year57, year57, year57, year57, year57]"
  have "rtt_estimate 1800000000000000000 (100000000, 50000000) = (225000000087500000, 450000000012500000)"
    "rtt_estimate 1800000000000000000 (225000000087500000, 450000000012500000) = (421875000076562500, 731249999987500000)"
    "rtt_estimate 1800000000000000000 (421875000076562500, 731249999987500000) = (594140625066992187, 892968749971484375)"
    "rtt_estimate 1800000000000000000 (594140625066992187, 892968749971484375) = (744873046933618163, 971191406211865234)"
    "rtt_estimate 1800000000000000000 (744873046933618163, 971191406211865234) = (876763916066915892, 992175292925494384)"
    "rtt_estimate 1800000000000000000 (876763916066915892, 992175292925494384) = (992168426558551405, 974940490677391815)"
    "rtt_estimate 1800000000000000000 (992168426558551405, 974940490677391815) = (1093147373238732479, 933163261368406010)"
    "rtt_estimate 1800000000000000000 (1093147373238732479, 933163261368406010) = (1000, 876585602716621387)"
    by (simp_all add: rtt_estimate_def i64_numeral)
  then have "fst (fold rtt_estimate ?rs (100000000, 50000000)) = 1000" by (simp add: year57_def)
  then show ?thesis using fold_rtt_estimate [of ?rs cc_new]
    by (simp add: cc_new_def ms_def INITIAL_RTT_MS_def prod_eq_iff)
qed

lemma set_cwnd_inv: "cc_inv cc \<Longrightarrow> n \<le> U64_MAX \<Longrightarrow> cc_inv (set_cwnd n cc)"
  by (simp add: set_cwnd_def cc_inv_def rate_of_def)

lemma refund_inv: "cc_inv cc \<Longrightarrow> cc_inv (refund_send_bytes n cc)"
  by (auto simp: refund_send_bytes_def Let_def release_inv split: option.splits)

lemma may_send_inv: "cc_inv cc \<Longrightarrow> cc_inv (fst (may_send now n cc))"
  by (auto simp: may_send_def Let_def split: option.splits)

lemma parity_inv: "cc_inv cc \<Longrightarrow> cc_inv (fst (try_send_parity now n cc))"
  by (auto simp: try_send_parity_def Let_def on_send_inv)

lemmas cc_invs = release_inv on_send_inv ack_common_inv on_loss_inv on_rtt_inv set_cwnd_inv refund_inv
  may_send_inv parity_inv

lemma cc_step_inv: "cc_step cc cc' \<Longrightarrow> cc_inv cc \<Longrightarrow> cc_inv cc'"
  by (erule cc_stepE) (auto simp: cc_invs set_mtu_def release_packets_def reset_pacer_def on_send_def
      on_ack_def on_ack_bytes_def on_ack_with_rtt_def, simp_all add: cc_inv_def)

lemma cc_new_inv: "cc_inv cc_new"
  by (simp add: cc_inv_def cc_new_def ms_def INITIAL_RTT_MS_def DEFAULT_MTU_def)

lemma cc_reachable_inv: "cc_reachable cc \<Longrightarrow> cc_inv cc"
  by (induction rule: cc_reachable.induct) (auto simp: cc_new_inv dest: cc_step_inv)

subsection \<open>The contract of a controller\<close>

text \<open>What the tunnel relies on: an admitted packet fits the budget; admission alone does not
  consume budget, reserving does, and releasing what was reserved gives it back.\<close>

locale congestion_control =
  fixes budget :: "'c \<Rightarrow> nat" and may :: "nat \<Rightarrow> nat \<Rightarrow> 'c \<Rightarrow> 'c \<times> bool"
    and parity :: "nat \<Rightarrow> nat \<Rightarrow> 'c \<Rightarrow> 'c \<times> bool"
    and reserve :: "nat \<Rightarrow> 'c \<Rightarrow> 'c" and rel :: "nat \<Rightarrow> 'c \<Rightarrow> 'c" and ok :: "'c \<Rightarrow> bool"
  assumes may_fits: "len \<le> U64_MAX \<Longrightarrow> snd (may now len c) \<Longrightarrow> max len 1 \<le> budget c"
    and may_budget: "budget (fst (may now len c)) = budget c"
    and may_ok: "ok c \<Longrightarrow> ok (fst (may now len c))"
    and parity_refused: "\<not> snd (parity now len c) \<Longrightarrow> fst (parity now len c) = c"
    and rel_reserve: "ok c \<Longrightarrow> 1 \<le> len \<Longrightarrow> len \<le> budget c \<Longrightarrow> budget (rel len (reserve len c)) = budget c"
    and rel_grows: "budget c \<le> budget (rel n c)"
begin

text \<open>A packet that is admitted, reserved and then dropped leaves no trace in the budget.\<close>

lemma admit_drop:
  assumes "ok c" "1 \<le> len" "len \<le> U64_MAX" "snd (may now len c)"
  shows "budget (rel len (reserve len (fst (may now len c)))) = budget c"
proof -
  have "len \<le> budget c" using may_fits [OF assms(3,4)] by simp
  then show ?thesis using rel_reserve [OF may_ok [OF assms(1)] assms(2)] may_budget by simp
qed

end

lemma advance_pacer_simps [simp]:
  "cc_in_flight (advance_pacer now n cc) = cc_in_flight cc" "cc_cwnd (advance_pacer now n cc) = cc_cwnd cc"
  by (simp_all add: advance_pacer_def Let_def)

lemma may_send_window [simp]:
  "cc_in_flight (fst (may_send now n cc)) = cc_in_flight cc" "cc_cwnd (fst (may_send now n cc)) = cc_cwnd cc"
  by (simp_all add: may_send_def Let_def split: option.splits)

lemma may_send_fits: "snd (may_send now len cc) \<Longrightarrow> max len 1 \<le> send_budget cc"
  by (auto simp: may_send_def Let_def split: if_splits)

text \<open>Under the budget, reserving is exact: neither saturation nor the clip to the window applies.\<close>

lemma on_send_exact:
  assumes "cc_cwnd cc \<le> U64_MAX" "max len 1 \<le> send_budget cc"
  shows "cc_in_flight (on_send_bytes len cc) = cc_in_flight cc + max len 1"
proof -
  have "cc_in_flight cc + max len 1 \<le> cc_cwnd cc" using assms(2) unfolding send_budget_def by linarith
  then show ?thesis using assms(1) by (simp add: on_send_bytes_def sat_add64_def)
qed

interpretation reno: congestion_control send_budget may_send try_send_parity on_send_bytes release
  "\<lambda>cc. cc_cwnd cc \<le> U64_MAX"
proof
  fix now len n c
  show "snd (may_send now len c) \<Longrightarrow> max len 1 \<le> send_budget c" by (rule may_send_fits)
  show "send_budget (fst (may_send now len c)) = send_budget c" by (simp add: send_budget_def)
  show "cc_cwnd c \<le> U64_MAX \<Longrightarrow> cc_cwnd (fst (may_send now len c)) \<le> U64_MAX" by simp
  show "\<not> snd (try_send_parity now len c) \<Longrightarrow> fst (try_send_parity now len c) = c"
    by (simp add: try_send_parity_def Let_def split: if_splits)
  show "send_budget c \<le> send_budget (release n c)" by (simp add: send_budget_def release_def)
  assume a: "cc_cwnd c \<le> U64_MAX" "1 \<le> len" "len \<le> send_budget c"
  then have "cc_in_flight (on_send_bytes len c) = cc_in_flight c + len" using on_send_exact [of c len] by simp
  then show "send_budget (release len (on_send_bytes len c)) = send_budget c"
    by (simp add: send_budget_def release_def) (simp add: on_send_bytes_def)
qed

interpretation none_cc: congestion_control none_send_budget none_may_send none_try_send_parity
  none_on_bytes none_on_bytes "\<lambda>_. True"
  by unfold_locales (simp_all add: none_send_budget_def none_may_send_def none_try_send_parity_def
      none_on_bytes_def U64_MAX_def)

subsection \<open>Pacing\<close>

definition airtime :: "nat \<Rightarrow> CongestionController \<Rightarrow> nat" where
  "airtime len cc = from_secs_f64 (real len / clamp MIN_PACING_RATE MAX_PACING_RATE (cc_pacing_rate cc))"

lemma advance_pacer_bounds:
  "\<exists>t. cc_next_send_at (advance_pacer now len cc) = Some t \<and> now + airtime len cc \<le> t
     \<and> t \<le> now + max (airtime len cc) (max (cc_srtt cc) (ms 1))"
  by (auto simp: advance_pacer_def airtime_def Let_def split: option.splits)

lemma may_send_next:
  assumes "snd (may_send now len cc)"
  shows "cc_next_send_at (fst (may_send now len cc)) = Some (now + airtime (max len 1) cc)"
  using assms by (auto simp: may_send_def advance_pacer_def airtime_def Let_def split: option.splits if_splits)

lemma scaled_floor:
  fixes w :: nat and f :: real
  assumes "1 / 2 \<le> f" "f \<le> 7 / 8"
  shows "w div 2 \<le> nat \<lfloor>real w * f\<rfloor>" "nat \<lfloor>real w * f\<rfloor> \<le> w * 7 div 8"
proof -
  have "real w * (1 / 2) \<le> real w * f" "real w * f \<le> real w * (7 / 8)"
    using assms by (intro mult_left_mono; simp)+
  then have "\<lfloor>real w / real 2\<rfloor> \<le> \<lfloor>real w * f\<rfloor>" "\<lfloor>real w * f\<rfloor> \<le> \<lfloor>real (w * 7) / real 8\<rfloor>"
    by (auto intro!: floor_mono)
  then show "w div 2 \<le> nat \<lfloor>real w * f\<rfloor>" "nat \<lfloor>real w * f\<rfloor> \<le> w * 7 div 8"
    unfolding floor_divide_of_nat_eq by linarith+
qed

subsection \<open>Properties\<close>

text \<open>C34. In every state that any sequence of calls with any RTT samples reaches from a new controller, the window and the
  slow-start threshold stay at or above \<open>MIN_CWND_BYTES\<close> and within \<open>u64\<close>, the retransmission timeout is at least a millisecond
  and at least the smoothed RTT, and the pacing rate is within its limits and is the one of the window and the RTT, unless both
  are still the initial ones.\<close>

theorem controller_invariant: "cc_reachable cc \<Longrightarrow> cc_inv cc"
  by (rule cc_reachable_inv)

theorem controller_invariant_witness: "cc_inv (on_loss 1 2 (on_ack_with_rtt 1400 5000000 (on_send cc_new)))"
proof -
  have "cc_reachable (on_loss 1 2 (on_ack_with_rtt 1400 5000000 (on_send cc_new)))"
    by (intro reach_step [OF _ step_loss] reach_step [OF _ step_ack_rtt] reach_step [OF _ step_send] reach_new)
  then show ?thesis by (rule controller_invariant)
qed

text \<open>The byte accounting is exact for admitted packets: after \<open>may_send\<close> admits a packet in
  a reachable state and its bytes are reserved, the bytes in flight grew by exactly its length
  and do not exceed the window; releasing the packet restores the budget.\<close>

theorem admitted_send_accounting:
  assumes "cc_reachable cc" "may_send now len cc = (cc', True)" "1 \<le> len"
  shows "cc_in_flight (on_send_bytes len cc') = cc_in_flight cc + len
    \<and> cc_in_flight (on_send_bytes len cc') \<le> cc_cwnd cc'
    \<and> send_budget (release len (on_send_bytes len cc')) = send_budget cc"
proof -
  have inv: "cc_cwnd cc \<le> U64_MAX" using cc_reachable_inv [OF assms(1)] by (simp add: cc_inv_def)
  have fits: "max len 1 \<le> send_budget cc" using may_send_fits [of now len cc] assms(2) by simp
  have win: "cc_in_flight cc' = cc_in_flight cc" "cc_cwnd cc' = cc_cwnd cc"
    using may_send_window [of now len cc] assms(2) by simp_all
  then have "cc_in_flight (on_send_bytes len cc') = cc_in_flight cc + len"
    using on_send_exact [of cc' len] inv fits assms(3) by (simp add: send_budget_def)
  moreover have "len \<le> U64_MAX" using fits inv unfolding send_budget_def by linarith
  then have "send_budget (release len (on_send_bytes len cc')) = send_budget cc"
    using reno.admit_drop [OF inv assms(3), of now] assms(2) fits inv by (simp add: send_budget_def)
  moreover have "cc_in_flight cc + len \<le> cc_cwnd cc" using fits unfolding send_budget_def by linarith
  ultimately show ?thesis using win by simp
qed

theorem admitted_send_accounting_witness:
  "cc_in_flight (on_send_bytes 1400 (fst (may_send 0 1400 cc_new))) = 1400"
proof -
  have "snd (may_send 0 1400 cc_new)"
    by (simp add: may_send_def send_budget_def cc_new_def INITIAL_CWND_BYTES_def Let_def)
  then have "may_send 0 1400 cc_new = (fst (may_send 0 1400 cc_new), True)" by (metis prod.collapse)
  from admitted_send_accounting [OF reach_new this] show ?thesis by (simp add: cc_new_def)
qed

text \<open>Pacing: a packet admitted at time \<open>now\<close> blocks every further admission until its
  airtime at the pacing rate is over; a parity packet is never refused for pacing and delays the
  next packet by at most its airtime or one smoothed RTT (at least a millisecond).\<close>

theorem pacer_spaces_packets:
  "(snd (may_send now len cc) \<longrightarrow>
      (\<forall>t n. t < now + airtime (max len 1) cc \<longrightarrow> \<not> snd (may_send t n (fst (may_send now len cc)))))
   \<and> (snd (try_send_parity now len cc) \<longleftrightarrow> max len 1 \<le> send_budget cc)
   \<and> (snd (try_send_parity now len cc) \<longrightarrow>
      (case cc_next_send_at (fst (try_send_parity now len cc)) of
         None \<Rightarrow> False
       | Some t \<Rightarrow> t \<le> now + max (airtime (max len 1) cc) (max (cc_srtt cc) (ms 1))))"
proof (intro conjI impI allI)
  fix t n assume "snd (may_send now len cc)" "t < now + airtime (max len 1) cc"
  then show "\<not> snd (may_send t n (fst (may_send now len cc)))"
    using may_send_next [of now len cc] by (simp add: may_send_def [of t n] Let_def)
next
  show "snd (try_send_parity now len cc) \<longleftrightarrow> max len 1 \<le> send_budget cc"
    by (auto simp: try_send_parity_def Let_def)
next
  assume "snd (try_send_parity now len cc)"
  moreover have "airtime n (on_send_bytes len cc) = airtime n cc" "cc_srtt (on_send_bytes len cc) = cc_srtt cc" for n
    by (simp_all add: airtime_def on_send_bytes_def)
  ultimately show "case cc_next_send_at (fst (try_send_parity now len cc)) of None \<Rightarrow> False
      | Some t \<Rightarrow> t \<le> now + max (airtime (max len 1) cc) (max (cc_srtt cc) (ms 1))"
    using advance_pacer_bounds [of now "max len 1" "on_send_bytes len cc"]
    by (auto simp: try_send_parity_def Let_def split: if_splits)
qed

theorem pacer_spaces_packets_witness:
  "snd (may_send 0 1400 cc_new) \<and> \<not> snd (may_send 1000 1400 (fst (may_send 0 1400 cc_new)))"
proof -
  have "airtime 1400 cc_new = 11200000"
    by (simp add: airtime_def cc_new_def from_secs_f64_def clamp_def MIN_PACING_RATE_def MAX_PACING_RATE_def
        INITIAL_PACING_RATE_def)
  moreover have s: "snd (may_send 0 1400 cc_new)"
    by (simp add: may_send_def send_budget_def cc_new_def INITIAL_CWND_BYTES_def Let_def)
  ultimately show ?thesis using pacer_spaces_packets [of 0 1400 cc_new] by simp
qed

text \<open>Loss response: reported loss never enlarges a reachable window, shrinks it to at least
  seven eighths (unless the floor applies) and never below half of it or the floor.\<close>

theorem loss_backs_off:
  assumes "cc_reachable cc" "0 < lost" "0 < tot"
  shows "cc_cwnd (on_loss lost tot cc) \<le> max MIN_CWND_BYTES (cc_cwnd cc * 7 div 8)
    \<and> max MIN_CWND_BYTES (cc_cwnd cc div 2) \<le> cc_cwnd (on_loss lost tot cc)
    \<and> cc_ssthresh (on_loss lost tot cc) = cc_cwnd (on_loss lost tot cc)"
proof -
  define f where "f = clamp (1 / 2) (875 / 1000) (1 - clamp 0 1 (real lost / real tot) * (1 / 2))"
  have f: "1 / 2 \<le> f" "f \<le> 7 / 8"
    using clamp_bounds [of "1 / 2" "875 / 1000" "1 - clamp 0 1 (real lost / real tot) * (1 / 2)"]
    by (simp_all add: f_def)
  have w: "MIN_CWND_BYTES \<le> cc_cwnd cc" "cc_cwnd cc \<le> U64_MAX"
    using cc_reachable_inv [OF assms(1)] by (simp_all add: cc_inv_def)
  have "cc_cwnd cc * 7 div 8 \<le> cc_cwnd cc" by simp
  then have "f64_as_u64 (real (cc_cwnd cc) * f) = nat \<lfloor>real (cc_cwnd cc) * f\<rfloor>"
    using scaled_floor(2) [OF f, of "cc_cwnd cc"] w(2) by (simp add: f64_as_u64_def)
  then show ?thesis
    using scaled_floor [OF f, of "cc_cwnd cc"] assms(2,3)
    unfolding on_loss_def Let_def f_def [symmetric] by (simp add: max.coboundedI1 max.coboundedI2)
qed

theorem loss_backs_off_witness: "cc_cwnd (on_loss 1 10 cc_new) \<le> 11375"
  using loss_backs_off [OF reach_new, of 1 10]
  by (simp add: cc_new_def INITIAL_CWND_BYTES_def MIN_CWND_BYTES_def)

end
