(* ===== verification/Negotiation.thy ===== *)
theory Negotiation
  imports Cipher_Suite Frame_Codec Transport_Layer Fec_Scheme Congestion_Control
begin

text \<open>
  Protocol profiles and their negotiation, \<open>src/src/protocol/profile.rs\<close>, with the key-exchange
  registry of \<open>src/src/protocol/handshake.rs\<close>: the client's offer and the server's selection,
  their wire formats, the server's choice, and the profile a session runs. The four part names
  are a datatype; the text of a configuration error is reduced to the offending name.
\<close>

subsection \<open>Parts and errors\<close>

definition NEGOTIATION_VERSION :: u8 where "NEGOTIATION_VERSION = 1"
definition MAX_OFFER_ALTERNATIVES :: nat where "MAX_OFFER_ALTERNATIVES = 32"
definition SELECTION_LEGACY_LEN :: nat where "SELECTION_LEGACY_LEN = 6"
definition TRANSPORT_SAME_AS_HANDSHAKE_ID :: u8 where "TRANSPORT_SAME_AS_HANDSHAKE_ID = 0"
definition DEFAULT_FRAME_CODEC :: string where "DEFAULT_FRAME_CODEC = ''v1-fixed''"

datatype Part = PART_CIPHER | PART_TRANSPORT | PART_FEC | PART_FRAME

datatype ProfileError =
    UnsupportedVersion u8
  | Malformed string
  | UnsupportedPart Part u8
  | NoCommonPart Part "string list" "string list"
  | ConfigError string

fun known_part_name :: "Part \<Rightarrow> u8 \<Rightarrow> string option" where
  "known_part_name PART_CIPHER i = map_option cipher_name (cipher_from_id i)"
| "known_part_name PART_TRANSPORT i = transport_name i"
| "known_part_name PART_FEC i = map_option fec_name (fec_from_id i)"
| "known_part_name PART_FRAME i = (case frame_codec_by_id i of Inl _ \<Rightarrow> None | Inr c \<Rightarrow> Some (codec_name c))"

definition part_name :: "Part \<Rightarrow> u8 \<Rightarrow> string" where
  "part_name part i = (case known_part_name part i of Some n \<Rightarrow> n | None \<Rightarrow> ''id#'' @ show_nat (unat i))"

subsection \<open>Preferences\<close>

record ProfilePrefs =
  pp_ciphers :: "string list"
  pp_transports :: "string list"
  pp_fecs :: "string list"
  pp_frames :: "string list"

definition non_empty_or :: "string list \<Rightarrow> string \<Rightarrow> string list" where
  "non_empty_or list dflt = (if list = [] then [dflt] else list)"

definition res_ok :: "'e + 'a \<Rightarrow> 'a option" where
  "res_ok r = (case r of Inl _ \<Rightarrow> None | Inr a \<Rightarrow> Some a)"

definition check_names :: "(string \<Rightarrow> bool) \<Rightarrow> string list \<Rightarrow> ProfileError + unit" where
  "check_names good names =
     (case find (\<lambda>n. \<not> good n) names of Some n \<Rightarrow> Inl (ConfigError n) | None \<Rightarrow> Inr ())"

definition prefs_resolve ::
  "string list \<Rightarrow> string list \<Rightarrow> string list \<Rightarrow> string list \<Rightarrow> ProfileError + ProfilePrefs" where
  "prefs_resolve ciphers transports fecs frames =
     (let ciphers = non_empty_or ciphers DEFAULT_CIPHER;
          transports = non_empty_or transports TRANSPORT_SAME_AS_HANDSHAKE;
          fecs = non_empty_or fecs DEFAULT_FEC_SCHEME;
          frames = non_empty_or frames DEFAULT_FRAME_CODEC
      in try_bind (check_names (\<lambda>n. res_ok (select_cipher n) \<noteq> None) ciphers) (\<lambda>_.
         try_bind (check_names (\<lambda>n. trim n = TRANSPORT_SAME_AS_HANDSHAKE \<or> transport_id n \<noteq> None) transports) (\<lambda>_.
         try_bind (check_names (\<lambda>n. res_ok (select_fec_scheme n) \<noteq> None) fecs) (\<lambda>_.
         try_bind (check_names (\<lambda>n. res_ok (build_frame_codec n) \<noteq> None) frames) (\<lambda>_.
           Inr \<lparr>pp_ciphers = ciphers, pp_transports = transports, pp_fecs = fecs, pp_frames = frames\<rparr>)))))"

definition pref_cipher_ids :: "ProfilePrefs \<Rightarrow> u8 option list" where
  "pref_cipher_ids p = map (\<lambda>k. Some (cipher_id k)) (List.map_filter (\<lambda>n. res_ok (select_cipher n)) (pp_ciphers p))"

definition pref_transport_ids :: "ProfilePrefs \<Rightarrow> u8 option list" where
  "pref_transport_ids p =
     map (\<lambda>n. if trim n = TRANSPORT_SAME_AS_HANDSHAKE then None else transport_id n) (pp_transports p)"

definition pref_fec_ids :: "ProfilePrefs \<Rightarrow> u8 option list" where
  "pref_fec_ids p = map (\<lambda>k. Some (fec_id k)) (List.map_filter (\<lambda>n. res_ok (select_fec_scheme n)) (pp_fecs p))"

definition pref_frame_ids :: "ProfilePrefs \<Rightarrow> u8 option list" where
  "pref_frame_ids p = map (\<lambda>c. Some (wire_id c)) (List.map_filter (\<lambda>n. res_ok (build_frame_codec n)) (pp_frames p))"

definition pref_transport_names :: "ProfilePrefs \<Rightarrow> string list" where
  "pref_transport_names p =
     map (\<lambda>n. if trim n = TRANSPORT_SAME_AS_HANDSHAKE then TRANSPORT_SAME_AS_HANDSHAKE
        else part_name PART_TRANSPORT (case transport_id n of Some i \<Rightarrow> i | None \<Rightarrow> 0)) (pp_transports p)"

definition rustnies_default :: ProfilePrefs where
  "rustnies_default = \<lparr>pp_ciphers = [DEFAULT_CIPHER], pp_transports = [TRANSPORT_SAME_AS_HANDSHAKE],
     pp_fecs = [DEFAULT_FEC_SCHEME], pp_frames = [DEFAULT_FRAME_CODEC]\<rparr>"

subsection \<open>The client's offer\<close>

record ClientOffer =
  co_cipher_ids :: bytes
  co_transport_ids :: bytes
  co_fec_ids :: bytes
  co_frame_ids :: bytes

definition flatten_ids :: "u8 option list \<Rightarrow> bytes" where
  "flatten_ids = List.map_filter id"

definition offer_from_prefs :: "ProfilePrefs \<Rightarrow> ClientOffer" where
  "offer_from_prefs p =
     \<lparr>co_cipher_ids = flatten_ids (pref_cipher_ids p), co_transport_ids = flatten_ids (pref_transport_ids p),
      co_fec_ids = flatten_ids (pref_fec_ids p), co_frame_ids = flatten_ids (pref_frame_ids p)\<rparr>"

definition offer_is_empty :: "ClientOffer \<Rightarrow> bool" where
  "offer_is_empty co \<longleftrightarrow> co_cipher_ids co = [] \<and> co_transport_ids co = [] \<and> co_fec_ids co = []"

fun ids_for :: "ClientOffer \<Rightarrow> Part \<Rightarrow> bytes" where
  "ids_for co PART_CIPHER = co_cipher_ids co"
| "ids_for co PART_TRANSPORT = co_transport_ids co"
| "ids_for co PART_FEC = co_fec_ids co"
| "ids_for co PART_FRAME = co_frame_ids co"

definition names_for :: "ClientOffer \<Rightarrow> Part \<Rightarrow> string list" where
  "names_for co part = map (part_name part) (ids_for co part)"

definition encode_list :: "bytes \<Rightarrow> bytes" where
  "encode_list l = (let n = min (length l) MAX_OFFER_ALTERNATIVES in of_nat n # take n l)"

definition offer_encode :: "ClientOffer \<Rightarrow> bytes" where
  "offer_encode co =
     [NEGOTIATION_VERSION] @ encode_list (co_cipher_ids co) @ encode_list (co_transport_ids co)
     @ encode_list (co_fec_ids co) @ encode_list (co_frame_ids co)"

text \<open>The bounds-checked cursor: \<open>take_list\<close> returns the list and the new position.\<close>

definition cursor_new :: "bytes \<Rightarrow> ProfileError + nat" where
  "cursor_new buf =
     (case buf of
        [] \<Rightarrow> Inl (Malformed ''empty payload'')
      | version # _ \<Rightarrow> if version \<noteq> NEGOTIATION_VERSION then Inl (UnsupportedVersion version) else Inr 1)"

definition at_end :: "bytes \<Rightarrow> nat \<Rightarrow> bool" where
  "at_end buf pos \<longleftrightarrow> length buf \<le> pos"

definition take_list :: "bytes \<Rightarrow> nat \<Rightarrow> ProfileError + bytes \<times> nat" where
  "take_list buf pos =
     (if length buf \<le> pos then Inl (Malformed ''truncated list length'')
      else let n = unat (buf ! pos); pos = pos + 1
        in if n > MAX_OFFER_ALTERNATIVES then Inl (Malformed ''alternative list too long'')
           else let end_pos = pos + n
             in if end_pos > length buf then Inl (Malformed ''truncated list body'')
                else Inr (slice pos end_pos buf, end_pos))"

definition offer_decode :: "bytes \<Rightarrow> ProfileError + ClientOffer option" where
  "offer_decode payload =
     (if payload = [] then Inr None
      else try_bind (cursor_new payload) (\<lambda>pos.
        try_bind (take_list payload pos) (\<lambda>(cipher_ids, pos).
        try_bind (take_list payload pos) (\<lambda>(transport_ids, pos).
        try_bind (take_list payload pos) (\<lambda>(fec_ids, pos).
        try_bind (if at_end payload pos then Inr ([FRAME_V1_FIXED], pos) else take_list payload pos) (\<lambda>(frame_ids, pos).
          Inr (Some \<lparr>co_cipher_ids = cipher_ids, co_transport_ids = transport_ids,
                     co_fec_ids = fec_ids, co_frame_ids = frame_ids\<rparr>)))))))"

subsection \<open>The server's selection\<close>

record Selection =
  sel_cipher :: u8
  sel_transport :: u8
  sel_fec :: u8
  sel_tag :: "u8 \<times> u8"
  sel_frame :: u8

definition sel_defaults :: Selection where
  "sel_defaults = \<lparr>sel_cipher = cipher_id ChaCha20Poly1305, sel_transport = TRANSPORT_SAME_AS_HANDSHAKE_ID,
     sel_fec = fec_id ReedSolomonKind, sel_tag = DEFAULT_TAG, sel_frame = FRAME_V1_FIXED\<rparr>"

definition reuses_handshake_transport :: "Selection \<Rightarrow> bool" where
  "reuses_handshake_transport s \<longleftrightarrow> sel_transport s = TRANSPORT_SAME_AS_HANDSHAKE_ID"

definition sel_encode :: "Selection \<Rightarrow> bytes" where
  "sel_encode s = [NEGOTIATION_VERSION, sel_cipher s, sel_transport s, sel_fec s,
     fst (sel_tag s), snd (sel_tag s), sel_frame s]"

definition sel_decode :: "bytes \<Rightarrow> ProfileError + Selection" where
  "sel_decode payload =
     (if payload = [] then Inr sel_defaults
      else if payload ! 0 \<noteq> NEGOTIATION_VERSION then Inl (UnsupportedVersion (payload ! 0))
      else if length payload < SELECTION_LEGACY_LEN then Inl (Malformed ''selection shorter than 6 bytes'')
      else Inr \<lparr>sel_cipher = payload ! 1, sel_transport = payload ! 2, sel_fec = payload ! 3,
                sel_tag = (payload ! 4, payload ! 5),
                sel_frame = (if 6 < length payload then payload ! 6 else FRAME_V1_FIXED)\<rparr>)"

fun part_known :: "Part \<Rightarrow> u8 \<Rightarrow> bool" where
  "part_known PART_CIPHER i \<longleftrightarrow> cipher_from_id i \<noteq> None"
| "part_known PART_TRANSPORT i \<longleftrightarrow> i = TRANSPORT_SAME_AS_HANDSHAKE_ID \<or> transport_name i \<noteq> None"
| "part_known PART_FEC i \<longleftrightarrow> fec_from_id i \<noteq> None"
| "part_known PART_FRAME i \<longleftrightarrow> res_ok (frame_codec_by_id i) \<noteq> None"

definition sel_check :: "Selection \<Rightarrow> ProfileError + unit" where
  "sel_check s =
     (case find (\<lambda>(part, i). \<not> part_known part i)
        [(PART_CIPHER, sel_cipher s), (PART_TRANSPORT, sel_transport s), (PART_FEC, sel_fec s), (PART_FRAME, sel_frame s)]
      of Some (part, i) \<Rightarrow> Inl (UnsupportedPart part i) | None \<Rightarrow> Inr ())"

definition pick :: "Part \<Rightarrow> u8 option list \<Rightarrow> string list \<Rightarrow> ClientOffer option \<Rightarrow> u8 \<Rightarrow> (u8 \<Rightarrow> bool)
    \<Rightarrow> ProfileError + u8" where
  "pick part candidate_ids candidate_names offer terminal buildable =
     (let offer_ids = (case offer of None \<Rightarrow> [] | Some co \<Rightarrow> ids_for co part)
      in if offer_ids = [] then
           Inr (case flatten_ids candidate_ids of [] \<Rightarrow> terminal | i # _ \<Rightarrow> i)
         else case find (\<lambda>i. i \<in> set offer_ids) (flatten_ids candidate_ids) of
             Some i \<Rightarrow> Inr i
           | None \<Rightarrow> (case find buildable offer_ids of
                 Some i \<Rightarrow> Inr i
               | None \<Rightarrow> Inl (NoCommonPart part candidate_names
                   (case offer of None \<Rightarrow> [] | Some co \<Rightarrow> names_for co part))))"

definition negotiate :: "ProfilePrefs \<Rightarrow> ClientOffer option \<Rightarrow> u8 \<times> u8 \<Rightarrow> ProfileError + Selection" where
  "negotiate prefs offer data_tag =
     try_bind (pick PART_CIPHER (pref_cipher_ids prefs) (pp_ciphers prefs) offer (sel_cipher sel_defaults)
       (\<lambda>i. cipher_from_id i \<noteq> None)) (\<lambda>cipher.
     try_bind (pick PART_TRANSPORT (pref_transport_ids prefs) (pref_transport_names prefs) offer
       TRANSPORT_SAME_AS_HANDSHAKE_ID (\<lambda>i. transport_name i \<noteq> None)) (\<lambda>transport.
     try_bind (pick PART_FEC (pref_fec_ids prefs) (pp_fecs prefs) offer (sel_fec sel_defaults)
       (\<lambda>i. fec_from_id i \<noteq> None)) (\<lambda>fec.
     try_bind (pick PART_FRAME (pref_frame_ids prefs) (pp_frames prefs) offer (sel_frame sel_defaults)
       (\<lambda>i. res_ok (frame_codec_by_id i) \<noteq> None)) (\<lambda>frame.
     let sel = \<lparr>sel_cipher = cipher, sel_transport = transport, sel_fec = fec, sel_tag = data_tag, sel_frame = frame\<rparr>
     in try_bind (sel_check sel) (\<lambda>_. Inr sel)))))"

subsection \<open>Local and resolved profiles\<close>

datatype HandshakeKind = NoiseIk

definition DEFAULT_HANDSHAKE :: string where "DEFAULT_HANDSHAKE = ''noise-ik''"

definition select_handshake :: "string \<Rightarrow> string + HandshakeKind" where
  "select_handshake name =
     (let n = trim name
      in if n = '''' \<or> n = DEFAULT_HANDSHAKE \<or> n = ''rustnies'' then Inr NoiseIk else Inl n)"

definition local_congestion_name :: "string \<Rightarrow> ProfileError + string" where
  "local_congestion_name algorithm =
     try_bind (map_err (\<lambda>e. ConfigError (uc_name e)) (select_congestion algorithm)) (\<lambda>_.
       let name = trim algorithm in Inr (if name = [] then DEFAULT_CONGESTION else name))"

record LocalProfile =
  lp_kex_name :: string
  lp_prefs :: ProfilePrefs
  lp_handshake_transport :: transport
  lp_data_tag :: "u8 \<times> u8"
  lp_congestion_name :: string
  lp_propose :: bool

definition lp_offer :: "LocalProfile \<Rightarrow> ClientOffer option" where
  "lp_offer lp = (if lp_propose lp then Some (offer_from_prefs (lp_prefs lp)) else None)"

text \<open>\<open>new_congestion\<close>; \<open>Inl\<close> is the panic of its \<open>expect\<close>.\<close>

definition new_congestion :: "LocalProfile \<Rightarrow> UnknownCongestion + CongestionKind" where
  "new_congestion lp = select_congestion (lp_congestion_name lp)"

definition local_from_config ::
  "string \<Rightarrow> bool \<Rightarrow> string \<Rightarrow> string list \<Rightarrow> string list \<Rightarrow> string list \<Rightarrow> u8 \<times> u8 \<Rightarrow> string \<Rightarrow> string list
    \<Rightarrow> ProfileError + LocalProfile" where
  "local_from_config kex_name propose handshake_transport ciphers transports fecs data_tag congestion frames =
     try_bind (map_err ConfigError (select_handshake kex_name)) (\<lambda>_.
       if transport_id handshake_transport = None then Inl (ConfigError handshake_transport)
       else try_bind (prefs_resolve ciphers transports fecs frames) (\<lambda>prefs.
         try_bind (local_congestion_name congestion) (\<lambda>cname.
           Inr \<lparr>lp_kex_name = trim kex_name, lp_prefs = prefs,
                lp_handshake_transport = build_transport handshake_transport DEFAULT_TAG,
                lp_data_tag = data_tag, lp_congestion_name = cname, lp_propose = propose\<rparr>)))"

record ResolvedProfile =
  rp_cipher :: CipherKind
  rp_transport :: transport
  rp_fec :: FecSchemeImpl
  rp_codec :: frame_codec
  rp_congestion :: CongestionKind
  rp_selection :: Selection

definition from_selection :: "Selection \<Rightarrow> CongestionKind \<Rightarrow> ProfileError + ResolvedProfile" where
  "from_selection s congestion =
     try_bind (sel_check s) (\<lambda>_.
     try_bind (ok_or (cipher_from_id (sel_cipher s)) (UnsupportedPart PART_CIPHER (sel_cipher s))) (\<lambda>cipher.
     try_bind (ok_or (build_transport_id (sel_transport s) (sel_tag s))
       (UnsupportedPart PART_TRANSPORT (sel_transport s))) (\<lambda>transport.
     try_bind (ok_or (fec_from_id (sel_fec s)) (UnsupportedPart PART_FEC (sel_fec s))) (\<lambda>fec.
     try_bind (map_err (\<lambda>_. UnsupportedPart PART_FRAME (sel_frame s)) (frame_codec_by_id (sel_frame s))) (\<lambda>codec.
       Inr \<lparr>rp_cipher = cipher, rp_transport = transport, rp_fec = fec_build fec, rp_codec = codec,
            rp_congestion = congestion, rp_selection = s\<rparr>)))))"

definition with_handshake_transport ::
  "Selection \<Rightarrow> transport \<Rightarrow> CongestionKind \<Rightarrow> ProfileError + ResolvedProfile" where
  "with_handshake_transport s hs congestion =
     (if \<not> reuses_handshake_transport s then from_selection s congestion
      else
        try_bind (ok_or (cipher_from_id (sel_cipher s)) (UnsupportedPart PART_CIPHER (sel_cipher s))) (\<lambda>cipher.
        try_bind (ok_or (fec_from_id (sel_fec s)) (UnsupportedPart PART_FEC (sel_fec s))) (\<lambda>fec.
        try_bind (map_err (\<lambda>_. UnsupportedPart PART_FRAME (sel_frame s)) (frame_codec_by_id (sel_frame s))) (\<lambda>codec.
          Inr \<lparr>rp_cipher = cipher, rp_transport = hs, rp_fec = fec_build fec, rp_codec = codec,
               rp_congestion = congestion, rp_selection = s\<rparr>))))"

subsection \<open>Wire formats\<close>

lemma take_list_encoded:
  assumes "pos = length pre"
  shows "take_list (pre @ encode_list l @ rest) pos =
    Inr (take MAX_OFFER_ALTERNATIVES l, pos + length (encode_list l))"
proof -
  have "unat (of_nat (min (length l) 32) :: u8) = min (length l) 32" "take (min (length l) 32) l = take 32 l"
    by (simp_all add: min_def)
  then show ?thesis
    using assms by (simp add: take_list_def encode_list_def Let_def MAX_OFFER_ALTERNATIVES_def nth_append
        slice_def min.commute)
qed

lemma take_list_bound: "take_list buf pos = Inr (l, pos') \<Longrightarrow> length l \<le> MAX_OFFER_ALTERNATIVES"
  by (auto simp: take_list_def Let_def slice_def split: if_splits)

definition cap :: "bytes \<Rightarrow> bytes" where
  "cap = take MAX_OFFER_ALTERNATIVES"

definition cap_offer :: "ClientOffer \<Rightarrow> ClientOffer" where
  "cap_offer co = \<lparr>co_cipher_ids = cap (co_cipher_ids co), co_transport_ids = cap (co_transport_ids co),
     co_fec_ids = cap (co_fec_ids co), co_frame_ids = cap (co_frame_ids co)\<rparr>"

lemma offer_decode_lists:
  assumes "payload = NEGOTIATION_VERSION # encode_list a @ encode_list b @ encode_list c @ rest"
  shows "offer_decode payload =
    try_bind (if rest = [] then Inr ([FRAME_V1_FIXED], length payload)
        else take_list payload (length payload - length rest)) (\<lambda>(d, pos).
      Inr (Some \<lparr>co_cipher_ids = cap a, co_transport_ids = cap b, co_fec_ids = cap c, co_frame_ids = d\<rparr>))"
proof -
  let ?a = "encode_list a" and ?b = "encode_list b" and ?c = "encode_list c"
  have 1: "take_list payload 1 = Inr (cap a, 1 + length ?a)"
    using take_list_encoded [of 1 "[NEGOTIATION_VERSION]" a "?b @ ?c @ rest"] by (simp add: assms cap_def)
  have 2: "take_list payload (1 + length ?a) = Inr (cap b, 1 + length ?a + length ?b)"
    using take_list_encoded [of "1 + length ?a" "[NEGOTIATION_VERSION] @ ?a" b "?c @ rest"] by (simp add: assms cap_def)
  have 3: "take_list payload (1 + length ?a + length ?b) = Inr (cap c, 1 + length ?a + length ?b + length ?c)"
    using take_list_encoded [of "1 + length ?a + length ?b" "[NEGOTIATION_VERSION] @ ?a @ ?b" c rest]
    by (simp add: assms cap_def)
  have new: "cursor_new payload = Inr 1" "payload \<noteq> []" by (simp_all add: assms cursor_new_def)
  have pos: "length payload - length rest = 1 + length ?a + length ?b + length ?c" by (simp add: assms)
  have at: "at_end payload (1 + length ?a + length ?b + length ?c) \<longleftrightarrow> rest = []"
    by (auto simp: assms at_end_def)
  have eq: "rest = [] \<Longrightarrow> 1 + length ?a + length ?b + length ?c = length payload" by (simp add: assms)
  show ?thesis
    unfolding offer_decode_def using new(2) eq
    by (simp only: new 1 2 3 pos at try_bind.simps prod.case if_False split: if_splits) auto
qed

lemma offer_roundtrip: "offer_decode (offer_encode co) = Inr (Some (cap_offer co))"
proof -
  let ?p = "NEGOTIATION_VERSION # encode_list (co_cipher_ids co) @ encode_list (co_transport_ids co)
     @ encode_list (co_fec_ids co) @ encode_list (co_frame_ids co)"
  have ne: "encode_list (co_frame_ids co) \<noteq> []" by (simp add: encode_list_def Let_def)
  have "take_list ?p (length ?p - length (encode_list (co_frame_ids co))) = Inr (cap (co_frame_ids co), length ?p)"
    using take_list_encoded [of "length ?p - length (encode_list (co_frame_ids co))"
        "NEGOTIATION_VERSION # encode_list (co_cipher_ids co) @ encode_list (co_transport_ids co) @ encode_list (co_fec_ids co)"
        "co_frame_ids co" "[]"] by (simp add: cap_def)
  then show ?thesis
    using offer_decode_lists [OF refl, of "co_cipher_ids co" "co_transport_ids co" "co_fec_ids co"
        "encode_list (co_frame_ids co)"] ne
    by (simp add: offer_encode_def cap_offer_def)
qed

subsection \<open>The choice, part by part\<close>

fun candidates :: "ProfilePrefs \<Rightarrow> Part \<Rightarrow> bytes" where
  "candidates p PART_CIPHER = flatten_ids (pref_cipher_ids p)"
| "candidates p PART_TRANSPORT = flatten_ids (pref_transport_ids p)"
| "candidates p PART_FEC = flatten_ids (pref_fec_ids p)"
| "candidates p PART_FRAME = flatten_ids (pref_frame_ids p)"

definition offered :: "ClientOffer option \<Rightarrow> Part \<Rightarrow> bytes" where
  "offered offer part = (case offer of None \<Rightarrow> [] | Some co \<Rightarrow> ids_for co part)"

fun sel_part :: "Selection \<Rightarrow> Part \<Rightarrow> u8" where
  "sel_part s PART_CIPHER = sel_cipher s"
| "sel_part s PART_TRANSPORT = sel_transport s"
| "sel_part s PART_FEC = sel_fec s"
| "sel_part s PART_FRAME = sel_frame s"

text \<open>What this build can run; the marker id of the transport is not such an implementation.\<close>

definition runnable :: "Part \<Rightarrow> u8 \<Rightarrow> bool" where
  "runnable part i \<longleftrightarrow> known_part_name part i \<noteq> None"

text \<open>The abstract rule: the server's first candidate if the client is silent, else the server's
  first candidate the client offers, else the client's first offer that can be run.\<close>

definition select_part :: "Part \<Rightarrow> bytes \<Rightarrow> bytes \<Rightarrow> u8 option" where
  "select_part part server client =
     (if client = [] then Some (case server of [] \<Rightarrow> sel_part sel_defaults part | i # _ \<Rightarrow> i)
      else case filter (\<lambda>i. i \<in> set client) server of
          i # _ \<Rightarrow> Some i
        | [] \<Rightarrow> (case filter (runnable part) client of i # _ \<Rightarrow> Some i | [] \<Rightarrow> None))"

lemma find_filter: "find P xs = (case filter P xs of [] \<Rightarrow> None | x # _ \<Rightarrow> Some x)"
  by (induction xs) auto

lemma filter_Cons_hd: "filter P xs = x # ys \<Longrightarrow> x \<in> set xs \<and> P x"
  by (metis Cons_eq_filterD in_set_conv_decomp)

lemma runnable_eqs:
  "(\<lambda>i. cipher_from_id i \<noteq> None) = runnable PART_CIPHER" "(\<lambda>i. transport_name i \<noteq> None) = runnable PART_TRANSPORT"
  "(\<lambda>i. fec_from_id i \<noteq> None) = runnable PART_FEC" "(\<lambda>i. res_ok (frame_codec_by_id i) \<noteq> None) = runnable PART_FRAME"
  by (auto simp: runnable_def res_ok_def fun_eq_iff split: sum.splits)

lemma pick_select:
  assumes "term = sel_part sel_defaults part" "flatten_ids cands = server"
  shows "pick part cands names offer term (runnable part) =
    (case select_part part server (offered offer part) of
       Some i \<Rightarrow> Inr i
     | None \<Rightarrow> Inl (NoCommonPart part names (case offer of None \<Rightarrow> [] | Some co \<Rightarrow> names_for co part)))"
  using assms by (auto simp: pick_def select_part_def offered_def Let_def find_filter split: list.splits)

lemma runnable_known: "runnable part i \<Longrightarrow> part_known part i"
  by (cases part) (auto simp: runnable_def res_ok_def split: sum.splits)

lemma candidates_runnable: "i \<in> set (candidates p part) \<Longrightarrow> runnable part i"
proof (cases part)
  case PART_CIPHER
  then show "i \<in> set (candidates p part) \<Longrightarrow> runnable part i"
    by (auto simp: flatten_ids_def map_filter_def pref_cipher_ids_def runnable_def cipher_from_id_def
        CIPHER_CHACHA20POLY1305_def) (metis CIPHER_CHACHA20POLY1305_def CipherKind.exhaust cipher_id.simps)
next
  case PART_TRANSPORT
  then show "i \<in> set (candidates p part) \<Longrightarrow> runnable part i"
    by (auto simp: flatten_ids_def map_filter_def pref_transport_ids_def runnable_def transport_id_def
        transport_name_def TRANSPORT_PLAIN_def TRANSPORT_TAGGED_def Let_def split: if_splits)
next
  case PART_FEC
  have "fec_from_id (fec_id k) \<noteq> None" for k by (cases k) (simp_all add: fec_from_id_def FEC_NONE_ID_def FEC_REED_SOLOMON_def)
  with PART_FEC show "i \<in> set (candidates p part) \<Longrightarrow> runnable part i"
    by (auto simp: flatten_ids_def map_filter_def pref_fec_ids_def runnable_def)
next
  case PART_FRAME
  have "frame_codec_by_id (wire_id c) = Inr c" for c
    by (cases c) (simp_all add: frame_codec_by_id_def FRAME_V1_FIXED_def FRAME_V2_TLV_def)
  with PART_FRAME show "i \<in> set (candidates p part) \<Longrightarrow> runnable part i"
    by (auto simp: flatten_ids_def map_filter_def pref_frame_ids_def runnable_def)
qed

lemma defaults_known: "part_known part (sel_part sel_defaults part)"
  by (cases part) (simp_all add: sel_defaults_def cipher_from_id_def fec_from_id_def frame_codec_by_id_def res_ok_def)

lemma select_known:
  assumes "select_part part (candidates p part) client = Some i"
  shows "part_known part i"
proof -
  consider "i = sel_part sel_defaults part" | "i \<in> set (candidates p part)" | "runnable part i"
    using assms
    by (auto simp: select_part_def split: if_splits list.splits dest!: filter_Cons_hd)
  then show ?thesis by cases (auto simp: defaults_known dest: candidates_runnable runnable_known)
qed

lemma sel_check_known: "sel_check s = Inr () \<longleftrightarrow> (\<forall>part. part_known part (sel_part s part))"
proof -
  have "(\<forall>part. P part) \<longleftrightarrow> P PART_CIPHER \<and> P PART_TRANSPORT \<and> P PART_FEC \<and> P PART_FRAME" for P
    by (metis Part.exhaust)
  then show ?thesis by (auto simp: sel_check_def simp del: part_known.simps)
qed

lemma pick_parts:
  "pick PART_CIPHER (pref_cipher_ids p) ns offer (sel_cipher sel_defaults) (\<lambda>i. cipher_from_id i \<noteq> None)
    = pick PART_CIPHER (pref_cipher_ids p) ns offer (sel_part sel_defaults PART_CIPHER) (runnable PART_CIPHER)"
  "pick PART_TRANSPORT (pref_transport_ids p) ns offer TRANSPORT_SAME_AS_HANDSHAKE_ID (\<lambda>i. transport_name i \<noteq> None)
    = pick PART_TRANSPORT (pref_transport_ids p) ns offer (sel_part sel_defaults PART_TRANSPORT) (runnable PART_TRANSPORT)"
  "pick PART_FEC (pref_fec_ids p) ns offer (sel_fec sel_defaults) (\<lambda>i. fec_from_id i \<noteq> None)
    = pick PART_FEC (pref_fec_ids p) ns offer (sel_part sel_defaults PART_FEC) (runnable PART_FEC)"
  "pick PART_FRAME (pref_frame_ids p) ns offer (sel_frame sel_defaults) (\<lambda>i. res_ok (frame_codec_by_id i) \<noteq> None)
    = pick PART_FRAME (pref_frame_ids p) ns offer (sel_part sel_defaults PART_FRAME) (runnable PART_FRAME)"
  unfolding runnable_eqs by (simp_all add: sel_defaults_def)

lemma all_parts: "(\<forall>part. P part) \<longleftrightarrow> P PART_CIPHER \<and> P PART_TRANSPORT \<and> P PART_FEC \<and> P PART_FRAME"
  by (metis Part.exhaust)

lemma negotiate_select:
  "case negotiate prefs offer tag of
     Inr sel \<Rightarrow> sel_tag sel = tag \<and> sel_check sel = Inr () \<and>
       (\<forall>part. select_part part (candidates prefs part) (offered offer part) = Some (sel_part sel part))
   | Inl e \<Rightarrow> (\<exists>part names. e = NoCommonPart part names (case offer of None \<Rightarrow> [] | Some co \<Rightarrow> names_for co part)
       \<and> select_part part (candidates prefs part) (offered offer part) = None)"
proof -
  let ?s = "\<lambda>part. select_part part (candidates prefs part) (offered offer part)"
  note pk = pick_select [OF refl refl, of _ _ _ offer] candidates.simps [symmetric]
  have chk: "sel_check \<lparr>sel_cipher = a, sel_transport = b, sel_fec = c, sel_tag = tag, sel_frame = d\<rparr> = Inr ()"
    if "?s PART_CIPHER = Some a" "?s PART_TRANSPORT = Some b" "?s PART_FEC = Some c" "?s PART_FRAME = Some d" for a b c d
    unfolding sel_check_known all_parts
    using select_known [OF that(1)] select_known [OF that(2)] select_known [OF that(3)] select_known [OF that(4)]
    by (simp del: part_known.simps)
  show ?thesis
    unfolding negotiate_def pick_parts pk
    by (cases "?s PART_CIPHER"; cases "?s PART_TRANSPORT"; cases "?s PART_FEC"; cases "?s PART_FRAME")
      (auto simp: chk Let_def all_parts simp del: candidates.simps)
qed

lemma offered_own_runnable:
  "i \<in> set (offered (Some (cap_offer (offer_from_prefs p))) part) \<Longrightarrow> runnable part i"
proof -
  have "ids_for (cap_offer (offer_from_prefs p)) part = cap (candidates p part)"
    by (cases part) (simp_all add: cap_offer_def offer_from_prefs_def)
  then show "i \<in> set (offered (Some (cap_offer (offer_from_prefs p))) part) \<Longrightarrow> runnable part i"
    by (auto simp: offered_def cap_def dest!: in_set_takeD candidates_runnable)
qed

lemma select_runnable_offer: "\<forall>i \<in> set client. runnable part i \<Longrightarrow> select_part part server client \<noteq> None"
  by (cases client) (auto simp: select_part_def split: list.splits)

lemma with_handshake_transport_ok:
  assumes "sel_check s = Inr ()"
  shows "\<exists>rp. with_handshake_transport s hs c = Inr rp \<and> rp_congestion rp = c
    \<and> (\<forall>c'. with_handshake_transport s hs c' = Inr (rp\<lparr>rp_congestion := c'\<rparr>))"
proof -
  have k: "part_known part (sel_part s part)" for part using assms by (simp add: sel_check_known)
  obtain ci where ci: "cipher_from_id (sel_cipher s) = Some ci" using k [of PART_CIPHER] by auto
  obtain fe where fe: "fec_from_id (sel_fec s) = Some fe" using k [of PART_FEC] by auto
  obtain co where co: "frame_codec_by_id (sel_frame s) = Inr co"
    using k [of PART_FRAME] by (auto simp: res_ok_def split: sum.splits)
  have "\<not> reuses_handshake_transport s \<Longrightarrow> build_transport_id (sel_transport s) (sel_tag s) \<noteq> None"
    using k [of PART_TRANSPORT]
    by (auto simp: reuses_handshake_transport_def build_transport_id_def transport_name_def split: if_splits)
  then show ?thesis
    using ci fe co assms by (auto simp: with_handshake_transport_def from_selection_def)
qed

lemma negotiation_succeeds:
  "\<exists>off sel. offer_decode (case lp_offer cli of None \<Rightarrow> [] | Some co \<Rightarrow> offer_encode co) = Inr off \<and>
     negotiate (lp_prefs srv) off (lp_data_tag srv) = Inr sel \<and> sel_check sel = Inr ()"
proof -
  let ?payload1 = "case lp_offer cli of None \<Rightarrow> [] | Some co \<Rightarrow> offer_encode co"
  obtain off where off: "offer_decode ?payload1 = Inr off"
    "\<And>part i. i \<in> set (offered off part) \<Longrightarrow> runnable part i"
  proof (cases "lp_propose cli")
    case True
    then have "offer_decode ?payload1 = Inr (Some (cap_offer (offer_from_prefs (lp_prefs cli))))"
      by (simp add: lp_offer_def offer_roundtrip)
    then show ?thesis using that offered_own_runnable by blast
  next
    case False
    then have "offer_decode ?payload1 = Inr None" by (simp add: lp_offer_def offer_decode_def)
    then show ?thesis using that by (simp add: offered_def)
  qed
  have "select_part part (candidates (lp_prefs srv) part) (offered off part) \<noteq> None" for part
    using off(2) by (intro select_runnable_offer) blast
  then obtain sel where sel: "negotiate (lp_prefs srv) off (lp_data_tag srv) = Inr sel" "sel_check sel = Inr ()"
    using negotiate_select [where prefs = "lp_prefs srv" and offer = off and tag = "lp_data_tag srv"]
    by (cases "negotiate (lp_prefs srv) off (lp_data_tag srv)") (auto simp del: not_None_eq)
  then show ?thesis using off(1) by blast
qed

lemma offer_length: "length (case lp_offer cli of None \<Rightarrow> [] | Some co \<Rightarrow> offer_encode co) \<le> 133"
  by (auto simp: offer_encode_def encode_list_def MAX_OFFER_ALTERNATIVES_def Let_def split: option.split)

lemma sel_roundtrip: "sel_decode (sel_encode s) = Inr s"
  by (simp add: sel_decode_def sel_encode_def SELECTION_LEGACY_LEN_def)

lemma sel_legacy: "sel_decode (take 6 (sel_encode s)) = Inr (s\<lparr>sel_frame := FRAME_V1_FIXED\<rparr>)"
  by (simp add: sel_decode_def sel_encode_def SELECTION_LEGACY_LEN_def)

lemma check_names_ok: "check_names good names = Inr u \<longleftrightarrow> (\<forall>n \<in> set names. good n)"
  by (auto simp: check_names_def find_None_iff find_Some_iff split: option.splits)

lemma length_map_filter: "\<forall>x \<in> set xs. f x \<noteq> None \<Longrightarrow> length (List.map_filter f xs) = length xs"
  by (simp add: map_filter_def)

lemma length_flatten_Some: "length (flatten_ids (map (\<lambda>x. Some (f x)) xs)) = length xs"
  by (simp add: flatten_ids_def length_map_filter)

lemma non_empty_or_not_Nil: "non_empty_or l d \<noteq> []"
  by (simp add: non_empty_or_def)

lemma prefs_resolve_ok:
  assumes "prefs_resolve cs ts fs frs = Inr p"
  shows "length (candidates p PART_CIPHER) = length (pp_ciphers p)" "length (candidates p PART_FEC) = length (pp_fecs p)"
    "length (candidates p PART_FRAME) = length (pp_frames p)"
    "pp_ciphers p \<noteq> [] \<and> pp_fecs p \<noteq> [] \<and> pp_frames p \<noteq> []"
proof -
  have n: "\<forall>n \<in> set (pp_ciphers p). res_ok (select_cipher n) \<noteq> None"
    "\<forall>n \<in> set (pp_fecs p). res_ok (select_fec_scheme n) \<noteq> None"
    "\<forall>n \<in> set (pp_frames p). res_ok (build_frame_codec n) \<noteq> None"
    and "pp_ciphers p \<noteq> [] \<and> pp_fecs p \<noteq> [] \<and> pp_frames p \<noteq> []"
    using assms by (auto simp: prefs_resolve_def Let_def try_bind_eq_Inr check_names_ok non_empty_or_not_Nil)
  then show "pp_ciphers p \<noteq> [] \<and> pp_fecs p \<noteq> [] \<and> pp_frames p \<noteq> []" by blast
  show "length (candidates p PART_CIPHER) = length (pp_ciphers p)" "length (candidates p PART_FEC) = length (pp_fecs p)"
    "length (candidates p PART_FRAME) = length (pp_frames p)"
    using n by (simp_all add: pref_cipher_ids_def pref_fec_ids_def pref_frame_ids_def length_flatten_Some
        length_map_filter)
qed

lemma local_congestion_selects:
  assumes "local_congestion_name a = Inr n"
  shows "\<exists>k. select_congestion n = Inr k"
proof -
  obtain k where k: "select_congestion a = Inr k"
    using assms by (auto simp: local_congestion_name_def try_bind_eq_Inr)
  show ?thesis
  proof (cases "trim a = []")
    case True
    then have "n = DEFAULT_CONGESTION" using assms k by (simp add: local_congestion_name_def Let_def)
    then show ?thesis
      by (simp add: select_congestion_def DEFAULT_CONGESTION_def trim_def is_whitespace_def Let_def)
  next
    case False
    then have "n = trim a" using assms k by (simp add: local_congestion_name_def Let_def)
    moreover have "select_congestion (trim a) = select_congestion a" by (simp add: select_congestion_def)
    ultimately show ?thesis using k by simp
  qed
qed

lemma offer_decode_bounds:
  "offer_decode payload = Inr (Some co) \<Longrightarrow> length (ids_for co part) \<le> MAX_OFFER_ALTERNATIVES"
  by (cases part) (auto simp: offer_decode_def try_bind_eq_Inr MAX_OFFER_ALTERNATIVES_def
      dest!: take_list_bound split: if_splits prod.splits)

subsection \<open>Properties\<close>

text \<open>The negotiation payloads survive the wire: a decoded offer is the encoded one with each
  list cut to its first 32 entries, a selection is decoded exactly, a selection of the older
  six-byte format means the first frame codec, and no accepted offer, whoever built it, has a list of
  more than 32 entries.\<close>

theorem negotiation_payloads:
  "offer_decode (offer_encode co) = Inr (Some (cap_offer co)) \<and> sel_decode (sel_encode s) = Inr s
   \<and> sel_decode (take 6 (sel_encode s)) = Inr (s\<lparr>sel_frame := FRAME_V1_FIXED\<rparr>)
   \<and> (case offer_decode payload of
        Inr (Some co) \<Rightarrow> (\<forall>part. length (ids_for co part) \<le> MAX_OFFER_ALTERNATIVES)
      | _ \<Rightarrow> True)"
  using offer_decode_bounds [of payload]
  by (auto simp: offer_roundtrip sel_roundtrip sel_legacy split: sum.splits option.splits)

text \<open>C20. The server's choice follows the documented rule for every part (its first candidate if
  the client is silent, else its first candidate among the client's, else the client's first
  runnable offer), always passes the client's check, and fails only with \<open>NoCommonPart\<close> for a part
  where nothing the client offers can be run.\<close>

theorem negotiate_follows_rule:
  "case negotiate prefs offer tag of
     Inr sel \<Rightarrow> sel_tag sel = tag \<and> sel_check sel = Inr () \<and>
       (\<forall>part. select_part part (candidates prefs part) (offered offer part) = Some (sel_part sel part))
   | Inl e \<Rightarrow> (\<exists>part names client. e = NoCommonPart part names client
       \<and> select_part part (candidates prefs part) (offered offer part) = None)"
  using negotiate_select [where prefs = prefs and offer = offer and tag = tag] by (auto split: sum.splits)

text \<open>C14. Two peers of this build always agree: the client's first message, with or without an
  offer, leads to a selection; the client decodes and accepts it; and both sides then run the same
  cipher, envelope, erasure code and frame codec, each with its own congestion controller.\<close>

theorem peers_run_same_profile:
  assumes "payload1 = (case lp_offer cli of None \<Rightarrow> [] | Some co \<Rightarrow> offer_encode co)"
    and "lp_handshake_transport cli = lp_handshake_transport srv"
  shows "\<exists>off sel rp. offer_decode payload1 = Inr off
    \<and> negotiate (lp_prefs srv) off (lp_data_tag srv) = Inr sel
    \<and> with_handshake_transport sel (lp_handshake_transport srv) k1 = Inr rp
    \<and> sel_decode (sel_encode sel) = Inr sel \<and> sel_check sel = Inr ()
    \<and> with_handshake_transport sel (lp_handshake_transport cli) k2 = Inr (rp\<lparr>rp_congestion := k2\<rparr>)"
proof -
  obtain off sel where "offer_decode payload1 = Inr off" "negotiate (lp_prefs srv) off (lp_data_tag srv) = Inr sel"
    "sel_check sel = Inr ()" using negotiation_succeeds [of cli srv] assms(1) by blast
  then show ?thesis
    using with_handshake_transport_ok [of sel "lp_handshake_transport srv" k1] assms(2) sel_roundtrip by metis
qed

theorem peers_run_same_profile_witness:
  "\<exists>off sel. offer_decode (offer_encode (offer_from_prefs rustnies_default)) = Inr off
     \<and> negotiate (rustnies_default\<lparr>pp_frames := [''v2-tlv'']\<rparr>) off DEFAULT_TAG = Inr sel"
  using peers_run_same_profile [of _
    "\<lparr>lp_kex_name = [], lp_prefs = rustnies_default, lp_handshake_transport = PlainTransport,
      lp_data_tag = DEFAULT_TAG, lp_congestion_name = [], lp_propose = True\<rparr>"
    "\<lparr>lp_kex_name = [], lp_prefs = rustnies_default\<lparr>pp_frames := [''v2-tlv'']\<rparr>, lp_handshake_transport = PlainTransport,
      lp_data_tag = DEFAULT_TAG, lp_congestion_name = [], lp_propose = False\<rparr>" TcpReno TcpReno]
  by (simp add: lp_offer_def) blast

text \<open>A configuration that \<open>from_config\<close> accepts never panics later: its congestion name
  builds a controller, and every configured cipher, erasure code and frame codec resolves.\<close>

theorem accepted_config_resolves:
  assumes "local_from_config kex propose ht cs ts fs tag cc frs = Inr lp"
  shows "(\<exists>k. new_congestion lp = Inr k)
    \<and> length (candidates (lp_prefs lp) PART_CIPHER) = length (pp_ciphers (lp_prefs lp))
    \<and> length (candidates (lp_prefs lp) PART_FEC) = length (pp_fecs (lp_prefs lp))
    \<and> length (candidates (lp_prefs lp) PART_FRAME) = length (pp_frames (lp_prefs lp))
    \<and> pp_ciphers (lp_prefs lp) \<noteq> [] \<and> pp_fecs (lp_prefs lp) \<noteq> [] \<and> pp_frames (lp_prefs lp) \<noteq> []"
proof -
  obtain p where p: "prefs_resolve cs ts fs frs = Inr p" "lp_prefs lp = p"
    "local_congestion_name cc = Inr (lp_congestion_name lp)"
    using assms by (auto simp: local_from_config_def try_bind_eq_Inr split: if_splits)
  then show ?thesis
    using prefs_resolve_ok [OF p(1)] local_congestion_selects [OF p(3)]
    by (simp add: new_congestion_def del: candidates.simps)
qed

theorem accepted_config_resolves_witness:
  "\<exists>lp k. local_from_config ''noise-ik'' False ''plain'' [] [] [] DEFAULT_TAG '' tcp '' [] = Inr lp
     \<and> new_congestion lp = Inr k"
proof -
  obtain lp where lp: "local_from_config ''noise-ik'' False ''plain'' [] [] [] DEFAULT_TAG '' tcp '' [] = Inr lp"
    by (auto simp: local_from_config_def select_handshake_def trim_def is_whitespace_def DEFAULT_HANDSHAKE_def
        transport_id_def DEFAULT_TRANSPORT_def TRANSPORT_SAME_AS_HANDSHAKE_def prefs_resolve_def non_empty_or_def check_names_def res_ok_def
        select_cipher_def DEFAULT_CIPHER_def select_fec_scheme_def DEFAULT_FEC_SCHEME_def build_frame_codec_def
        DEFAULT_FRAME_CODEC_def local_congestion_name_def select_congestion_def DEFAULT_CONGESTION_def Let_def)
  then show ?thesis using accepted_config_resolves [OF lp] by blast
qed

end
