(* ===== verification/Firewall.thy ===== *)
theory Firewall
  imports Net_Addr "HOL-Library.AList"
begin

text \<open>
  The firewall layer of \<open>src/src/platform/linux.rs\<close>: operations as data, their rendering as
  \<open>iptables\<close> arguments, the two back ends, the packet evaluator, the kill switch and the DNS leak
  guard. A back end maps an operation and its state to a result and a new state; the production
  back end runs a command, which is a parameter. A hash map of chains is an association list read
  through \<open>map_of\<close>. Log output is not modelled.
\<close>

subsection \<open>Rules and operations\<close>

datatype FirewallFamily = Ipv4 | Ipv6

record FirewallRuleSpec =
  family :: FirewallFamily
  proto :: "string option"
  dport :: "string option"
  out_iface :: "string option"
  neg_out_iface :: bool
  dst :: "string option"
  target :: string

datatype FirewallOp =
    CreateChain string
  | FlushChain string
  | DeleteChain string
  | Append string FirewallRuleSpec
  | Delete string FirewallRuleSpec
  | Jump string string
  | Unjump string string

definition opt_argv :: "string \<Rightarrow> string option \<Rightarrow> string list" where
  "opt_argv flag v = (case v of None \<Rightarrow> [] | Some x \<Rightarrow> [flag, x])"

definition spec_argv :: "FirewallRuleSpec \<Rightarrow> string list" where
  "spec_argv rule =
     opt_argv ''-p'' (proto rule) @ opt_argv ''--dport'' (dport rule) @
     (case out_iface rule of None \<Rightarrow> []
      | Some i \<Rightarrow> (if neg_out_iface rule then [''!''] else []) @ [''-o'', i]) @
     opt_argv ''-d'' (dst rule) @ [''-j'', target rule]"

fun to_argv :: "FirewallOp \<Rightarrow> string list" where
  "to_argv (CreateChain c) = [''-N'', c]"
| "to_argv (FlushChain c) = [''-F'', c]"
| "to_argv (DeleteChain c) = [''-X'', c]"
| "to_argv (Append c rule) = [''-A'', c] @ spec_argv rule"
| "to_argv (Delete c rule) = [''-D'', c] @ spec_argv rule"
| "to_argv (Jump from_c to_c) = [''-A'', from_c, ''-j'', to_c]"
| "to_argv (Unjump from_c to_c) = [''-D'', from_c, ''-j'', to_c]"

subsection \<open>The back ends\<close>

type_synonym 's backend = "FirewallOp \<Rightarrow> 's \<Rightarrow> (string + unit) \<times> 's"

fun family_bin :: "FirewallFamily \<Rightarrow> string" where
  "family_bin Ipv4 = ''iptables''"
| "family_bin Ipv6 = ''ip6tables''"

text \<open>\<open>IptablesBackend\<close>: operations on chains go to both binaries, the second only if the first
  succeeded; operations on rules go to the binary of the rule's family.\<close>

definition run_both ::
  "(string \<Rightarrow> string list \<Rightarrow> 's \<Rightarrow> (string + unit) \<times> 's) \<Rightarrow> string list \<Rightarrow> 's \<Rightarrow> (string + unit) \<times> 's" where
  "run_both run argv s = (case run ''iptables'' argv s of
       (Inl e, s') \<Rightarrow> (Inl e, s')
     | (Inr _, s') \<Rightarrow> run ''ip6tables'' argv s')"

fun iptables_exec :: "(string \<Rightarrow> string list \<Rightarrow> 's \<Rightarrow> (string + unit) \<times> 's) \<Rightarrow> 's backend" where
  "iptables_exec run (Append c rule) s = run (family_bin (family rule)) (to_argv (Append c rule)) s"
| "iptables_exec run (Delete c rule) s = run (family_bin (family rule)) (to_argv (Delete c rule)) s"
| "iptables_exec run op s = run_both run (to_argv op) s"

definition recorded_exec :: "FirewallOp list backend" where
  "recorded_exec op ops = (Inr (), ops @ [op])"

subsection \<open>The packet evaluator\<close>

datatype fw_entry = Entry_Rule FirewallRuleSpec | Entry_Jump string

type_synonym chains = "(string \<times> fw_entry list) list"

definition push_entry :: "string \<Rightarrow> fw_entry \<Rightarrow> chains \<Rightarrow> chains" where
  "push_entry c e cs = AList.update c ((case map_of cs c of None \<Rightarrow> [] | Some es \<Rightarrow> es) @ [e]) cs"

definition change_chain :: "string \<Rightarrow> (fw_entry list \<Rightarrow> fw_entry list) \<Rightarrow> chains \<Rightarrow> chains" where
  "change_chain c f cs = (case map_of cs c of None \<Rightarrow> cs | Some es \<Rightarrow> AList.update c (f es) cs)"

text \<open>One step of the loop in \<open>evaluate_packet\<close> that rebuilds the chains.\<close>

fun apply_op :: "FirewallOp \<Rightarrow> chains \<Rightarrow> chains" where
  "apply_op (CreateChain c) cs = (if map_of cs c = None then AList.update c [] cs else cs)"
| "apply_op (FlushChain c) cs = change_chain c (\<lambda>_. []) cs"
| "apply_op (DeleteChain c) cs = AList.delete c cs"
| "apply_op (Append c rule) cs = push_entry c (Entry_Rule rule) cs"
| "apply_op (Delete c rule) cs = change_chain c (remove1 (Entry_Rule rule)) cs"
| "apply_op (Jump from_c to_c) cs = push_entry from_c (Entry_Jump to_c) cs"
| "apply_op (Unjump from_c to_c) cs = change_chain from_c (remove1 (Entry_Jump to_c)) cs"

definition rebuild :: "FirewallOp list \<Rightarrow> chains" where
  "rebuild ops = fold apply_op ops []"

datatype Decision = Accept | Reject | Pass

record fw_packet =
  pk_proto :: string
  pk_dst :: string
  pk_dport :: u16
  pk_iface :: string

definition packet_family :: "fw_packet \<Rightarrow> FirewallFamily option" where
  "packet_family p = map_option (\<lambda>ip. if is_v4 ip then Ipv4 else Ipv6) (parse_ip (pk_dst p))"

definition rule_matches :: "FirewallRuleSpec \<Rightarrow> fw_packet \<Rightarrow> bool" where
  "rule_matches rule p \<longleftrightarrow>
     (case packet_family p of None \<Rightarrow> True | Some f \<Rightarrow> family rule = f) \<and>
     (case proto rule of None \<Rightarrow> True | Some x \<Rightarrow> x = pk_proto p) \<and>
     (case dport rule of None \<Rightarrow> True | Some d \<Rightarrow> d = show_nat (unat (pk_dport p))) \<and>
     (case dst rule of None \<Rightarrow> True | Some d \<Rightarrow> d = pk_dst p) \<and>
     (case out_iface rule of None \<Rightarrow> True
      | Some i \<Rightarrow> if neg_out_iface rule then i \<noteq> pk_iface p else i = pk_iface p)"

definition rule_decision :: "FirewallRuleSpec \<Rightarrow> Decision" where
  "rule_decision rule =
     (if target rule = ''ACCEPT'' then Accept
      else if target rule = ''REJECT'' \<or> target rule = ''DROP'' then Reject else Pass)"

text \<open>\<open>traverse\<close> and the loop over the entries of one chain. The list of visited chains is
  threaded through, as the mutable vector is.\<close>

function (sequential) traverse :: "chains \<Rightarrow> fw_packet \<Rightarrow> string \<Rightarrow> string list \<Rightarrow> Decision \<times> string list"
  and traverse_entries :: "chains \<Rightarrow> fw_packet \<Rightarrow> fw_entry list \<Rightarrow> string list \<Rightarrow> Decision \<times> string list" where
  "traverse cs p c visited =
     (if c \<in> set visited then (Pass, visited)
      else case map_of cs c of
          None \<Rightarrow> (Pass, visited @ [c])
        | Some es \<Rightarrow> traverse_entries cs p es (visited @ [c]))"
| "traverse_entries cs p [] visited = (Pass, visited)"
| "traverse_entries cs p (Entry_Rule rule # es) visited =
     (if rule_matches rule p then (rule_decision rule, visited)
      else traverse_entries cs p es visited)"
| "traverse_entries cs p (Entry_Jump t # es) visited =
     (case traverse cs p t visited of
        (d, visited') \<Rightarrow> if d \<noteq> Pass then (d, visited') else traverse_entries cs p es visited')"
  by pat_completeness auto

lemma traverse_visited:
  "traverse_traverse_entries_dom (Inl (cs, p, c, v)) \<Longrightarrow> set v \<subseteq> set (snd (traverse cs p c v))"
  "traverse_traverse_entries_dom (Inr (cs, p, es, v)) \<Longrightarrow> set v \<subseteq> set (snd (traverse_entries cs p es v))"
  by (induction cs p c v and cs p es v rule: traverse_traverse_entries.pinduct)
    (fastforce simp: traverse.psimps traverse_entries.psimps split: option.splits prod.splits if_splits)+

definition unvisited :: "chains \<Rightarrow> string list \<Rightarrow> nat" where
  "unvisited cs v = card (fst ` set cs - set v)"

lemma unvisited_mono: "set v \<subseteq> set v' \<Longrightarrow> unvisited cs v' \<le> unvisited cs v"
  unfolding unvisited_def by (rule card_mono) auto

lemma unvisited_step:
  assumes "map_of cs c = Some es" "c \<notin> set v"
  shows "unvisited cs (v @ [c]) < unvisited cs v"
proof -
  have "c \<in> fst ` set cs" using assms(1) by (force dest: map_of_SomeD)
  then show ?thesis unfolding unvisited_def using assms(2)
    by (intro psubset_card_mono) auto
qed

termination traverse
proof (relation "measures [\<lambda>x. case x of Inl (cs, p, c, v) \<Rightarrow> unvisited cs v | Inr (cs, p, es, v) \<Rightarrow> unvisited cs v,
    \<lambda>x. case x of Inl _ \<Rightarrow> 0 | Inr (cs, p, es, v) \<Rightarrow> length es,
    \<lambda>x. case x of Inl _ \<Rightarrow> 0 | Inr _ \<Rightarrow> 1]", goal_cases)
  case 1
  then show ?case by simp
next
  case (2 cs p c v es)
  then show ?case by (simp add: unvisited_step)
next
  case (3 cs p rule es v)
  then show ?case by simp
next
  case (4 cs p t es v)
  then show ?case by simp
next
  case (5 cs p t es v d v')
  then have "set v \<subseteq> set v'" using traverse_visited(1) [of cs p t v] by (metis snd_conv)
  then show ?case using unvisited_mono [of v v' cs] by auto
qed

declare traverse.simps [simp del]

definition evaluate_packet :: "FirewallOp list \<Rightarrow> fw_packet \<Rightarrow> Decision" where
  "evaluate_packet ops p = fst (traverse (rebuild ops) p ''OUTPUT'' [])"

subsection \<open>The guards\<close>

definition KS_CHAIN :: string where "KS_CHAIN = ''RUSTNIES_KS''"
definition DNS_CHAIN :: string where "DNS_CHAIN = ''RUSTNIES_DNS''"

definition addr_family :: "IpAddr \<Rightarrow> FirewallFamily" where
  "addr_family ip = (if is_v4 ip then Ipv4 else Ipv6)"

definition ks_family_rules :: "SocketAddr \<Rightarrow> string \<Rightarrow> FirewallFamily \<Rightarrow> FirewallRuleSpec list" where
  "ks_family_rules server tun_name f =
     [\<lparr>family = f, proto = None, dport = None, out_iface = Some ''lo'', neg_out_iface = False,
        dst = None, target = ''ACCEPT''\<rparr>,
      \<lparr>family = f, proto = None, dport = None, out_iface = Some tun_name, neg_out_iface = False,
        dst = None, target = ''ACCEPT''\<rparr>] @
     (if f = addr_family (sock_ip server) then
       [\<lparr>family = f, proto = Some ''udp'', dport = Some (show_nat (unat (sock_port server))),
          out_iface = None, neg_out_iface = False, dst = Some (show_ip (sock_ip server)),
          target = ''ACCEPT''\<rparr>] else []) @
     [\<lparr>family = f, proto = None, dport = None, out_iface = None, neg_out_iface = False,
        dst = None, target = ''REJECT''\<rparr>]"

definition ks_rules :: "SocketAddr \<Rightarrow> string \<Rightarrow> FirewallRuleSpec list" where
  "ks_rules server tun_name = concat (map (ks_family_rules server tun_name) [Ipv4, Ipv6])"

definition dns_rule :: "string \<Rightarrow> FirewallFamily \<Rightarrow> string \<Rightarrow> bool \<Rightarrow> string \<Rightarrow> FirewallRuleSpec" where
  "dns_rule tun_name f pr neg tgt =
     \<lparr>family = f, proto = Some pr, dport = Some ''53'', out_iface = Some tun_name,
      neg_out_iface = neg, dst = None, target = tgt\<rparr>"

definition dns_rules :: "string \<Rightarrow> FirewallRuleSpec list" where
  "dns_rules tun_name = concat (map (\<lambda>f.
     [dns_rule tun_name f ''udp'' False ''ACCEPT'', dns_rule tun_name f ''tcp'' False ''ACCEPT'',
      dns_rule tun_name f ''udp'' True ''REJECT'', dns_rule tun_name f ''tcp'' True ''REJECT'']) [Ipv4, Ipv6])"

definition install_ops :: "string \<Rightarrow> FirewallRuleSpec list \<Rightarrow> FirewallOp list" where
  "install_ops chain rules =
     [Unjump ''OUTPUT'' chain, FlushChain chain, DeleteChain chain, CreateChain chain] @
     map (Append chain) rules @ [Jump ''OUTPUT'' chain]"

definition remove_ops :: "string \<Rightarrow> FirewallOp list" where
  "remove_ops chain = [Unjump ''OUTPUT'' chain, FlushChain chain, DeleteChain chain]"

fun apply_required_from :: "nat \<Rightarrow> 's backend \<Rightarrow> FirewallOp list \<Rightarrow> 's \<Rightarrow> (string + unit) \<times> 's" where
  "apply_required_from i exec [] s = (Inr (), s)"
| "apply_required_from i exec (op # ops) s = (case exec op s of
       (Inl e, s') \<Rightarrow> if i < 3 then apply_required_from (i + 1) exec ops s' else (Inl e, s')
     | (Inr _, s') \<Rightarrow> apply_required_from (i + 1) exec ops s')"

definition apply_required :: "'s backend \<Rightarrow> FirewallOp list \<Rightarrow> 's \<Rightarrow> (string + unit) \<times> 's" where
  "apply_required = apply_required_from 0"

definition apply_best_effort :: "'s backend \<Rightarrow> FirewallOp list \<Rightarrow> 's \<Rightarrow> 's" where
  "apply_best_effort exec ops s = fold (\<lambda>op s. snd (exec op s)) ops s"

text \<open>A guard keeps its install operations and whether they are applied; the back end is passed
  to each operation. \<open>drop\<close> of a guard is \<open>remove\<close>.\<close>

record fw_guard =
  g_ops :: "FirewallOp list"
  g_active :: bool

definition guard_install :: "string \<Rightarrow> 's backend \<Rightarrow> fw_guard \<Rightarrow> 's \<Rightarrow> (string + unit) \<times> fw_guard \<times> 's" where
  "guard_install chain exec g s = (case apply_required exec (g_ops g) s of
       (Inr _, s') \<Rightarrow> (Inr (), g\<lparr>g_active := True\<rparr>, s')
     | (Inl e, s') \<Rightarrow> (Inl e, g, apply_best_effort exec (remove_ops chain) s'))"

definition guard_remove :: "string \<Rightarrow> 's backend \<Rightarrow> fw_guard \<Rightarrow> 's \<Rightarrow> (string + unit) \<times> fw_guard \<times> 's" where
  "guard_remove chain exec g s =
     (if \<not> g_active g then (Inr (), g, s)
      else (Inr (), g\<lparr>g_active := False\<rparr>, apply_best_effort exec (remove_ops chain) s))"

definition ks_new :: "SocketAddr \<Rightarrow> string \<Rightarrow> fw_guard" where
  "ks_new server tun_name = \<lparr>g_ops = install_ops KS_CHAIN (ks_rules server tun_name), g_active = False\<rparr>"

definition ks_install :: "'s backend \<Rightarrow> fw_guard \<Rightarrow> 's \<Rightarrow> (string + unit) \<times> fw_guard \<times> 's" where
  "ks_install = guard_install KS_CHAIN"

definition ks_remove :: "'s backend \<Rightarrow> fw_guard \<Rightarrow> 's \<Rightarrow> (string + unit) \<times> fw_guard \<times> 's" where
  "ks_remove = guard_remove KS_CHAIN"

definition dns_new :: "string \<Rightarrow> fw_guard" where
  "dns_new tun_name = \<lparr>g_ops = install_ops DNS_CHAIN (dns_rules tun_name), g_active = False\<rparr>"

definition dns_install :: "'s backend \<Rightarrow> fw_guard \<Rightarrow> 's \<Rightarrow> (string + unit) \<times> fw_guard \<times> 's" where
  "dns_install = guard_install DNS_CHAIN"

definition dns_remove :: "'s backend \<Rightarrow> fw_guard \<Rightarrow> 's \<Rightarrow> (string + unit) \<times> fw_guard \<times> 's" where
  "dns_remove = guard_remove DNS_CHAIN"

end
