(* ===== verification/Firewall_Policy.thy ===== *)
theory Firewall_Policy
  imports Firewall
begin

text \<open>
  What the firewall guards of \<open>src/src/platform/linux.rs\<close> guarantee. \<open>map_op\<close> is the effect of an
  operation on the chains of one address family, the locale \<open>firewall_backend\<close> states what the
  guards rely on from a back end, and both back ends provide it: the recorder without condition,
  the production one under the documented behaviour of the \<open>iptables\<close> command. The policies
  \<open>ks_policy\<close> and \<open>dns_policy\<close> say what the rules are for; the theorems show that the installed
  chains decide packets that way, for every order in which the guards are installed and removed.
\<close>

subsection \<open>The effect of operations on chains\<close>

definition chain_entries :: "(string \<rightharpoonup> fw_entry list) \<Rightarrow> string \<Rightarrow> fw_entry list" where
  "chain_entries m c = (case m c of None \<Rightarrow> [] | Some es \<Rightarrow> es)"

fun map_op :: "(FirewallRuleSpec \<Rightarrow> bool) \<Rightarrow> FirewallOp \<Rightarrow> (string \<rightharpoonup> fw_entry list) \<Rightarrow> (string \<rightharpoonup> fw_entry list)" where
  "map_op P (CreateChain c) m = m(c := Some (chain_entries m c))"
| "map_op P (FlushChain c) m = m(c := map_option (\<lambda>_. []) (m c))"
| "map_op P (DeleteChain c) m = m(c := None)"
| "map_op P (Append c rule) m = (if P rule then m(c := Some (chain_entries m c @ [Entry_Rule rule])) else m)"
| "map_op P (Delete c rule) m = (if P rule then m(c := map_option (remove1 (Entry_Rule rule)) (m c)) else m)"
| "map_op P (Jump a b) m = m(a := Some (chain_entries m a @ [Entry_Jump b]))"
| "map_op P (Unjump a b) m = m(a := map_option (remove1 (Entry_Jump b)) (m a))"

abbreviation of_family :: "FirewallFamily \<Rightarrow> FirewallRuleSpec \<Rightarrow> bool" where
  "of_family f \<equiv> \<lambda>rule. family rule = f"

text \<open>The table of one family that a sequence of operations builds.\<close>

fun op_in_family :: "FirewallFamily \<Rightarrow> FirewallOp \<Rightarrow> bool" where
  "op_in_family f (Append c rule) = (family rule = f)"
| "op_in_family f (Delete c rule) = (family rule = f)"
| "op_in_family f op = True"

definition family_table :: "FirewallFamily \<Rightarrow> FirewallOp list \<Rightarrow> chains" where
  "family_table f ops = fold apply_op (filter (op_in_family f) ops) []"

definition rules_decision :: "fw_packet \<Rightarrow> FirewallRuleSpec list \<Rightarrow> Decision" where
  "rules_decision p rules =
     (case find (\<lambda>rule. rule_matches rule p) rules of None \<Rightarrow> Pass | Some rule \<Rightarrow> rule_decision rule)"

definition to_server :: "SocketAddr \<Rightarrow> fw_packet \<Rightarrow> bool" where
  "to_server server p \<longleftrightarrow>
     pk_proto p = ''udp'' \<and> pk_dport p = sock_port server \<and> pk_dst p = show_ip (sock_ip server)"

definition ks_policy :: "SocketAddr \<Rightarrow> string \<Rightarrow> fw_packet \<Rightarrow> Decision" where
  "ks_policy server tun p =
     (if pk_iface p = ''lo'' \<or> pk_iface p = tun \<or> to_server server p then Accept else Reject)"

definition dns_policy :: "string \<Rightarrow> fw_packet \<Rightarrow> Decision" where
  "dns_policy tun p =
     (if (pk_proto p = ''udp'' \<or> pk_proto p = ''tcp'') \<and> pk_dport p = 53
      then (if pk_iface p = tun then Accept else Reject) else Pass)"

lemma map_of_apply_op: "map_of (apply_op op cs) = map_op (\<lambda>_. True) op (map_of cs)"
  by (cases op) (auto simp: push_entry_def change_chain_def chain_entries_def update_conv' delete_conv'
      fun_eq_iff split: option.splits)

lemma map_of_apply_op_family:
  "map_of (if op_in_family f op then apply_op op cs else cs) = map_op (of_family f) op (map_of cs)"
  by (cases op) (auto simp: push_entry_def change_chain_def chain_entries_def update_conv' delete_conv'
      fun_eq_iff split: option.splits)

lemma family_table_snoc:
  "family_table f (ops @ [op]) = (if op_in_family f op then apply_op op (family_table f ops) else family_table f ops)"
  by (simp add: family_table_def)

lemma rebuild_snoc: "rebuild (ops @ [op]) = apply_op op (rebuild ops)"
  by (simp add: rebuild_def)

subsection \<open>The combined evaluator and the two tables\<close>

text \<open>An entry that can decide a packet of the family.\<close>

fun entry_in_family :: "FirewallFamily \<Rightarrow> fw_entry \<Rightarrow> bool" where
  "entry_in_family f (Entry_Rule rule) = (family rule = f)"
| "entry_in_family f (Entry_Jump c) = True"

definition restricts :: "FirewallFamily \<Rightarrow> chains \<Rightarrow> chains \<Rightarrow> bool" where
  "restricts f cs cs' \<longleftrightarrow>
     (\<forall>c. chain_entries (map_of cs') c = filter (entry_in_family f) (chain_entries (map_of cs) c))"

lemma chain_entries_map_op:
  "chain_entries (map_op P op m) = (case op of
     CreateChain c \<Rightarrow> chain_entries m
   | FlushChain c \<Rightarrow> (chain_entries m)(c := [])
   | DeleteChain c \<Rightarrow> (chain_entries m)(c := [])
   | Append c rule \<Rightarrow> if P rule then (chain_entries m)(c := chain_entries m c @ [Entry_Rule rule]) else chain_entries m
   | Delete c rule \<Rightarrow> if P rule then (chain_entries m)(c := remove1 (Entry_Rule rule) (chain_entries m c)) else chain_entries m
   | Jump a b \<Rightarrow> (chain_entries m)(a := chain_entries m a @ [Entry_Jump b])
   | Unjump a b \<Rightarrow> (chain_entries m)(a := remove1 (Entry_Jump b) (chain_entries m a)))"
  by (cases op) (auto simp: chain_entries_def fun_eq_iff split: option.splits)

lemma restricts_op:
  assumes "restricts f cs cs'"
  shows "restricts f (apply_op op cs) (if op_in_family f op then apply_op op cs' else cs')"
  using assms unfolding restricts_def map_of_apply_op_family map_of_apply_op chain_entries_map_op
  by (cases op) (auto simp: filter_remove1 remove1_filter_not)

lemma restricts_tables: "restricts f (rebuild ops) (family_table f ops)"
proof (induction ops rule: rev_induct)
  case Nil
  then show ?case by (simp add: restricts_def rebuild_def family_table_def chain_entries_def)
next
  case (snoc op ops)
  then show ?case unfolding rebuild_snoc family_table_snoc by (rule restricts_op)
qed

lemma traverse_chain_entries:
  "traverse cs p c v = (if c \<in> set v then (Pass, v)
     else traverse_entries cs p (chain_entries (map_of cs) c) (v @ [c]))"
  by (simp add: traverse.simps chain_entries_def split: option.splits)

lemma rule_of_other_family: "packet_family p = Some f \<Longrightarrow> family rule \<noteq> f \<Longrightarrow> \<not> rule_matches rule p"
  by (auto simp: rule_matches_def)

lemma traverse_restricted:
  assumes "packet_family p = Some f" "restricts f cs cs'"
  shows "traverse cs p c v = traverse cs' p c v"
    and "traverse_entries cs p es v = traverse_entries cs' p (filter (entry_in_family f) es) v"
  using assms
proof (induction cs p c v and cs p es v rule: traverse_traverse_entries.induct)
  case (1 cs p c v)
  show ?case
  proof (cases "c \<in> set v \<or> map_of cs c = None")
    case True
    have "chain_entries (map_of cs') c = []" if "c \<notin> set v"
      using True that 1(3) by (simp add: restricts_def) (simp add: chain_entries_def)
    then show ?thesis using True unfolding traverse_chain_entries by (auto simp: chain_entries_def)
  next
    case False
    then obtain es where es: "map_of cs c = Some es" "c \<notin> set v" by auto
    then have "chain_entries (map_of cs') c = filter (entry_in_family f) es"
      using 1(3) by (simp add: restricts_def chain_entries_def)
    then show ?thesis using 1(1) [OF es(2,1) 1(2,3)] es
      by (simp only: traverse_chain_entries) (simp add: chain_entries_def)
  qed
next
  case (2 cs p v)
  then show ?case by simp
next
  case (3 cs p rule es v)
  then show ?case by (auto simp: rule_of_other_family)
next
  case (4 cs p t es v)
  obtain d v' where tr: "traverse cs p t v = (d, v')" by fastforce
  then have "traverse cs' p t v = (d, v')" using 4 by simp
  then show ?case using 4 tr by (simp)
qed

subsection \<open>Flat chains\<close>

text \<open>Chains that hold only rules decide by their first matching rule, and a list of jumps to
  such chains decides by the first chain that does.\<close>

lemma traverse_rules:
  "traverse_entries cs p (map Entry_Rule rules) v = (rules_decision p rules, v)"
  by (induction rules) (auto simp: rules_decision_def)

fun first_decision :: "Decision list \<Rightarrow> Decision" where
  "first_decision [] = Pass"
| "first_decision (d # ds) = (if d \<noteq> Pass then d else first_decision ds)"

lemma traverse_jumps:
  assumes "\<forall>c \<in> set js. chain_entries (map_of cs) c = map Entry_Rule (R c)"
    and "\<forall>c \<in> set js \<inter> set v. rules_decision p (R c) = Pass"
  shows "fst (traverse_entries cs p (map Entry_Jump js) v) = first_decision (map (\<lambda>c. rules_decision p (R c)) js)"
  using assms
proof (induction js arbitrary: v)
  case Nil
  then show ?case by simp
next
  case (Cons c js)
  show ?case
  proof (cases "c \<in> set v")
    case True
    then show ?thesis using Cons by (simp add: traverse_chain_entries)
  next
    case False
    then have t: "traverse cs p c v = (rules_decision p (R c), v @ [c])"
      using Cons.prems by (simp add: traverse_chain_entries traverse_rules)
    show ?thesis
    proof (cases "rules_decision p (R c) = Pass")
      case True
      then have "\<forall>c \<in> set js \<inter> set (v @ [c]). rules_decision p (R c) = Pass" using Cons.prems by auto
      then show ?thesis using Cons.IH [of "v @ [c]"] Cons.prems True t by (simp)
    qed (simp add: t)
  qed
qed

lemma evaluate_jumps:
  assumes "chain_entries (map_of cs) ''OUTPUT'' = map Entry_Jump js" "''OUTPUT'' \<notin> set js"
    "\<forall>c \<in> set js. chain_entries (map_of cs) c = map Entry_Rule (R c)"
  shows "fst (traverse cs p ''OUTPUT'' []) = first_decision (map (\<lambda>c. rules_decision p (R c)) js)"
  using traverse_jumps [OF assms(3), of "[''OUTPUT'']" p] assms(1,2)
  by (simp add: traverse_chain_entries)

subsection \<open>The rule sets implement the policies\<close>

lemma rules_decision_simps [simp]:
  "rules_decision p [] = Pass"
  "rules_decision p (rule # rules) =
     (if rule_matches rule p then rule_decision rule else rules_decision p rules)"
  by (simp_all add: rules_decision_def)

lemma rules_decision_family:
  "packet_family p = Some f \<Longrightarrow> rules_decision p (filter (of_family f) rules) = rules_decision p rules"
  by (induction rules) (auto simp: rule_of_other_family)

definition family_fits :: "fw_packet \<Rightarrow> FirewallFamily \<Rightarrow> bool" where
  "family_fits p f \<longleftrightarrow> packet_family p \<in> {None, Some f}"

lemma rule_matches_family:
  "rule_matches rule p \<longleftrightarrow> family_fits p (family rule) \<and>
     (case proto rule of None \<Rightarrow> True | Some x \<Rightarrow> x = pk_proto p) \<and>
     (case dport rule of None \<Rightarrow> True | Some d \<Rightarrow> d = show_nat (unat (pk_dport p))) \<and>
     (case dst rule of None \<Rightarrow> True | Some d \<Rightarrow> d = pk_dst p) \<and>
     (case out_iface rule of None \<Rightarrow> True
      | Some i \<Rightarrow> if neg_out_iface rule then i \<noteq> pk_iface p else i = pk_iface p)"
  unfolding rule_matches_def family_fits_def by (auto split: option.splits)

lemma some_family_fits: "family_fits p Ipv4 \<or> family_fits p Ipv6"
  by (cases "packet_family p") (auto simp: family_fits_def intro: FirewallFamily.exhaust)

lemma to_server_family:
  "ip_wf (sock_ip server) \<Longrightarrow> to_server server p \<Longrightarrow>
   packet_family p = Some (addr_family (sock_ip server))"
  using parse_ip_display [of "sock_ip server"]
  by (auto simp: to_server_def packet_family_def addr_family_def)

lemma ks_family_rules_decision:
  assumes "ip_wf (sock_ip server)" "family_fits p f"
  shows "rules_decision p (ks_family_rules server tun f @ rest) = ks_policy server tun p"
proof -
  have other: "\<not> to_server server p" if "f \<noteq> addr_family (sock_ip server)"
    using that assms to_server_family [of server p] by (auto simp: family_fits_def)
  have srv: "''udp'' = pk_proto p \<and> show_nat (unat (sock_port server)) = show_nat (unat (pk_dport p)) \<and>
      show_ip (sock_ip server) = pk_dst p \<longleftrightarrow> to_server server p"
    by (auto simp: to_server_def word_unat_eq_iff)
  show ?thesis
    using assms(2) other srv unfolding ks_family_rules_def ks_policy_def
    by (auto simp: rule_matches_family rule_decision_def simp del: show_nat_inject)
qed

lemma ks_rules_decision:
  assumes "ip_wf (sock_ip server)"
  shows "rules_decision p (ks_rules server tun) = ks_policy server tun p"
proof (cases "family_fits p Ipv4")
  case True
  then show ?thesis using ks_family_rules_decision [OF assms, of p Ipv4] by (simp add: ks_rules_def)
next
  case False
  then have fits: "family_fits p Ipv6" "packet_family p = Some Ipv6"
    using some_family_fits [of p] by (auto simp: family_fits_def)
  have "filter (of_family Ipv6) (ks_rules server tun) = ks_family_rules server tun Ipv6 @ []"
    by (auto simp: ks_rules_def ks_family_rules_def)
  then show ?thesis using rules_decision_family [OF fits(2), of "ks_rules server tun"]
      ks_family_rules_decision [OF assms fits(1), of tun "[]"] by simp
qed

lemma show_nat_53: "''53'' = show_nat n \<longleftrightarrow> n = 53"
proof -
  have "show_nat 53 = ''53''" by (simp add: show_nat.simps char_of_eq_iff take_bit_eq_mod)
  then show ?thesis by (metis show_nat_inject)
qed

lemma dns_rule_matches:
  "rule_matches (dns_rule tun f pr neg tgt) p \<longleftrightarrow>
   family_fits p f \<and> pk_proto p = pr \<and> pk_dport p = 53 \<and> (pk_iface p = tun) = (\<not> neg)"
proof -
  have port: "''53'' = show_nat (unat (pk_dport p)) \<longleftrightarrow> pk_dport p = 53"
    by (simp add: show_nat_53 word_unat_eq_iff)
  show ?thesis unfolding rule_matches_family dns_rule_def by (auto simp: port)
qed

lemma dns_rule_decision [simp]:
  "rule_decision (dns_rule tun f pr neg ''ACCEPT'') = Accept"
  "rule_decision (dns_rule tun f pr neg ''REJECT'') = Reject"
  by (simp_all add: rule_decision_def dns_rule_def)

lemma dns_rules_decision: "rules_decision p (dns_rules tun) = dns_policy tun p"
proof (cases "pk_dport p = 53 \<and> (pk_proto p = ''udp'' \<or> pk_proto p = ''tcp'')")
  case True
  then show ?thesis using some_family_fits [of p]
    by (cases "pk_iface p = tun"; cases "pk_proto p = ''udp''")
      (auto simp: dns_rules_def dns_policy_def dns_rule_matches)
next
  case False
  then show ?thesis by (auto simp: dns_rules_def dns_policy_def dns_rule_matches)
qed

subsection \<open>What the guards rely on\<close>

definition standard_rule :: "FirewallRuleSpec \<Rightarrow> bool" where
  "standard_rule rule \<longleftrightarrow> target rule \<in> {''ACCEPT'', ''REJECT'', ''DROP''} \<and>
     (out_iface rule = None \<longrightarrow> \<not> neg_out_iface rule)"

text \<open>Operations whose rendering is unambiguous: a rule has a final target, a jump goes to a
  chain.\<close>

fun standard_op :: "FirewallOp \<Rightarrow> bool" where
  "standard_op (Append c rule) = standard_rule rule"
| "standard_op (Delete c rule) = standard_rule rule"
| "standard_op (Jump a b) = (b \<notin> {''ACCEPT'', ''REJECT'', ''DROP''})"
| "standard_op (Unjump a b) = (b \<notin> {''ACCEPT'', ''REJECT'', ''DROP''})"
| "standard_op op = True"

locale firewall_backend =
  fixes exec :: "'s backend"
    and tbl :: "FirewallFamily \<Rightarrow> 's \<Rightarrow> chains"
  assumes exec_ok: "standard_op op \<Longrightarrow> exec op s = (Inr u, s') \<Longrightarrow>
      map_of (tbl f s') = map_op (of_family f) op (map_of (tbl f s))"
    and exec_err: "standard_op op \<Longrightarrow> exec op s = (Inl e, s') \<Longrightarrow>
      map_of (tbl f s') = map_of (tbl f s) \<or>
      map_of (tbl f s') = map_op (of_family f) op (map_of (tbl f s))"
    and fresh_chain: "exec (DeleteChain c) s = (r, s1) \<Longrightarrow> exec (CreateChain c) s1 = (Inr u, s2) \<Longrightarrow>
      map_of (tbl f s2) c = Some []"
begin

lemma exec_effect:
  "standard_op op \<Longrightarrow> exec op s = (r, s') \<Longrightarrow>
   map_of (tbl f s') \<in> {map_of (tbl f s), map_op (of_family f) op (map_of (tbl f s))}"
  using exec_ok [of op s _ s' f] exec_err [of op s _ s' f] by (cases r) auto

lemma required_run:
  "3 \<le> i \<Longrightarrow> \<forall>op \<in> set ops. standard_op op \<Longrightarrow> apply_required_from i exec ops s = (Inr u, s') \<Longrightarrow>
   map_of (tbl f s') = fold (map_op (of_family f)) ops (map_of (tbl f s))"
proof (induction ops arbitrary: i s)
  case (Cons op ops)
  obtain r s1 where e: "exec op s = (r, s1)" by fastforce
  then obtain v where "r = Inr v" using Cons.prems by (cases r) auto
  then show ?case using Cons.IH [of "i + 1" s1] Cons.prems exec_ok [of op s v s1 f] e by simp
qed simp

lemma fold_append:
  "fold (map_op P) (map (Append c) rules) m =
   (if filter P rules = [] then m else m(c := Some (chain_entries m c @ map Entry_Rule (filter P rules))))"
  by (induction rules arbitrary: m) (auto simp: chain_entries_def)

lemma install_effect:
  fixes f :: FirewallFamily and d :: string
  assumes "apply_required exec (install_ops c rules) s = (Inr u, s')"
    and "c \<noteq> ''OUTPUT''" "c \<notin> {''ACCEPT'', ''REJECT'', ''DROP''}" "\<forall>rule \<in> set rules. standard_rule rule"
  defines "old \<equiv> chain_entries (map_of (tbl f s))"
  defines "new \<equiv> chain_entries (map_of (tbl f s'))"
  shows "new c = map Entry_Rule (filter (of_family f) rules)"
    and "new ''OUTPUT'' \<in> {old ''OUTPUT'' @ [Entry_Jump c], remove1 (Entry_Jump c) (old ''OUTPUT'') @ [Entry_Jump c]}"
    and "d \<notin> {c, ''OUTPUT''} \<Longrightarrow> new d = old d"
proof -
  obtain r1 s1 r2 s2 r3 s3 r4 s4 where e:
    "exec (Unjump ''OUTPUT'' c) s = (r1, s1)" "exec (FlushChain c) s1 = (r2, s2)"
    "exec (DeleteChain c) s2 = (r3, s3)" "exec (CreateChain c) s3 = (r4, s4)"
    by (metis surj_pair)
  let ?rest = "map (Append c) rules @ [Jump ''OUTPUT'' c]"
  have run: "apply_required_from 3 exec (CreateChain c # ?rest) s3 = (Inr u, s')"
    using assms(1) e by (simp add: apply_required_def install_ops_def numeral_eq_Suc split: sum.splits)
  then obtain v where v: "r4 = Inr v" using e(4) by (cases r4) auto
  have std: "\<forall>op \<in> set ?rest. standard_op op" using assms(3,4) by auto
  have "apply_required_from 4 exec ?rest s4 = (Inr u, s')" using run e(4) v by simp
  from required_run [OF _ std this]
  have m': "map_of (tbl f s') = fold (map_op (of_family f)) ?rest (map_of (tbl f s4))" by simp
  have c4: "map_of (tbl f s4) c = Some []" using fresh_chain e(3,4) v by blast
  have 1: "map_of (tbl f s1) \<in> {map_of (tbl f s), map_op (of_family f) (Unjump ''OUTPUT'' c) (map_of (tbl f s))}"
    using exec_effect [OF _ e(1)] assms(3) by simp
  have 4: "map_of (tbl f s4) d = map_of (tbl f s1) d" if "d \<noteq> c" for d
    using exec_effect [OF _ e(2), of f] exec_effect [OF _ e(3), of f] exec_ok [OF _ e(4) [unfolded v], of f] that by auto
  show "new c = map Entry_Rule (filter (of_family f) rules)"
    using m' c4 assms(2) by (simp add: new_def fold_append chain_entries_def)
  have "chain_entries (map_of (tbl f s4)) ''OUTPUT'' \<in> {old ''OUTPUT'', remove1 (Entry_Jump c) (old ''OUTPUT'')}"
    using 1 4 [of "''OUTPUT''"] assms(2) by (auto simp: old_def chain_entries_def split: option.splits)
  then show "new ''OUTPUT'' \<in> {old ''OUTPUT'' @ [Entry_Jump c], remove1 (Entry_Jump c) (old ''OUTPUT'') @ [Entry_Jump c]}"
    using m' assms(2) by (auto simp: new_def fold_append chain_entries_def)
  show "new d = old d" if "d \<notin> {c, ''OUTPUT''}"
  proof -
    have "map_of (tbl f s1) d = map_of (tbl f s) d" using 1 that by auto
    then show ?thesis using m' 4 [of d] that by (simp add: new_def old_def fold_append chain_entries_def)
  qed
qed

end

lemma fresh_recorded_chain: "map_of (family_table f (ops @ [DeleteChain c, CreateChain c])) c = Some []"
  by (simp add: family_table_def map_of_apply_op chain_entries_def del: apply_op.simps)

interpretation recorded: firewall_backend recorded_exec family_table
  by unfold_locales
    (auto simp: recorded_exec_def family_table_snoc map_of_apply_op_family map_of_apply_op fresh_recorded_chain)

subsection \<open>The production back end\<close>

text \<open>What is documented of the \<open>iptables\<close> and \<open>ip6tables\<close> commands, on the tables of the two
  families: a command that succeeds has its effect on its own table, one that fails changes
  nothing, and a new chain can only be created if there is none of that name.\<close>

definition iptables_laws ::
  "(string \<Rightarrow> string list \<Rightarrow> 's \<Rightarrow> (string + unit) \<times> 's) \<Rightarrow> (FirewallFamily \<Rightarrow> 's \<Rightarrow> chains) \<Rightarrow> bool" where
  "iptables_laws run tbl \<longleftrightarrow>
     (\<forall>f op s u s'. standard_op op \<and> op_in_family f op \<and> run (family_bin f) (to_argv op) s = (Inr u, s') \<longrightarrow>
        map_of (tbl f s') = map_op (of_family f) op (map_of (tbl f s)) \<and> (\<forall>g. g \<noteq> f \<longrightarrow> tbl g s' = tbl g s)) \<and>
     (\<forall>f argv s e s'. run (family_bin f) argv s = (Inl e, s') \<longrightarrow> (\<forall>g. tbl g s' = tbl g s)) \<and>
     (\<forall>f c s u s'. run (family_bin f) (to_argv (CreateChain c)) s = (Inr u, s') \<longrightarrow> map_of (tbl f s) c = None)"

lemma family_cases: "f = Ipv4 \<or> f = Ipv6" by (cases f) auto

lemma run_both_cases:
  "run_both run argv s = (r, s') \<Longrightarrow>
   (\<exists>e. run ''iptables'' argv s = (Inl e, s') \<and> r = Inl e) \<or>
   (\<exists>u s1. run ''iptables'' argv s = (Inr u, s1) \<and> run ''ip6tables'' argv s1 = (r, s'))"
  by (auto simp: run_both_def split: prod.splits sum.splits)

lemma run_ok:
  assumes "iptables_laws run tbl" "standard_op op" "op_in_family f op"
    "run (family_bin f) (to_argv op) s = (Inr u, s')"
  shows "map_of (tbl f s') = map_op (of_family f) op (map_of (tbl f s))" "g \<noteq> f \<Longrightarrow> tbl g s' = tbl g s"
  using assms unfolding iptables_laws_def by blast+

lemma run_err:
  assumes "iptables_laws run tbl" "run (family_bin f) argv s = (Inl e, s')"
  shows "tbl g s' = tbl g s"
  using assms unfolding iptables_laws_def by blast

lemma run_create:
  assumes "iptables_laws run tbl" "run (family_bin f) (to_argv (CreateChain c)) s = (Inr u, s')"
  shows "map_of (tbl f s) c = None"
  using assms unfolding iptables_laws_def by blast

lemma run_both_effect:
  assumes laws: "iptables_laws run tbl" and op: "standard_op op" "\<forall>f. op_in_family f op"
    and run: "run_both run (to_argv op) s = (r, s')"
  shows "map_of (tbl f s') = map_of (tbl f s) \<and> r \<noteq> Inr () \<or>
    map_of (tbl f s') = map_op (of_family f) op (map_of (tbl f s))"
  using run_both_cases [OF run]
proof (elim disjE exE conjE)
  fix e assume "run ''iptables'' (to_argv op) s = (Inl e, s')" "r = Inl e"
  then show ?thesis using run_err [OF laws, of Ipv4] by simp
next
  fix u s1 assume 1: "run ''iptables'' (to_argv op) s = (Inr u, s1)" and 2: "run ''ip6tables'' (to_argv op) s1 = (r, s')"
  note v4 = run_ok [OF laws op(1), of Ipv4 s u s1] 
  show ?thesis
  proof (cases r)
    case (Inl e)
    then have "tbl f s' = tbl f s1" using run_err [OF laws, of Ipv6] 2 by simp
    then show ?thesis using v4 1 op(2) Inl by (cases f) auto
  next
    case (Inr u')
    then show ?thesis using v4 run_ok [OF laws op(1), of Ipv6 s1 u' s'] 1 2 op(2) by (cases f) auto
  qed
qed

lemma run_rule_effect:
  assumes laws: "iptables_laws run tbl" and op: "standard_op op" "op_in_family g op" "\<not> (\<forall>f. op_in_family f op)"
    and run: "run (family_bin g) (to_argv op) s = (r, s')"
  shows "map_of (tbl f s') = map_of (tbl f s) \<and> r \<noteq> Inr () \<or>
    map_of (tbl f s') = map_op (of_family f) op (map_of (tbl f s))"
proof (cases r)
  case (Inl e)
  then show ?thesis using run_err [OF laws] run by simp
next
  case (Inr u)
  have "map_op (of_family f) op m = m" if "f \<noteq> g" for m
    using that op by (cases op) auto
  then show ?thesis using run_ok [OF laws op(1,2), of s u s'] run Inr by (cases "f = g") auto
qed

lemma iptables_effect:
  assumes laws: "iptables_laws run tbl" and op: "standard_op op"
    and run: "iptables_exec run op s = (r, s')"
  shows "map_of (tbl f s') = map_of (tbl f s) \<and> r \<noteq> Inr () \<or>
    map_of (tbl f s') = map_op (of_family f) op (map_of (tbl f s))"
proof (cases "\<exists>c rule. op = Append c rule \<or> op = Delete c rule")
  case True
  then obtain c rule where c: "op = Append c rule \<or> op = Delete c rule" by blast
  have "\<exists>f. family rule \<noteq> f" by (metis FirewallFamily.distinct(1))
  then have "op_in_family (family rule) op" "\<not> (\<forall>f. op_in_family f op)"
    "run (family_bin (family rule)) (to_argv op) s = (r, s')"
    using run c by auto
  then show ?thesis by (rule run_rule_effect [OF laws op])
next
  case False
  then have "iptables_exec run op s = run_both run (to_argv op) s" "\<forall>f. op_in_family f op" by (cases op; auto)+
  then show ?thesis using run_both_effect [OF laws op] run by simp
qed

lemma iptables_fresh:
  assumes laws: "iptables_laws run tbl" and "iptables_exec run (CreateChain c) s = (Inr u, s')"
  shows "map_of (tbl f s') c = Some []"
proof -
  obtain v s1 where 1: "run ''iptables'' (to_argv (CreateChain c)) s = (Inr v, s1)"
    and 2: "run ''ip6tables'' (to_argv (CreateChain c)) s1 = (Inr u, s')"
    using run_both_cases [of run "to_argv (CreateChain c)" s "Inr u" s'] assms(2) by auto
  have "map_of (tbl Ipv4 s) c = None" using run_create [OF laws, of Ipv4] 1 by simp
  moreover have "map_of (tbl Ipv6 s1) c = None" using run_create [OF laws, of Ipv6] 2 by simp
  moreover have "tbl Ipv6 s1 = tbl Ipv6 s" using run_ok(2) [OF laws, of "CreateChain c" Ipv4 s v s1 Ipv6] 1 by simp
  ultimately have "map_of (tbl Ipv4 s) c = None" "map_of (tbl Ipv6 s) c = None" by simp_all
  then have "map_of (tbl f s) c = None" by (cases f) auto
  then show ?thesis using iptables_effect [OF laws _ assms(2), of f] by (auto simp: chain_entries_def)
qed

lemma iptables_is_backend:
  assumes "iptables_laws run tbl"
  shows "firewall_backend (iptables_exec run) tbl"
proof
  fix op s u s' f assume "standard_op op" "iptables_exec run op s = (Inr u, s')"
  then show "map_of (tbl f s') = map_op (of_family f) op (map_of (tbl f s))"
    using iptables_effect [OF assms, of op s "Inr u" s' f] by auto
next
  fix op s e s' f assume "standard_op op" "iptables_exec run op s = (Inl e, s')"
  then show "map_of (tbl f s') = map_of (tbl f s) \<or> map_of (tbl f s') = map_op (of_family f) op (map_of (tbl f s))"
    using iptables_effect [OF assms, of op s "Inl e" s' f] by auto
next
  fix c s r s1 u s2 f assume "iptables_exec run (CreateChain c) s1 = (Inr u, s2)"
  then show "map_of (tbl f s2) c = Some []" by (rule iptables_fresh [OF assms])
qed

lemma first_decision_guards:
  assumes "set js \<subseteq> {k, d}" "k \<in> set js" "D k \<noteq> Pass"
  shows "first_decision (map D js) \<noteq> Pass" "first_decision (map D js) \<in> {D k, D d}"
    "D d = Pass \<Longrightarrow> first_decision (map D js) = D k"
  using assms by (induction js) auto

lemma ks_rules_standard: "rule \<in> set (ks_rules server tun) \<Longrightarrow> standard_rule rule"
  by (auto simp: ks_rules_def ks_family_rules_def standard_rule_def split: if_splits)

lemma chain_names [simp]:
  "KS_CHAIN \<noteq> ''OUTPUT''" "DNS_CHAIN \<noteq> ''OUTPUT''" "KS_CHAIN \<noteq> DNS_CHAIN" "DNS_CHAIN \<noteq> KS_CHAIN"
  "KS_CHAIN \<noteq> ''ACCEPT''" "KS_CHAIN \<noteq> ''REJECT''" "KS_CHAIN \<noteq> ''DROP''"
  "''OUTPUT'' \<noteq> KS_CHAIN" "''OUTPUT'' \<noteq> DNS_CHAIN"
  by (simp_all add: KS_CHAIN_def DNS_CHAIN_def)

lemma ks_policy_not_Pass [simp]: "ks_policy server tun p \<noteq> Pass"
  by (simp add: ks_policy_def)

lemma dns_accept_ks: "dns_policy tun p = Accept \<Longrightarrow> ks_policy server tun p = Accept"
  by (auto simp: dns_policy_def ks_policy_def split: if_splits)

lemma some_dns_rules:
  assumes "set dr \<subseteq> set (dns_rules tun)"
  shows "rules_decision p dr = Pass \<or> rules_decision p dr = dns_policy tun p"
  using assms by (induction dr) (auto simp: dns_rules_def dns_policy_def dns_rule_matches)

text \<open>The chains while the kill switch is installed: its own chain is complete and jumped to, and
  the DNS chain holds any of the DNS rules.\<close>

definition ks_chains :: "SocketAddr \<Rightarrow> string \<Rightarrow> FirewallFamily \<Rightarrow> (string \<rightharpoonup> fw_entry list) \<Rightarrow> bool" where
  "ks_chains server tun f m \<longleftrightarrow> (\<exists>js dr. chain_entries m ''OUTPUT'' = map Entry_Jump js \<and>
     set js \<subseteq> {KS_CHAIN, DNS_CHAIN} \<and> KS_CHAIN \<in> set js \<and>
     chain_entries m KS_CHAIN = map Entry_Rule (filter (of_family f) (ks_rules server tun)) \<and>
     chain_entries m DNS_CHAIN = map Entry_Rule dr \<and> set dr \<subseteq> set (dns_rules tun))"

lemma ks_chains_decide:
  assumes "ip_wf (sock_ip server)" "ks_chains server tun f (map_of cs)" and p: "packet_family p = Some f"
  defines "d \<equiv> fst (traverse cs p ''OUTPUT'' [])"
  shows "d \<noteq> Pass" "d = Accept \<Longrightarrow> ks_policy server tun p = Accept"
    "dns_policy tun p = Pass \<Longrightarrow> d = ks_policy server tun p"
proof -
  let ?new = "chain_entries (map_of cs)"
  obtain js dr where js: "?new ''OUTPUT'' = map Entry_Jump js" and sub: "set js \<subseteq> {KS_CHAIN, DNS_CHAIN}" "KS_CHAIN \<in> set js"
    and K: "?new KS_CHAIN = map Entry_Rule (filter (of_family f) (ks_rules server tun))"
    and dr: "?new DNS_CHAIN = map Entry_Rule dr" "set dr \<subseteq> set (dns_rules tun)"
    using assms(2) by (auto simp: ks_chains_def)
  define R where "R c = (if c = KS_CHAIN then filter (of_family f) (ks_rules server tun) else dr)" for c
  define D where "D c = rules_decision p (R c)" for c
  have "\<forall>c \<in> set js. ?new c = map Entry_Rule (R c)" "''OUTPUT'' \<notin> set js"
    using sub K dr(1) by (auto simp: R_def)
  then have d: "d = first_decision (map D js)"
    unfolding d_def D_def by (intro evaluate_jumps js)
  have K: "D KS_CHAIN = ks_policy server tun p"
    using ks_rules_decision [OF assms(1)] rules_decision_family [OF p] by (simp add: D_def R_def)
  have N: "D DNS_CHAIN = Pass \<or> D DNS_CHAIN = dns_policy tun p"
    using some_dns_rules [OF dr(2)] by (auto simp: D_def R_def)
  note fd = first_decision_guards [OF sub, of D]
  show "d \<noteq> Pass" using fd(1) K d by simp
  show "ks_policy server tun p = Accept" if "d = Accept"
    using fd(2) K N d that dns_accept_ks [of tun p server] by auto
  show "d = ks_policy server tun p" if "dns_policy tun p = Pass"
    using fd(3) K N d that by auto
qed

context firewall_backend
begin

lemma ks_install_chains:
  assumes "ks_install exec (ks_new server tun) s = (Inr u, ks, s')"
    and old: "chain_entries (map_of (tbl f s)) ''OUTPUT'' = map Entry_Jump js" "set js \<subseteq> {KS_CHAIN, DNS_CHAIN}"
    and dns: "chain_entries (map_of (tbl f s)) DNS_CHAIN = map Entry_Rule dr" "set dr \<subseteq> set (dns_rules tun)"
  shows "g_active ks" "ks_chains server tun f (map_of (tbl f s'))"
proof -
  have run: "apply_required exec (install_ops KS_CHAIN (ks_rules server tun)) s = (Inr u, s')" and "g_active ks"
    using assms(1) by (auto simp: ks_install_def guard_install_def ks_new_def split: prod.splits sum.splits)
  then show "g_active ks" by simp
  let ?new = "chain_entries (map_of (tbl f s'))"
  have new: "?new KS_CHAIN = map Entry_Rule (filter (of_family f) (ks_rules server tun))"
    "?new ''OUTPUT'' \<in> {map Entry_Jump js @ [Entry_Jump KS_CHAIN], remove1 (Entry_Jump KS_CHAIN) (map Entry_Jump js) @ [Entry_Jump KS_CHAIN]}"
    "?new DNS_CHAIN = chain_entries (map_of (tbl f s)) DNS_CHAIN"
    using install_effect [OF run, where f = f] ks_rules_standard old(1) by auto
  have "remove1 (Entry_Jump KS_CHAIN) (map Entry_Jump js) = map Entry_Jump (remove1 KS_CHAIN js)"
    by (induction js) auto
  then have "?new ''OUTPUT'' \<in> map Entry_Jump ` {js @ [KS_CHAIN], remove1 KS_CHAIN js @ [KS_CHAIN]}"
    using new(2) by simp
  then obtain js' where js': "?new ''OUTPUT'' = map Entry_Jump js'" "js' \<in> {js @ [KS_CHAIN], remove1 KS_CHAIN js @ [KS_CHAIN]}"
    by blast
  moreover have "set js' \<subseteq> {KS_CHAIN, DNS_CHAIN}" "KS_CHAIN \<in> set js'"
    using js'(2) old(2) set_remove1_subset [of KS_CHAIN js] by auto
  ultimately show "ks_chains server tun f (map_of (tbl f s'))"
    using new(1,3) dns unfolding ks_chains_def by metis
qed

end

text \<open>If \<open>KillSwitch::install\<close> succeeds on the production back end, from any state in which the
  OUTPUT chain holds only jumps to the program's own chains (stale ones of a crashed run
  included) and the DNS chain holds any of the DNS rules, then in the table of either
  family every packet is decided, none that the kill switch policy forbids is accepted, and
  packets other than DNS are decided exactly by that policy.\<close>

theorem kill_switch_protects:
  assumes "iptables_laws run tbl" "ip_wf (sock_ip server)"
    and "ks_install (iptables_exec run) (ks_new server tun) s = (Inr u, ks, s')"
    and "chain_entries (map_of (tbl f s)) ''OUTPUT'' = map Entry_Jump js" "set js \<subseteq> {KS_CHAIN, DNS_CHAIN}"
    and "chain_entries (map_of (tbl f s)) DNS_CHAIN = map Entry_Rule dr" "set dr \<subseteq> set (dns_rules tun)"
    and "packet_family p = Some f"
  shows "g_active ks \<and> fst (traverse (tbl f s') p ''OUTPUT'' []) \<noteq> Pass \<and>
    (fst (traverse (tbl f s') p ''OUTPUT'' []) = Accept \<longrightarrow> ks_policy server tun p = Accept) \<and>
    (dns_policy tun p = Pass \<longrightarrow> fst (traverse (tbl f s') p ''OUTPUT'' []) = ks_policy server tun p)"
  using firewall_backend.ks_install_chains [OF iptables_is_backend [OF assms(1)] assms(3-7)]
    ks_chains_decide [OF assms(2) _ assms(8)] by blast

subsection \<open>A command that has the documented behaviour\<close>

definition take_opt :: "string \<Rightarrow> string list \<Rightarrow> string option \<times> string list" where
  "take_opt flag argv = (case argv of x # v # rest \<Rightarrow> if x = flag then (Some v, rest) else (None, argv)
     | _ \<Rightarrow> (None, argv))"

definition take_bang :: "string list \<Rightarrow> bool \<times> string list" where
  "take_bang argv = (case argv of x # rest \<Rightarrow> if x = ''!'' then (True, rest) else (False, argv) | [] \<Rightarrow> (False, []))"

definition parse_spec :: "FirewallFamily \<Rightarrow> string list \<Rightarrow> FirewallRuleSpec option" where
  "parse_spec f argv =
     (let (pr, a) = take_opt ''-p'' argv; (dp, a) = take_opt ''--dport'' a; (neg, a) = take_bang a;
          (oi, a) = take_opt ''-o'' a; (ds, a) = take_opt ''-d'' a
      in case a of [j, t] \<Rightarrow> if j = ''-j'' then Some \<lparr>family = f, proto = pr, dport = dp, out_iface = oi,
           neg_out_iface = neg, dst = ds, target = t\<rparr> else None | _ \<Rightarrow> None)"

definition parse_entry :: "FirewallFamily \<Rightarrow> string list \<Rightarrow> fw_entry option" where
  "parse_entry f argv = (case argv of
       [j, t] \<Rightarrow> if j = ''-j'' \<and> t \<notin> {''ACCEPT'', ''REJECT'', ''DROP''} then Some (Entry_Jump t)
         else map_option Entry_Rule (parse_spec f argv)
     | _ \<Rightarrow> map_option Entry_Rule (parse_spec f argv))"

definition parse_argv :: "FirewallFamily \<Rightarrow> string list \<Rightarrow> FirewallOp option" where
  "parse_argv f argv = (case argv of
       cmd # c # rest \<Rightarrow>
         (if cmd = ''-N'' \<and> rest = [] then Some (CreateChain c)
          else if cmd = ''-F'' \<and> rest = [] then Some (FlushChain c)
          else if cmd = ''-X'' \<and> rest = [] then Some (DeleteChain c)
          else if cmd = ''-A'' then
            map_option (\<lambda>e. case e of Entry_Rule rule \<Rightarrow> Append c rule | Entry_Jump t \<Rightarrow> Jump c t) (parse_entry f rest)
          else if cmd = ''-D'' then
            map_option (\<lambda>e. case e of Entry_Rule rule \<Rightarrow> Delete c rule | Entry_Jump t \<Rightarrow> Unjump c t) (parse_entry f rest)
          else None)
     | _ \<Rightarrow> None)"

definition table_run :: "string \<Rightarrow> string list \<Rightarrow> (FirewallFamily \<Rightarrow> chains) \<Rightarrow> (string + unit) \<times> (FirewallFamily \<Rightarrow> chains)" where
  "table_run bin argv s = (let f = (if bin = ''iptables'' then Ipv4 else Ipv6) in
     case parse_argv f argv of
       None \<Rightarrow> (Inl ''Bad argument'', s)
     | Some op \<Rightarrow> (case op of
          CreateChain c \<Rightarrow> if map_of (s f) c \<noteq> None then (Inl ''Chain already exists'', s)
            else (Inr (), s(f := apply_op op (s f)))
        | _ \<Rightarrow> (Inr (), s(f := apply_op op (s f)))))"

lemma parse_spec_argv:
  "standard_rule rule \<Longrightarrow> parse_spec (family rule) (spec_argv rule) = Some rule"
  by (cases rule) (auto simp: parse_spec_def spec_argv_def opt_argv_def take_opt_def take_bang_def standard_rule_def
      split: option.splits)

lemma parse_entry_spec:
  assumes "standard_rule rule"
  shows "parse_entry (family rule) (spec_argv rule) = Some (Entry_Rule rule)"
proof (cases "\<exists>j t. spec_argv rule = [j, t]")
  case True
  then have "spec_argv rule = [''-j'', target rule]" by (auto simp: spec_argv_def)
  then show ?thesis using assms parse_spec_argv [OF assms] by (auto simp: parse_entry_def standard_rule_def)
next
  case False
  then have "parse_entry (family rule) (spec_argv rule) = map_option Entry_Rule (parse_spec (family rule) (spec_argv rule))"
    by (auto simp: parse_entry_def split: list.splits)
  then show ?thesis using parse_spec_argv [OF assms] by simp
qed

lemma parse_to_argv: "standard_op op \<Longrightarrow> op_in_family f op \<Longrightarrow> parse_argv f (to_argv op) = Some op"
  by (cases op) (auto simp: parse_argv_def parse_entry_spec, simp_all add: parse_entry_def)

lemma table_run_laws: "iptables_laws table_run (\<lambda>f s. s f)"
proof -
  have bin: "(if family_bin f = ''iptables'' then Ipv4 else Ipv6) = f" for f by (cases f) auto
  have ok: "map_of (s' f) = map_op (of_family f) op (map_of (s f)) \<and> (\<forall>g. g \<noteq> f \<longrightarrow> s' g = s g)"
    if "standard_op op" "op_in_family f op" "table_run (family_bin f) (to_argv op) s = (Inr u, s')" for f op s u s'
    using that parse_to_argv [OF that(1,2)] map_of_apply_op_family [of f op "s f"]
    by (auto simp: table_run_def Let_def bin split: FirewallOp.splits if_splits)
  have err: "s' g = s g" if "table_run (family_bin f) argv s = (Inl e, s')" for f argv s e s' g
    using that by (auto simp: table_run_def Let_def split: FirewallOp.splits if_splits option.splits)
  have new: "map_of (s f) c = None" if "table_run (family_bin f) (to_argv (CreateChain c)) s = (Inr u, s')" for f c s u s'
    using that by (auto simp: table_run_def Let_def bin parse_argv_def split: if_splits)
  show ?thesis unfolding iptables_laws_def using ok err new by blast
qed

lemma table_exec_ok:
  assumes "standard_op op" "\<And>c f. op = CreateChain c \<Longrightarrow> map_of (s f) c = None"
  shows "\<exists>s'. iptables_exec table_run op s = (Inr (), s')"
proof -
  have one: "\<exists>s'. table_run (family_bin f) (to_argv op) s = (Inr (), s') \<and> (\<forall>g. g \<noteq> f \<longrightarrow> s' g = s g)"
    if "op_in_family f op" "\<And>c. op = CreateChain c \<Longrightarrow> map_of (s f) c = None" for f s
    using that parse_to_argv [OF assms(1) that(1)]
    by (cases f; cases op) (auto simp: table_run_def Let_def)
  show ?thesis
  proof (cases "\<exists>c rule. op = Append c rule \<or> op = Delete c rule")
    case True
    then show ?thesis using one assms(2) by fastforce
  next
    case False
    then have all: "op_in_family f op" for f by (cases op) auto
    then obtain s1 where 1: "table_run ''iptables'' (to_argv op) s = (Inr (), s1)" "s1 Ipv6 = s Ipv6"
      using one [of Ipv4 s] assms(2) by auto
    then obtain s2 where "table_run ''ip6tables'' (to_argv op) s1 = (Inr (), s2)"
      using one [of Ipv6 s1] all assms(2) [of _ Ipv6] by auto
    then have "run_both table_run (to_argv op) s = (Inr (), s2)" using 1 by (simp add: run_both_def)
    then show ?thesis using False by (cases op) auto
  qed
qed

lemma table_required_ok:
  "\<forall>op \<in> set ops. standard_op op \<and> (\<forall>c. op \<noteq> CreateChain c) \<Longrightarrow>
   \<exists>s'. apply_required_from i (iptables_exec table_run) ops s = (Inr (), s')"
proof (induction ops arbitrary: i s)
  case (Cons op ops)
  then obtain s1 where "iptables_exec table_run op s = (Inr (), s1)" using table_exec_ok [of op s] by auto
  then show ?case using Cons by simp
qed simp

lemma table_install_ok:
  assumes "\<forall>rule \<in> set rules. standard_rule rule" "c \<notin> {''ACCEPT'', ''REJECT'', ''DROP''}"
  shows "\<exists>s'. apply_required (iptables_exec table_run) (install_ops c rules) s = (Inr (), s')"
proof -
  let ?exec = "iptables_exec table_run"
  obtain s1 where 1: "?exec (Unjump ''OUTPUT'' c) s = (Inr (), s1)"
    using table_exec_ok [of "Unjump ''OUTPUT'' c" s] assms(2) by auto
  obtain s2 where 2: "?exec (FlushChain c) s1 = (Inr (), s2)"
    using table_exec_ok [of "FlushChain c" s1] by auto
  obtain s3 where 3: "?exec (DeleteChain c) s2 = (Inr (), s3)"
    using table_exec_ok [of "DeleteChain c" s2] by auto
  have "map_of (s3 f) c = None" for f
    using iptables_effect [OF table_run_laws _ 3, of f] by simp
  then obtain s4 where 4: "?exec (CreateChain c) s3 = (Inr (), s4)"
    using table_exec_ok [of "CreateChain c" s3] by (metis FirewallOp.inject(1) standard_op.simps(5))
  obtain s5 where "apply_required_from (Suc 3) ?exec (map (Append c) rules @ [Jump ''OUTPUT'' c]) s4 = (Inr (), s5)"
    using table_required_ok [of "map (Append c) rules @ [Jump ''OUTPUT'' c]" "Suc 3" s4] assms by auto
  then show ?thesis using 1 2 3 4
    by (simp add: apply_required_def install_ops_def numeral_eq_Suc del: iptables_exec.simps)
qed

theorem kill_switch_protects_witness:
  "\<exists>ks s'. ks_install (iptables_exec table_run) (ks_new \<lparr>sock_ip = V4 1 2 3 4, sock_port = 51820\<rparr> ''tun0'') (\<lambda>_. []) =
      (Inr (), ks, s') \<and> g_active ks \<and>
    fst (traverse (s' Ipv4) \<lparr>pk_proto = ''tcp'', pk_dst = show_ip (V4 9 9 9 9), pk_dport = 443, pk_iface = ''eth0''\<rparr> ''OUTPUT'' []) = Reject"
proof -
  let ?server = "\<lparr>sock_ip = V4 1 2 3 4, sock_port = 51820\<rparr>"
  let ?p = "\<lparr>pk_proto = ''tcp'', pk_dst = show_ip (V4 9 9 9 9), pk_dport = 443, pk_iface = ''eth0''\<rparr>"
  obtain s' where "apply_required (iptables_exec table_run) (install_ops KS_CHAIN (ks_rules ?server ''tun0'')) (\<lambda>_. []) = (Inr (), s')"
    using table_install_ok [of "ks_rules ?server ''tun0''" KS_CHAIN "\<lambda>_. []"] ks_rules_standard by auto
  then have i: "ks_install (iptables_exec table_run) (ks_new ?server ''tun0'') (\<lambda>_. []) =
      (Inr (), (ks_new ?server ''tun0'')\<lparr>g_active := True\<rparr>, s')"
    by (simp add: ks_install_def guard_install_def ks_new_def)
  have fam: "packet_family ?p = Some Ipv4"
    using parse_ip_display [of "V4 9 9 9 9"] by (auto simp: packet_family_def)
  have pol: "ks_policy ?server ''tun0'' ?p = Reject" "dns_policy ''tun0'' ?p = Pass"
    by (simp_all add: ks_policy_def dns_policy_def to_server_def)
  show ?thesis
    using kill_switch_protects [OF table_run_laws _ i, where f = Ipv4 and js = "[]" and dr = "[]" and p = ?p] fam pol i
    by (auto simp: chain_entries_def)
qed

subsection \<open>The test evaluator is faithful to the tables\<close>

text \<open>\<open>evaluate_packet\<close> puts the rules of both families into one set of chains and skips rules of
  the other family when it matches; for every sequence of operations and every packet with a
  valid destination it decides as the table of the packet's family alone does.\<close>

theorem evaluator_matches_family_table:
  assumes "packet_family p = Some f"
  shows "evaluate_packet ops p = fst (traverse (family_table f ops) p ''OUTPUT'' [])"
  unfolding evaluate_packet_def using traverse_restricted(1) [OF assms restricts_tables] by simp

theorem evaluator_matches_family_table_witness:
  "packet_family \<lparr>pk_proto = ''tcp'', pk_dst = show_ip (V4 9 9 9 9), pk_dport = 443, pk_iface = ''eth0''\<rparr> = Some Ipv4 \<and>
   evaluate_packet (g_ops (dns_new ''tun0'')) \<lparr>pk_proto = ''tcp'', pk_dst = show_ip (V4 9 9 9 9), pk_dport = 443, pk_iface = ''eth0''\<rparr> =
   fst (traverse (family_table Ipv4 (g_ops (dns_new ''tun0'')))
     \<lparr>pk_proto = ''tcp'', pk_dst = show_ip (V4 9 9 9 9), pk_dport = 443, pk_iface = ''eth0''\<rparr> ''OUTPUT'' [])"
proof -
  let ?p = "\<lparr>pk_proto = ''tcp'', pk_dst = show_ip (V4 9 9 9 9), pk_dport = 443, pk_iface = ''eth0''\<rparr>"
  have "packet_family ?p = Some Ipv4"
    using parse_ip_display [of "V4 9 9 9 9"] by (auto simp: packet_family_def)
  then show ?thesis using evaluator_matches_family_table [of ?p Ipv4] by blast
qed

subsection \<open>Any order of installing and removing the guards\<close>

record guards =
  gs_ops :: "FirewallOp list"
  gs_ks :: fw_guard
  gs_dns :: fw_guard

inductive guards_reach :: "SocketAddr \<Rightarrow> string \<Rightarrow> guards \<Rightarrow> bool" for server tun where
  start: "guards_reach server tun \<lparr>gs_ops = [], gs_ks = ks_new server tun, gs_dns = dns_new tun\<rparr>"
| ks_on: "guards_reach server tun s \<Longrightarrow> ks_install recorded_exec (gs_ks s) (gs_ops s) = (r, g, ops) \<Longrightarrow>
    guards_reach server tun (s\<lparr>gs_ops := ops, gs_ks := g\<rparr>)"
| ks_off: "guards_reach server tun s \<Longrightarrow> ks_remove recorded_exec (gs_ks s) (gs_ops s) = (r, g, ops) \<Longrightarrow>
    guards_reach server tun (s\<lparr>gs_ops := ops, gs_ks := g\<rparr>)"
| dns_on: "guards_reach server tun s \<Longrightarrow> dns_install recorded_exec (gs_dns s) (gs_ops s) = (r, g, ops) \<Longrightarrow>
    guards_reach server tun (s\<lparr>gs_ops := ops, gs_dns := g\<rparr>)"
| dns_off: "guards_reach server tun s \<Longrightarrow> dns_remove recorded_exec (gs_dns s) (gs_ops s) = (r, g, ops) \<Longrightarrow>
    guards_reach server tun (s\<lparr>gs_ops := ops, gs_dns := g\<rparr>)"

definition rec_entries :: "FirewallOp list \<Rightarrow> string \<Rightarrow> fw_entry list" where
  "rec_entries ops = chain_entries (map_of (rebuild ops))"

definition chains_inv :: "SocketAddr \<Rightarrow> string \<Rightarrow> (string \<Rightarrow> fw_entry list) \<Rightarrow> bool \<Rightarrow> bool \<Rightarrow> bool" where
  "chains_inv server tun E ks dns \<longleftrightarrow>
     (\<exists>js. E ''OUTPUT'' = map Entry_Jump js \<and> distinct js \<and> set js = {c. c = KS_CHAIN \<and> ks \<or> c = DNS_CHAIN \<and> dns}) \<and>
     (ks \<longrightarrow> E KS_CHAIN = map Entry_Rule (ks_rules server tun)) \<and>
     (dns \<longrightarrow> E DNS_CHAIN = map Entry_Rule (dns_rules tun))"

definition guards_inv :: "SocketAddr \<Rightarrow> string \<Rightarrow> guards \<Rightarrow> bool" where
  "guards_inv server tun s \<longleftrightarrow>
     g_ops (gs_ks s) = install_ops KS_CHAIN (ks_rules server tun) \<and>
     g_ops (gs_dns s) = install_ops DNS_CHAIN (dns_rules tun) \<and>
     chains_inv server tun (rec_entries (gs_ops s)) (g_active (gs_ks s)) (g_active (gs_dns s))"

lemma recorded_required: "apply_required_from i recorded_exec ops s = (Inr (), s @ ops)"
  by (induction ops arbitrary: i s) (simp_all add: recorded_exec_def)

lemma recorded_best_effort: "apply_best_effort recorded_exec ops s = s @ ops"
  by (induction ops arbitrary: s) (simp_all add: apply_best_effort_def recorded_exec_def)

lemma rec_entries_snoc:
  "rec_entries (ops @ [op]) = chain_entries (map_op (\<lambda>_. True) op (map_of (rebuild ops)))"
  by (simp add: rec_entries_def rebuild_snoc map_of_apply_op)

lemma rec_entries_appends:
  "rec_entries (ops @ map (Append c) rules) = (rec_entries ops)(c := rec_entries ops c @ map Entry_Rule rules)"
proof (induction rules rule: rev_induct)
  case (snoc rule rules)
  then show ?case using rec_entries_snoc [of "ops @ map (Append c) rules" "Append c rule"]
    by (simp add: chain_entries_map_op rec_entries_def fun_upd_def fun_eq_iff del: map_op.simps)
qed simp

lemma rec_entries_remove:
  "c \<noteq> ''OUTPUT'' \<Longrightarrow> rec_entries (ops @ remove_ops c) =
   (rec_entries ops)(c := [], ''OUTPUT'' := remove1 (Entry_Jump c) (rec_entries ops ''OUTPUT''))"
  using rec_entries_snoc [of ops] rec_entries_snoc [of "ops @ [Unjump ''OUTPUT'' c]"]
    rec_entries_snoc [of "ops @ [Unjump ''OUTPUT'' c, FlushChain c]"]
  by (simp add: remove_ops_def chain_entries_map_op flip: rec_entries_def del: map_op.simps) (auto simp: fun_eq_iff)

lemma rec_entries_install:
  assumes "c \<noteq> ''OUTPUT''"
  shows "rec_entries (ops @ install_ops c rules) = (rec_entries ops)(c := map Entry_Rule rules,
     ''OUTPUT'' := remove1 (Entry_Jump c) (rec_entries ops ''OUTPUT'') @ [Entry_Jump c])"
proof -
  let ?o = "ops @ remove_ops c @ [CreateChain c]"
  have "install_ops c rules = (remove_ops c @ [CreateChain c]) @ map (Append c) rules @ [Jump ''OUTPUT'' c]"
    by (simp add: install_ops_def remove_ops_def)
  then have "rec_entries (ops @ install_ops c rules) = rec_entries ((?o @ map (Append c) rules) @ [Jump ''OUTPUT'' c])"
    by simp
  moreover have "rec_entries ?o = rec_entries (ops @ remove_ops c)"
    using rec_entries_snoc [of "ops @ remove_ops c" "CreateChain c"] by (simp add: chain_entries_map_op flip: rec_entries_def del: map_op.simps)
  ultimately show ?thesis
    using rec_entries_snoc [of "?o @ map (Append c) rules" "Jump ''OUTPUT'' c"] rec_entries_appends [of ?o c rules]
      rec_entries_remove [OF assms, of ops] assms
    by (simp add: chain_entries_map_op flip: rec_entries_def del: map_op.simps)
qed

lemma remove1_jump: "remove1 (Entry_Jump c) (map Entry_Jump js) = map Entry_Jump (remove1 c js)"
  by (induction js) auto

lemmas guard_ops = ks_install_def ks_remove_def dns_install_def dns_remove_def guard_install_def
  guard_remove_def apply_required_def recorded_required recorded_best_effort

lemma chains_inv_on:
  assumes "chains_inv server tun E ks dns"
  shows "chains_inv server tun (E(KS_CHAIN := map Entry_Rule (ks_rules server tun),
      ''OUTPUT'' := remove1 (Entry_Jump KS_CHAIN) (E ''OUTPUT'') @ [Entry_Jump KS_CHAIN])) True dns"
    and "chains_inv server tun (E(DNS_CHAIN := map Entry_Rule (dns_rules tun),
      ''OUTPUT'' := remove1 (Entry_Jump DNS_CHAIN) (E ''OUTPUT'') @ [Entry_Jump DNS_CHAIN])) ks True"
proof -
  obtain js where js: "E ''OUTPUT'' = map Entry_Jump js" "distinct js" "set js = {c. c = KS_CHAIN \<and> ks \<or> c = DNS_CHAIN \<and> dns}"
    and E: "ks \<longrightarrow> E KS_CHAIN = map Entry_Rule (ks_rules server tun)" "dns \<longrightarrow> E DNS_CHAIN = map Entry_Rule (dns_rules tun)"
    using assms by (auto simp: chains_inv_def)
  have "remove1 (Entry_Jump c) (E ''OUTPUT'') @ [Entry_Jump c] = map Entry_Jump (remove1 c js @ [c])"
    "distinct (remove1 c js @ [c])" "set (remove1 c js @ [c]) = insert c (set js)" for c
    using js by (auto simp: remove1_jump)
  note new = this
  show "chains_inv server tun (E(KS_CHAIN := map Entry_Rule (ks_rules server tun),
      ''OUTPUT'' := remove1 (Entry_Jump KS_CHAIN) (E ''OUTPUT'') @ [Entry_Jump KS_CHAIN])) True dns"
    unfolding chains_inv_def using E js(3) new [of KS_CHAIN]
    by (intro conjI exI [of _ "remove1 KS_CHAIN js @ [KS_CHAIN]"]) auto
  show "chains_inv server tun (E(DNS_CHAIN := map Entry_Rule (dns_rules tun),
      ''OUTPUT'' := remove1 (Entry_Jump DNS_CHAIN) (E ''OUTPUT'') @ [Entry_Jump DNS_CHAIN])) ks True"
    unfolding chains_inv_def using E js(3) new [of DNS_CHAIN]
    by (intro conjI exI [of _ "remove1 DNS_CHAIN js @ [DNS_CHAIN]"]) auto
qed

lemma chains_inv_off:
  assumes "chains_inv server tun E ks dns"
  shows "chains_inv server tun (E(KS_CHAIN := [], ''OUTPUT'' := remove1 (Entry_Jump KS_CHAIN) (E ''OUTPUT''))) False dns"
    and "chains_inv server tun (E(DNS_CHAIN := [], ''OUTPUT'' := remove1 (Entry_Jump DNS_CHAIN) (E ''OUTPUT''))) ks False"
proof -
  obtain js where js: "E ''OUTPUT'' = map Entry_Jump js" "distinct js" "set js = {c. c = KS_CHAIN \<and> ks \<or> c = DNS_CHAIN \<and> dns}"
    and E: "ks \<longrightarrow> E KS_CHAIN = map Entry_Rule (ks_rules server tun)" "dns \<longrightarrow> E DNS_CHAIN = map Entry_Rule (dns_rules tun)"
    using assms by (auto simp: chains_inv_def)
  have new: "remove1 (Entry_Jump c) (E ''OUTPUT'') = map Entry_Jump (remove1 c js)"
    "distinct (remove1 c js)" "set (remove1 c js) = set js - {c}" for c
    using js by (auto simp: remove1_jump)
  show "chains_inv server tun (E(KS_CHAIN := [], ''OUTPUT'' := remove1 (Entry_Jump KS_CHAIN) (E ''OUTPUT''))) False dns"
  proof -
    have "set (remove1 KS_CHAIN js) = {c. c = KS_CHAIN \<and> False \<or> c = DNS_CHAIN \<and> dns}"
      unfolding new(3) js(3) by auto
    then show ?thesis unfolding chains_inv_def new(1) using E(2) new(2) by auto
  qed
  show "chains_inv server tun (E(DNS_CHAIN := [], ''OUTPUT'' := remove1 (Entry_Jump DNS_CHAIN) (E ''OUTPUT''))) ks False"
  proof -
    have "set (remove1 DNS_CHAIN js) = {c. c = KS_CHAIN \<and> ks \<or> c = DNS_CHAIN \<and> False}"
      unfolding new(3) js(3) by auto
    then show ?thesis unfolding chains_inv_def new(1) using E(1) new(2) by auto
  qed
qed

lemma guards_reach_inv: "guards_reach server tun s \<Longrightarrow> guards_inv server tun s"
proof (induction rule: guards_reach.induct)
  case start
  show ?case
    by (auto simp: guards_inv_def chains_inv_def ks_new_def dns_new_def rec_entries_def rebuild_def chain_entries_def)
next
  case (ks_on s r g ops)
  then show ?case using chains_inv_on(1)
    by (auto simp: guards_inv_def guard_ops rec_entries_install)
next
  case (ks_off s r g ops)
  then show ?case using chains_inv_off(1)
    by (cases "g_active (gs_ks s)") (auto simp: guards_inv_def guard_ops rec_entries_remove)
next
  case (dns_on s r g ops)
  then show ?case using chains_inv_on(2)
    by (auto simp: guards_inv_def guard_ops rec_entries_install)
next
  case (dns_off s r g ops)
  then show ?case using chains_inv_off(2)
    by (cases "g_active (gs_dns s)") (auto simp: guards_inv_def guard_ops rec_entries_remove)
qed

lemma first_decision_single: "distinct js \<Longrightarrow> set js = {c} \<Longrightarrow> first_decision (map D js) = D c"
  by (cases js) (auto dest: subset_singletonD)

text \<open>C15. Whatever sequence of installing and removing led to the current state: while the kill
  switch is active no packet passes undecided and none its policy forbids is accepted; while only
  the DNS guard is active exactly the DNS policy applies; with neither, no packet is touched.\<close>

theorem guards_fail_closed:
  assumes "guards_reach server tun s" "ip_wf (sock_ip server)"
  shows "(\<not> g_active (gs_ks s) \<and> \<not> g_active (gs_dns s) \<longrightarrow> evaluate_packet (gs_ops s) p = Pass) \<and>
    (g_active (gs_ks s) \<and> \<not> g_active (gs_dns s) \<longrightarrow> evaluate_packet (gs_ops s) p = ks_policy server tun p) \<and>
    (\<not> g_active (gs_ks s) \<and> g_active (gs_dns s) \<longrightarrow> evaluate_packet (gs_ops s) p = dns_policy tun p) \<and>
    (g_active (gs_ks s) \<and> g_active (gs_dns s) \<longrightarrow>
       evaluate_packet (gs_ops s) p \<noteq> Pass \<and>
       (evaluate_packet (gs_ops s) p = Accept \<longrightarrow> ks_policy server tun p = Accept) \<and>
       (dns_policy tun p = Pass \<longrightarrow> evaluate_packet (gs_ops s) p = ks_policy server tun p))"
proof -
  let ?ks = "g_active (gs_ks s)" and ?dns = "g_active (gs_dns s)"
  have inv: "chains_inv server tun (rec_entries (gs_ops s)) ?ks ?dns"
    using guards_reach_inv [OF assms(1)] by (simp add: guards_inv_def)
  then obtain js where js: "rec_entries (gs_ops s) ''OUTPUT'' = map Entry_Jump js" "distinct js"
    "set js = {c. c = KS_CHAIN \<and> ?ks \<or> c = DNS_CHAIN \<and> ?dns}"
    by (auto simp: chains_inv_def)
  define R where "R c = (if c = KS_CHAIN then ks_rules server tun else dns_rules tun)" for c
  define D where "D c = rules_decision p (R c)" for c
  have "''OUTPUT'' \<notin> set js" "\<forall>c \<in> set js. rec_entries (gs_ops s) c = map Entry_Rule (R c)"
    using js(3) inv by (auto simp: chains_inv_def R_def)
  then have ev: "evaluate_packet (gs_ops s) p = first_decision (map D js)"
    using js(1) unfolding evaluate_packet_def D_def rec_entries_def by (intro evaluate_jumps) auto
  have K: "D KS_CHAIN = ks_policy server tun p" and N: "D DNS_CHAIN = dns_policy tun p"
    using ks_rules_decision [OF assms(2)] dns_rules_decision by (simp_all add: D_def R_def)
  have both: "first_decision (map D js) \<noteq> Pass \<and>
       (first_decision (map D js) = Accept \<longrightarrow> ks_policy server tun p = Accept) \<and>
       (dns_policy tun p = Pass \<longrightarrow> first_decision (map D js) = ks_policy server tun p)" if "?ks"
  proof -
    have "set js \<subseteq> {KS_CHAIN, DNS_CHAIN}" "KS_CHAIN \<in> set js" using js(3) that by auto
    then show ?thesis using first_decision_guards [of js KS_CHAIN DNS_CHAIN D] K N dns_accept_ks [of tun p server] by auto
  qed
  have none: "js = []" if "\<not> ?ks" "\<not> ?dns" using that js(3) by auto
  have ks: "set js = {KS_CHAIN}" if "?ks" "\<not> ?dns" using that js(3) by auto
  have dns: "set js = {DNS_CHAIN}" if "\<not> ?ks" "?dns" using that js(3) by auto
  show ?thesis unfolding ev
    using both none first_decision_single [OF js(2) ks, of D] first_decision_single [OF js(2) dns, of D] K N by auto
qed

theorem guards_fail_closed_witness:
  "\<exists>s. guards_reach \<lparr>sock_ip = V4 1 2 3 4, sock_port = 51820\<rparr> ''tun0'' s \<and> g_active (gs_ks s) \<and>
     evaluate_packet (gs_ops s) \<lparr>pk_proto = ''tcp'', pk_dst = show_ip (V4 1 2 3 4), pk_dport = 51820, pk_iface = ''eth0''\<rparr> = Reject"
proof -
  let ?server = "\<lparr>sock_ip = V4 1 2 3 4, sock_port = 51820\<rparr>"
  let ?p = "\<lparr>pk_proto = ''tcp'', pk_dst = show_ip (V4 1 2 3 4), pk_dport = 51820, pk_iface = ''eth0''\<rparr>"
  let ?s0 = "\<lparr>gs_ops = [], gs_ks = ks_new ?server ''tun0'', gs_dns = dns_new ''tun0''\<rparr>"
  obtain r g ops where i: "ks_install recorded_exec (gs_ks ?s0) (gs_ops ?s0) = (r, g, ops)" by (metis surj_pair)
  let ?s = "?s0\<lparr>gs_ops := ops, gs_ks := g\<rparr>"
  have reach: "guards_reach ?server ''tun0'' ?s" by (rule guards_reach.ks_on [OF guards_reach.start i])
  have act: "g_active (gs_ks ?s)" "\<not> g_active (gs_dns ?s)" using i by (auto simp: guard_ops dns_new_def)
  have "ks_policy ?server ''tun0'' ?p = Reject" by (simp add: ks_policy_def to_server_def)
  then have "evaluate_packet (gs_ops ?s) ?p = Reject"
    using guards_fail_closed [OF reach, of ?p] act by simp
  then show ?thesis using reach act by blast
qed

end
