(* ===== verification/Tunnel_State.thy ===== *)
theory Tunnel_State
  imports Adaptive_Fec Obfuscation Carrier_Stream Negotiation Net_Addr "HOL-Library.AList"
begin

text \<open>
  The state of one tunnel (\<open>src/src/tunnel/mod.rs\<close>): the constants, the loss windows, the receive
  side of an FEC group, the sent-packet records, the counters and the struct \<open>Tunnel\<close>, with the
  dispatch of the congestion-control trait object. The outside world is explicit: what was put on
  the wire, what was written to the TUN device and which address changes were signalled are lists
  in the state, and a record of the environment says which send calls fail, what the AEAD
  computes and what the clocks read. A Rust panic is a value. One handler reads the clock once.
\<close>

subsection \<open>Constants\<close>

definition secs :: "nat \<Rightarrow> nat" where "secs n = n * 1000000000"

definition RX_GROUP_TTL :: nat where "RX_GROUP_TTL = secs 5"
definition ACK_EVERY :: u32 where "ACK_EVERY = 4"
definition MAX_OUTSTANDING_CONTROL :: nat where "MAX_OUTSTANDING_CONTROL = 64"
definition MAX_RTT_SAMPLE :: nat where "MAX_RTT_SAMPLE = secs 10"
definition MIN_SENT_PACKET_LIFETIME :: nat where "MIN_SENT_PACKET_LIFETIME = ms 500"
definition LOSS_SAMPLE_PACKETS :: nat where "LOSS_SAMPLE_PACKETS = 64"
definition LOSS_SAMPLE_SOURCES :: nat where "LOSS_SAMPLE_SOURCES = 64"
definition KEEPALIVE_INTERVAL :: nat where "KEEPALIVE_INTERVAL = secs 20"
definition SESSION_TIMEOUT :: nat where "SESSION_TIMEOUT = secs 75"

datatype TunnelExit = Stopped | PeerClosed | SessionTimeout | UdpClosed | TunError

datatype tunnel_panic = IndexOutOfBounds | HeaderNotEncodable

subsection \<open>Loss windows\<close>

record LossWindow =
  lw_total :: nat
  lw_lost :: nat

definition lw_default :: LossWindow where "lw_default = \<lparr>lw_total = 0, lw_lost = 0\<rparr>"

definition lw_record :: "bool \<Rightarrow> nat \<Rightarrow> LossWindow \<Rightarrow> (nat \<times> nat) option \<times> LossWindow" where
  "lw_record lost sample_size w =
     (let w = w\<lparr>lw_total := sat_add64 (lw_total w) 1\<rparr>;
          w = (if lost then w\<lparr>lw_lost := sat_add64 (lw_lost w) 1\<rparr> else w)
      in if lw_total w \<ge> sample_size then (Some (lw_lost w, lw_total w), lw_default) else (None, w))"

subsection \<open>Receive groups\<close>

record RxGroup =
  rg_symbols :: "bytes option list"
  rg_k :: u8
  rg_m :: u8
  rg_delivered :: "bool list"
  rg_decoded :: bool
  rg_deadline :: nat

definition rx_group_new :: "nat \<Rightarrow> u8 \<Rightarrow> u8 \<Rightarrow> RxGroup" where
  "rx_group_new now k m =
     \<lparr>rg_symbols = replicate (unat k + unat m) None, rg_k = k, rg_m = m,
      rg_delivered = replicate (unat k) False, rg_decoded = False, rg_deadline = now + RX_GROUP_TTL\<rparr>"

subsection \<open>The congestion-control object\<close>

datatype cc_obj = RenoCC CongestionController | NoneCC

definition NO_CC_RTO :: nat where "NO_CC_RTO = ms 1000"

fun cc_build :: "CongestionKind \<Rightarrow> cc_obj" where
  "cc_build TcpReno = RenoCC cc_new"
| "cc_build NoneCongestion = NoneCC"

fun obj_set_mtu :: "nat \<Rightarrow> cc_obj \<Rightarrow> cc_obj" where
  "obj_set_mtu mtu (RenoCC c) = RenoCC (set_mtu mtu c)"
| "obj_set_mtu mtu NoneCC = NoneCC"

fun obj_send_budget :: "cc_obj \<Rightarrow> nat" where
  "obj_send_budget (RenoCC c) = send_budget c"
| "obj_send_budget NoneCC = none_send_budget NoCongestionControl"

fun obj_may_send :: "nat \<Rightarrow> nat \<Rightarrow> cc_obj \<Rightarrow> cc_obj \<times> bool" where
  "obj_may_send now len (RenoCC c) = (let (c, ok) = may_send now len c in (RenoCC c, ok))"
| "obj_may_send now len NoneCC = (NoneCC, snd (none_may_send now len NoCongestionControl))"

fun obj_next_send_deadline :: "nat \<Rightarrow> cc_obj \<Rightarrow> nat option" where
  "obj_next_send_deadline now (RenoCC c) = next_send_deadline now c"
| "obj_next_send_deadline now NoneCC = None"

fun obj_on_send_bytes :: "nat \<Rightarrow> cc_obj \<Rightarrow> cc_obj" where
  "obj_on_send_bytes len (RenoCC c) = RenoCC (on_send_bytes len c)"
| "obj_on_send_bytes len NoneCC = NoneCC"

fun obj_refund :: "nat \<Rightarrow> cc_obj \<Rightarrow> cc_obj" where
  "obj_refund n (RenoCC c) = RenoCC (refund_send_bytes n c)"
| "obj_refund n NoneCC = NoneCC"

fun obj_try_send_parity :: "nat \<Rightarrow> nat \<Rightarrow> cc_obj \<Rightarrow> cc_obj \<times> bool" where
  "obj_try_send_parity now len (RenoCC c) = (let (c, ok) = try_send_parity now len c in (RenoCC c, ok))"
| "obj_try_send_parity now len NoneCC = (NoneCC, snd (none_try_send_parity now len NoCongestionControl))"

fun obj_release :: "nat \<Rightarrow> cc_obj \<Rightarrow> cc_obj" where
  "obj_release n (RenoCC c) = RenoCC (release n c)"
| "obj_release n NoneCC = NoneCC"

fun obj_on_ack :: "nat \<Rightarrow> nat option \<Rightarrow> cc_obj \<Rightarrow> cc_obj" where
  "obj_on_ack n (Some rtt) (RenoCC c) = RenoCC (on_ack_with_rtt n rtt c)"
| "obj_on_ack n None (RenoCC c) = RenoCC (on_ack_bytes n c)"
| "obj_on_ack n rtt NoneCC = NoneCC"

fun obj_on_loss :: "nat \<Rightarrow> nat \<Rightarrow> cc_obj \<Rightarrow> cc_obj" where
  "obj_on_loss lost tot (RenoCC c) = RenoCC (on_loss lost tot c)"
| "obj_on_loss lost tot NoneCC = NoneCC"

fun obj_on_rtt_sample :: "nat \<Rightarrow> cc_obj \<Rightarrow> cc_obj" where
  "obj_on_rtt_sample rtt (RenoCC c) = RenoCC (on_rtt_sample rtt c)"
| "obj_on_rtt_sample rtt NoneCC = NoneCC"

text \<open>The fields of \<open>snapshot\<close> the tunnel reads; no pacing rate stands for infinity.\<close>

fun obj_rto :: "cc_obj \<Rightarrow> nat" where
  "obj_rto (RenoCC c) = cc_rto c"
| "obj_rto NoneCC = NO_CC_RTO"

fun obj_cwnd :: "cc_obj \<Rightarrow> nat" where
  "obj_cwnd (RenoCC c) = cc_cwnd c"
| "obj_cwnd NoneCC = U64_MAX"

fun obj_in_flight :: "cc_obj \<Rightarrow> nat" where
  "obj_in_flight (RenoCC c) = cc_in_flight c"
| "obj_in_flight NoneCC = 0"

fun obj_pacing_rate :: "cc_obj \<Rightarrow> f64 option" where
  "obj_pacing_rate (RenoCC c) = Some (cc_pacing_rate c)"
| "obj_pacing_rate NoneCC = None"

subsection \<open>Sent packets, counters, the tunnel\<close>

record Outstanding =
  ou_seq :: u32
  ou_ptype :: packet_type
  ou_payload :: bytes
  ou_last_sent :: nat

datatype SentPacketKind = SentData | SentParity

record SentPacket =
  sp_bytes :: nat
  sp_sent_at :: nat
  sp_kind :: SentPacketKind

text \<open>The counters the tunnel changes. A plain \<open>+=\<close> on a \<open>u64\<close> is the sum: these counters do not
  reach \<open>2 ^ 64\<close>.\<close>

record Counters =
  c_connected :: bool
  c_tx_packets :: nat
  c_rx_packets :: nat
  c_tx_bytes :: nat
  c_rx_bytes :: nat
  c_fec_recovered :: nat
  c_tx_dropped_congestion :: nat
  c_tx_dropped_mtu :: nat
  c_tx_paced :: nat
  c_rtt_samples :: nat
  c_sessions_timed_out :: nat
  c_sessions_peer_closed :: nat
  c_sessions_evicted :: nat
  c_fec_k :: u8
  c_fec_m :: u8
  c_loss_rate :: f64
  c_rtt_ms :: f64
  c_congestion_window :: f64
  c_in_flight :: nat
  c_pacing_rate :: "f64 option"

record Tunnel =
  t_carrier :: carrier_kind
  t_peer :: SocketAddr
  t_session :: session
  t_profile :: ResolvedProfile
  t_cc :: cc_obj
  t_obf :: ObfuscationStack
  t_send_key :: bytes
  t_recv_key :: bytes
  t_send_dir :: direction
  t_recv_dir :: direction
  t_fec :: AdaptiveFec
  t_fec_params :: FecParams
  t_group_id :: u16
  t_group_index :: u8
  t_group_buffer :: "bytes list"
  t_outstanding :: "Outstanding list"
  t_ping_seq :: u32
  t_last_ping_sent :: "nat option"
  t_last_peer_activity :: nat
  t_keepalive_interval :: nat
  t_session_timeout :: nat
  t_rx_groups :: "u16 \<rightharpoonup> RxGroup"
  t_last_peer_ack :: u32
  t_last_peer_bitmap :: u32
  t_rx_since_ack :: u32
  t_sent_packets :: "(u32 \<times> SentPacket) list"
  t_wire_loss :: LossWindow
  t_source_loss :: LossWindow
  t_pending_out :: "bytes option"
  t_pending_deadline :: "nat option"
  t_closing :: bool
  t_counters :: Counters
  t_addr_change :: bool
  t_evict :: bool
  t_wire :: "(bytes \<times> SocketAddr) list"
  t_tun_out :: "bytes list"
  t_addr_events :: "(session_id \<times> SocketAddr) list"
  t_sends :: nat
  t_tun_sends :: nat

record tunnel_env =
  e_enc :: aead_fun
  e_dec :: aead_fun
  e_now :: nat
  e_wall :: u64
  e_send_ok :: "nat \<Rightarrow> bool"
  e_tun_ok :: "nat \<Rightarrow> bool"

type_synonym 'a tres = "tunnel_panic + 'a \<times> Tunnel"

definition counters_default :: Counters where
  "counters_default = \<lparr>c_connected = False, c_tx_packets = 0, c_rx_packets = 0, c_tx_bytes = 0, c_rx_bytes = 0,
     c_fec_recovered = 0, c_tx_dropped_congestion = 0, c_tx_dropped_mtu = 0, c_tx_paced = 0, c_rtt_samples = 0,
     c_sessions_timed_out = 0, c_sessions_peer_closed = 0, c_sessions_evicted = 0, c_fec_k = 0, c_fec_m = 0,
     c_loss_rate = 0, c_rtt_ms = 0, c_congestion_window = 0, c_in_flight = 0, c_pacing_rate = Some 0\<rparr>"

definition from_handshake ::
  "nat \<Rightarrow> carrier_kind \<Rightarrow> SocketAddr \<Rightarrow> session \<Rightarrow> ResolvedProfile \<Rightarrow> ObfuscationStack \<Rightarrow> bytes \<Rightarrow> bytes
   \<Rightarrow> direction \<Rightarrow> direction \<Rightarrow> Counters \<Rightarrow> Tunnel" where
  "from_handshake now carrier peer sess profile obf send_key recv_key send_dir recv_dir counters =
     \<lparr>t_carrier = carrier, t_peer = peer, t_session = sess, t_profile = profile,
      t_cc = cc_build (rp_congestion profile), t_obf = obf, t_send_key = send_key, t_recv_key = recv_key,
      t_send_dir = send_dir, t_recv_dir = recv_dir, t_fec = default_for_vpn,
      t_fec_params = fec_params default_for_vpn, t_group_id = 0, t_group_index = 0, t_group_buffer = [],
      t_outstanding = [], t_ping_seq = 0, t_last_ping_sent = None, t_last_peer_activity = now,
      t_keepalive_interval = KEEPALIVE_INTERVAL, t_session_timeout = SESSION_TIMEOUT, t_rx_groups = Map.empty, t_last_peer_ack = 0,
      t_last_peer_bitmap = 0, t_rx_since_ack = 0, t_sent_packets = [], t_wire_loss = lw_default,
      t_source_loss = lw_default, t_pending_out = None, t_pending_deadline = None, t_closing = False,
      t_counters = counters, t_addr_change = False, t_evict = False, t_wire = [], t_tun_out = [], t_addr_events = [],
      t_sends = 0, t_tun_sends = 0\<rparr>"

definition set_keepalive_params :: "nat \<Rightarrow> nat \<Rightarrow> Tunnel \<Rightarrow> Tunnel" where
  "set_keepalive_params interval timeout t = t\<lparr>t_keepalive_interval := interval, t_session_timeout := timeout\<rparr>"

definition set_addr_change_tx :: "Tunnel \<Rightarrow> Tunnel" where
  "set_addr_change_tx t = t\<lparr>t_addr_change := True\<rparr>"

definition set_evict_rx :: "Tunnel \<Rightarrow> Tunnel" where
  "set_evict_rx t = t\<lparr>t_evict := True\<rparr>"

record FecConfig =
  fc_scheme :: "string list"
  fc_k :: u8
  fc_min_m :: u8
  fc_max_m :: u8
  fc_initial_m :: u8

definition configure_fec :: "FecConfig \<Rightarrow> Tunnel \<Rightarrow> Tunnel" where
  "configure_fec cfg t =
     (let active = fs_active (rp_fec (t_profile t));
          min_m = (if active then fc_min_m cfg else 0);
          max_m = (if active then fc_max_m cfg else 0);
          initial_m = (if active then fc_initial_m cfg else 0);
          fec = with_params (fc_k cfg) min_m max_m initial_m (25 / 100);
          t = t\<lparr>t_fec := fec, t_fec_params := fec_params fec\<rparr>
      in if \<not> active then t\<lparr>t_fec_params := (t_fec_params t)\<lparr>fp_m := 0\<rparr>\<rparr>
         else if fp_k (t_fec_params t) = 0 \<or> unat (fp_k (t_fec_params t)) + unat (fp_m (t_fec_params t)) > 255
         then t\<lparr>t_fec := default_for_vpn, t_fec_params := fec_params default_for_vpn\<rparr>
         else t)"

subsection \<open>The two seams to the outside\<close>

definition wrap_frame :: "tunnel_env \<Rightarrow> bytes \<Rightarrow> Tunnel \<Rightarrow> bytes \<times> Tunnel" where
  "wrap_frame e frame t =
     (if os_active (t_obf t)
      then let (st, obf) = stack_apply (e_now e) (t_obf t) frame
           in (wrap (rp_transport (t_profile t)) obf, t\<lparr>t_obf := st\<rparr>)
      else (wrap (rp_transport (t_profile t)) frame, t))"

datatype frame_drop = BadEnvelope | BadObfuscation | BadHeader frame_error

definition unwrap_frame :: "bytes \<Rightarrow> Tunnel \<Rightarrow> frame_drop + bytes" where
  "unwrap_frame datagram t =
     try_bind (map_err (\<lambda>_. BadEnvelope) (unwrap (rp_transport (t_profile t)) datagram)) (\<lambda>inner.
       if os_active (t_obf t) then map_err (\<lambda>_. BadObfuscation) (stack_reverse (t_obf t) inner) else Inr inner)"

definition carrier_send :: "tunnel_env \<Rightarrow> bytes \<Rightarrow> Tunnel \<Rightarrow> bool \<times> Tunnel" where
  "carrier_send e wire t =
     (let ok = e_send_ok e (t_sends t); t = t\<lparr>t_sends := t_sends t + 1\<rparr>
      in (ok, if ok then t\<lparr>t_wire := t_wire t @ [(wire, t_peer t)]\<rparr> else t))"

definition tun_send :: "tunnel_env \<Rightarrow> bytes \<Rightarrow> Tunnel \<Rightarrow> bool \<times> Tunnel" where
  "tun_send e p t =
     (let ok = e_tun_ok e (t_tun_sends t); t = t\<lparr>t_tun_sends := t_tun_sends t + 1\<rparr>
      in (ok, if ok then t\<lparr>t_tun_out := t_tun_out t @ [p]\<rparr> else t))"

definition tally :: "(Counters \<Rightarrow> Counters) \<Rightarrow> Tunnel \<Rightarrow> Tunnel" where
  "tally f t = t\<lparr>t_counters := f (t_counters t)\<rparr>"

end
