(* ===== verification/Tunnel_Send.thy ===== *)
theory Tunnel_Send
  imports Tunnel_State
begin

text \<open>
  The send paths of \<open>src/src/tunnel/mod.rs\<close>: data packets with the congestion gate and the FEC
  group they feed, parity, best-effort and reliable control packets, acknowledgement
  reconciliation and retransmission. Each handler maps the state to a result and a new state, or
  to a panic. The map of sent packets is a list in the order of sending; the iteration order of
  the hash map of the source is unspecified and matters only for packets sent at the same instant.
\<close>

subsection \<open>Sealing a frame\<close>

definition stamped_header :: "packet_type \<Rightarrow> u32 \<Rightarrow> Tunnel \<Rightarrow> packet_header" where
  "stamped_header ptype n t =
     (let (ack_seq, ack_bitmap) = ack_snapshot (t_session t)
      in (new_header ptype (ss_id (t_session t)) n)\<lparr>hdr_ack_seq := ack_seq, hdr_ack_bitmap := ack_bitmap\<rparr>)"

definition seal_frame :: "tunnel_env \<Rightarrow> packet_header \<Rightarrow> bytes \<Rightarrow> Tunnel \<Rightarrow> tunnel_panic + (CryptoError + bytes)" where
  "seal_frame e hdr payload t =
     (let nonce = make_nonce (ss_id (t_session t)) (hdr_seq hdr) (t_send_dir t); codec = rp_codec (t_profile t)
      in try_bind (map_err (\<lambda>_. HeaderNotEncodable) (encode_header codec hdr)) (\<lambda>aad.
         case seal (e_enc e) (t_send_key t) nonce aad payload of
           Inl err \<Rightarrow> Inr (Inl err)
         | Inr ct \<Rightarrow> try_bind (map_err (\<lambda>_. HeaderNotEncodable) (encode_frame codec hdr ct)) (\<lambda>frame. Inr (Inr frame))))"

definition next_seq :: "Tunnel \<Rightarrow> u32 \<times> Tunnel" where
  "next_seq t = (let (n, ss) = alloc_seq (t_session t) in (n, t\<lparr>t_session := ss\<rparr>))"

subsection \<open>Control packets\<close>

definition send_packet :: "tunnel_env \<Rightarrow> packet_type \<Rightarrow> bytes \<Rightarrow> Tunnel \<Rightarrow> unit tres" where
  "send_packet e ptype payload t =
     (let (n, t) = next_seq t; hdr = stamped_header ptype n t
      in try_bind (seal_frame e hdr payload t) (\<lambda>r.
         case r of
           Inl _ \<Rightarrow> Inr ((), t)
         | Inr frame \<Rightarrow>
             let (wire, t) = wrap_frame e frame t; (_, t) = carrier_send e wire t in Inr ((), t)))"

datatype control_error = ControlEncrypt | ControlSend

definition send_control :: "tunnel_env \<Rightarrow> packet_type \<Rightarrow> bytes \<Rightarrow> Tunnel \<Rightarrow> (control_error + unit) tres" where
  "send_control e ptype payload t =
     (let (n, t) = next_seq t; hdr = stamped_header ptype n t
      in try_bind (seal_frame e hdr payload t) (\<lambda>r.
         case r of
           Inl _ \<Rightarrow> Inr (Inl ControlEncrypt, t)
         | Inr frame \<Rightarrow>
             let (wire, t) = wrap_frame e frame t; (ok, t) = carrier_send e wire t
             in if \<not> ok then Inr (Inl ControlSend, t)
                else Inr (Inr (), if length (t_outstanding t) < MAX_OUTSTANDING_CONTROL
                  then t\<lparr>t_outstanding := t_outstanding t @ [\<lparr>ou_seq = n, ou_ptype = ptype,
                    ou_payload = wire, ou_last_sent = e_now e\<rparr>]\<rparr>
                  else t)))"

definition send_keepalive :: "tunnel_env \<Rightarrow> Tunnel \<Rightarrow> unit tres" where
  "send_keepalive e t = send_packet e Keepalive (to_le_bytes64 (e_wall e)) t"

definition maybe_send_keepalive :: "tunnel_env \<Rightarrow> Tunnel \<Rightarrow> unit tres" where
  "maybe_send_keepalive e t = send_keepalive e t"

definition send_ping :: "tunnel_env \<Rightarrow> Tunnel \<Rightarrow> unit tres" where
  "send_ping e t =
     (let t = t\<lparr>t_ping_seq := t_ping_seq t + 1\<rparr>;
          payload = to_le_bytes32 (t_ping_seq t) @ to_le_bytes64 (e_wall e);
          t = t\<lparr>t_last_ping_sent := Some (e_now e)\<rparr>
      in send_packet e Ping payload t)"

definition flush_coalesced_ack :: "tunnel_env \<Rightarrow> Tunnel \<Rightarrow> unit tres" where
  "flush_coalesced_ack e t =
     (if t_rx_since_ack t > 0 then send_packet e Ack [] (t\<lparr>t_rx_since_ack := 0\<rparr>) else Inr ((), t))"

subsection \<open>Data and parity\<close>

text \<open>The part that data and parity packets share after they are sealed: the envelope, the path
  MTU guard, the send and its record; \<open>len\<close> bytes were charged and go back on failure.\<close>

definition transmit :: "tunnel_env \<Rightarrow> u32 \<Rightarrow> nat \<Rightarrow> SentPacketKind \<Rightarrow> bytes \<Rightarrow> Tunnel \<Rightarrow> bool \<times> Tunnel" where
  "transmit e n len kind frame t =
     (let (wire, t) = wrap_frame e frame t
      in if length wire + OUTER_OVERHEAD > PATH_MTU
         then (False, tally (\<lambda>c. c\<lparr>c_tx_dropped_mtu := sat_add64 (c_tx_dropped_mtu c) 1\<rparr>)
                 (t\<lparr>t_cc := obj_refund len (t_cc t)\<rparr>))
         else let (ok, t) = carrier_send e wire t
              in if \<not> ok then (False, t\<lparr>t_cc := obj_refund len (t_cc t)\<rparr>)
                 else (True, t\<lparr>t_sent_packets := AList.update n \<lparr>sp_bytes = len, sp_sent_at = e_now e, sp_kind = kind\<rparr>
                   (t_sent_packets t)\<rparr>))"

definition send_parity :: "tunnel_env \<Rightarrow> u16 \<Rightarrow> nat \<Rightarrow> nat \<Rightarrow> bytes \<Rightarrow> Tunnel \<Rightarrow> unit tres" where
  "send_parity e gid k i parity t =
     (let plen = max (length parity) 1; (cc, ok) = obj_try_send_parity (e_now e) plen (t_cc t); t = t\<lparr>t_cc := cc\<rparr>
      in if \<not> ok
         then Inr ((), tally (\<lambda>c. c\<lparr>c_tx_dropped_congestion := sat_add64 (c_tx_dropped_congestion c) 1\<rparr>) t)
         else let (n, t) = next_seq t;
                  hdr = (stamped_header Fec n t)\<lparr>hdr_fec_group := gid, hdr_fec_index := of_nat k + of_nat i,
                    hdr_fec_k := fp_k (t_fec_params t), hdr_fec_m := fp_m (t_fec_params t)\<rparr>
              in try_bind (seal_frame e hdr parity t) (\<lambda>r.
                 case r of
                   Inl _ \<Rightarrow> Inr ((), t\<lparr>t_cc := obj_refund plen (t_cc t)\<rparr>)
                 | Inr frame \<Rightarrow>
                     let (ok, t) = transmit e n plen SentParity frame t
                     in if ok then Inr ((), tally (\<lambda>c. c\<lparr>c_tx_packets := c_tx_packets c + 1,
                          c_tx_bytes := c_tx_bytes c + length parity\<rparr>) t)
                        else Inr ((), t)))"

fun send_parities :: "tunnel_env \<Rightarrow> u16 \<Rightarrow> nat \<Rightarrow> nat \<Rightarrow> bytes list \<Rightarrow> Tunnel \<Rightarrow> unit tres" where
  "send_parities e gid k i [] t = Inr ((), t)"
| "send_parities e gid k i (p # ps) t =
     try_bind (send_parity e gid k i p t) (\<lambda>(_, t). send_parities e gid k (i + 1) ps t)"

definition pad_to :: "nat \<Rightarrow> bytes \<Rightarrow> bytes" where
  "pad_to len s = take len s @ replicate (len - length s) 0"

definition flush_fec_group :: "tunnel_env \<Rightarrow> Tunnel \<Rightarrow> unit tres" where
  "flush_fec_group e t =
     (if t_group_buffer t = [] then Inr ((), t)
      else let k = unat (fp_k (t_fec_params t)); m = unat (fp_m (t_fec_params t));
               real_n = length (t_group_buffer t);
               len = Max (length ` set (t_group_buffer t));
               sources = map (pad_to len) (t_group_buffer t);
               gid = t_group_id t;
               t = t\<lparr>t_group_buffer := [], t_group_index := 0, t_group_id := t_group_id t + 1\<rparr>
           in if m = 0 \<or> real_n < k then Inr ((), t)
              else let sources = sources @ replicate (k - length sources) (replicate len 0)
                   in case fs_encode (rp_fec (t_profile t)) k m sources of
                        Inl _ \<Rightarrow> Inr ((), t)
                      | Inr parities \<Rightarrow> send_parities e gid k 0 parities t)"

definition flush_fec_group_if_stale :: "tunnel_env \<Rightarrow> Tunnel \<Rightarrow> unit tres" where
  "flush_fec_group_if_stale e t = (if t_group_buffer t \<noteq> [] then flush_fec_group e t else Inr ((), t))"

definition data_header :: "u32 \<Rightarrow> Tunnel \<Rightarrow> packet_header" where
  "data_header n t = (stamped_header Data n t)\<lparr>hdr_fec_group := t_group_id t, hdr_fec_index := t_group_index t,
     hdr_fec_k := fp_k (t_fec_params t), hdr_fec_m := fp_m (t_fec_params t)\<rparr>"

text \<open>\<open>handle_tun_packet\<close> in three parts: the gates, the packet once its bytes are charged, and the
  FEC group once it is on the wire.\<close>

definition join_group :: "tunnel_env \<Rightarrow> bytes \<Rightarrow> u8 \<Rightarrow> Tunnel \<Rightarrow> bool tres" where
  "join_group e packet k t =
     (let t = tally (\<lambda>c. c\<lparr>c_tx_packets := c_tx_packets c + 1, c_tx_bytes := c_tx_bytes c + length packet\<rparr>) t;
          t = t\<lparr>t_group_buffer := t_group_buffer t @ [packet], t_group_index := t_group_index t + 1\<rparr>
      in if t_group_index t \<ge> k
         then try_bind (flush_fec_group e t) (\<lambda>(_, t). Inr (True, t))
         else Inr (True, t))"

definition send_data :: "tunnel_env \<Rightarrow> bytes \<Rightarrow> nat \<Rightarrow> Tunnel \<Rightarrow> bool tres" where
  "send_data e packet len t =
     (let (n, t) = next_seq t; k = fp_k (t_fec_params t)
      in try_bind (seal_frame e (data_header n t) packet t) (\<lambda>r.
         case r of
           Inl _ \<Rightarrow> Inr (False, t\<lparr>t_cc := obj_refund len (t_cc t)\<rparr>)
         | Inr frame \<Rightarrow>
             let (ok, t) = transmit e n len SentData frame t
             in if \<not> ok then Inr (False, t) else join_group e packet k t))"

definition handle_tun_packet :: "tunnel_env \<Rightarrow> bytes \<Rightarrow> Tunnel \<Rightarrow> bool tres" where
  "handle_tun_packet e packet t =
     (if length packet > MAX_PAYLOAD
      then Inr (False, tally (\<lambda>c. c\<lparr>c_tx_dropped_mtu := sat_add64 (c_tx_dropped_mtu c) 1\<rparr>) t)
      else let len = max (length packet) 1
      in if obj_send_budget (t_cc t) < len
         then Inr (False, tally (\<lambda>c. c\<lparr>c_tx_dropped_congestion := sat_add64 (c_tx_dropped_congestion c) 1\<rparr>) t)
         else let (cc, ok) = obj_may_send (e_now e) len (t_cc t); t = t\<lparr>t_cc := cc\<rparr>
         in if \<not> ok
            then Inr (False, tally (\<lambda>c. c\<lparr>c_tx_paced := sat_add64 (c_tx_paced c) 1\<rparr>) t)
            else send_data e packet len (t\<lparr>t_cc := obj_on_send_bytes len (t_cc t)\<rparr>))"

definition park_if_paced :: "tunnel_env \<Rightarrow> bytes \<Rightarrow> Tunnel \<Rightarrow> Tunnel" where
  "park_if_paced e packet t = (case obj_next_send_deadline (e_now e) (t_cc t) of
       Some deadline \<Rightarrow> t\<lparr>t_pending_out := Some packet, t_pending_deadline := Some deadline\<rparr>
     | None \<Rightarrow> t)"

definition retry_pending :: "tunnel_env \<Rightarrow> Tunnel \<Rightarrow> unit tres" where
  "retry_pending e t = (case t_pending_out t of
       None \<Rightarrow> Inr ((), t\<lparr>t_pending_deadline := None\<rparr>)
     | Some packet \<Rightarrow>
         try_bind (handle_tun_packet e packet (t\<lparr>t_pending_out := None\<rparr>)) (\<lambda>(sent, t).
           if sent then Inr ((), t\<lparr>t_pending_deadline := None\<rparr>)
           else Inr ((), park_if_paced e packet (t\<lparr>t_pending_deadline := None\<rparr>))))"

subsection \<open>Acknowledgements\<close>

definition apply_fec_params :: "Tunnel \<Rightarrow> Tunnel" where
  "apply_fec_params t =
     (let params = fec_params (t_fec t)
      in if params \<noteq> t_fec_params t then t\<lparr>t_fec_params := params\<rparr> else t)"

text \<open>The verdict of the first loop of \<open>reconcile_peer_acks\<close> for one sent packet: acknowledged,
  lost, or still open.\<close>

definition resolve :: "tunnel_env \<Rightarrow> Tunnel \<Rightarrow> u32 \<Rightarrow> SentPacket \<Rightarrow> bool option" where
  "resolve e t n sent =
     (if peer_acked (t_session t) n then Some True
      else let back = ss_peer_ack (t_session t) - n;
               outside_window = (back > 32 \<and> back \<le> U32_HALF);
               expiry = max (obj_rto (t_cc t)) MIN_SENT_PACKET_LIFETIME
           in if outside_window \<or> e_now e - sp_sent_at sent \<ge> expiry then Some False else None)"

definition resolved_packets :: "tunnel_env \<Rightarrow> Tunnel \<Rightarrow> (u32 \<times> bool \<times> SentPacket) list" where
  "resolved_packets e t =
     List.map_filter (\<lambda>(n, sent). map_option (\<lambda>acked. (n, acked, sent)) (resolve e t n sent)) (t_sent_packets t)"

definition outcome_bytes :: "bool \<Rightarrow> (u32 \<times> bool \<times> SentPacket) list \<Rightarrow> nat" where
  "outcome_bytes which rs =
     foldl (\<lambda>b (_, acked, sent). if acked = which then sat_add64 b (sp_bytes sent) else b) 0 rs"

definition oldest_acked :: "(u32 \<times> bool \<times> SentPacket) list \<Rightarrow> nat option" where
  "oldest_acked rs =
     foldl (\<lambda>o' (_, acked, sent). if acked
       then Some (case o' of None \<Rightarrow> sp_sent_at sent | Some t0 \<Rightarrow> min t0 (sp_sent_at sent)) else o') None rs"

definition record_outcome :: "bool \<times> SentPacket \<Rightarrow> Tunnel \<Rightarrow> Tunnel" where
  "record_outcome = (\<lambda>(acked, sent) t.
     (let lost = (\<not> acked);
          (sample, w) = lw_record lost LOSS_SAMPLE_PACKETS (t_wire_loss t);
          t = t\<lparr>t_wire_loss := w\<rparr>;
          t = (case sample of None \<Rightarrow> t | Some (l, tot) \<Rightarrow> t\<lparr>t_cc := obj_on_loss l tot (t_cc t)\<rparr>)
      in if sp_kind sent = SentData
         then let (sample, w) = lw_record lost LOSS_SAMPLE_SOURCES (t_source_loss t);
                  t = t\<lparr>t_source_loss := w\<rparr>
              in case sample of
                   None \<Rightarrow> t
                 | Some (l, tot) \<Rightarrow>
                     apply_fec_params (t\<lparr>t_fec := fst (observe_unrecoverable (t_fec t) (of_nat l) (of_nat tot))\<rparr>)
         else t))"

definition reconcile_peer_acks :: "tunnel_env \<Rightarrow> Tunnel \<Rightarrow> bool \<times> Tunnel" where
  "reconcile_peer_acks e t =
     (let rs = resolved_packets e t;
          acked_bytes = outcome_bytes True rs;
          lost_bytes = outcome_bytes False rs;
          oldest = oldest_acked rs;
          resolved = sort_key (\<lambda>(_, _, sent). sp_sent_at sent) rs;
          t = t\<lparr>t_sent_packets := filter (\<lambda>(n, _). n \<notin> fst ` set resolved) (t_sent_packets t)\<rparr>;
          rtt = (case oldest of None \<Rightarrow> None
             | Some t0 \<Rightarrow> let r = e_now e - t0 in if r \<noteq> 0 \<and> r \<le> MAX_RTT_SAMPLE then Some r else None);
          sampled = (acked_bytes > 0 \<and> rtt \<noteq> None);
          t = (if acked_bytes > 0 then t\<lparr>t_cc := obj_on_ack acked_bytes rtt (t_cc t)\<rparr> else t);
          t = (if lost_bytes > 0 then t\<lparr>t_cc := obj_release lost_bytes (t_cc t)\<rparr> else t)
      in (sampled, fold (\<lambda>(_, acked, sent) t. record_outcome (acked, sent) t) resolved t))"

text \<open>The resend loop of \<open>check_retransmits\<close>; the due packets are determined before the first
  resend.\<close>

fun resend_due :: "tunnel_env \<Rightarrow> nat \<Rightarrow> Outstanding list \<Rightarrow> Tunnel \<Rightarrow> Outstanding list \<times> Tunnel" where
  "resend_due e rto [] t = ([], t)"
| "resend_due e rto (o' # os) t =
     (if e_now e - ou_last_sent o' \<ge> rto
      then let (_, t) = carrier_send e (ou_payload o') t; (os, t) = resend_due e rto os t
           in (o'\<lparr>ou_last_sent := e_now e\<rparr> # os, t)
      else let (os, t) = resend_due e rto os t in (o' # os, t))"

definition check_retransmits :: "tunnel_env \<Rightarrow> Tunnel \<Rightarrow> Tunnel" where
  "check_retransmits e t =
     (let (_, t) = reconcile_peer_acks e t;
          (os, t) = resend_due e (obj_rto (t_cc t)) (t_outstanding t) t
      in t\<lparr>t_outstanding := filter (\<lambda>o'. \<not> peer_acked (t_session t) (ou_seq o')) os\<rparr>)"

end
