(* ===== verification/Tunnel_Recv.thy ===== *)
theory Tunnel_Recv
  imports Tunnel_Send
begin

text \<open>
  The receive path of \<open>src/src/tunnel/mod.rs\<close> and the event loop \<open>Tunnel::run\<close>: one datagram from
  unwrapping to delivery, the assembly and recovery of FEC groups, the replies, and one step of
  the loop for each branch of its \<open>select!\<close>. A branch that ends the loop returns the reason.
\<close>

subsection \<open>FEC groups\<close>

definition is_source_delivered :: "u16 \<Rightarrow> u8 \<Rightarrow> Tunnel \<Rightarrow> bool tres" where
  "is_source_delivered g i t = (case t_rx_groups t g of
       None \<Rightarrow> Inr (False, t)
     | Some entry \<Rightarrow>
         if unat i \<ge> unat (rg_k entry) then Inr (False, t)
         else if unat i < length (rg_delivered entry) then Inr (rg_delivered entry ! unat i, t)
         else Inl IndexOutOfBounds)"

text \<open>The loop of \<open>recover_group\<close> over the decoded sources: those not delivered before are written
  to the device; the result counts the successful writes.\<close>

fun write_recovered :: "tunnel_env \<Rightarrow> bool list \<Rightarrow> nat \<Rightarrow> bytes list \<Rightarrow> Tunnel \<Rightarrow> nat \<times> Tunnel" where
  "write_recovered e pre i [] t = (0, t)"
| "write_recovered e pre i (s # ss) t =
     (if i < length pre \<and> \<not> pre ! i
      then let (ok, t) = tun_send e s t; (n, t) = write_recovered e pre (i + 1) ss t
           in (if ok then n + 1 else n, t)
      else write_recovered e pre (i + 1) ss t)"

definition recover_group :: "tunnel_env \<Rightarrow> u16 \<Rightarrow> Tunnel \<Rightarrow> unit tres" where
  "recover_group e g t = (case t_rx_groups t g of
       None \<Rightarrow> Inr ((), t)
     | Some entry \<Rightarrow>
         if rg_decoded entry then Inr ((), t)
         else (case fs_decode (rp_fec (t_profile t)) (unat (rg_k entry)) (unat (rg_m entry)) (rg_symbols entry) of
             Inl _ \<Rightarrow> Inr ((), t)
           | Inr recovered \<Rightarrow>
               if length (rg_delivered entry) < unat (rg_k entry) then Inl IndexOutOfBounds
               else let pre = rg_delivered entry;
                        entry = entry\<lparr>rg_decoded := True,
                          rg_delivered := replicate (unat (rg_k entry)) True @ drop (unat (rg_k entry)) pre\<rparr>;
                        t = t\<lparr>t_rx_groups := (t_rx_groups t)(g \<mapsto> entry)\<rparr>;
                        (n, t) = write_recovered e pre 0 recovered t
                    in Inr ((), if n > 0 then tally (\<lambda>c. c\<lparr>c_fec_recovered := c_fec_recovered c + n\<rparr>) t else t)))"

definition record_rx_symbol :: "tunnel_env \<Rightarrow> u16 \<Rightarrow> u8 \<Rightarrow> u8 \<Rightarrow> u8 \<Rightarrow> bytes \<Rightarrow> bool \<Rightarrow> Tunnel \<Rightarrow> unit tres" where
  "record_rx_symbol e g i k m payload is_data t =
     (let entry = (case t_rx_groups t g of Some entry \<Rightarrow> entry | None \<Rightarrow> rx_group_new (e_now e) k m);
          entry = entry\<lparr>rg_deadline := e_now e + RX_GROUP_TTL\<rparr>;
          put = (\<lambda>entry. t\<lparr>t_rx_groups := (t_rx_groups t)(g \<mapsto> entry)\<rparr>)
      in if unat i \<ge> unat k + unat m then Inr ((), put entry)
         else if unat i \<ge> length (rg_symbols entry) then Inl IndexOutOfBounds
         else let was_none = (rg_symbols entry ! unat i = None);
                  entry = entry\<lparr>rg_symbols := (rg_symbols entry)[unat i := Some payload]\<rparr>
         in if is_data \<and> was_none \<and> unat i < unat k \<and> unat i \<ge> length (rg_delivered entry) then Inl IndexOutOfBounds
            else let entry = (if is_data \<and> was_none \<and> unat i < unat k
                        then entry\<lparr>rg_delivered := (rg_delivered entry)[unat i := True]\<rparr> else entry);
                     present = length (filter (\<lambda>s. s \<noteq> None) (rg_symbols entry))
                 in if \<not> rg_decoded entry \<and> present \<ge> unat k then recover_group e g (put entry)
                    else Inr ((), put entry))"

definition handle_data :: "tunnel_env \<Rightarrow> packet_header \<Rightarrow> bytes \<Rightarrow> Tunnel \<Rightarrow> unit tres" where
  "handle_data e hdr payload t =
     (let symbol = record_rx_symbol e (hdr_fec_group hdr) (hdr_fec_index hdr) (hdr_fec_k hdr) (hdr_fec_m hdr) payload True
      in try_bind (if hdr_fec_m hdr > 0 then is_source_delivered (hdr_fec_group hdr) (hdr_fec_index hdr) t
             else Inr (False, t)) (\<lambda>(seen, t).
           if seen then symbol t
           else let (_, t) = tun_send e payload t
                in if hdr_fec_m hdr > 0 then symbol t else Inr ((), t)))"

definition handle_parity :: "tunnel_env \<Rightarrow> packet_header \<Rightarrow> bytes \<Rightarrow> Tunnel \<Rightarrow> unit tres" where
  "handle_parity e hdr payload t =
     (if hdr_fec_m hdr = 0 then Inr ((), t)
      else record_rx_symbol e (hdr_fec_group hdr) (hdr_fec_index hdr) (hdr_fec_k hdr) (hdr_fec_m hdr) payload False t)"

subsection \<open>Replies\<close>

definition handle_ping :: "tunnel_env \<Rightarrow> bytes \<Rightarrow> Tunnel \<Rightarrow> unit tres" where
  "handle_ping e payload t = send_packet e Pong payload t"

definition from_le_bytes64 :: "bytes \<Rightarrow> u64" where
  "from_le_bytes64 bs = foldr (\<lambda>b w. push_bit 8 w OR ucast b) bs 0"

definition handle_pong :: "tunnel_env \<Rightarrow> bytes \<Rightarrow> Tunnel \<Rightarrow> Tunnel" where
  "handle_pong e payload t =
     (if length payload < 12 then t
      else let ts = from_le_bytes64 (slice 4 12 payload)
      in if e_wall e \<ge> ts
         then let rtt = unat (e_wall e - ts) * 1000;
                  t = t\<lparr>t_cc := obj_on_rtt_sample rtt (t_cc t)\<rparr>
              in tally (\<lambda>c. c\<lparr>c_rtt_ms := as_secs_f64 rtt * 1000, c_congestion_window := real (obj_cwnd (t_cc t)),
                   c_in_flight := obj_in_flight (t_cc t)\<rparr>) t
         else t)"

definition evict_expired_rx_groups :: "tunnel_env \<Rightarrow> Tunnel \<Rightarrow> Tunnel" where
  "evict_expired_rx_groups e t =
     t\<lparr>t_rx_groups := (\<lambda>g. case t_rx_groups t g of
         Some entry \<Rightarrow> if rg_deadline entry > e_now e then Some entry else None | None \<Rightarrow> None)\<rparr>"

definition publish_stats :: "Tunnel \<Rightarrow> Tunnel" where
  "publish_stats t = tally (\<lambda>c. c\<lparr>c_fec_k := fp_k (t_fec_params t), c_fec_m := fp_m (t_fec_params t),
     c_loss_rate := af_smoothed_loss (t_fec t), c_congestion_window := real (obj_cwnd (t_cc t)),
     c_in_flight := obj_in_flight (t_cc t), c_pacing_rate := obj_pacing_rate (t_cc t)\<rparr>) t"

subsection \<open>One datagram\<close>

definition note_acks :: "tunnel_env \<Rightarrow> packet_header \<Rightarrow> Tunnel \<Rightarrow> Tunnel" where
  "note_acks e hdr t =
     (if hdr_ack_seq hdr \<noteq> t_last_peer_ack t \<or> hdr_ack_bitmap hdr \<noteq> t_last_peer_bitmap t
      then let t = t\<lparr>t_session := observe_acks (hdr_ack_seq hdr) (hdr_ack_bitmap hdr) (t_session t)\<rparr>;
               (sampled, t) = reconcile_peer_acks e t;
               t = (if sampled then tally (\<lambda>c. c\<lparr>c_rtt_samples := sat_add64 (c_rtt_samples c) 1\<rparr>) t else t)
           in t\<lparr>t_last_peer_ack := hdr_ack_seq hdr, t_last_peer_bitmap := hdr_ack_bitmap hdr\<rparr>
      else t)"

definition roam :: "SocketAddr \<Rightarrow> Tunnel \<Rightarrow> Tunnel" where
  "roam from_addr t =
     (if from_addr \<noteq> t_peer t \<and> supports_roaming (t_carrier t)
      then let t = t\<lparr>t_peer := from_addr\<rparr>
           in if t_addr_change t then t\<lparr>t_addr_events := t_addr_events t @ [(ss_id (t_session t), from_addr)]\<rparr> else t
      else t)"

definition coalesce_ack :: "tunnel_env \<Rightarrow> packet_header \<Rightarrow> Tunnel \<Rightarrow> unit tres" where
  "coalesce_ack e hdr t =
     (if hdr_type hdr = Data \<or> hdr_type hdr = Fec
      then let t = t\<lparr>t_rx_since_ack := sat_add (t_rx_since_ack t) 1\<rparr>
           in if t_rx_since_ack t \<ge> ACK_EVERY then send_packet e Ack [] (t\<lparr>t_rx_since_ack := 0\<rparr>) else Inr ((), t)
      else Inr ((), t))"

definition dispatch_packet :: "tunnel_env \<Rightarrow> packet_header \<Rightarrow> bytes \<Rightarrow> Tunnel \<Rightarrow> unit tres" where
  "dispatch_packet e hdr plaintext t = (case hdr_type hdr of
       Data \<Rightarrow> handle_data e hdr plaintext t
     | Fec \<Rightarrow> handle_parity e hdr plaintext t
     | Ping \<Rightarrow> handle_ping e plaintext t
     | Pong \<Rightarrow> Inr ((), handle_pong e plaintext t)
     | Close \<Rightarrow> Inr ((), t\<lparr>t_closing := True\<rparr>)
     | _ \<Rightarrow> Inr ((), t))"

definition accept_packet :: "tunnel_env \<Rightarrow> packet_header \<Rightarrow> bytes \<Rightarrow> SocketAddr \<Rightarrow> Tunnel \<Rightarrow> unit tres" where
  "accept_packet e hdr plaintext from_addr t =
     (let t = note_acks e hdr t;
          t = roam from_addr t;
          t = t\<lparr>t_last_peer_activity := e_now e\<rparr>;
          t = t\<lparr>t_session := (t_session t)\<lparr>ss_ack := record_ack (hdr_seq hdr) (ss_ack (t_session t))\<rparr>\<rparr>
      in try_bind (coalesce_ack e hdr t) (\<lambda>(_, t).
         let (fresh, t) = (if is_reliable (hdr_type hdr)
               then let (f, ss) = receive_reliable (hdr_seq hdr) (t_session t) in (f, t\<lparr>t_session := ss\<rparr>)
               else (True, t))
         in if \<not> fresh then Inr ((), t)
            else dispatch_packet e hdr plaintext
              (tally (\<lambda>c. c\<lparr>c_rx_packets := c_rx_packets c + 1, c_rx_bytes := c_rx_bytes c + length plaintext\<rparr>) t)))"

definition handle_udp_datagram :: "tunnel_env \<Rightarrow> bytes \<Rightarrow> SocketAddr \<Rightarrow> Tunnel \<Rightarrow> (frame_drop + unit) tres" where
  "handle_udp_datagram e datagram from_addr t =
     (case unwrap_frame datagram t of
        Inl err \<Rightarrow> Inr (Inl err, t)
      | Inr frame \<Rightarrow>
          if is_decoy_frame frame then Inr (Inr (), t)
          else let codec = rp_codec (t_profile t)
          in case read_header codec frame of
               Inl err \<Rightarrow> Inr (Inl (BadHeader err), t)
             | Inr hdr \<Rightarrow>
                 let body = drop (min (body_offset codec frame) (length frame)) frame;
                     nonce = make_nonce (ss_id (t_session t)) (hdr_seq hdr) (t_recv_dir t)
                 in case write_header codec hdr [] of
                      Inl err \<Rightarrow> Inr (Inl (BadHeader err), t)
                    | Inr aad \<Rightarrow>
                        (case open_sealed (e_dec e) (t_recv_key t) nonce aad body of
                           Inl _ \<Rightarrow> Inr (Inr (), t)
                         | Inr plaintext \<Rightarrow>
                             try_bind (accept_packet e hdr plaintext from_addr t) (\<lambda>(_, t). Inr (Inr (), t))))"

subsection \<open>The event loop\<close>

datatype event =
    EvStop bool
  | EvTun bytes
  | EvTunError
  | EvPacerRetry
  | EvUdp bytes SocketAddr
  | EvUdpClosed
  | EvPing
  | EvFecTick
  | EvRtoTick
  | EvAckTick
  | EvKeepalive
  | EvTimeoutCheck
  | EvEvict

definition close_with :: "tunnel_env \<Rightarrow> TunnelExit \<Rightarrow> Tunnel \<Rightarrow> TunnelExit option tres" where
  "close_with e reason t = try_bind (send_control e Close [] t) (\<lambda>(_, t). Inr (Some reason, t))"

definition keep_running :: "unit tres \<Rightarrow> TunnelExit option tres" where
  "keep_running r = try_bind r (\<lambda>(_, t). Inr (None, t))"

fun run_event :: "tunnel_env \<Rightarrow> event \<Rightarrow> Tunnel \<Rightarrow> TunnelExit option tres" where
  "run_event e (EvStop stop) t = (if stop then close_with e Stopped t else Inr (None, t))"
| "run_event e (EvTun packet) t =
     try_bind (handle_tun_packet e packet (t\<lparr>t_pending_out := None, t_pending_deadline := None\<rparr>)) (\<lambda>(sent, t).
       Inr (None, if sent then t else park_if_paced e packet t))"
| "run_event e EvTunError t = Inr (Some TunError, t)"
| "run_event e EvPacerRetry t =
     (if t_pending_out t \<noteq> None then keep_running (retry_pending e t) else Inr (None, t))"
| "run_event e (EvUdp datagram from_addr) t =
     try_bind (handle_udp_datagram e datagram from_addr t) (\<lambda>(_, t).
       Inr (if t_closing t then Some PeerClosed else None, t))"
| "run_event e EvUdpClosed t = Inr (Some UdpClosed, t)"
| "run_event e EvPing t = keep_running (send_ping e t)"
| "run_event e EvFecTick t =
     try_bind (flush_fec_group_if_stale e t) (\<lambda>(_, t). Inr (None, publish_stats (evict_expired_rx_groups e t)))"
| "run_event e EvRtoTick t = Inr (None, check_retransmits e t)"
| "run_event e EvAckTick t = keep_running (flush_coalesced_ack e t)"
| "run_event e EvKeepalive t = keep_running (maybe_send_keepalive e t)"
| "run_event e EvTimeoutCheck t =
     (if e_now e - t_last_peer_activity t \<ge> t_session_timeout t then close_with e SessionTimeout t
      else Inr (None, t))"
| "run_event e EvEvict t = (if t_evict t then close_with e PeerClosed t else Inr (None, t))"

definition finish_run :: "TunnelExit \<Rightarrow> Tunnel \<Rightarrow> Tunnel" where
  "finish_run exit t = tally (\<lambda>c.
     let c = c\<lparr>c_connected := False\<rparr>
     in case exit of
          SessionTimeout \<Rightarrow> c\<lparr>c_sessions_timed_out := sat_add64 (c_sessions_timed_out c) 1\<rparr>
        | PeerClosed \<Rightarrow> c\<lparr>c_sessions_peer_closed := sat_add64 (c_sessions_peer_closed c) 1\<rparr>
        | UdpClosed \<Rightarrow> c\<lparr>c_sessions_evicted := sat_add64 (c_sessions_evicted c) 1\<rparr>
        | _ \<Rightarrow> c) t"

definition start_run :: "nat option \<Rightarrow> Tunnel \<Rightarrow> Tunnel" where
  "start_run mtu t =
     (let t = (case mtu of Some n \<Rightarrow> t\<lparr>t_cc := obj_set_mtu n (t_cc t)\<rparr> | None \<Rightarrow> t)
      in tally (\<lambda>c. c\<lparr>c_connected := True, c_fec_k := fp_k (t_fec_params t), c_fec_m := fp_m (t_fec_params t)\<rparr>) t)"

text \<open>The loop over the events that arrive, each with its environment; it may still be waiting
  when they run out.\<close>

fun run_loop :: "(tunnel_env \<times> event) list \<Rightarrow> Tunnel \<Rightarrow> TunnelExit option tres" where
  "run_loop [] t = Inr (None, t)"
| "run_loop ((e, v) # evs) t =
     try_bind (run_event e v t) (\<lambda>(exit, t). case exit of
         Some x \<Rightarrow> Inr (Some x, finish_run x t)
       | None \<Rightarrow> run_loop evs t)"

definition tunnel_run :: "nat option \<Rightarrow> (tunnel_env \<times> event) list \<Rightarrow> Tunnel \<Rightarrow> TunnelExit option tres" where
  "tunnel_run mtu evs t = run_loop evs (start_run mtu t)"

end
