(* ===== verification/Tunnel_Path.thy ===== *)
theory Tunnel_Path
  imports Tunnel_Recv
begin

text \<open>
  The path of one datagram through both tunnels: sealing, framing, obfuscation and envelope on one
  side, their reversal on the other. \<open>paired\<close> says that two tunnels are the two ends of a session;
  \<open>sent_is_received\<close> is the lemma the end-to-end properties rest on.
\<close>

subsection \<open>Two ends of a session\<close>

definition paired :: "Tunnel \<Rightarrow> Tunnel \<Rightarrow> bool" where
  "paired s r \<longleftrightarrow>
     rp_codec (t_profile s) = rp_codec (t_profile r) \<and>
     rp_transport (t_profile s) = rp_transport (t_profile r) \<and>
     peer_stack (t_obf s) (t_obf r) \<and>
     ss_id (t_session s) = ss_id (t_session r) \<and>
     t_send_key s = t_recv_key r \<and> t_send_dir s = t_recv_dir r"

text \<open>What a receiver reads from a datagram: the header and the plaintext, if it gets that far.\<close>

definition open_datagram :: "tunnel_env \<Rightarrow> bytes \<Rightarrow> Tunnel \<Rightarrow> (packet_header \<times> bytes) option" where
  "open_datagram e datagram t = (case unwrap_frame datagram t of
      Inl _ \<Rightarrow> None
    | Inr frame \<Rightarrow>
        if is_decoy_frame frame then None
        else (case read_header (rp_codec (t_profile t)) frame of
            Inl _ \<Rightarrow> None
          | Inr hdr \<Rightarrow>
              (case write_header (rp_codec (t_profile t)) hdr [] of
                 Inl _ \<Rightarrow> None
               | Inr aad \<Rightarrow>
                   (case open_sealed (e_dec e) (t_recv_key t) (make_nonce (ss_id (t_session t)) (hdr_seq hdr) (t_recv_dir t)) aad
                      (drop (min (body_offset (rp_codec (t_profile t)) frame) (length frame)) frame) of
                      Inl _ \<Rightarrow> None
                    | Inr plaintext \<Rightarrow> Some (hdr, plaintext)))))"

lemma handle_udp_opened:
  "open_datagram e d t = Some (hdr, p) \<Longrightarrow>
   handle_udp_datagram e d a t = try_bind (accept_packet e hdr p a t) (\<lambda>(_, t). Inr (Inr (), t))"
  by (auto simp: open_datagram_def handle_udp_datagram_def Let_def split: sum.splits if_splits)

lemma handle_udp_not_opened:
  "open_datagram e d t = None \<Longrightarrow> \<exists>r. handle_udp_datagram e d a t = Inr (r, t)"
  by (auto simp: open_datagram_def handle_udp_datagram_def Let_def split: sum.splits if_splits)

text \<open>What opening depends on.\<close>

definition same_receiver :: "Tunnel \<Rightarrow> Tunnel \<Rightarrow> bool" where
  "same_receiver t t' \<longleftrightarrow> t_profile t' = t_profile t \<and> os_active (t_obf t') = os_active (t_obf t) \<and>
     (\<forall>b. stack_reverse (t_obf t') b = stack_reverse (t_obf t) b) \<and>
     ss_id (t_session t') = ss_id (t_session t) \<and> t_recv_key t' = t_recv_key t \<and> t_recv_dir t' = t_recv_dir t"

lemma open_datagram_cong:
  "same_receiver t t' \<Longrightarrow> e_dec e' = e_dec e \<Longrightarrow> open_datagram e' d t' = open_datagram e d t"
  by (simp add: open_datagram_def unwrap_frame_def same_receiver_def cong: sum.case_cong if_cong)

subsection \<open>Sealing and wrapping\<close>

lemma stamped_header_carried:
  "codec_carries c (stamped_header ptype n t)"
  "codec_carries c ((stamped_header ptype n t)\<lparr>hdr_fec_group := g, hdr_fec_index := i, hdr_fec_k := k, hdr_fec_m := m\<rparr>)"
  by (cases c; simp add: stamped_header_def wf_header_def new_header_def FLAGS_NONE_def split_def Let_def)+

lemma data_header_carried: "codec_carries c (data_header n t)"
  by (simp add: data_header_def stamped_header_carried)

lemma seal_frame_ok:
  assumes "aead_laws (e_enc e) dec" "codec_carries (rp_codec (t_profile s)) hdr" "length p < 65536"
  shows "\<exists>ct frame. seal_frame e hdr p s = Inr (Inr frame) \<and>
    encode_frame (rp_codec (t_profile s)) hdr ct = Inr frame \<and> length ct = length p + TAG_LEN \<and>
    (\<forall>aad. encode_header (rp_codec (t_profile s)) hdr = Inr aad \<longrightarrow>
      open_sealed dec (t_send_key s) (make_nonce (ss_id (t_session s)) (hdr_seq hdr) (t_send_dir s)) aad ct = Inr p)"
proof -
  let ?c = "rp_codec (t_profile s)"
  obtain aad where aad: "encode_header ?c hdr = Inr aad" using codec_frame [OF assms(2)] by blast
  obtain ct where ct: "seal (e_enc e) (t_send_key s) (make_nonce (ss_id (t_session s)) (hdr_seq hdr) (t_send_dir s)) aad p = Inr ct"
    "length ct = length p + TAG_LEN"
    "open_sealed dec (t_send_key s) (make_nonce (ss_id (t_session s)) (hdr_seq hdr) (t_send_dir s)) aad ct = Inr p"
    by (rule open_seal [OF assms(1,3)])
  obtain frame where "encode_frame ?c hdr ct = Inr frame" using codec_frame [OF assms(2), of ct] by blast
  then have "seal_frame e hdr p s = Inr (Inr frame)" "encode_frame ?c hdr ct = Inr frame"
    using aad ct(1) by (simp_all add: seal_frame_def Let_def)
  then show ?thesis using aad ct(2,3) by auto
qed

lemma layer_grow_ge: "n \<le> layer_grow l n"
  using padded_len_ge [of n] by (cases l) (auto intro: order_trans [OF le_add1])

lemma obf_chain_length:
  "list_all2 peer_layer ls rs \<Longrightarrow> length f \<le> length (snd (apply_layers now ls f)) \<and>
   (length (snd (apply_layers now ls f)) < 65536 \<longrightarrow> chain_fits layer_fits layer_grow ls (length f))"
proof (induction ls arbitrary: f rs)
  case (Cons l ls)
  then obtain r rs' where rs: "rs = r # rs'" "peer_layer l r" "list_all2 peer_layer ls rs'"
    by (cases rs) auto
  obtain l' f' where a: "layer_apply now l f = (l', f')" by fastforce
  have len: "length f' = layer_grow l (length f)"
    using layers.length_app [OF rs(2), of now f] a by simp
  have IH: "length f' \<le> length (snd (apply_layers now ls f'))"
    "length (snd (apply_layers now ls f')) < 65536 \<Longrightarrow> chain_fits layer_fits layer_grow ls (length f')"
    using Cons.IH [OF rs(3), of f'] by auto
  have ge: "length f \<le> length f'" using len layer_grow_ge by simp
  have "layer_fits l (length f)" if "length (snd (apply_layers now ls f')) < 65536"
    using that IH(1) ge by (cases l) auto
  then show ?case using a IH len ge by (auto simp: split_def Let_def)
qed simp

lemma wrap_unwrap:
  assumes "paired s r" "wrap_frame e frame s = (wire, s')" "length wire < 65536"
  shows "unwrap_frame wire r = Inr frame" "paired s' r"
proof -
  let ?tr = "rp_transport (t_profile r)"
  have ps: "peer_stack (t_obf s) (t_obf r)" and tr: "rp_transport (t_profile s) = ?tr"
    using assms(1) by (auto simp: paired_def)
  then have layers: "list_all2 peer_layer (os_layers (t_obf s)) (os_layers (t_obf r))"
    and act: "os_active (t_obf r) = os_active (t_obf s)"
    by (auto simp: peer_stack_def wf_stack_def dest: list_all2_lengthD)
  show "unwrap_frame wire r = Inr frame"
  proof (cases "os_active (t_obf s)")
    case True
    let ?a = "stack_apply (e_now e) (t_obf s) frame"
    have w: "wire = wrap ?tr (snd ?a)"
      using assms(2) True tr by (auto simp: wrap_frame_def split_def Let_def)
    have "length (snd ?a) < 65536" using assms(3) w by simp
    then have "chain_fits layer_fits layer_grow (os_layers (t_obf s)) (length frame)"
      using obf_chain_length [OF layers, of frame "e_now e"] True by (simp add: stack_apply_def split_def Let_def)
    then show ?thesis using stack_roundtrip(1) [OF ps, of frame] w act True by (simp add: unwrap_frame_def)
  next
    case False
    then show ?thesis using assms(2) tr act by (auto simp: wrap_frame_def unwrap_frame_def)
  qed
  show "paired s' r"
  proof (cases "os_active (t_obf s)")
    case True
    let ?a = "stack_apply (e_now e) (t_obf s) frame"
    have w: "wire = wrap ?tr (snd ?a)" "s' = s\<lparr>t_obf := fst ?a\<rparr>"
      using assms(2) True tr by (auto simp: wrap_frame_def split_def Let_def)
    have "length (snd ?a) < 65536" using assms(3) w by simp
    then have "chain_fits layer_fits layer_grow (os_layers (t_obf s)) (length frame)"
      using obf_chain_length [OF layers, of frame "e_now e"] True by (simp add: stack_apply_def split_def Let_def)
    then show ?thesis using stack_roundtrip(2) [OF ps, of frame] w(2) assms(1) by (simp add: paired_def)
  next
    case False
    then show ?thesis using assms(1,2) by (auto simp: wrap_frame_def)
  qed
qed

lemma sent_is_received:
  assumes pr: "paired s r" and laws: "aead_laws (e_enc e) (e_dec e')"
    and hdr: "codec_carries (rp_codec (t_profile s)) hdr" "length p < 65536"
    and seal: "seal_frame e hdr p s = Inr (Inr frame)"
    and wrap: "wrap_frame e frame s = (wire, s')" "length wire < 65536"
  shows "open_datagram e' wire r = Some (hdr, p)"
proof -
  let ?c = "rp_codec (t_profile r)"
  have c: "rp_codec (t_profile s) = ?c" using pr by (simp add: paired_def)
  obtain ct where ct: "encode_frame ?c hdr ct = Inr frame"
    "\<And>aad. encode_header ?c hdr = Inr aad \<Longrightarrow>
      open_sealed (e_dec e') (t_send_key s) (make_nonce (ss_id (t_session s)) (hdr_seq hdr) (t_send_dir s)) aad ct = Inr p"
    using seal_frame_ok [OF laws hdr] seal c by auto
  have rd: "read_header ?c frame = Inr hdr" "drop (body_offset ?c frame) frame = ct"
    "encode_header ?c hdr = Inr (take (body_offset ?c frame) frame)"
    using codec_frame [of ?c hdr ct] hdr(1) ct(1) c by auto
  have body: "drop (min (body_offset ?c frame) (length frame)) frame = ct"
    using rd(2) by (auto simp: min_def)
  have "\<not> is_decoy_frame frame" using encoded_not_decoy [OF _ ct(1)] hdr(1) c by simp
  moreover have "unwrap_frame wire r = Inr frame" by (rule wrap_unwrap(1) [OF pr wrap])
  ultimately show ?thesis
    using rd body ct(2) [OF rd(3)] pr by (simp add: open_datagram_def encode_header_def paired_def)
qed

subsection \<open>What sending leaves alone\<close>

text \<open>The wire only grows, and the ends stay paired.\<close>

definition sends :: "Tunnel \<Rightarrow> Tunnel \<Rightarrow> bool" where
  "sends t t' \<longleftrightarrow> (\<exists>ws. t_wire t' = t_wire t @ ws) \<and> t_tun_out t' = t_tun_out t \<and> t_tun_sends t' = t_tun_sends t \<and>
     t_rx_groups t' = t_rx_groups t \<and> t_profile t' = t_profile t \<and> t_peer t' = t_peer t \<and>
     t_send_key t' = t_send_key t \<and> t_send_dir t' = t_send_dir t \<and> t_recv_key t' = t_recv_key t \<and>
     t_recv_dir t' = t_recv_dir t \<and> ss_id (t_session t') = ss_id (t_session t) \<and>
     ss_replay (t_session t') = ss_replay (t_session t) \<and> t_closing t' = t_closing t \<and> t_carrier t' = t_carrier t"

lemma sends_refl [simp, intro]: "sends t t"
  by (simp add: sends_def)

lemma sends_trans: "sends t t' \<Longrightarrow> sends t' t'' \<Longrightarrow> sends t t''"
  by (auto simp: sends_def)

lemma sends_wrap: "wrap_frame e frame t = (wire, t') \<Longrightarrow> sends t t'"
  by (auto simp: wrap_frame_def sends_def split_def Let_def split: if_splits)

lemma sends_carrier: "carrier_send e wire t = (ok, t') \<Longrightarrow> sends t t'"
  by (auto simp: carrier_send_def sends_def Let_def split: if_splits)

lemma sends_next_seq: "next_seq t = (n, t') \<Longrightarrow> sends t t'"
  by (auto simp: next_seq_def alloc_seq_def sends_def Let_def)

lemma sends_fields [simp]:
  "sends t (t'\<lparr>t_cc := x1\<rparr>) = sends t t'" "sends t (tally x2 t') = sends t t'"
  "sends t (t'\<lparr>t_sent_packets := x3\<rparr>) = sends t t'" "sends t (t'\<lparr>t_outstanding := x4\<rparr>) = sends t t'"
  "sends t (t'\<lparr>t_rx_since_ack := x5\<rparr>) = sends t t'" "sends t (t'\<lparr>t_group_buffer := x6\<rparr>) = sends t t'"
  "sends t (t'\<lparr>t_group_index := x7\<rparr>) = sends t t'" "sends t (t'\<lparr>t_group_id := x8\<rparr>) = sends t t'"
  "sends t (t'\<lparr>t_pending_out := x9\<rparr>) = sends t t'" "sends t (t'\<lparr>t_pending_deadline := x10\<rparr>) = sends t t'"
  "sends t (t'\<lparr>t_counters := x11\<rparr>) = sends t t'"
  by (simp_all add: sends_def tally_def)

lemma sends_transmit:
  assumes "transmit e n len kind frame t = (ok, t')"
  shows "sends t t'"
proof -
  obtain wire t1 where w: "wrap_frame e frame t = (wire, t1)" by fastforce
  obtain ok' t2 where c: "carrier_send e wire t1 = (ok', t2)" by fastforce
  have "sends t t1" "sends t t2" using sends_wrap [OF w] sends_trans [OF sends_wrap [OF w] sends_carrier [OF c]] by auto
  then show ?thesis using assms by (auto simp: transmit_def w c Let_def split: if_splits)
qed

lemma sends_send_packet:
  assumes "send_packet e ptype p t = Inr (u, t')"
  shows "sends t t'"
proof -
  obtain n t1 where s: "next_seq t = (n, t1)" by fastforce
  have w: "sends t1 (snd (carrier_send e (fst (wrap_frame e f t1)) (snd (wrap_frame e f t1))))" for f
    by (rule sends_trans [OF sends_wrap [of e f t1] sends_carrier]) (rule surjective_pairing)+
  obtain x where x: "seal_frame e (stamped_header ptype n t1) p t1 = Inr x"
    using assms by (cases "seal_frame e (stamped_header ptype n t1) p t1") (auto simp: send_packet_def s)
  show ?thesis using assms sends_next_seq [OF s] w
    by (cases x) (auto simp: send_packet_def s x split_def Let_def intro: sends_trans)
qed

lemma sends_send_parity:
  assumes "send_parity e gid k i par t = Inr (u, t')"
  shows "sends t t'"
proof -
  obtain cc ok where cc: "obj_try_send_parity (e_now e) (max (length par) (Suc 0)) (t_cc t) = (cc, ok)" by fastforce
  obtain n t1 where s: "next_seq (t\<lparr>t_cc := cc\<rparr>) = (n, t1)" by fastforce
  have t1: "sends t t1" using sends_next_seq [OF s] by (auto intro: sends_trans [of t "t\<lparr>t_cc := cc\<rparr>"])
  have "sends t (snd (transmit e n l kd f t1))" for l kd f
    by (rule sends_trans [OF t1 sends_transmit]) (rule surjective_pairing)
  note tr = this
  show ?thesis
  proof (cases ok)
    case True
    let ?h = "(stamped_header Fec n t1)\<lparr>hdr_fec_group := gid, hdr_fec_index := of_nat k + of_nat i,
      hdr_fec_k := fp_k (t_fec_params t1), hdr_fec_m := fp_m (t_fec_params t1)\<rparr>"
    obtain x where x: "seal_frame e ?h par t1 = Inr x"
      using assms True by (cases "seal_frame e ?h par t1") (auto simp: send_parity_def cc s Let_def)
    show ?thesis using assms t1 tr True
      by (cases x) (auto simp: send_parity_def cc s x split_def Let_def split: if_splits)
  next
    case False
    then show ?thesis using assms by (auto simp: send_parity_def cc Let_def)
  qed
qed

lemma sends_send_parities: "send_parities e gid k i ps t = Inr (u, t') \<Longrightarrow> sends t t'"
proof (induction ps arbitrary: i t)
  case (Cons p ps)
  then obtain t1 where "send_parity e gid k i p t = Inr ((), t1)" "send_parities e gid k (i + 1) ps t1 = Inr (u, t')"
    by (auto simp: try_bind_eq_Inr)
  then show ?case using Cons.IH sends_send_parity sends_trans by blast
qed simp

lemma sends_flush: "flush_fec_group e t = Inr (u, t') \<Longrightarrow> sends t t'"
  by (auto simp: flush_fec_group_def Let_def split: if_splits sum.splits dest!: sends_send_parities
      intro: sends_trans [rotated])

subsection \<open>A data packet that was sent\<close>

lemma join_group_sends: "join_group e p k t = Inr (b, t') \<Longrightarrow> sends t t' \<and> b"
proof -
  assume j: "join_group e p k t = Inr (b, t')"
  define t1 where "t1 = (tally (\<lambda>c. c\<lparr>c_tx_packets := c_tx_packets c + 1, c_tx_bytes := c_tx_bytes c + length p\<rparr>) t)
    \<lparr>t_group_buffer := t_group_buffer t @ [p], t_group_index := t_group_index t + 1\<rparr>"
  have "sends t t1" by (simp add: t1_def)
  moreover have "join_group e p k t =
      (if t_group_index t1 \<ge> k then try_bind (flush_fec_group e t1) (\<lambda>(_, t). Inr (True, t)) else Inr (True, t1))"
    by (simp add: join_group_def t1_def tally_def Let_def)
  ultimately show ?thesis using j sends_flush [of e t1]
    by (cases "flush_fec_group e t1") (auto split: if_splits intro: sends_trans)
qed

text \<open>A data packet counts as sent exactly if the sealed, wrapped frame was within the path MTU
  and the carrier took it; parity may follow it.\<close>

lemma send_data_sent:
  assumes "send_data e p len s = Inr (True, s')" "next_seq s = (n, s1)"
  shows "\<exists>frame wire s2 s3. seal_frame e (data_header n s1) p s1 = Inr (Inr frame) \<and>
    wrap_frame e frame s1 = (wire, s2) \<and> length wire + OUTER_OVERHEAD \<le> PATH_MTU \<and>
    t_wire s3 = t_wire s1 @ [(wire, t_peer s1)] \<and> sends s3 s'"
proof -
  let ?h = "data_header n s1"
  obtain x where x: "seal_frame e ?h p s1 = Inr x"
    using assms by (cases "seal_frame e ?h p s1") (auto simp: send_data_def)
  obtain frame where fr: "x = Inr frame" using assms x by (cases x) (auto simp: send_data_def)
  obtain ok s3 where tm: "transmit e n len SentData frame s1 = (ok, s3)" by fastforce
  have ok: "ok" and js: "join_group e p (fp_k (t_fec_params s1)) s3 = Inr (True, s')"
    using assms x fr tm by (auto simp: send_data_def split: if_splits)
  obtain wire s2 where w: "wrap_frame e frame s1 = (wire, s2)" by fastforce
  have "t_wire s2 = t_wire s1" "t_peer s2 = t_peer s1"
    using w by (auto simp: wrap_frame_def split_def Let_def split: if_splits)
  then have "length wire + OUTER_OVERHEAD \<le> PATH_MTU" "t_wire s3 = t_wire s1 @ [(wire, t_peer s1)]"
    using tm ok w by (auto simp: transmit_def carrier_send_def Let_def split: if_splits)
  then show ?thesis using x fr w join_group_sends [OF js] by blast
qed

lemma handle_tun_packet_sent:
  assumes "handle_tun_packet e p s = Inr (True, s')"
  obtains cc n s1 frame wire s2 s3 where "next_seq (s\<lparr>t_cc := cc\<rparr>) = (n, s1)" "length p \<le> MAX_PAYLOAD"
    "seal_frame e (data_header n s1) p s1 = Inr (Inr frame)" "wrap_frame e frame s1 = (wire, s2)"
    "length wire + OUTER_OVERHEAD \<le> PATH_MTU" "t_wire s3 = t_wire s1 @ [(wire, t_peer s1)]" "sends s3 s'"
proof -
  let ?len = "max (length p) 1"
  obtain cc ok where cc: "obj_may_send (e_now e) ?len (t_cc s) = (cc, ok)" by fastforce
  let ?cc = "obj_on_send_bytes ?len cc"
  have sd: "send_data e p ?len (s\<lparr>t_cc := ?cc\<rparr>) = Inr (True, s')" and mp: "length p \<le> MAX_PAYLOAD"
    using assms cc by (auto simp: handle_tun_packet_def Let_def split: if_splits)
  obtain n s1 where n: "next_seq (s\<lparr>t_cc := ?cc\<rparr>) = (n, s1)" by fastforce
  show thesis using send_data_sent [OF sd n] that [OF n mp] by blast
qed

end
