(* ===== verification/Tunnel_Frame.thy ===== *)
theory Tunnel_Frame
  imports Tunnel_Path
begin

text \<open>
  What the handlers leave alone: \<open>core\<close> is the part of a tunnel no handler changes, \<open>ends\<close> adds the
  peer address and the receive side, which only the receive path changes. The equations below let
  the simplifier read those parts through every handler.
\<close>

definition core :: "Tunnel \<Rightarrow> carrier_kind \<times> ResolvedProfile \<times> bytes \<times> bytes \<times> direction \<times> direction \<times>
    session_id \<times> bool \<times> (bytes \<Rightarrow> ObfuscationError + bytes)" where
  "core t = (t_carrier t, t_profile t, t_send_key t, t_recv_key t, t_send_dir t, t_recv_dir t,
     ss_id (t_session t), os_active (t_obf t), stack_reverse (t_obf t))"

definition rx_view :: "Tunnel \<Rightarrow> (u16 \<rightharpoonup> RxGroup) \<times> bytes list \<times> nat" where
  "rx_view t = (t_rx_groups t, t_tun_out t, t_tun_sends t)"

definition ends :: "Tunnel \<Rightarrow> (carrier_kind \<times> ResolvedProfile \<times> bytes \<times> bytes \<times> direction \<times> direction \<times>
    session_id \<times> bool \<times> (bytes \<Rightarrow> ObfuscationError + bytes)) \<times> SocketAddr \<times>
    ((u16 \<rightharpoonup> RxGroup) \<times> bytes list \<times> nat)" where
  "ends t = (core t, t_peer t, rx_view t)"

lemmas ends_defs = ends_def core_def rx_view_def

lemma ends_fields [simp]:
  "ends (t\<lparr>t_cc := x1\<rparr>) = ends t" "ends (tally x2 t) = ends t" "ends (t\<lparr>t_sent_packets := x3\<rparr>) = ends t"
  "ends (t\<lparr>t_outstanding := x4\<rparr>) = ends t" "ends (t\<lparr>t_rx_since_ack := x5\<rparr>) = ends t"
  "ends (t\<lparr>t_group_buffer := x6\<rparr>) = ends t" "ends (t\<lparr>t_group_index := x7\<rparr>) = ends t"
  "ends (t\<lparr>t_group_id := x8\<rparr>) = ends t" "ends (t\<lparr>t_pending_out := x9\<rparr>) = ends t"
  "ends (t\<lparr>t_pending_deadline := x10\<rparr>) = ends t" "ends (t\<lparr>t_counters := x11\<rparr>) = ends t"
  "ends (t\<lparr>t_wire_loss := x12\<rparr>) = ends t" "ends (t\<lparr>t_source_loss := x13\<rparr>) = ends t"
  "ends (t\<lparr>t_fec := x14\<rparr>) = ends t" "ends (t\<lparr>t_fec_params := x15\<rparr>) = ends t"
  "ends (t\<lparr>t_last_peer_ack := x16\<rparr>) = ends t" "ends (t\<lparr>t_last_peer_bitmap := x17\<rparr>) = ends t"
  "ends (t\<lparr>t_last_peer_activity := x18\<rparr>) = ends t" "ends (t\<lparr>t_closing := x19\<rparr>) = ends t"
  "ends (t\<lparr>t_ping_seq := x20\<rparr>) = ends t" "ends (t\<lparr>t_last_ping_sent := x21\<rparr>) = ends t"
  "ends (t\<lparr>t_sends := x22\<rparr>) = ends t" "ends (t\<lparr>t_wire := x23\<rparr>) = ends t"
  "ends (t\<lparr>t_addr_events := x24\<rparr>) = ends t"
  "ss_id x25 = ss_id (t_session t) \<Longrightarrow> ends (t\<lparr>t_session := x25\<rparr>) = ends t"
  by (simp_all add: ends_defs tally_def)

lemma endsD:
  assumes "ends t' = ends t"
  shows "core t' = core t" "t_peer t' = t_peer t" "rx_view t' = rx_view t" "t_rx_groups t' = t_rx_groups t"
    "t_tun_out t' = t_tun_out t" "t_tun_sends t' = t_tun_sends t" "t_profile t' = t_profile t"
    "t_carrier t' = t_carrier t" "ss_id (t_session t') = ss_id (t_session t)"
  using assms by (simp_all add: ends_defs)

lemma coreD:
  assumes "core t' = core t"
  shows "t_profile t' = t_profile t" "t_carrier t' = t_carrier t" "same_receiver t t'"
  using assms by (simp_all add: core_def same_receiver_def)

subsection \<open>Sending\<close>

lemma layer_reverse_apply: "layer_reverse (fst (layer_apply now l f)) = layer_reverse l"
  by (cases l) (auto simp: fun_eq_iff split_def Let_def)

lemma reverse_layers_apply:
  "reverse_layers (rev (fst (apply_layers now ls f))) b = reverse_layers (rev ls) b"
proof (induction ls arbitrary: f b)
  case (Cons l ls)
  then show ?case
    by (simp add: reverse_layers_append reverse_layers_one layer_reverse_apply split_def Let_def del: reverse_layers.simps(2))
qed simp

lemma ends_wrap: "wrap_frame e frame t = (wire, t') \<Longrightarrow> ends t' = ends t"
  by (auto simp: wrap_frame_def ends_defs stack_apply_def stack_reverse_def reverse_layers_apply split_def Let_def
      split: if_splits)

lemma ends_carrier: "carrier_send e wire t = (ok, t') \<Longrightarrow> ends t' = ends t"
  by (auto simp: carrier_send_def Let_def split: if_splits)

lemma ends_next_seq: "next_seq t = (n, t') \<Longrightarrow> ends t' = ends t"
  by (auto simp: next_seq_def alloc_seq_def Let_def)

lemma ends_fst_snd [simp]:
  "ends (snd (wrap_frame e frame t)) = ends t" "ends (snd (carrier_send e wire t)) = ends t"
  "ends (snd (next_seq t)) = ends t"
  using ends_wrap [OF surjective_pairing] ends_carrier [OF surjective_pairing] ends_next_seq [OF surjective_pairing]
  by auto

lemma ends_send_packet: "send_packet e ptype p t = Inr (u, t') \<Longrightarrow> ends t' = ends t"
  unfolding send_packet_def split_def Let_def
  by (cases "seal_frame e (stamped_header ptype (fst (next_seq t)) (snd (next_seq t))) p (snd (next_seq t))")
    (auto split: sum.split_asm)

lemma ends_transmit [simp]: "ends (snd (transmit e n len kind frame t)) = ends t"
  by (simp add: transmit_def split_def Let_def)

lemma ends_send_parity:
  assumes "send_parity e gid k i par t = Inr (u, t')"
  shows "ends t' = ends t"
proof -
  obtain cc ok where cc: "obj_try_send_parity (e_now e) (max (length par) (Suc 0)) (t_cc t) = (cc, ok)" by fastforce
  obtain n t1 where s: "next_seq (t\<lparr>t_cc := cc\<rparr>) = (n, t1)" by fastforce
  have t1: "ends t1 = ends t" using ends_next_seq [OF s] by simp
  let ?h = "(stamped_header Fec n t1)\<lparr>hdr_fec_group := gid, hdr_fec_index := of_nat k + of_nat i,
    hdr_fec_k := fp_k (t_fec_params t1), hdr_fec_m := fp_m (t_fec_params t1)\<rparr>"
  show ?thesis
  proof (cases ok)
    case True
    obtain x where x: "seal_frame e ?h par t1 = Inr x"
      using assms True by (cases "seal_frame e ?h par t1") (auto simp: send_parity_def cc s Let_def)
    show ?thesis using assms True
      by (cases x) (auto simp: send_parity_def cc s x split_def Let_def t1 split: if_splits)
  next
    case False
    then show ?thesis using assms by (auto simp: send_parity_def cc Let_def)
  qed
qed

lemma ends_send_parities: "send_parities e gid k i ps t = Inr (u, t') \<Longrightarrow> ends t' = ends t"
proof (induction ps arbitrary: i t)
  case (Cons p ps)
  then obtain t1 where "send_parity e gid k i p t = Inr ((), t1)" "send_parities e gid k (i + 1) ps t1 = Inr (u, t')"
    by (auto simp: try_bind_eq_Inr)
  then show ?case using Cons.IH ends_send_parity by metis
qed simp

lemma ends_flush: "flush_fec_group e t = Inr (u, t') \<Longrightarrow> ends t' = ends t"
  by (auto simp: flush_fec_group_def Let_def split: if_split_asm sum.split_asm dest!: ends_send_parities)

lemma ends_record_outcome [simp]: "ends (record_outcome o' t) = ends t"
  by (cases o') (simp add: record_outcome_def apply_fec_params_def split_def Let_def split: option.split)

lemma ends_fold_outcomes [simp]:
  "ends (fold (\<lambda>(_, o'). record_outcome o') rs t) = ends t"
  by (induction rs arbitrary: t) (simp_all add: split_def)

lemma ends_reconcile [simp]: "ends (snd (reconcile_peer_acks e t)) = ends t"
  by (simp add: reconcile_peer_acks_def Let_def)

lemma ends_note_acks [simp]: "ends (note_acks e hdr t) = ends t"
proof -
  have "ends (t\<lparr>t_session := observe_acks a b (t_session t)\<rparr>) = ends t" for a b
    by (simp add: observe_acks_def)
  then show ?thesis by (simp add: note_acks_def split_def Let_def)
qed

lemma ends_coalesce: "coalesce_ack e hdr t = Inr (u, t') \<Longrightarrow> ends t' = ends t"
  by (auto simp: coalesce_ack_def Let_def split: if_split_asm dest!: ends_send_packet)

subsection \<open>Receiving\<close>

lemma core_rx [simp]:
  "core (t\<lparr>t_rx_groups := x1\<rparr>) = core t" "core (snd (tun_send e p t)) = core t" "core (tally x2 t) = core t"
  "core (t\<lparr>t_closing := x3\<rparr>) = core t" "core (t\<lparr>t_cc := x4\<rparr>) = core t" "core (roam a t) = core t"
  "t_peer (t\<lparr>t_rx_groups := x1\<rparr>) = t_peer t" "t_peer (snd (tun_send e p t)) = t_peer t" "t_peer (tally x2 t) = t_peer t"
  by (simp_all add: core_def tun_send_def tally_def roam_def Let_def)

lemma write_recovered_keeps:
  "core (snd (write_recovered e pre i ss t)) = core t \<and> t_peer (snd (write_recovered e pre i ss t)) = t_peer t"
  by (induction ss arbitrary: i t) (simp_all add: split_def Let_def)

lemma recover_group_keeps: "recover_group e g t = Inr (u, t') \<Longrightarrow> core t' = core t \<and> t_peer t' = t_peer t"
  by (auto simp: recover_group_def write_recovered_keeps split_def Let_def split: option.split_asm if_split_asm sum.split_asm)

lemma record_rx_symbol_keeps:
  "record_rx_symbol e g i k m p d t = Inr (u, t') \<Longrightarrow> core t' = core t \<and> t_peer t' = t_peer t"
  unfolding record_rx_symbol_def Let_def
  by (auto split: if_split_asm dest!: recover_group_keeps)

lemma is_source_delivered_same: "is_source_delivered g i t = Inr (b, t') \<Longrightarrow> t' = t"
  by (auto simp: is_source_delivered_def split: option.split_asm if_split_asm)

lemma handle_data_keeps: "handle_data e hdr p t = Inr (u, t') \<Longrightarrow> core t' = core t \<and> t_peer t' = t_peer t"
  unfolding handle_data_def Let_def
  by (auto simp: try_bind_eq_Inr split_def split: if_split_asm dest!: record_rx_symbol_keeps is_source_delivered_same)

lemma handle_pong_ends [simp]: "ends (handle_pong e p t) = ends t"
  by (simp add: handle_pong_def Let_def)

lemma dispatch_keeps: "dispatch_packet e hdr p t = Inr (u, t') \<Longrightarrow> core t' = core t \<and> t_peer t' = t_peer t"
  unfolding dispatch_packet_def
  by (auto simp: handle_parity_def handle_ping_def split: packet_type.split_asm if_split_asm
      simp: endsD(1,2) [OF handle_pong_ends] dest: handle_data_keeps record_rx_symbol_keeps endsD(1,2) [OF ends_send_packet])

lemma roam_view:
  "rx_view (roam a t) = rx_view t"
  "t_peer t' = t_peer t \<Longrightarrow> t_carrier t' = t_carrier t \<Longrightarrow> t_peer (roam a t') = t_peer (roam a t)"
  by (simp_all add: roam_def rx_view_def Let_def)

end
