(* ===== verification/Tunnel_Groups.thy ===== *)
theory Tunnel_Groups
  imports Tunnel_Frame "HOL-Library.Multiset"
begin

text \<open>
  The receive side of an FEC group, for any order, loss and duplication of its datagrams. The
  invariant relates the group entry and the device output to the set of symbols that arrived; the
  erasure code enters through its contract \<open>fec_scheme\<close> only.
\<close>

lemma scheme_decodes:
  assumes "fs_encode (fec_build kind) k m src = Inr par" "erasure_of (src @ par) syms"
    "k \<le> length (filter (\<lambda>s. s \<noteq> None) syms)"
  shows "fs_decode (fec_build kind) k m syms = Inr src"
  using assms rs_fec.dec_enc [of k m src par syms] none_fec.dec_enc [of k m src par syms] by (cases kind) auto

lemma scheme_shape:
  "fs_encode (fec_build kind) k m src = Inr par \<Longrightarrow> length src = k \<and> length par = m"
  using rs_fec.enc_shape [of k m src par] none_fec.enc_shape [of k m src par] by (cases kind) auto

definition sym_at :: "nat set \<Rightarrow> bytes list \<Rightarrow> bytes option list" where
  "sym_at A cw = map (\<lambda>i. if i \<in> A then Some (cw ! i) else None) [0..<length cw]"

definition entry_inv :: "u8 \<Rightarrow> u8 \<Rightarrow> bytes list \<Rightarrow> nat set \<Rightarrow> RxGroup \<Rightarrow> bool" where
  "entry_inv K M cw A entry \<longleftrightarrow> rg_k entry = K \<and> rg_m entry = M \<and> rg_symbols entry = sym_at A cw \<and>
     length (rg_delivered entry) = unat K \<and> rg_decoded entry = (unat K \<le> card A) \<and>
     (\<forall>j < unat K. rg_delivered entry ! j = (j \<in> A \<or> unat K \<le> card A))"

text \<open>What must have been written to the device when the symbols \<open>A\<close> have arrived.\<close>

definition written :: "nat \<Rightarrow> bytes list \<Rightarrow> nat set \<Rightarrow> bytes multiset" where
  "written k src A = image_mset ((!) src) (mset_set {j. j < k \<and> (j \<in> A \<or> k \<le> card A)})"

lemma length_sym_at [simp]: "length (sym_at A cw) = length cw"
  by (simp add: sym_at_def)

lemma nth_sym_at [simp]: "i < length cw \<Longrightarrow> sym_at A cw ! i = (if i \<in> A then Some (cw ! i) else None)"
  by (simp add: sym_at_def)

lemma sym_at_insert: "i < length cw \<Longrightarrow> (sym_at A cw)[i := Some (cw ! i)] = sym_at (insert i A) cw"
  by (intro nth_equalityI) (auto simp: nth_list_update)

lemma sym_at_present:
  assumes "A \<subseteq> {..<length cw}"
  shows "length (filter (\<lambda>s. s \<noteq> None) (sym_at A cw)) = card A"
proof -
  have "{i. i < length (sym_at A cw) \<and> sym_at A cw ! i \<noteq> None} = A" using assms by (auto split: if_splits)
  then show ?thesis by (simp add: length_filter_conv_card)
qed

lemma sym_at_erasure: "erasure_of cw (sym_at A cw)"
  by (auto simp: erasure_of_def list_all2_conv_all_nth)

lemma entry_inv_new:
  assumes "length cw = unat K + unat M" "unat K \<ge> 1"
  shows "entry_inv K M cw {} (rx_group_new now K M)"
  using assms by (auto simp: entry_inv_def rx_group_new_def intro!: nth_equalityI)

lemma write_recovered_out:
  assumes "\<forall>n. e_tun_ok e n"
  shows "t_tun_out (snd (write_recovered e pre i ss t)) =
      t_tun_out t @ map snd (filter (\<lambda>(j, s). j < length pre \<and> \<not> pre ! j) (enumerate i ss)) \<and>
    t_rx_groups (snd (write_recovered e pre i ss t)) = t_rx_groups t"
  using assms by (induction ss arbitrary: i t) (auto simp: split_def Let_def tun_send_def)

lemma mset_filter_upt: "mset (map f (filter P [0..<n])) = image_mset f (mset_set {j. j < n \<and> P j})"
proof -
  have "mset (filter P [0..<n]) = mset_set {j. j < n \<and> P j}"
    using mset_set_set [of "filter P [0..<n]"] by (simp add: conj_commute)
  then show ?thesis by simp
qed

lemma enumerate_filter:
  "map snd (filter (\<lambda>(j, s). P j) (enumerate 0 src)) = map ((!) src) (filter P [0..<length src])"
proof -
  have "enumerate 0 src = map (\<lambda>j. (j, src ! j)) [0..<length src]"
    by (intro nth_equalityI) (simp_all add: nth_enumerate_eq)
  then show ?thesis by (simp add: filter_map o_def)
qed

text \<open>The group entry, present or not yet, after the symbols \<open>A\<close>.\<close>

definition group_inv :: "u16 \<Rightarrow> u8 \<Rightarrow> u8 \<Rightarrow> bytes list \<Rightarrow> nat set \<Rightarrow> Tunnel \<Rightarrow> bool" where
  "group_inv g K M cw A t \<longleftrightarrow> (case t_rx_groups t g of None \<Rightarrow> A = {} | Some entry \<Rightarrow> entry_inv K M cw A entry)"

lemma recover_group_step:
  assumes enc: "fs_encode (fec_build kind) (unat K) (unat M) src = Inr par" and kind: "rp_fec (t_profile t) = fec_build kind"
    and A: "A \<subseteq> {..<length (src @ par)}" "unat K \<le> card A" and tun: "\<forall>n. e_tun_ok e n"
    and entry: "t_rx_groups t g = Some entry" "rg_k entry = K" "rg_m entry = M" "rg_symbols entry = sym_at A (src @ par)"
      "length (rg_delivered entry) = unat K" "\<not> rg_decoded entry" "\<forall>j < unat K. rg_delivered entry ! j = (j \<in> A)"
  shows "\<exists>t'. recover_group e g t = Inr ((), t') \<and> group_inv g K M (src @ par) A t' \<and>
    mset (t_tun_out t') = mset (t_tun_out t) + image_mset ((!) src) (mset_set {j. j < unat K \<and> j \<notin> A})"
proof -
  let ?cw = "src @ par" and ?pre = "rg_delivered entry"
  have len: "length src = unat K" using scheme_shape [OF enc] by simp
  have dec: "fs_decode (fec_build kind) (unat K) (unat M) (sym_at A ?cw) = Inr src"
    by (rule scheme_decodes [OF enc sym_at_erasure]) (use sym_at_present [OF A(1)] A(2) in linarith)
  define entry' where "entry' = entry\<lparr>rg_decoded := True, rg_delivered := replicate (unat K) True\<rparr>"
  define t1 where "t1 = t\<lparr>t_rx_groups := (t_rx_groups t)(g \<mapsto> entry')\<rparr>"
  obtain n t2 where w: "write_recovered e ?pre 0 src t1 = (n, t2)" by fastforce
  have inv: "entry_inv K M ?cw A entry'" using entry A(2) by (simp add: entry_inv_def entry'_def)
  have "filter (\<lambda>j. j < length ?pre \<and> \<not> ?pre ! j) [0..<length src] = filter (\<lambda>j. j \<notin> A) [0..<unat K]"
    using entry(5,7) len by (intro filter_cong) auto
  then have out: "mset (t_tun_out t2) = mset (t_tun_out t) + image_mset ((!) src) (mset_set {j. j < unat K \<and> j \<notin> A})"
    and grp: "t_rx_groups t2 = (t_rx_groups t)(g \<mapsto> entry')"
    using write_recovered_out [OF tun, of ?pre 0 src t1] w
    by (simp_all add: enumerate_filter t1_def mset_filter_upt)
  have "recover_group e g t =
      Inr ((), if n > 0 then tally (\<lambda>c. c\<lparr>c_fec_recovered := c_fec_recovered c + n\<rparr>) t2 else t2)"
    using entry kind dec w by (simp add: recover_group_def t1_def entry'_def Let_def)
  then show ?thesis using out grp inv by (simp add: group_inv_def tally_def)
qed

text \<open>What one more symbol adds.\<close>

lemma written_insert:
  assumes A: "finite A"
  shows "written k src (insert i A) = written k src A +
    (if i < k \<and> i \<notin> A \<and> card A < k then {#src ! i#} else {#}) +
    (if card A < k \<and> k \<le> card (insert i A) then image_mset ((!) src) (mset_set {j. j < k \<and> j \<notin> insert i A}) else {#})"
proof -
  let ?W = "\<lambda>A. {j. j < k \<and> (j \<in> A \<or> k \<le> card A)}"
  let ?N = "if i < k \<and> i \<notin> A \<and> card A < k then {i} else {}"
  let ?R = "if card A < k \<and> k \<le> card (insert i A) then {j. j < k \<and> j \<notin> insert i A} else {}"
  have le: "card A \<le> card (insert i A)" using A by (intro card_mono) auto
  have "?W (insert i A) = ?W A \<union> ?N \<union> ?R" using le by (auto dest: insert_absorb)
  moreover have "?W A \<inter> ?N = {}" "(?W A \<union> ?N) \<inter> ?R = {}" by auto
  moreover have "finite (?W A)" "finite ?N" "finite ?R" by auto
  ultimately have "mset_set (?W (insert i A)) = mset_set (?W A) + mset_set ?N + mset_set ?R"
    by (simp add: mset_set_Union)
  then show ?thesis by (auto simp: written_def)
qed

lemma record_step:
  assumes enc: "fs_encode (fec_build kind) (unat K) (unat M) src = Inr par" and K: "unat K \<ge> 1"
    and kind: "rp_fec (t_profile t) = fec_build kind" and tun: "\<forall>n. e_tun_ok e n"
    and A: "A \<subseteq> {..<length (src @ par)}" and i: "unat ix < unat K + unat M"
    and inv: "group_inv g K M (src @ par) A t"
  shows "\<exists>t'. record_rx_symbol e g ix K M ((src @ par) ! unat ix) (unat ix < unat K) t = Inr ((), t') \<and>
    group_inv g K M (src @ par) (insert (unat ix) A) t' \<and>
    mset (t_tun_out t') = mset (t_tun_out t) +
      (if card A < unat K \<and> unat K \<le> card (insert (unat ix) A)
       then image_mset ((!) src) (mset_set {j. j < unat K \<and> j \<notin> insert (unat ix) A}) else {#})"
proof -
  let ?cw = "src @ par" and ?i = "unat ix" and ?B = "insert (unat ix) A"
  have len: "length ?cw = unat K + unat M" using scheme_shape [OF enc] by simp
  define e0 where "e0 = (case t_rx_groups t g of Some entry \<Rightarrow> entry | None \<Rightarrow> rx_group_new (e_now e) K M)"
  have e0: "entry_inv K M ?cw A e0"
    using inv entry_inv_new [OF len K, of "e_now e"] by (auto simp: group_inv_def e0_def split: option.splits)
  define e1 where "e1 = e0\<lparr>rg_deadline := e_now e + RX_GROUP_TTL, rg_symbols := sym_at ?B ?cw,
    rg_delivered := (if ?i < unat K \<and> ?i \<notin> A then (rg_delivered e0)[?i := True] else rg_delivered e0)\<rparr>"
  define t1 where "t1 = t\<lparr>t_rx_groups := (t_rx_groups t)(g \<mapsto> e1)\<rparr>"
  have B: "?B \<subseteq> {..<length ?cw}" using A i len by auto
  have e1: "rg_k e1 = K" "rg_m e1 = M" "rg_symbols e1 = sym_at ?B ?cw" "length (rg_delivered e1) = unat K"
    "rg_decoded e1 = (unat K \<le> card A)" "\<forall>j < unat K. rg_delivered e1 ! j = (j \<in> ?B \<or> unat K \<le> card A)"
    using e0 by (auto simp: e1_def entry_inv_def nth_list_update)
  have step: "record_rx_symbol e g ix K M (?cw ! ?i) (?i < unat K) t =
      (if card A < unat K \<and> unat K \<le> card ?B then recover_group e g t1 else Inr ((), t1))"
  proof -
    have "length (filter (\<lambda>s. s \<noteq> None) (rg_symbols e1)) = card ?B" using sym_at_present [OF B] e1(3) by simp
    moreover have "(rg_symbols e0)[?i := Some (?cw ! ?i)] = sym_at ?B ?cw"
      using e0 i len sym_at_insert [of ?i ?cw A] by (simp add: entry_inv_def)
    ultimately show ?thesis using e0 i len e1(5)
      by (auto simp: record_rx_symbol_def Let_def e0_def [symmetric] t1_def e1_def entry_inv_def not_le)
  qed
  show ?thesis
  proof (cases "card A < unat K \<and> unat K \<le> card ?B")
    case True
    then show ?thesis
      using recover_group_step [OF enc _ B _ tun, of t1 g e1] e1 kind step by (simp add: t1_def)
  next
    case False
    have "card A \<le> card ?B" using finite_subset [OF B] by (intro card_mono) auto
    then have "unat K \<le> card A \<longleftrightarrow> unat K \<le> card ?B" using False by auto
    then show ?thesis using False e1 step by (auto simp: group_inv_def entry_inv_def t1_def)
  qed
qed

subsection \<open>One symbol, from the handler to the datagram\<close>

text \<open>The packet that carries symbol \<open>i\<close> of the group.\<close>

definition carries_symbol :: "u16 \<Rightarrow> u8 \<Rightarrow> u8 \<Rightarrow> packet_header \<Rightarrow> bool" where
  "carries_symbol g K M hdr \<longleftrightarrow> hdr_fec_group hdr = g \<and> hdr_fec_k hdr = K \<and> hdr_fec_m hdr = M \<and>
     unat (hdr_fec_index hdr) < unat K + unat M \<and>
     hdr_type hdr = (if unat (hdr_fec_index hdr) < unat K then Data else Fec)"

lemma source_delivered_inv:
  assumes "group_inv g K M cw A t" "unat ix < unat K" "unat K \<ge> 1"
  shows "is_source_delivered g ix t = Inr (unat ix \<in> A \<or> unat K \<le> card A, t)"
  using assms by (auto simp: is_source_delivered_def group_inv_def entry_inv_def split: option.splits)

lemma group_inv_cong: "t_rx_groups t' = t_rx_groups t \<Longrightarrow> group_inv g K M cw A t' = group_inv g K M cw A t"
  by (simp add: group_inv_def)

lemma tun_send_ok:
  assumes "\<forall>n. e_tun_ok e n"
  shows "\<exists>t'. tun_send e p t = (True, t') \<and> t_tun_out t' = t_tun_out t @ [p] \<and> t_rx_groups t' = t_rx_groups t \<and>
    t_profile t' = t_profile t"
  using assms by (simp add: tun_send_def Let_def)

lemma symbol_step:
  assumes enc: "fs_encode (fec_build kind) (unat K) (unat M) src = Inr par" and K: "unat K \<ge> 1" and M: "unat M \<ge> 1"
    and kind: "rp_fec (t_profile t) = fec_build kind" and tun: "\<forall>n. e_tun_ok e n"
    and A: "A \<subseteq> {..<length (src @ par)}" and hdr: "carries_symbol g K M hdr"
    and inv: "group_inv g K M (src @ par) A t"
  shows "\<exists>t'. dispatch_packet e hdr ((src @ par) ! unat (hdr_fec_index hdr)) t = Inr ((), t') \<and>
    group_inv g K M (src @ par) (insert (unat (hdr_fec_index hdr)) A) t' \<and>
    mset (t_tun_out t') + written (unat K) src A =
      mset (t_tun_out t) + written (unat K) src (insert (unat (hdr_fec_index hdr)) A)"
proof -
  let ?ix = "hdr_fec_index hdr" and ?cw = "src @ par"
  let ?i = "unat ?ix" and ?B = "insert (unat (hdr_fec_index hdr)) A"
  have i: "?i < unat K + unat M" and Mpos: "M > 0" using hdr M by (auto simp: carries_symbol_def word_gt_0 unat_gt_0)
  have fin: "finite A" using finite_subset [OF A] by simp
  note wr = written_insert [OF fin, of "unat K" src ?i]
  show ?thesis
  proof (cases "?i < unat K")
    case False
    then have "dispatch_packet e hdr (?cw ! ?i) t = record_rx_symbol e g ?ix K M (?cw ! ?i) (?i < unat K) t"
      using hdr Mpos by (auto simp: dispatch_packet_def handle_parity_def carries_symbol_def)
    then show ?thesis using record_step [OF enc K kind tun A i inv] False wr by auto
  next
    case True
    let ?seen = "?i \<in> A \<or> unat K \<le> card A"
    have "length src = unat K" using scheme_shape [OF enc] by simp
    then have nth: "?cw ! ?i = src ! ?i" using True by (simp add: nth_append)
    obtain t1 where t1: "tun_send e (src ! ?i) t = (True, t1)" "t_tun_out t1 = t_tun_out t @ [src ! ?i]"
      "t_rx_groups t1 = t_rx_groups t" "t_profile t1 = t_profile t"
      using tun_send_ok [OF tun, of "src ! ?i" t] by blast
    let ?t = "if ?seen then t else t1"
    have "dispatch_packet e hdr (?cw ! ?i) t = record_rx_symbol e g ?ix K M (?cw ! ?i) (?i < unat K) ?t"
      using hdr Mpos True source_delivered_inv [OF inv True K] t1 nth
      by (auto simp: dispatch_packet_def handle_data_def carries_symbol_def Let_def)
    moreover have "group_inv g K M ?cw A ?t" "rp_fec (t_profile ?t) = fec_build kind"
      using inv t1 kind by (simp_all add: group_inv_def)
    ultimately show ?thesis
      using record_step [OF enc K _ tun A i, of ?t g] True wr t1 by (auto split: if_splits)
  qed
qed

text \<open>Headers that tunnels stamp encode, so replies never panic.\<close>

lemma seal_frame_total: "codec_carries (rp_codec (t_profile t)) hdr \<Longrightarrow> \<exists>x. seal_frame e hdr p t = Inr x"
proof -
  assume c: "codec_carries (rp_codec (t_profile t)) hdr"
  obtain aad where "encode_header (rp_codec (t_profile t)) hdr = Inr aad" using codec_frame [OF c] by blast
  moreover obtain f where "\<And>ct. encode_frame (rp_codec (t_profile t)) hdr ct = Inr (f ct)" using codec_frame [OF c] by metis
  ultimately show ?thesis
    by (cases "seal (e_enc e) (t_send_key t) (make_nonce (ss_id (t_session t)) (hdr_seq hdr) (t_send_dir t)) aad p")
      (auto simp: seal_frame_def Let_def)
qed

lemma send_packet_total: "\<exists>t'. send_packet e ptype p t = Inr ((), t')"
proof -
  obtain x where "seal_frame e (stamped_header ptype (fst (next_seq t)) (snd (next_seq t))) p (snd (next_seq t)) = Inr x"
    using seal_frame_total stamped_header_carried(1) by blast
  then show ?thesis by (cases x) (simp_all add: send_packet_def split_def Let_def)
qed

lemma coalesce_total: "\<exists>t'. coalesce_ack e hdr t = Inr ((), t')"
  using send_packet_total by (auto simp: coalesce_ack_def Let_def)

text \<open>\<open>accept_packet\<close> never stops before the packet is dispatched, except for repeated reliable packets.\<close>

lemma accept_split:
  obtains t2 where "core t2 = core t" "t_peer t2 = t_peer (roam a t)" "rx_view t2 = rx_view t"
    "accept_packet e hdr p a t = dispatch_packet e hdr p t2 \<or>
     is_reliable (hdr_type hdr) \<and> accept_packet e hdr p a t = Inr ((), t2)"
proof -
  define t1 where "t1 = (let t = roam a (note_acks e hdr t); t = t\<lparr>t_last_peer_activity := e_now e\<rparr>
    in t\<lparr>t_session := (t_session t)\<lparr>ss_ack := record_ack (hdr_seq hdr) (ss_ack (t_session t))\<rparr>\<rparr>)"
  obtain t2 where c: "coalesce_ack e hdr t1 = Inr ((), t2)" using coalesce_total by blast
  obtain f ss where rr: "receive_reliable (hdr_seq hdr) (t_session t2) = (f, ss)" by fastforce
  have ss: "ss_id ss = ss_id (t_session t2)" using rr by (auto simp: receive_reliable_def Let_def split_def split: if_splits)
  define t3 where "t3 = (if is_reliable (hdr_type hdr) then t2\<lparr>t_session := ss\<rparr> else t2)"
  define t4 where "t4 = tally (\<lambda>c. c\<lparr>c_rx_packets := c_rx_packets c + 1, c_rx_bytes := c_rx_bytes c + length p\<rparr>) t3"
  have n: "ends (note_acks e hdr t) = ends t" by simp
  have "ends t4 = ends (roam a (note_acks e hdr t))" and t34: "ends t3 = ends t4"
    using ends_coalesce [OF c] ss by (simp_all add: t4_def t3_def t1_def Let_def)
  note t4 = endsD(1,2,3) [OF this(1)]
  have acc: "accept_packet e hdr p a t = (if is_reliable (hdr_type hdr) \<and> \<not> f then Inr ((), t3) else dispatch_packet e hdr p t4)"
    using c rr by (simp add: accept_packet_def t1_def t3_def t4_def Let_def)
  have "core t4 = core t" "t_peer t4 = t_peer (roam a t)" "rx_view t4 = rx_view t"
    using t4 endsD(1,3) [OF n] roam_view(1) roam_view(2) [OF endsD(2,8) [OF n], of a] by simp_all
  then show thesis using that [of t4] that [of t3] acc endsD(1,2,3) [OF t34] by (auto split: if_splits)
qed

lemma accept_unreliable:
  assumes "\<not> is_reliable (hdr_type hdr)"
  obtains t2 where "core t2 = core t" "t_peer t2 = t_peer (roam a t)" "rx_view t2 = rx_view t"
    "accept_packet e hdr p a t = dispatch_packet e hdr p t2"
  using accept_split [of t a e hdr p] assms by metis

lemma accept_keeps:
  assumes "accept_packet e hdr p a t = Inr (u, t')"
  shows "core t' = core t" "t_peer t' = t_peer (roam a t)"
  by (rule accept_split [of t a e hdr p]; use dispatch_keeps assms in \<open>auto\<close>)+

lemma rx_viewD: "rx_view t' = rx_view t \<Longrightarrow> t_rx_groups t' = t_rx_groups t \<and> t_tun_out t' = t_tun_out t"
  by (simp add: rx_view_def)

text \<open>A sequence of datagrams, each with the environment and the source address of its arrival.\<close>

fun receive_all :: "(tunnel_env \<times> bytes \<times> SocketAddr) list \<Rightarrow> Tunnel \<Rightarrow> tunnel_panic + Tunnel" where
  "receive_all [] t = Inr t"
| "receive_all ((e, d, a) # ds) t = try_bind (handle_udp_datagram e d a t) (\<lambda>(_, t). receive_all ds t)"

definition symbol_datagram :: "u16 \<Rightarrow> u8 \<Rightarrow> u8 \<Rightarrow> bytes list \<Rightarrow> Tunnel \<Rightarrow> nat \<times> tunnel_env \<times> bytes \<times> SocketAddr \<Rightarrow> bool" where
  "symbol_datagram g K M cw t = (\<lambda>(i, e, d, a). (\<forall>n. e_tun_ok e n) \<and>
     (case open_datagram e d t of None \<Rightarrow> False | Some (hdr, p) \<Rightarrow>
        carries_symbol g K M hdr \<and> unat (hdr_fec_index hdr) = i \<and> p = cw ! i))"

lemma multiset_exchange: "a + wA = o' + wB \<Longrightarrow> a' + wB = a + wC \<Longrightarrow> a' + wA = o' + (wC :: 'a multiset)"
  by (metis add.assoc add.commute add_right_cancel)

lemma receive_symbols:
  assumes enc: "fs_encode (fec_build kind) (unat K) (unat M) src = Inr par" and K: "unat K \<ge> 1" and M: "unat M \<ge> 1"
  shows "rp_fec (t_profile t) = fec_build kind \<Longrightarrow> A \<subseteq> {..<length (src @ par)} \<Longrightarrow>
    \<forall>x \<in> set xs. symbol_datagram g K M (src @ par) t x \<Longrightarrow> group_inv g K M (src @ par) A t \<Longrightarrow>
    \<exists>t'. receive_all (map snd xs) t = Inr t' \<and>
      mset (t_tun_out t') + written (unat K) src A = mset (t_tun_out t) + written (unat K) src (A \<union> fst ` set xs)"
proof (induction xs arbitrary: t A)
  case Nil
  then show ?case by simp
next
  case (Cons x xs)
  let ?cw = "src @ par"
  have len: "length ?cw = unat K + unat M" using scheme_shape [OF enc] by simp
  obtain i e d a where x: "x = (i, e, d, a)" by (cases x)
  obtain hdr where o: "open_datagram e d t = Some (hdr, ?cw ! i)" and hdr: "carries_symbol g K M hdr"
    "unat (hdr_fec_index hdr) = i" and tun: "\<forall>n. e_tun_ok e n"
    using Cons.prems(3) x by (auto simp: symbol_datagram_def split: option.splits)
  have i: "i < length ?cw" using hdr len by (auto simp: carries_symbol_def)
  have nr: "\<not> is_reliable (hdr_type hdr)" using hdr(1) by (simp add: carries_symbol_def is_reliable_def)
  obtain t2 where t2: "core t2 = core t" "rx_view t2 = rx_view t"
    "accept_packet e hdr (?cw ! i) a t = dispatch_packet e hdr (?cw ! i) t2" using accept_unreliable [OF nr] by metis
  note rx = rx_viewD [OF t2(2)]
  have "rp_fec (t_profile t2) = fec_build kind" "group_inv g K M ?cw A t2"
    using coreD(1) [OF t2(1)] Cons.prems(1,4) rx by (simp_all add: group_inv_def)
  then obtain t3 where t3: "dispatch_packet e hdr (?cw ! i) t2 = Inr ((), t3)" "group_inv g K M ?cw (insert i A) t3"
    "mset (t_tun_out t3) + written (unat K) src A = mset (t_tun_out t) + written (unat K) src (insert i A)"
    using symbol_step [OF enc K M _ tun Cons.prems(2) hdr(1), of t2] hdr(2) rx by auto
  have core3: "core t3 = core t" using dispatch_keeps [OF t3(1)] t2(1) by simp
  then have "open_datagram e' d' t3 = open_datagram e' d' t" for e' d' using coreD(3) open_datagram_cong by blast
  then have "\<forall>x \<in> set xs. symbol_datagram g K M ?cw t3 x" using Cons.prems(3) by (auto simp: symbol_datagram_def)
  moreover have "rp_fec (t_profile t3) = fec_build kind" "insert i A \<subseteq> {..<length ?cw}"
    using coreD(1) [OF core3] Cons.prems(1,2) i by simp_all
  ultimately obtain t' where t': "receive_all (map snd xs) t3 = Inr t'"
    "mset (t_tun_out t') + written (unat K) src (insert i A) =
      mset (t_tun_out t3) + written (unat K) src (insert i A \<union> fst ` set xs)"
    using Cons.IH t3(2) by blast
  have "receive_all (map snd (x # xs)) t = Inr t'"
    using x handle_udp_opened [OF o, of a] t2(3) t3(1) t'(1) by simp
  moreover have "mset (t_tun_out t') + written (unat K) src A =
      mset (t_tun_out t) + written (unat K) src (A \<union> fst ` set (x # xs))"
    using multiset_exchange [OF t3(3) t'(2)] x by simp
  ultimately show ?case by blast
qed

end
