(* ===== verification/Tunnel_Demo.thy ===== *)
theory Tunnel_Demo
  imports Tunnel_Path
begin

text \<open>
  A concrete pair of tunnels for the witnesses: a 16-byte tag of zeros stands for the AEAD, the
  envelope is plain, the codec is \<open>v1-fixed\<close>, no obfuscation and no congestion control.
\<close>

definition demo_enc :: aead_fun where
  "demo_enc key nonce aad p = Some (p @ replicate 16 0)"

definition demo_dec :: aead_fun where
  "demo_dec key nonce aad c = (if length c < 16 then None else Some (take (length c - 16) c))"

lemma demo_laws: "aead_laws demo_enc demo_dec"
  by (simp add: aead_laws_def demo_enc_def demo_dec_def TAG_LEN_def)

definition demo_env :: tunnel_env where
  "demo_env = \<lparr>e_enc = demo_enc, e_dec = demo_dec, e_now = 1000, e_wall = 5, e_send_ok = \<lambda>_. True, e_tun_ok = \<lambda>_. True\<rparr>"

definition demo_profile :: ResolvedProfile where
  "demo_profile = \<lparr>rp_cipher = ChaCha20Poly1305, rp_transport = PlainTransport, rp_fec = fec_build ReedSolomonKind,
     rp_codec = V1FixedCodec, rp_congestion = NoneCongestion, rp_selection = sel_defaults\<rparr>"

definition demo_addr :: "nat \<Rightarrow> SocketAddr" where
  "demo_addr n = \<lparr>sock_ip = V4 10 0 0 (of_nat n), sock_port = 51820\<rparr>"

text \<open>The client sends groups of \<open>k\<close> sources with \<open>m\<close> parity symbols.\<close>

definition demo_client :: "u8 \<Rightarrow> u8 \<Rightarrow> Tunnel" where
  "demo_client k m = configure_fec \<lparr>fc_scheme = [DEFAULT_FEC_SCHEME], fc_k = k, fc_min_m = m, fc_max_m = m, fc_initial_m = m\<rparr>
     (from_handshake 0 UdpCarrier (demo_addr 1) (session_new 7 Initiator) demo_profile (build_stack None)
        [1] [2] InitiatorToResponder ResponderToInitiator counters_default)"

definition demo_server :: Tunnel where
  "demo_server = from_handshake 0 UdpCarrier (demo_addr 2) (session_new 7 Responder) demo_profile (build_stack None)
     [2] [1] ResponderToInitiator InitiatorToResponder counters_default"

lemma demo_paired: "paired (demo_client k m) demo_server"
  by (simp add: paired_def demo_client_def demo_server_def configure_fec_def from_handshake_def Let_def
      peer_stack_def wf_stack_def session_new_def build_stack_def stack_new_def)

lemmas demo_defs = demo_client_def demo_server_def configure_fec_def from_handshake_def

lemma demo_client_fields [simp]:
  "t_cc (demo_client k m) = NoneCC" "\<not> os_active (t_obf (demo_client k m))" "t_group_buffer (demo_client k m) = []"
  "t_group_index (demo_client k m) = 0" "t_group_id (demo_client k m) = 0" "t_wire (demo_client k m) = []"
  "t_sends (demo_client k m) = 0" "t_profile (demo_client k m) = demo_profile"
  by (simp_all add: demo_defs Let_def demo_profile_def build_stack_def stack_new_def)

lemma demo_params [simp]: "fp_k (t_fec_params (demo_client 1 1)) = 1" "fp_m (t_fec_params (demo_client 1 1)) = 1"
  "fp_k (t_fec_params (demo_client 2 1)) = 2" "fp_m (t_fec_params (demo_client 2 1)) = 1"
  by (simp_all add: demo_defs Let_def demo_profile_def fec_params_def with_params_def)

lemma demo_server_fields [simp]:
  "t_rx_groups demo_server = Map.empty" "t_profile demo_server = demo_profile" "t_tun_out demo_server = []"
  by (simp_all add: demo_server_def from_handshake_def)

lemma demo_env_fields [simp]:
  "e_enc demo_env = demo_enc" "e_dec demo_env = demo_dec" "e_send_ok demo_env = (\<lambda>_. True)" "e_tun_ok demo_env = (\<lambda>_. True)"
  by (simp_all add: demo_env_def)

text \<open>Every header and short payload reaches the server in some datagram.\<close>

lemma demo_datagram:
  assumes "codec_carries V1FixedCodec hdr" "length p \<le> MAX_PAYLOAD"
  obtains d where "open_datagram demo_env d demo_server = Some (hdr, p)"
proof -
  have hdr: "codec_carries (rp_codec (t_profile (demo_client 1 1))) hdr" "length p < 65536"
    using assms by (simp_all add: demo_profile_def MAX_PAYLOAD_def)
  obtain ct frame where fr: "seal_frame demo_env hdr p (demo_client 1 1) = Inr (Inr frame)"
    "encode_frame (rp_codec (t_profile (demo_client 1 1))) hdr ct = Inr frame" "length ct = length p + TAG_LEN"
    using seal_frame_ok [of demo_env demo_dec, OF _ hdr] demo_laws by auto
  have "length frame \<le> HEADER_LEN + (length p + TAG_LEN)"
    using codec_frame [OF hdr(1), of ct] fr(2,3) by (auto simp: demo_profile_def)
  then have "length frame < 65536" using assms(2) by (simp add: HEADER_LEN_def TAG_LEN_def MAX_PAYLOAD_def)
  then show thesis
    using sent_is_received [OF demo_paired _ hdr fr(1), of demo_env frame] demo_laws that
    by (simp add: wrap_frame_def demo_profile_def plain_wrap_def)
qed

end
