(* ===== verification/Tunnel_Admission.thy ===== *)
theory Tunnel_Admission
  imports Tunnel_Groups Tunnel_Demo
begin

text \<open>
  When the tunnel takes a packet of its device: the gates of \<open>handle_tun_packet\<close> decide, because a
  sealed packet within \<open>MAX_PAYLOAD\<close> always fits the path MTU when no obfuscation pads it, and no
  send path panics.
\<close>

subsection \<open>The send path does not panic\<close>

lemma send_parity_total: "\<exists>t'. send_parity e gid k i p t = Inr ((), t')"
proof -
  let ?len = "max (length p) 1"
  let ?t0 = "t\<lparr>t_cc := fst (obj_try_send_parity (e_now e) ?len (t_cc t))\<rparr>"
  let ?t1 = "snd (next_seq ?t0)"
  obtain x where "seal_frame e ((stamped_header Fec (fst (next_seq ?t0)) ?t1)\<lparr>hdr_fec_group := gid,
      hdr_fec_index := of_nat k + of_nat i, hdr_fec_k := fp_k (t_fec_params ?t1), hdr_fec_m := fp_m (t_fec_params ?t1)\<rparr>) p ?t1 = Inr x"
    using seal_frame_total stamped_header_carried(2) by blast
  then show ?thesis by (cases x) (simp_all add: send_parity_def split_def Let_def)
qed

lemma send_parities_total: "\<exists>t'. send_parities e gid k i ps t = Inr ((), t')"
proof (induction ps arbitrary: i t)
  case (Cons p ps)
  obtain t1 where "send_parity e gid k i p t = Inr ((), t1)" using send_parity_total by blast
  then show ?case using Cons.IH by simp
qed simp

lemma flush_total: "\<exists>t'. flush_fec_group e t = Inr ((), t')"
  using send_parities_total by (auto simp: flush_fec_group_def Let_def split: sum.split)

lemma join_group_total: "\<exists>t'. join_group e p k t = Inr (True, t')"
proof -
  obtain t' where "flush_fec_group e ((tally (\<lambda>c. c\<lparr>c_tx_packets := c_tx_packets c + 1,
      c_tx_bytes := c_tx_bytes c + length p\<rparr>) t)\<lparr>t_group_buffer := t_group_buffer t @ [p], t_group_index := t_group_index t + 1\<rparr>)
      = Inr ((), t')" using flush_total by blast
  then show ?thesis by (simp add: join_group_def tally_def Let_def)
qed

subsection \<open>What fits\<close>

lemma max_header_le: "max_header_len c \<le> 60"
  by (cases c) (simp_all add: HEADER_LEN_def V2_TLV_PREAMBLE_def)

lemma sealed_length:
  assumes "aead_laws (e_enc e) dec" "codec_carries (rp_codec (t_profile s)) hdr" "length p < 65536"
    "seal_frame e hdr p s = Inr (Inr frame)"
  shows "length frame \<le> max_header_len (rp_codec (t_profile s)) + length p + TAG_LEN"
proof -
  obtain ct where ct: "encode_frame (rp_codec (t_profile s)) hdr ct = Inr frame" "length ct = length p + TAG_LEN"
    using seal_frame_ok [OF assms(1-3)] assms(4) by auto
  then show ?thesis using codec_frame [OF assms(2), of ct] by auto
qed

lemma tag_bytes_le: "length (tag_bytes tr) \<le> 2"
  by (cases tr) simp_all

lemma transmit_plain:
  assumes "\<not> os_active (t_obf t)" "length frame + 2 + OUTER_OVERHEAD \<le> PATH_MTU"
  shows "fst (transmit e n len kind frame t) = e_send_ok e (t_sends t)"
proof -
  have "length (tag_bytes (rp_transport (t_profile t))) + length frame + OUTER_OVERHEAD \<le> PATH_MTU"
    using assms(2) tag_bytes_le [of "rp_transport (t_profile t)"] by linarith
  then show ?thesis using assms(1) by (simp add: transmit_def wrap_frame_def carrier_send_def Let_def)
qed

text \<open>Once its bytes are charged, a packet within the limit is sent if and only if the carrier takes it.\<close>

lemma send_data_taken:
  assumes laws: "aead_laws (e_enc e) dec" and plain: "\<not> os_active (t_obf s)" and p: "length p \<le> MAX_PAYLOAD"
  shows "\<exists>s'. send_data e p len s = Inr (e_send_ok e (t_sends s), s')"
proof -
  obtain n s1 where n: "next_seq s = (n, s1)" by fastforce
  have s1: "t_obf s1 = t_obf s" "t_sends s1 = t_sends s" "t_profile s1 = t_profile s"
    using n by (auto simp: next_seq_def alloc_seq_def)
  have p': "length p < 65536" using p by (simp add: MAX_PAYLOAD_def)
  obtain frame where fr: "seal_frame e (data_header n s1) p s1 = Inr (Inr frame)"
    using seal_frame_ok [OF laws data_header_carried p'] by blast
  have "length frame + 2 + OUTER_OVERHEAD \<le> PATH_MTU"
    using sealed_length [OF laws data_header_carried p' fr] max_header_le [of "rp_codec (t_profile s1)"] p
    by (simp add: MAX_PAYLOAD_def HEADER_LEN_def AEAD_TAG_LEN_def TAG_LEN_def OUTER_OVERHEAD_def UDP_HEADER_LEN_def
        IPV4_HEADER_LEN_def PATH_MTU_def)
  then have "fst (transmit e n len SentData frame s1) = e_send_ok e (t_sends s)"
    using transmit_plain plain s1 by simp
  then show ?thesis
    using fr n join_group_total [of e p "fp_k (t_fec_params s1)" "snd (transmit e n len SentData frame s1)"]
    by (simp add: send_data_def split_def Let_def)
qed

lemma tun_packet_admitted:
  assumes "aead_laws (e_enc e) dec" "\<not> os_active (t_obf s)"
  shows "\<exists>s'. handle_tun_packet e p s = Inr (length p \<le> MAX_PAYLOAD \<and> max (length p) 1 \<le> obj_send_budget (t_cc s) \<and>
    snd (obj_may_send (e_now e) (max (length p) 1) (t_cc s)) \<and> e_send_ok e (t_sends s), s')"
proof (cases "length p \<le> MAX_PAYLOAD \<and> max (length p) 1 \<le> obj_send_budget (t_cc s) \<and>
    snd (obj_may_send (e_now e) (max (length p) 1) (t_cc s))")
  case True
  let ?len = "max (length p) 1"
  let ?s = "s\<lparr>t_cc := obj_on_send_bytes ?len (fst (obj_may_send (e_now e) ?len (t_cc s)))\<rparr>"
  have "handle_tun_packet e p s = send_data e p ?len ?s"
    using True by (auto simp: handle_tun_packet_def split_def Let_def)
  then show ?thesis using send_data_taken [OF assms(1), of ?s p ?len] assms(2) True by simp
next
  case False
  then show ?thesis by (auto simp: handle_tun_packet_def split_def Let_def)
qed

text \<open>C33. Admission. Without obfuscation, \<open>handle_tun_packet\<close> always returns, and it takes the packet
  if and only if the packet is at most \<open>MAX_PAYLOAD\<close> bytes long, the congestion window has room for
  it, the pacer is not holding packets back and the carrier accepts the datagram. In particular
  the path-MTU guard never drops a packet within \<open>MAX_PAYLOAD\<close>, for any codec and envelope.\<close>

theorem tun_packet_taken_iff:
  assumes "aead_laws (e_enc e) dec" "\<not> os_active (t_obf s)"
  shows "\<exists>s'. handle_tun_packet e p s = Inr (length p \<le> MAX_PAYLOAD \<and> max (length p) 1 \<le> obj_send_budget (t_cc s) \<and>
    snd (obj_may_send (e_now e) (max (length p) 1) (t_cc s)) \<and> e_send_ok e (t_sends s), s')"
  using assms by (rule tun_packet_admitted)

theorem tun_packet_taken_iff_witness: "\<exists>s'. handle_tun_packet demo_env [1, 2] (demo_client 2 1) = Inr (True, s')"
  using tun_packet_taken_iff [of demo_env demo_dec "demo_client 2 1" "[1, 2]"] demo_laws
  by (simp add: MAX_PAYLOAD_def HEADER_LEN_def AEAD_TAG_LEN_def none_send_budget_def none_may_send_def U64_MAX_def)

end
