(* ===== verification/Tunnel_Safety.thy ===== *)
theory Tunnel_Safety
  imports Tunnel_Transfer
begin

text \<open>
  What a datagram can do to a tunnel: when the peer address moves, exactly which datagrams make the
  receive path panic, and when a group cannot be recovered.
\<close>

subsection \<open>Roaming\<close>

lemma roam_peer: "t_peer (roam a t) = (if supports_roaming (t_carrier t) then a else t_peer t)"
  by (simp add: roam_def Let_def)

lemma received_keeps:
  assumes "handle_udp_datagram e d a t = Inr (res, t')"
  shows "core t' = core t" "t_peer t' = (if open_datagram e d t \<noteq> None then t_peer (roam a t) else t_peer t)"
    "open_datagram e d t = None \<Longrightarrow> t' = t"
proof (atomize (full), cases "open_datagram e d t")
  case None
  then show "core t' = core t \<and> t_peer t' = (if open_datagram e d t \<noteq> None then t_peer (roam a t) else t_peer t) \<and>
      (open_datagram e d t = None \<longrightarrow> t' = t)"
    using handle_udp_not_opened [of e d t a] assms by auto
next
  case (Some x)
  obtain hdr p where x: "x = (hdr, p)" by fastforce
  obtain u where "accept_packet e hdr p a t = Inr (u, t')"
    using assms handle_udp_opened [of e d t hdr p a] Some x by (auto simp: try_bind_eq_Inr)
  then show "core t' = core t \<and> t_peer t' = (if open_datagram e d t \<noteq> None then t_peer (roam a t) else t_peer t) \<and>
      (open_datagram e d t = None \<longrightarrow> t' = t)"
    using accept_keeps Some by auto
qed

text \<open>C21. Roaming. A datagram that does not open under the session key changes nothing at all. One
  that opens makes its source address the peer address on a roaming carrier, and leaves the peer
  address on a stream carrier; this also holds for a datagram that was received before, so
  a replay from another address moves the peer there.\<close>

theorem roaming_needs_key:
  assumes "handle_udp_datagram e d a t = Inr (res, t')"
  shows "(if open_datagram e d t = None then t' = t
      else t_peer t' = (if supports_roaming (t_carrier t) then a else t_peer t)) \<and>
    (\<forall>a' res' t''. handle_udp_datagram e d a' t' = Inr (res', t'') \<longrightarrow> supports_roaming (t_carrier t) \<longrightarrow>
      open_datagram e d t \<noteq> None \<longrightarrow> t_peer t'' = a')"
proof -
  note k = received_keeps [OF assms]
  have "open_datagram e d t' = open_datagram e d t" "t_carrier t' = t_carrier t"
    using open_datagram_cong coreD(2,3) [OF k(1)] by blast+
  then show ?thesis using k received_keeps(2) [of e d _ t'] by (auto simp: roam_peer)
qed

subsection \<open>Panics\<close>

definition rx_wf :: "Tunnel \<Rightarrow> bool" where
  "rx_wf t \<longleftrightarrow> (\<forall>g entry. t_rx_groups t g = Some entry \<longrightarrow>
     length (rg_symbols entry) = unat (rg_k entry) + unat (rg_m entry) \<and> length (rg_delivered entry) = unat (rg_k entry))"

text \<open>The symbols that do not fit the group they claim to belong to: the group was opened by a
  packet with smaller parameters.\<close>

definition outgrows :: "packet_header \<Rightarrow> RxGroup \<Rightarrow> bool" where
  "outgrows hdr entry \<longleftrightarrow> (let i = unat (hdr_fec_index hdr) in
     i < unat (hdr_fec_k hdr) + unat (hdr_fec_m hdr) \<and>
     (unat (rg_k entry) + unat (rg_m entry) \<le> i \<or>
      hdr_type hdr = Data \<and> i < unat (hdr_fec_k hdr) \<and> unat (rg_k entry) \<le> i \<and> rg_symbols entry ! i = None))"

lemma recover_group_total: "rx_wf t \<Longrightarrow> \<exists>t'. recover_group e g t = Inr ((), t')"
  by (auto simp: recover_group_def rx_wf_def split_def Let_def split: option.splits sum.splits)

lemma rx_wf_put:
  "rx_wf t \<Longrightarrow> length (rg_symbols entry) = unat (rg_k entry) + unat (rg_m entry) \<Longrightarrow>
   length (rg_delivered entry) = unat (rg_k entry) \<Longrightarrow> rx_wf (t\<lparr>t_rx_groups := (t_rx_groups t)(g \<mapsto> entry)\<rparr>)"
  by (simp add: rx_wf_def)

lemma rx_wf_cong: "t_rx_groups t' = t_rx_groups t \<Longrightarrow> rx_wf t' = rx_wf t"
  by (simp add: rx_wf_def)

text \<open>The group record a symbol goes to, and that record with the symbol entered.\<close>

definition slot_entry :: "tunnel_env \<Rightarrow> u16 \<Rightarrow> u8 \<Rightarrow> u8 \<Rightarrow> Tunnel \<Rightarrow> RxGroup" where
  "slot_entry e g k m t = (case t_rx_groups t g of Some entry \<Rightarrow> entry | None \<Rightarrow> rx_group_new (e_now e) k m)"

definition entered :: "tunnel_env \<Rightarrow> nat \<Rightarrow> nat \<Rightarrow> bytes \<Rightarrow> bool \<Rightarrow> RxGroup \<Rightarrow> RxGroup" where
  "entered e i k p b entry = entry\<lparr>rg_deadline := e_now e + RX_GROUP_TTL, rg_symbols := (rg_symbols entry)[i := Some p],
    rg_delivered := (if b \<and> rg_symbols entry ! i = None \<and> i < k then (rg_delivered entry)[i := True] else rg_delivered entry)\<rparr>"

lemma record_rx_symbol_eq:
  "record_rx_symbol e g i k m p b t =
     (let entry = slot_entry e g k m t; put = \<lambda>entry. t\<lparr>t_rx_groups := (t_rx_groups t)(g \<mapsto> entry)\<rparr>;
          entry' = entered e (unat i) (unat k) p b entry
      in if unat k + unat m \<le> unat i then Inr ((), put (entry\<lparr>rg_deadline := e_now e + RX_GROUP_TTL\<rparr>))
         else if length (rg_symbols entry) \<le> unat i \<or>
           b \<and> rg_symbols entry ! unat i = None \<and> unat i < unat k \<and> length (rg_delivered entry) \<le> unat i then Inl IndexOutOfBounds
         else if \<not> rg_decoded entry \<and> unat k \<le> length (filter (\<lambda>s. s \<noteq> None) (rg_symbols entry'))
         then recover_group e g (put entry') else Inr ((), put entry'))"
  unfolding record_rx_symbol_def slot_entry_def [symmetric] Let_def by (simp add: entered_def)

lemma slot_entry_wf:
  assumes "rx_wf t"
  shows "length (rg_symbols (slot_entry e g k m t)) = unat (rg_k (slot_entry e g k m t)) + unat (rg_m (slot_entry e g k m t))"
    "length (rg_delivered (slot_entry e g k m t)) = unat (rg_k (slot_entry e g k m t))"
  using assms by (auto simp: slot_entry_def rx_wf_def rx_group_new_def split: option.splits)

lemma entered_wf: "rx_wf t \<Longrightarrow> rx_wf (t\<lparr>t_rx_groups := (t_rx_groups t)(g \<mapsto> entered e i k' p b (slot_entry e g k m t))\<rparr>)"
  by (rule rx_wf_put) (simp_all add: entered_def slot_entry_wf)

lemma record_panics_iff:
  assumes wf: "rx_wf t"
  shows "record_rx_symbol e (hdr_fec_group hdr) (hdr_fec_index hdr) (hdr_fec_k hdr) (hdr_fec_m hdr) p (hdr_type hdr = Data) t
      = Inl x \<longleftrightarrow> x = IndexOutOfBounds \<and> (\<exists>entry. t_rx_groups t (hdr_fec_group hdr) = Some entry \<and> outgrows hdr entry)"
proof -
  let ?g = "hdr_fec_group hdr" and ?i = "unat (hdr_fec_index hdr)" and ?k = "hdr_fec_k hdr" and ?m = "hdr_fec_m hdr"
  let ?en = "slot_entry e ?g ?k ?m t"
  obtain t' where "recover_group e ?g (t\<lparr>t_rx_groups := (t_rx_groups t)(?g \<mapsto> entered e ?i (unat ?k) p (hdr_type hdr = Data) ?en)\<rparr>)
      = Inr ((), t')" using recover_group_total [OF entered_wf [OF wf]] by blast
  then have "record_rx_symbol e ?g (hdr_fec_index hdr) ?k ?m p (hdr_type hdr = Data) t = Inl x \<longleftrightarrow>
      x = IndexOutOfBounds \<and> outgrows hdr ?en"
    using slot_entry_wf [OF wf, of e ?g ?k ?m] by (auto simp: record_rx_symbol_eq outgrows_def Let_def)
  moreover have "(\<exists>entry. t_rx_groups t ?g = Some entry \<and> outgrows hdr entry) \<longleftrightarrow> outgrows hdr ?en"
    by (cases "t_rx_groups t ?g") (auto simp: slot_entry_def outgrows_def rx_group_new_def Let_def)
  ultimately show ?thesis by simp
qed

lemma rx_wf_tun_send [simp]: "rx_wf (snd (tun_send e p t)) = rx_wf t"
  by (rule rx_wf_cong) (simp add: tun_send_def Let_def)

lemma tun_send_groups [simp]: "t_rx_groups (snd (tun_send e p t)) = t_rx_groups t"
  by (simp add: tun_send_def Let_def)

lemma delivered_total:
  "rx_wf t \<Longrightarrow> \<exists>b. is_source_delivered g i t = Inr (b, t)"
  by (auto simp: is_source_delivered_def rx_wf_def split: option.split)

definition fec_symbol :: "packet_header \<Rightarrow> bool" where
  "fec_symbol hdr \<longleftrightarrow> hdr_type hdr \<in> {Data, Fec} \<and> hdr_fec_m hdr > 0"

lemma dispatch_panics_iff:
  assumes wf: "rx_wf t"
  shows "dispatch_packet e hdr p t = Inl x \<longleftrightarrow> x = IndexOutOfBounds \<and> fec_symbol hdr \<and>
    (\<exists>entry. t_rx_groups t (hdr_fec_group hdr) = Some entry \<and> outgrows hdr entry)"
proof (cases "hdr_type hdr")
  case Data
  obtain b where "is_source_delivered (hdr_fec_group hdr) (hdr_fec_index hdr) t = Inr (b, t)"
    using delivered_total [OF wf] by blast
  moreover have "rx_wf (snd (tun_send e p t))" using wf by simp
  ultimately show ?thesis
    using Data record_panics_iff [OF wf, of e hdr p x] record_panics_iff [of "snd (tun_send e p t)" e hdr p x]
    by (auto simp: dispatch_packet_def handle_data_def fec_symbol_def split_def Let_def word_gt_0)
next
  case Fec
  then show ?thesis using record_panics_iff [OF wf, of e hdr p x]
    by (auto simp: dispatch_packet_def handle_parity_def fec_symbol_def word_gt_0)
next
  case Ping
  then show ?thesis using send_packet_total [of e Pong p t] by (auto simp: dispatch_packet_def handle_ping_def fec_symbol_def)
qed (simp_all add: dispatch_packet_def fec_symbol_def)

lemma fec_symbol_unreliable: "fec_symbol hdr \<Longrightarrow> \<not> is_reliable (hdr_type hdr)"
  by (auto simp: fec_symbol_def is_reliable_def)

lemma udp_panics_iff:
  assumes wf: "rx_wf t"
  shows "handle_udp_datagram e d a t = Inl x \<longleftrightarrow> x = IndexOutOfBounds \<and>
      (\<exists>hdr p entry. open_datagram e d t = Some (hdr, p) \<and> fec_symbol hdr \<and>
         t_rx_groups t (hdr_fec_group hdr) = Some entry \<and> outgrows hdr entry)"
proof (cases "open_datagram e d t")
  case None
  then show ?thesis using handle_udp_not_opened [OF None, of a] by auto
next
  case (Some y)
  obtain hdr p where y: "y = (hdr, p)" by fastforce
  obtain t2 where t2: "rx_view t2 = rx_view t" "accept_packet e hdr p a t = dispatch_packet e hdr p t2 \<or>
      is_reliable (hdr_type hdr) \<and> accept_packet e hdr p a t = Inr ((), t2)"
    using accept_split [of t a e hdr p] by metis
  have g: "t_rx_groups t2 = t_rx_groups t" using rx_viewD [OF t2(1)] by simp
  have "accept_packet e hdr p a t = Inl x \<longleftrightarrow> dispatch_packet e hdr p t2 = Inl x"
    using t2(2) fec_symbol_unreliable dispatch_panics_iff [of t2 e hdr p x] wf rx_wf_cong [OF g] by auto
  moreover have "handle_udp_datagram e d a t = Inl x \<longleftrightarrow> accept_packet e hdr p a t = Inl x"
    using handle_udp_opened [of e d t hdr p a] Some y by (cases "accept_packet e hdr p a t") auto
  ultimately show ?thesis
    using dispatch_panics_iff [of t2 e hdr p x] wf rx_wf_cong [OF g] g Some y by simp
qed

subsection \<open>Group records stay well-formed\<close>

lemma write_recovered_groups: "t_rx_groups (snd (write_recovered e pre i ss t)) = t_rx_groups t"
  by (induction ss arbitrary: i t) (simp_all add: split_def Let_def)

lemma recover_group_wf: "recover_group e g t = Inr (u, t') \<Longrightarrow> rx_wf t \<Longrightarrow> rx_wf t'"
  by (auto simp: recover_group_def write_recovered_groups rx_wf_def tally_def split_def Let_def
      split: option.split_asm if_split_asm sum.split_asm)

lemma record_wf: "record_rx_symbol e g i k m p b t = Inr (u, t') \<Longrightarrow> rx_wf t \<Longrightarrow> rx_wf t'"
  using slot_entry_wf [of t e g k m]
  by (auto simp: record_rx_symbol_eq Let_def intro!: entered_wf rx_wf_put split: if_split_asm
      dest: recover_group_wf [OF _ entered_wf])

lemma handle_data_wf: "handle_data e hdr p t = Inr (u, t') \<Longrightarrow> rx_wf t \<Longrightarrow> rx_wf t'"
  by (auto simp: handle_data_def try_bind_eq_Inr split_def Let_def split: if_split_asm
      dest!: is_source_delivered_same dest: record_wf)

lemma ends_wf: "ends t' = ends t \<Longrightarrow> rx_wf t' = rx_wf t"
  by (rule rx_wf_cong) (rule endsD(4))

lemma dispatch_wf: "dispatch_packet e hdr p t = Inr (u, t') \<Longrightarrow> rx_wf t \<Longrightarrow> rx_wf t'"
  by (auto simp: dispatch_packet_def handle_parity_def handle_ping_def ends_wf [OF handle_pong_ends]
      ends_wf [OF ends_fields(19)] dest: ends_wf [OF ends_send_packet] split: packet_type.split_asm if_split_asm
      intro: handle_data_wf record_wf)

lemma udp_wf:
  assumes "handle_udp_datagram e d a t = Inr (res, t')" "rx_wf t"
  shows "rx_wf t'"
proof (cases "open_datagram e d t")
  case None
  then show ?thesis using received_keeps(3) [OF assms(1)] assms(2) by simp
next
  case (Some y)
  obtain hdr p where y: "y = (hdr, p)" by fastforce
  obtain t2 where t2: "rx_view t2 = rx_view t" "accept_packet e hdr p a t = dispatch_packet e hdr p t2 \<or>
      is_reliable (hdr_type hdr) \<and> accept_packet e hdr p a t = Inr ((), t2)"
    using accept_split [of t a e hdr p] by metis
  have "rx_wf t2" using rx_viewD [OF t2(1)] rx_wf_cong [of t2 t] assms(2) by simp
  moreover obtain u where "accept_packet e hdr p a t = Inr (u, t')"
    using assms(1) handle_udp_opened [of e d t hdr p a] Some y by (auto simp: try_bind_eq_Inr)
  ultimately show ?thesis using t2(2) dispatch_wf [of e hdr p t2] by auto
qed

text \<open>C9. Panics of the receive path. In a tunnel whose group records are well-formed, a datagram makes
  the receive path panic if and only if it opens under the session key and carries a data or parity
  symbol that outgrows the group its number names: its index fits the group parameters of its
  own header but not those of the packet that opened the group. Everything else, garbage included,
  is handled without a panic and leaves the records well-formed.\<close>

theorem receive_panics_iff:
  assumes "rx_wf t"
  shows "(case handle_udp_datagram e d a t of
      Inl x \<Rightarrow> x = IndexOutOfBounds \<and> (\<exists>hdr p entry. open_datagram e d t = Some (hdr, p) \<and> fec_symbol hdr \<and>
         t_rx_groups t (hdr_fec_group hdr) = Some entry \<and> outgrows hdr entry)
    | Inr (res, t') \<Rightarrow> rx_wf t' \<and> \<not> (\<exists>hdr p entry. open_datagram e d t = Some (hdr, p) \<and> fec_symbol hdr \<and>
         t_rx_groups t (hdr_fec_group hdr) = Some entry \<and> outgrows hdr entry))"
  using udp_panics_iff [OF assms, of e d a] udp_wf [OF _ assms, of e d a]
  by (cases "handle_udp_datagram e d a t") (auto split: prod.split)

text \<open>A sender that raises its parity count from one to two inside a group of two sources: the
  receiver opened the group for three symbols, the second parity packet has index three.\<close>

definition raised_parity :: packet_header where
  "raised_parity = (new_header Fec 7 5)\<lparr>hdr_fec_group := 0, hdr_fec_index := 3, hdr_fec_k := 2, hdr_fec_m := 2\<rparr>"

theorem receive_panics_iff_witness:
  "\<exists>d. handle_udp_datagram demo_env d (demo_addr 1) (demo_server\<lparr>t_rx_groups := [0 \<mapsto> rx_group_new 0 2 1]\<rparr>)
     = Inl IndexOutOfBounds"
proof -
  let ?t = "demo_server\<lparr>t_rx_groups := [0 \<mapsto> rx_group_new 0 2 1]\<rparr>"
  have "codec_carries V1FixedCodec raised_parity"
    by (simp add: raised_parity_def new_header_def wf_header_def FLAGS_NONE_def)
  then obtain d where d: "open_datagram demo_env d demo_server = Some (raised_parity, [1])"
    by (rule demo_datagram [of raised_parity "[1]"]) (simp add: MAX_PAYLOAD_def HEADER_LEN_def AEAD_TAG_LEN_def)
  have "open_datagram demo_env d ?t = open_datagram demo_env d demo_server"
    by (rule open_datagram_cong) (simp_all add: same_receiver_def)
  moreover have "rx_wf ?t" by (simp add: rx_wf_def rx_group_new_def)
  ultimately show ?thesis
    using d receive_panics_iff [of ?t demo_env d "demo_addr 1"]
    by (auto simp: raised_parity_def new_header_def fec_symbol_def outgrows_def rx_group_new_def split: sum.splits)
qed

theorem roaming_needs_key_witness:
  "\<exists>d res t'. handle_udp_datagram demo_env d (demo_addr 3) demo_server = Inr (res, t') \<and> t_peer t' = demo_addr 3"
proof -
  have "codec_carries V1FixedCodec raised_parity"
    by (simp add: raised_parity_def new_header_def wf_header_def FLAGS_NONE_def)
  then obtain d where d: "open_datagram demo_env d demo_server = Some (raised_parity, [1])"
    by (rule demo_datagram [of raised_parity "[1]"]) (simp add: MAX_PAYLOAD_def HEADER_LEN_def AEAD_TAG_LEN_def)
  have "rx_wf demo_server" by (simp add: rx_wf_def)
  then obtain res t' where r: "handle_udp_datagram demo_env d (demo_addr 3) demo_server = Inr (res, t')"
    using udp_panics_iff [of demo_server demo_env d "demo_addr 3"] by (cases "handle_udp_datagram demo_env d (demo_addr 3) demo_server") auto
  then show ?thesis using roaming_needs_key [OF r] d by (auto simp: demo_server_def from_handshake_def)
qed

subsection \<open>Groups that cannot be recovered\<close>

lemma rs_decode_uneven:
  assumes "Some s1 \<in> set syms" "Some s2 \<in> set syms" "length s1 \<noteq> length s2"
  shows "\<exists>err. rs_decode rs syms = Inl err"
proof (cases "find_map (map_option length) syms")
  case None
  then show ?thesis by (simp add: rs_decode_def Let_def)
next
  case (Some len)
  have "s1 \<in> set (List.map_filter id syms)" "s2 \<in> set (List.map_filter id syms)"
    using image_eqI [of _ the "Some s1"] image_eqI [of _ the "Some s2"] assms(1,2) by (simp_all add: List.map_filter_def)
  then have "find (\<lambda>s. length s \<noteq> len) (List.map_filter id syms) \<noteq> None"
    using assms(3) by (auto simp: find_None_iff)
  then show ?thesis using Some by (auto simp: rs_decode_def check_lengths_def Let_def)
qed

text \<open>Groups of mixed packet sizes. The sender pads the sources of a group before it computes
  parity, and the receiver stores sources unpadded. If a group record holds two symbols of
  different length, such as a source shorter than the group's parity, recovery leaves the tunnel
  as it is: no lost packet of that group is ever restored, however much parity arrives.\<close>

theorem uneven_group_not_recovered:
  assumes "t_rx_groups t g = Some entry" "rp_fec (t_profile t) = fec_build ReedSolomonKind"
    "Some s1 \<in> set (rg_symbols entry)" "Some s2 \<in> set (rg_symbols entry)" "length s1 \<noteq> length s2"
  shows "recover_group e g t = Inr ((), t)"
proof -
  have "\<exists>err. rs_scheme_decode k m (rg_symbols entry) = Inl err" for k m
    using rs_decode_uneven [OF assms(3-5)] by (cases "rs_new k m") (auto simp: rs_scheme_decode_def)
  then obtain err where "rs_scheme_decode (unat (rg_k entry)) (unat (rg_m entry)) (rg_symbols entry) = Inl err" by blast
  then show ?thesis using assms(1,2) by (simp add: recover_group_def)
qed

theorem uneven_group_not_recovered_witness:
  "recover_group demo_env 0 (demo_server\<lparr>t_rx_groups := [0 \<mapsto> (rx_group_new 0 2 1)\<lparr>rg_symbols := [None, Some [1], Some [2, 3]]\<rparr>]\<rparr>) =
   Inr ((), demo_server\<lparr>t_rx_groups := [0 \<mapsto> (rx_group_new 0 2 1)\<lparr>rg_symbols := [None, Some [1], Some [2, 3]]\<rparr>]\<rparr>)"
  using uneven_group_not_recovered [of "demo_server\<lparr>t_rx_groups := [0 \<mapsto> (rx_group_new 0 2 1)\<lparr>rg_symbols := [None, Some [1], Some [2, 3]]\<rparr>]\<rparr>"
    0 "(rx_group_new 0 2 1)\<lparr>rg_symbols := [None, Some [1], Some [2, 3]]\<rparr>" "[1]" "[2, 3]" demo_env]
  by (simp add: demo_profile_def)

end
