(* ===== verification/Tunnel_Ledger.thy ===== *)
theory Tunnel_Ledger
  imports Tunnel_Safety
begin

text \<open>
  The byte ledger between the tunnel and its congestion controller: at every moment the controller
  counts as in flight exactly the bytes of the sent packets the tunnel still waits for, through
  sends, failures, acknowledgements and losses, so that the window neither leaks nor gains credit.
\<close>

subsection \<open>The controller's side\<close>

definition charged :: "cc_obj \<Rightarrow> nat \<Rightarrow> bool" where
  "charged obj b \<longleftrightarrow> (case obj of RenoCC c \<Rightarrow> cc_inv c \<and> cc_in_flight c = b | NoneCC \<Rightarrow> True)"

lemma charged_simps [simp]: "charged (RenoCC c) b \<longleftrightarrow> cc_inv c \<and> cc_in_flight c = b" "charged NoneCC b"
  by (simp_all add: charged_def)

lemma cc_inv_cwnd: "cc_inv c \<Longrightarrow> cc_cwnd c \<le> U64_MAX"
  by (simp add: cc_inv_def)

lemma charged_may_send: "charged obj b \<Longrightarrow> charged (fst (obj_may_send now len obj)) b"
  by (cases obj) (simp_all add: split_def Let_def may_send_inv)

lemma may_send_budget [simp]: "obj_send_budget (fst (obj_may_send now len obj)) = obj_send_budget obj"
  by (cases obj) (simp_all add: split_def Let_def send_budget_def)

lemma charged_send: "charged obj b \<Longrightarrow> max len 1 \<le> obj_send_budget obj \<Longrightarrow> charged (obj_on_send_bytes len obj) (b + max len 1)"
  by (cases obj) (simp_all add: on_send_exact on_send_inv cc_inv_cwnd)

lemma charged_parity:
  assumes "charged obj b" "obj_try_send_parity now len obj = (obj', ok)"
  shows "charged obj' (if ok then b + max len 1 else b)"
proof (cases obj)
  case (RenoCC c)
  then show ?thesis using assms on_send_exact [of c len] cc_inv_cwnd [of c]
    by (auto simp: try_send_parity_def on_send_inv not_less Let_def split: if_splits)
qed (use assms in auto)

lemma refund_flight [simp]: "cc_in_flight (refund_send_bytes n c) = cc_in_flight c - n"
  by (simp add: refund_send_bytes_def release_def Let_def split: option.split)

lemma charged_refund: "charged obj (b + n) \<Longrightarrow> charged (obj_refund n obj) b"
  by (cases obj) (simp_all add: refund_inv)

lemma charged_release: "charged obj (b + n) \<Longrightarrow> charged (obj_release n obj) b"
  by (cases obj) (simp_all add: release_inv, simp add: release_def)

lemma ack_common_flight: "cc_in_flight (ack_common n cc) = cc_in_flight cc - max n 1"
  by (simp add: ack_common_def Let_def)

lemma on_rtt_flight [simp]: "cc_in_flight (on_rtt_sample r cc) = cc_in_flight cc"
  by (simp add: on_rtt_sample_def Let_def)

lemma charged_ack: "charged obj (b + n) \<Longrightarrow> 1 \<le> n \<Longrightarrow> charged (obj_on_ack n rtt obj) b"
  by (cases obj; cases rtt)
    (simp_all add: on_ack_with_rtt_def on_ack_bytes_def ack_common_inv on_rtt_inv ack_common_flight)

lemma charged_loss: "charged obj b \<Longrightarrow> charged (obj_on_loss l n obj) b"
  by (cases obj) (simp_all add: on_loss_inv, simp add: on_loss_def Let_def)

lemma charged_rtt: "charged obj b \<Longrightarrow> charged (obj_on_rtt_sample r obj) b"
  by (cases obj) (simp_all add: on_rtt_inv)

lemma charged_mtu: "charged obj b \<Longrightarrow> charged (obj_set_mtu n obj) b"
  by (cases obj) (auto intro: cc_step_inv [OF step_mtu], simp add: set_mtu_def)

subsection \<open>The tunnel's side\<close>

definition booked :: "(u32 \<times> SentPacket) list \<Rightarrow> nat" where
  "booked sent = sum_list (map (\<lambda>(n, p). sp_bytes p) sent)"

definition seqs_used :: "Tunnel \<Rightarrow> nat" where
  "seqs_used t = unat (ss_next_seq (t_session t))"

text \<open>The books are balanced but for \<open>x\<close> bytes charged for a packet on its way out.\<close>

definition balanced :: "nat \<Rightarrow> Tunnel \<Rightarrow> bool" where
  "balanced x t \<longleftrightarrow> charged (t_cc t) (booked (t_sent_packets t) + x) \<and> distinct (map fst (t_sent_packets t)) \<and>
     (\<forall>(n, p) \<in> set (t_sent_packets t). unat n < seqs_used t)"

definition book :: "Tunnel \<Rightarrow> cc_obj \<times> (u32 \<times> SentPacket) list \<times> u32" where
  "book t = (t_cc t, t_sent_packets t, ss_next_seq (t_session t))"

text \<open>A handler that allocates at most \<open>k\<close> sequence numbers and keeps the books balanced while
  the sequence space lasts.\<close>

definition keeps_books :: "nat \<Rightarrow> Tunnel \<Rightarrow> Tunnel \<Rightarrow> bool" where
  "keeps_books k t t' \<longleftrightarrow> (balanced 0 t \<longrightarrow> seqs_used t + k < 2 ^ 32 \<longrightarrow> balanced 0 t' \<and> seqs_used t' \<le> seqs_used t + k)"

lemma keeps_trans: "keeps_books j t t' \<Longrightarrow> keeps_books k t' t'' \<Longrightarrow> keeps_books (j + k) t t''"
  by (auto simp: keeps_books_def)

lemma keeps_mono: "keeps_books j t t' \<Longrightarrow> j \<le> k \<Longrightarrow> keeps_books k t t'"
  by (auto simp: keeps_books_def)

lemma book_eq: "book t' = book t \<Longrightarrow> balanced x t' = balanced x t \<and> seqs_used t' = seqs_used t"
  by (simp add: book_def balanced_def seqs_used_def)

lemma keeps_same: "book t' = book t \<Longrightarrow> keeps_books k t t'"
  using book_eq [of t' t] by (simp add: keeps_books_def)

lemma keeps_after: "keeps_books k t t' \<Longrightarrow> book t'' = book t' \<Longrightarrow> keeps_books k t t''"
  using book_eq [of t'' t'] by (simp add: keeps_books_def)

lemma keeps_before: "keeps_books k t t' \<Longrightarrow> book t0 = book t \<Longrightarrow> keeps_books k t0 t'"
  using book_eq [of t0 t] by (simp add: keeps_books_def)

lemma book_fields [simp]:
  "book (tally x2 t) = book t" "book (t\<lparr>t_outstanding := x4\<rparr>) = book t" "book (t\<lparr>t_rx_since_ack := x5\<rparr>) = book t"
  "book (t\<lparr>t_group_buffer := x6\<rparr>) = book t" "book (t\<lparr>t_group_index := x7\<rparr>) = book t"
  "book (t\<lparr>t_group_id := x8\<rparr>) = book t" "book (t\<lparr>t_pending_out := x9\<rparr>) = book t"
  "book (t\<lparr>t_pending_deadline := x10\<rparr>) = book t" "book (t\<lparr>t_counters := x11\<rparr>) = book t"
  "book (t\<lparr>t_wire_loss := x12\<rparr>) = book t" "book (t\<lparr>t_source_loss := x13\<rparr>) = book t"
  "book (t\<lparr>t_fec := x14\<rparr>) = book t" "book (t\<lparr>t_fec_params := x15\<rparr>) = book t"
  "book (t\<lparr>t_last_peer_ack := x16\<rparr>) = book t" "book (t\<lparr>t_last_peer_bitmap := x17\<rparr>) = book t"
  "book (t\<lparr>t_last_peer_activity := x18\<rparr>) = book t" "book (t\<lparr>t_closing := x19\<rparr>) = book t"
  "book (t\<lparr>t_ping_seq := x20\<rparr>) = book t" "book (t\<lparr>t_last_ping_sent := x21\<rparr>) = book t"
  "book (t\<lparr>t_rx_groups := x22\<rparr>) = book t" "book (snd (tun_send e p t)) = book t" "book (roam a t) = book t"
  "ss_next_seq x23 = ss_next_seq (t_session t) \<Longrightarrow> book (t\<lparr>t_session := x23\<rparr>) = book t"
  by (simp_all add: book_def tally_def tun_send_def roam_def Let_def)

lemma book_wrap [simp]: "book (snd (wrap_frame e f t)) = book t"
  by (simp add: book_def wrap_frame_def split_def Let_def)

lemma book_carrier [simp]: "book (snd (carrier_send e w t)) = book t"
  by (simp add: book_def carrier_send_def Let_def)

lemma keeps_cong: "book s = book t \<Longrightarrow> book s' = book t' \<Longrightarrow> keeps_books k s s' = keeps_books k t t'"
  using book_eq [of s t] book_eq [of s' t'] by (simp add: keeps_books_def)

lemma book_park [simp]: "book (park_if_paced e p t) = book t"
  by (simp add: park_if_paced_def split: option.split)

lemma keeps_fields [simp]:
  "keeps_books k (t\<lparr>t_rx_since_ack := x1\<rparr>) t' = keeps_books k t t'" "keeps_books k (t\<lparr>t_pending_out := x2\<rparr>) t' = keeps_books k t t'"
  "keeps_books k (t\<lparr>t_pending_deadline := x3\<rparr>) t' = keeps_books k t t'" "keeps_books k (t\<lparr>t_ping_seq := x4\<rparr>) t' = keeps_books k t t'"
  "keeps_books k (t\<lparr>t_last_ping_sent := x5\<rparr>) t' = keeps_books k t t'"
  "keeps_books k t (t'\<lparr>t_pending_deadline := x6\<rparr>) = keeps_books k t t'"
  "keeps_books k t (park_if_paced e p t') = keeps_books k t t'" "keeps_books k t (tally f t') = keeps_books k t t'"
  "keeps_books k t (t'\<lparr>t_rx_groups := x7\<rparr>) = keeps_books k t t'"
  by (rule keeps_cong; simp)+

subsection \<open>Sending\<close>

lemma next_seq_balanced:
  assumes "balanced x t" "seqs_used t + 1 < 2 ^ 32" "next_seq t = (n, t')"
  shows "balanced x t'" "seqs_used t' = seqs_used t + 1" "n \<notin> fst ` set (t_sent_packets t')" "unat n < seqs_used t'"
    "t_cc t' = t_cc t"
proof -
  have t': "t' = t\<lparr>t_session := (t_session t)\<lparr>ss_next_seq := ss_next_seq (t_session t) + 1\<rparr>\<rparr>" "n = ss_next_seq (t_session t)"
    using assms(3) by (auto simp: next_seq_def alloc_seq_def)
  have "unat (ss_next_seq (t_session t) + 1) = unat (ss_next_seq (t_session t)) + 1"
    using assms(2) by (simp add: seqs_used_def unat_word_ariths)
  then show used: "seqs_used t' = seqs_used t + 1" by (simp add: seqs_used_def t')
  show "balanced x t'" using assms(1) used unfolding balanced_def by (auto simp: t'(1))
  show "n \<notin> fst ` set (t_sent_packets t')" using assms(1) by (auto simp: balanced_def seqs_used_def t')
  show "unat n < seqs_used t'" using used by (simp add: seqs_used_def t'(2))
  show "t_cc t' = t_cc t" by (simp add: t'(1))
qed

lemma update_fresh: "n \<notin> fst ` set xs \<Longrightarrow> AList.update n v xs = xs @ [(n, v)]"
  by (induction xs) auto

lemma transmit_balanced:
  assumes "balanced len t" "n \<notin> fst ` set (t_sent_packets t)" "unat n < seqs_used t"
  shows "balanced 0 (snd (transmit e n len kind frame t))" "seqs_used (snd (transmit e n len kind frame t)) = seqs_used t"
proof -
  obtain wire t1 where w: "wrap_frame e frame t = (wire, t1)" by fastforce
  obtain ok t2 where c: "carrier_send e wire t1 = (ok, t2)" by fastforce
  have b: "book t1 = book t" "book t2 = book t"
    using book_wrap [of e frame t] book_carrier [of e wire t1] w c by simp_all
  have refund: "balanced 0 (t'\<lparr>t_cc := obj_refund len (t_cc t')\<rparr>)" "seqs_used t' = seqs_used t" if "book t' = book t" for t'
    using assms(1) that by (auto simp: balanced_def book_def seqs_used_def charged_refund)
  have add: "balanced 0 (t2\<lparr>t_sent_packets := AList.update n \<lparr>sp_bytes = len, sp_sent_at = e_now e, sp_kind = kind\<rparr>
      (t_sent_packets t2)\<rparr>)"
    using assms b(2) by (auto simp: balanced_def book_def seqs_used_def update_fresh booked_def add.commute)
  have set: "seqs_used (t'\<lparr>t_cc := x\<rparr>) = seqs_used t'" "seqs_used (t'\<lparr>t_sent_packets := y\<rparr>) = seqs_used t'" for t' x y
    by (simp_all add: seqs_used_def)
  show "balanced 0 (snd (transmit e n len kind frame t))" "seqs_used (snd (transmit e n len kind frame t)) = seqs_used t"
    using refund [OF b(1)] refund [OF b(2)] add set
    by (auto simp: transmit_def w c Let_def book_eq [OF book_fields(1)])
qed

lemma keeps_send_packet:
  assumes "send_packet e ptype p t = Inr (u, t')"
  shows "keeps_books 1 t t'"
proof -
  obtain n t1 where n: "next_seq t = (n, t1)" by fastforce
  obtain x where x: "seal_frame e (stamped_header ptype n t1) p t1 = Inr x"
    using assms n by (cases "seal_frame e (stamped_header ptype n t1) p t1") (auto simp: send_packet_def)
  have "book t' = book t1"
    using assms n x by (cases x) (auto simp: send_packet_def split_def Let_def)
  moreover have "keeps_books 1 t t1" using next_seq_balanced [OF _ _ n] by (auto simp: keeps_books_def)
  ultimately show ?thesis using keeps_after by blast
qed

lemma keeps_send_control:
  assumes "send_control e ptype p t = Inr (u, t')"
  shows "keeps_books 1 t t'"
proof -
  obtain n t1 where n: "next_seq t = (n, t1)" by fastforce
  obtain x where x: "seal_frame e (stamped_header ptype n t1) p t1 = Inr x"
    using assms n by (cases "seal_frame e (stamped_header ptype n t1) p t1") (auto simp: send_control_def)
  have "book t' = book t1"
    using assms n x by (cases x) (auto simp: send_control_def split_def Let_def split: if_split_asm)
  moreover have "keeps_books 1 t t1" using next_seq_balanced [OF _ _ n] by (auto simp: keeps_books_def)
  ultimately show ?thesis using keeps_after by blast
qed

text \<open>A charged packet is sealed and transmitted, or its charge is refunded.\<close>

lemma charged_out:
  assumes bal: "balanced len t" "seqs_used t + 1 < 2 ^ 32" and n: "next_seq t = (n, t1)"
  shows "balanced 0 (t1\<lparr>t_cc := obj_refund len (t_cc t1)\<rparr>) \<and> seqs_used (t1\<lparr>t_cc := obj_refund len (t_cc t1)\<rparr>) = seqs_used t + 1"
    "balanced 0 (snd (transmit e n len kind frame t1)) \<and> seqs_used (snd (transmit e n len kind frame t1)) = seqs_used t + 1"
proof -
  note b = next_seq_balanced [OF bal n]
  show "balanced 0 (t1\<lparr>t_cc := obj_refund len (t_cc t1)\<rparr>) \<and> seqs_used (t1\<lparr>t_cc := obj_refund len (t_cc t1)\<rparr>) = seqs_used t + 1"
    using b(1,2) by (auto simp: balanced_def seqs_used_def charged_refund)
  show "balanced 0 (snd (transmit e n len kind frame t1)) \<and> seqs_used (snd (transmit e n len kind frame t1)) = seqs_used t + 1"
    using transmit_balanced [OF b(1,3,4), of e kind frame] b(2) by simp
qed

lemma keeps_send_parity:
  assumes sp: "send_parity e gid k i p t = Inr (u, t')"
  shows "keeps_books 1 t t'"
  unfolding keeps_books_def
proof (intro impI)
  assume bal: "balanced 0 t" "seqs_used t + 1 < 2 ^ 32"
  let ?len = "max (length p) (Suc 0)"
  obtain cc ok where cc: "obj_try_send_parity (e_now e) ?len (t_cc t) = (cc, ok)" by fastforce
  define t0 where "t0 = t\<lparr>t_cc := cc\<rparr>"
  have t0: "balanced (if ok then ?len else 0) t0" "seqs_used t0 = seqs_used t"
    using charged_parity [OF _ cc] bal(1) by (auto simp: balanced_def seqs_used_def t0_def)
  obtain n t1 where n: "next_seq t0 = (n, t1)" by fastforce
  let ?h = "(stamped_header Fec n t1)\<lparr>hdr_fec_group := gid, hdr_fec_index := of_nat k + of_nat i,
    hdr_fec_k := fp_k (t_fec_params t1), hdr_fec_m := fp_m (t_fec_params t1)\<rparr>"
  show "balanced 0 t' \<and> seqs_used t' \<le> seqs_used t + 1"
  proof (cases ok)
    case False
    then have "book t' = book t0" using sp cc by (auto simp: send_parity_def t0_def Let_def)
    then show ?thesis using t0 False book_eq [of t' t0] by simp
  next
    case True
    obtain x where x: "seal_frame e ?h p t1 = Inr x"
      using sp True by (cases "seal_frame e ?h p t1") (auto simp: send_parity_def cc n t0_def [symmetric] Let_def)
    have "balanced ?len t0" "seqs_used t0 + 1 < 2 ^ 32" using t0 True bal(2) by simp_all
    note out = charged_out [OF this n]
    show ?thesis
    proof (cases x)
      case (Inl err)
      then have "t' = t1\<lparr>t_cc := obj_refund ?len (t_cc t1)\<rparr>"
        using sp True x by (auto simp: send_parity_def cc n t0_def [symmetric] Let_def)
      then show ?thesis using out(1) t0(2) by simp
    next
      case (Inr frame)
      then have "book t' = book (snd (transmit e n ?len SentParity frame t1))"
        using sp True x by (auto simp: send_parity_def cc n t0_def [symmetric] split_def Let_def split: if_splits)
      then show ?thesis
        using out(2) [of e SentParity frame] t0(2) book_eq [of t' "snd (transmit e n ?len SentParity frame t1)" 0] by simp
    qed
  qed
qed

lemma keeps_send_parities: "send_parities e gid k i ps t = Inr (u, t') \<Longrightarrow> keeps_books (length ps) t t'"
proof (induction ps arbitrary: i t)
  case (Cons p ps)
  then obtain t1 where "send_parity e gid k i p t = Inr ((), t1)" "send_parities e gid k (i + 1) ps t1 = Inr (u, t')"
    by (auto simp: try_bind_eq_Inr)
  then show ?case using keeps_trans [OF keeps_send_parity Cons.IH] by fastforce
qed (simp add: keeps_same)

text \<open>Every erasure code produces the number of parity symbols it was asked for.\<close>

definition built_profile :: "Tunnel \<Rightarrow> bool" where
  "built_profile t \<longleftrightarrow> (\<exists>kind. rp_fec (t_profile t) = fec_build kind)"

lemma keeps_flush:
  assumes "flush_fec_group e t = Inr (u, t')" "built_profile t"
  shows "keeps_books 255 t t'"
proof -
  let ?t = "t\<lparr>t_group_buffer := [], t_group_index := 0, t_group_id := t_group_id t + 1\<rparr>"
  have b: "book ?t = book t" by simp
  consider "book t' = book t" | src ps where
    "fs_encode (rp_fec (t_profile t)) (unat (fp_k (t_fec_params t))) (unat (fp_m (t_fec_params t))) src = Inr ps"
    "send_parities e (t_group_id t) (unat (fp_k (t_fec_params t))) 0 ps ?t = Inr (u, t')"
    using assms(1) by (auto simp: flush_fec_group_def Let_def split: if_split_asm sum.split_asm)
  then show ?thesis
  proof cases
    case 1
    then show ?thesis by (rule keeps_same)
  next
    case (2 src ps)
    have "length ps \<le> 255" using 2(1) assms(2) scheme_shape unat_u8_less [of "fp_m (t_fec_params t)"]
      by (fastforce simp: built_profile_def)
    then show ?thesis using keeps_mono [OF keeps_before [OF keeps_send_parities [OF 2(2)] b [symmetric]]] by blast
  qed
qed

lemma keeps_join:
  assumes "join_group e p k t = Inr (b, t')" "built_profile t"
  shows "keeps_books 255 t t'"
proof -
  define t1 where "t1 = (tally (\<lambda>c. c\<lparr>c_tx_packets := c_tx_packets c + 1, c_tx_bytes := c_tx_bytes c + length p\<rparr>) t)
    \<lparr>t_group_buffer := t_group_buffer t @ [p], t_group_index := t_group_index t + 1\<rparr>"
  have b: "book t1 = book t" "built_profile t1" using assms(2) by (simp_all add: t1_def built_profile_def tally_def)
  have "join_group e p k t =
      (if t_group_index t1 \<ge> k then try_bind (flush_fec_group e t1) (\<lambda>(_, t). Inr (True, t)) else Inr (True, t1))"
    by (simp add: join_group_def t1_def tally_def Let_def)
  then have "t' = t1 \<or> (\<exists>u. flush_fec_group e t1 = Inr (u, t'))"
    using assms(1) by (cases "flush_fec_group e t1") (auto split: if_splits)
  then show ?thesis using keeps_same [OF b(1)] keeps_before [OF keeps_flush b(1) [symmetric]] b(2) by metis
qed

lemma profile_next_seq [simp]: "t_profile (snd (next_seq t)) = t_profile t"
  by (simp add: next_seq_def split_def Let_def)

lemma profile_transmit [simp]: "t_profile (snd (transmit e n len kind f t)) = t_profile t"
  by (rule endsD(7)) simp

lemma send_data_balanced:
  assumes sd: "send_data e p len s = Inr (b, s')" and prof: "built_profile s"
    and bal: "balanced len s" "seqs_used s + 256 < 2 ^ 32"
  shows "balanced 0 s' \<and> seqs_used s' \<le> seqs_used s + 256"
proof -
  obtain n s1 where n: "next_seq s = (n, s1)" by fastforce
  note out = charged_out [OF bal(1) _ n]
  obtain x where x: "seal_frame e (data_header n s1) p s1 = Inr x"
    using sd n by (cases "seal_frame e (data_header n s1) p s1") (auto simp: send_data_def)
  show ?thesis
  proof (cases x)
    case (Inl err)
    then have "s' = s1\<lparr>t_cc := obj_refund len (t_cc s1)\<rparr>" using sd n x by (auto simp: send_data_def)
    then show ?thesis using out(1) bal(2) by simp
  next
    case (Inr frame)
    obtain ok s2 where tm: "transmit e n len SentData frame s1 = (ok, s2)" by fastforce
    have s2: "balanced 0 s2" "seqs_used s2 = seqs_used s + 1" "built_profile s2"
      using out(2) [of e SentData frame] bal(2) tm prof n profile_transmit [of e n len SentData frame s1] profile_next_seq [of s]
      by (auto simp: built_profile_def)
    have "s' = s2 \<or> join_group e p (fp_k (t_fec_params s1)) s2 = Inr (b, s')"
      using sd n x Inr tm by (auto simp: send_data_def split: if_splits)
    then show ?thesis using keeps_join [OF _ s2(3)] s2 bal(2) by (fastforce simp: keeps_books_def)
  qed
qed

lemma keeps_tun_packet:
  assumes "handle_tun_packet e p s = Inr (b, s')" "built_profile s"
  shows "keeps_books 256 s s'"
  unfolding keeps_books_def
proof (intro impI)
  assume bal: "balanced 0 s" "seqs_used s + 256 < 2 ^ 32"
  let ?len = "max (length p) 1"
  let ?cc = "fst (obj_may_send (e_now e) ?len (t_cc s))"
  let ?s1 = "s\<lparr>t_cc := ?cc\<rparr>" and ?s2 = "s\<lparr>t_cc := obj_on_send_bytes ?len ?cc\<rparr>"
  have s1: "balanced 0 ?s1" "seqs_used ?s1 = seqs_used s"
    using bal charged_may_send by (auto simp: balanced_def seqs_used_def)
  have s2: "balanced ?len ?s2" "seqs_used ?s2 = seqs_used s" if "?len \<le> obj_send_budget (t_cc s)"
    using bal charged_send [OF charged_may_send, of "t_cc s" _ ?len "e_now e" ?len] that
    by (auto simp: balanced_def seqs_used_def)
  have "book s' = book s \<or> book s' = book ?s1 \<or> ?len \<le> obj_send_budget (t_cc s) \<and> send_data e p ?len ?s2 = Inr (b, s')"
    using assms(1) by (auto simp: handle_tun_packet_def split_def Let_def not_less split: if_splits)
  then show "balanced 0 s' \<and> seqs_used s' \<le> seqs_used s + 256"
  proof (elim disjE conjE)
    assume "send_data e p ?len ?s2 = Inr (b, s')" "?len \<le> obj_send_budget (t_cc s)"
    then show ?thesis using send_data_balanced [of e p ?len ?s2 b s'] s2 bal(2) assms(2) by (simp add: built_profile_def)
  qed (use book_eq [of s' s 0] book_eq [of s' ?s1 0] s1 bal in simp_all)
qed

subsection \<open>Acknowledgements and losses\<close>

lemma booked_append [simp]: "booked (xs @ ys) = booked xs + booked ys" "booked [] = 0" "booked (x # xs) = sp_bytes (snd x) + booked xs"
  by (simp_all add: booked_def split_def)

lemma booked_filter: "booked (filter P xs) + booked (filter (\<lambda>x. \<not> P x) xs) = booked xs"
  by (induction xs) auto

text \<open>The bytes of one verdict; below the \<open>u64\<close> limit saturation does not show.\<close>

definition verdict_bytes :: "bool \<Rightarrow> (u32 \<times> bool \<times> SentPacket) list \<Rightarrow> nat" where
  "verdict_bytes which rs = sum_list (map (\<lambda>(n, acked, p). if acked = which then sp_bytes p else 0) rs)"

lemma outcome_bytes_exact:
  "verdict_bytes which rs \<le> U64_MAX \<Longrightarrow> outcome_bytes which rs = verdict_bytes which rs"
proof (induction rs rule: rev_induct)
  case (snoc r rs)
  then have "verdict_bytes which rs \<le> U64_MAX" by (auto simp: verdict_bytes_def)
  then show ?case using snoc by (auto simp: outcome_bytes_def verdict_bytes_def sat_add64_def split: prod.splits)
qed (simp add: outcome_bytes_def verdict_bytes_def)

lemma verdicts_total:
  "verdict_bytes True (List.map_filter (\<lambda>(n, p). map_option (\<lambda>a. (n, a, p)) (f n p)) sent) +
   verdict_bytes False (List.map_filter (\<lambda>(n, p). map_option (\<lambda>a. (n, a, p)) (f n p)) sent) =
   booked (filter (\<lambda>(n, p). f n p \<noteq> None) sent)"
  by (induction sent) (auto simp: verdict_bytes_def List.map_filter_simps split: option.splits)

lemma verdict_keys:
  "fst ` set (List.map_filter (\<lambda>(n, p). map_option (\<lambda>a. (n, a, p)) (f n p)) sent) =
   fst ` set (filter (\<lambda>(n, p). f n p \<noteq> None) sent)"
  by (induction sent) (auto simp: List.map_filter_simps split: option.splits)

lemma resolved_keys:
  assumes "distinct (map fst sent)" "(n, p) \<in> set sent"
  shows "n \<in> fst ` set (List.map_filter (\<lambda>(n, p). map_option (\<lambda>a. (n, a, p)) (f n p)) sent) \<longleftrightarrow> f n p \<noteq> None"
proof
  assume "n \<in> fst ` set (List.map_filter (\<lambda>(n, p). map_option (\<lambda>a. (n, a, p)) (f n p)) sent)"
  then obtain q where "(n, q) \<in> set sent" "f n q \<noteq> None" unfolding verdict_keys by auto
  then show "f n p \<noteq> None" using eq_key_imp_eq_value [OF assms(1) _ assms(2)] by blast
next
  assume "f n p \<noteq> None"
  then have "(n, p) \<in> set (filter (\<lambda>(n, p). f n p \<noteq> None) sent)" using assms(2) by simp
  from imageI [OF this, of fst]
  show "n \<in> fst ` set (List.map_filter (\<lambda>(n, p). map_option (\<lambda>a. (n, a, p)) (f n p)) sent)"
    unfolding verdict_keys by simp
qed

lemma balanced_cc:
  "balanced 0 t \<Longrightarrow> (\<And>b. charged (t_cc t) b \<Longrightarrow> charged cc b) \<Longrightarrow> balanced 0 (t\<lparr>t_cc := cc\<rparr>)"
  by (simp add: balanced_def seqs_used_def)

lemma book_apply_fec [simp]: "book (apply_fec_params t) = book t"
  by (simp add: apply_fec_params_def Let_def)

lemma keeps_record_outcome: "keeps_books 0 t (record_outcome o' t)"
proof -
  obtain acked sent where o: "o' = (acked, sent)" by fastforce
  obtain smp w where w: "lw_record (\<not> acked) LOSS_SAMPLE_PACKETS (t_wire_loss t) = (smp, w)" by fastforce
  define t1 where "t1 = (case smp of None \<Rightarrow> t\<lparr>t_wire_loss := w\<rparr>
    | Some (l, n) \<Rightarrow> t\<lparr>t_wire_loss := w, t_cc := obj_on_loss l n (t_cc t)\<rparr>)"
  have "keeps_books 0 t t1"
    by (auto simp: keeps_books_def t1_def balanced_def seqs_used_def charged_loss split: option.split)
  moreover have "book (record_outcome o' t) = book t1"
    by (auto simp: record_outcome_def o w t1_def split_def Let_def split: option.split)
  ultimately show ?thesis using keeps_after by blast
qed

lemma keeps_outcomes: "keeps_books 0 t (fold (\<lambda>(_, acked, sent) t. record_outcome (acked, sent) t) rs t)"
proof (induction rs arbitrary: t)
  case (Cons r rs)
  then show ?case using keeps_trans [OF keeps_record_outcome] by (fastforce simp: split_def)
qed (simp add: keeps_same)

text \<open>Reconciliation takes the resolved packets off both sides.\<close>

lemma keeps_reconcile: "keeps_books 0 t (snd (reconcile_peer_acks e t))"
proof -
  define rs where "rs = resolved_packets e t"
  define rest where "rest = filter (\<lambda>(n, _). n \<notin> fst ` set (sort_key (\<lambda>(_, _, sent). sp_sent_at sent) rs)) (t_sent_packets t)"
  define a l where "a = outcome_bytes True rs" and "l = outcome_bytes False rs"
  define rtt where "rtt = (case oldest_acked rs of None \<Rightarrow> None
     | Some t0 \<Rightarrow> let r = e_now e - t0 in if r \<noteq> 0 \<and> r \<le> MAX_RTT_SAMPLE then Some r else None)"
  define cc1 where "cc1 = (if a > 0 then obj_on_ack a rtt (t_cc t) else t_cc t)"
  define cc2 where "cc2 = (if l > 0 then obj_release l cc1 else cc1)"
  define t1 where "t1 = t\<lparr>t_sent_packets := rest, t_cc := cc2\<rparr>"
  have "keeps_books 0 t t1"
    unfolding keeps_books_def
  proof (intro impI)
    assume bal: "balanced 0 t"
    have dist: "distinct (map fst (t_sent_packets t))" using bal by (simp add: balanced_def)
    have rest: "rest = filter (\<lambda>(n, p). \<not> resolve e t n p \<noteq> None) (t_sent_packets t)"
      unfolding rest_def rs_def resolved_packets_def set_sort
      by (rule filter_cong [OF refl]) (use resolved_keys [OF dist, of _ _ "resolve e t"] in \<open>simp add: split_paired_all\<close>)
    have total: "verdict_bytes True rs + verdict_bytes False rs + booked rest = booked (t_sent_packets t)"
      using booked_filter [of "\<lambda>(n, p). resolve e t n p \<noteq> None" "t_sent_packets t"]
        verdicts_total [of "resolve e t" "t_sent_packets t"]
      by (simp add: rs_def resolved_packets_def rest split_def)
    have "charged cc2 (booked rest)"
    proof (cases "t_cc t")
      case NoneCC
      then show ?thesis by (cases rtt) (simp_all add: cc2_def cc1_def)
    next
      case (RenoCC c)
      then have "booked (t_sent_packets t) \<le> U64_MAX" using bal by (auto simp: balanced_def cc_inv_def)
      then have al: "a = verdict_bytes True rs" "l = verdict_bytes False rs"
        unfolding a_def l_def using total by (simp_all add: outcome_bytes_exact)
      have "charged (t_cc t) (booked rest + l + a)" using bal total al by (simp add: balanced_def ac_simps)
      then have "charged cc1 (booked rest + l)" using charged_ack [of "t_cc t" "booked rest + l" a rtt] by (auto simp: cc1_def)
      then show ?thesis using charged_release [of cc1 "booked rest" l] by (auto simp: cc2_def)
    qed
    then show "balanced 0 t1 \<and> seqs_used t1 \<le> seqs_used t + 0"
      using bal by (auto simp: balanced_def seqs_used_def t1_def rest distinct_map_filter)
  qed
  moreover have "snd (reconcile_peer_acks e t) = fold (\<lambda>(_, acked, sent) t. record_outcome (acked, sent) t)
      (sort_key (\<lambda>(_, _, sent). sp_sent_at sent) rs) t1"
    by (simp add: reconcile_peer_acks_def rs_def [symmetric] a_def [symmetric] l_def [symmetric] rtt_def [symmetric]
        rest_def t1_def cc2_def cc1_def Let_def)
  ultimately show ?thesis using keeps_trans [OF _ keeps_outcomes] by fastforce
qed

subsection \<open>Every event\<close>

lemma keeps_note_acks: "keeps_books 0 t (note_acks e hdr t)"
proof -
  let ?t1 = "t\<lparr>t_session := observe_acks (hdr_ack_seq hdr) (hdr_ack_bitmap hdr) (t_session t)\<rparr>"
  have "book ?t1 = book t" by (simp add: observe_acks_def)
  then have "keeps_books 0 t (snd (reconcile_peer_acks e ?t1))" using keeps_before [OF keeps_reconcile] by metis
  then show ?thesis by (auto simp: note_acks_def split_def Let_def keeps_same elim: keeps_after)
qed

lemma keeps_coalesce: "coalesce_ack e hdr t = Inr (u, t') \<Longrightarrow> keeps_books 1 t t'"
  by (auto simp: coalesce_ack_def Let_def keeps_same split: if_split_asm dest!: keeps_send_packet)

lemma book_write_recovered [simp]: "book (snd (write_recovered e pre i ss t)) = book t"
  by (induction ss arbitrary: i t) (simp_all add: split_def Let_def)

lemma book_recover: "recover_group e g t = Inr (u, t') \<Longrightarrow> book t' = book t"
  by (auto simp: recover_group_def split_def Let_def split: option.split_asm if_split_asm sum.split_asm)

lemma book_record: "record_rx_symbol e g i k m p b t = Inr (u, t') \<Longrightarrow> book t' = book t"
  by (auto simp: record_rx_symbol_eq Let_def split: if_split_asm dest!: book_recover)

lemma book_data: "handle_data e hdr p t = Inr (u, t') \<Longrightarrow> book t' = book t"
  by (auto simp: handle_data_def try_bind_eq_Inr split_def Let_def split: if_split_asm
      dest!: is_source_delivered_same book_record)

lemma keeps_pong: "keeps_books 0 t (handle_pong e p t)"
  by (auto simp: handle_pong_def keeps_books_def balanced_def seqs_used_def tally_def charged_rtt Let_def)

lemma keeps_dispatch: "dispatch_packet e hdr p t = Inr (u, t') \<Longrightarrow> keeps_books 1 t t'"
  by (auto simp: dispatch_packet_def handle_parity_def handle_ping_def keeps_same split: packet_type.split_asm if_split_asm
      dest: book_data book_record keeps_send_packet intro: keeps_mono [OF keeps_pong])

lemma keeps_accept:
  assumes "accept_packet e hdr p a t = Inr (u, t')"
  shows "keeps_books 2 t t'"
proof -
  define t1 where "t1 = (let t = roam a (note_acks e hdr t); t = t\<lparr>t_last_peer_activity := e_now e\<rparr>
    in t\<lparr>t_session := (t_session t)\<lparr>ss_ack := record_ack (hdr_seq hdr) (ss_ack (t_session t))\<rparr>\<rparr>)"
  obtain t2 where c: "coalesce_ack e hdr t1 = Inr ((), t2)"
    using assms by (auto simp: accept_packet_def t1_def Let_def try_bind_eq_Inr)
  obtain f ss where rr: "receive_reliable (hdr_seq hdr) (t_session t2) = (f, ss)" by fastforce
  have ss: "ss_next_seq ss = ss_next_seq (t_session t2)"
    using rr by (auto simp: receive_reliable_def Let_def split_def split: if_splits)
  define t3 where "t3 = (if is_reliable (hdr_type hdr) then t2\<lparr>t_session := ss\<rparr> else t2)"
  define t4 where "t4 = tally (\<lambda>c. c\<lparr>c_rx_packets := c_rx_packets c + 1, c_rx_bytes := c_rx_bytes c + length p\<rparr>) t3"
  have b: "book t1 = book (note_acks e hdr t)" "book t3 = book t2" "book t4 = book t2"
    using ss by (simp_all add: t1_def t3_def t4_def Let_def)
  have "keeps_books 1 t t2" using keeps_trans [OF keeps_after [OF keeps_note_acks b(1)] keeps_coalesce [OF c]] by simp
  note k = keeps_after [OF this b(2)] keeps_after [OF this b(3)]
  have "t' = t3 \<or> dispatch_packet e hdr p t4 = Inr (u, t')"
    using assms c rr by (auto simp: accept_packet_def t1_def [symmetric] t3_def t4_def Let_def t1_def split: if_splits)
  then show ?thesis using keeps_mono [OF k(1), of 2] keeps_trans [OF k(2) keeps_dispatch] by (auto simp: numeral_2_eq_2)
qed

lemma keeps_udp: "handle_udp_datagram e d a t = Inr (res, t') \<Longrightarrow> keeps_books 2 t t'"
proof (cases "open_datagram e d t")
  case None
  assume h: "handle_udp_datagram e d a t = Inr (res, t')"
  show ?thesis using received_keeps(3) [OF h None] by (simp add: keeps_same)
next
  case (Some x)
  assume h: "handle_udp_datagram e d a t = Inr (res, t')"
  obtain hdr p where "x = (hdr, p)" by fastforce
  then show ?thesis using h handle_udp_opened [of e d t hdr p a] Some keeps_accept by (auto simp: try_bind_eq_Inr)
qed

lemma book_resend [simp]: "book (snd (resend_due e rto os t)) = book t"
  by (induction os arbitrary: t) (simp_all add: split_def Let_def)

lemma keeps_retransmits: "keeps_books 0 t (check_retransmits e t)"
  by (simp add: check_retransmits_def split_def Let_def keeps_after [OF keeps_reconcile])

lemma keeps_retry: "retry_pending e t = Inr (u, t') \<Longrightarrow> built_profile t \<Longrightarrow> keeps_books 256 t t'"
  by (auto simp: retry_pending_def try_bind_eq_Inr keeps_same built_profile_def split: option.split_asm if_split_asm
      dest!: keeps_tun_packet)

text \<open>No handler changes the profile.\<close>

lemma built_core: "core t' = core t \<Longrightarrow> built_profile t' = built_profile t"
  by (simp add: built_profile_def core_def)

lemma core_ends: "ends t' = ends t \<Longrightarrow> core t' = core t"
  by (rule endsD(1))

lemma ends_send_control: "send_control e ptype p t = Inr (u, t') \<Longrightarrow> ends t' = ends t"
  unfolding send_control_def split_def Let_def
  by (cases "seal_frame e (stamped_header ptype (fst (next_seq t)) (snd (next_seq t))) p (snd (next_seq t))")
    (auto split: sum.split_asm if_split_asm)

lemma ends_join: "join_group e p k t = Inr (b, t') \<Longrightarrow> ends t' = ends t"
  by (auto simp: join_group_def try_bind_eq_Inr Let_def split: if_split_asm dest!: ends_flush)

lemma ends_tun_packet:
  assumes "handle_tun_packet e p s = Inr (b, s')"
  shows "ends s' = ends s"
proof -
  let ?len = "max (length p) 1"
  let ?s2 = "s\<lparr>t_cc := obj_on_send_bytes ?len (fst (obj_may_send (e_now e) ?len (t_cc s)))\<rparr>"
  have "ends s' = ends s \<or> send_data e p ?len ?s2 = Inr (b, s')"
    using assms by (auto simp: handle_tun_packet_def split_def Let_def split: if_split_asm)
  moreover have "ends s' = ends s" if sd: "send_data e p ?len ?s2 = Inr (b, s')"
  proof -
    obtain n s1 where n: "next_seq ?s2 = (n, s1)" by fastforce
    have s1: "ends s1 = ends s" using ends_next_seq [OF n] by simp
    obtain x where x: "seal_frame e (data_header n s1) p s1 = Inr x"
      using sd n by (cases "seal_frame e (data_header n s1) p s1") (auto simp: send_data_def)
    show ?thesis using sd n x s1
      by (cases x) (auto simp: send_data_def split_def Let_def split: if_split_asm dest!: ends_join)
  qed
  ultimately show ?thesis by blast
qed

text \<open>One event of the loop allocates at most 256 sequence numbers, keeps the books and the profile.\<close>

lemma book_eq_keeps [intro]: "book t' = book t \<Longrightarrow> core t' = core t \<Longrightarrow> keeps_books k t t' \<and> core t' = core t"
  by (simp add: keeps_same)

lemma core_fields [simp]: "core (t\<lparr>t_pending_out := x1\<rparr>) = core t" "core (t\<lparr>t_pending_deadline := x2\<rparr>) = core t"
  "core (t\<lparr>t_ping_seq := x3\<rparr>) = core t" "core (t\<lparr>t_last_ping_sent := x4\<rparr>) = core t" "core (t\<lparr>t_rx_since_ack := x5\<rparr>) = core t"
  "core (t\<lparr>t_outstanding := x6\<rparr>) = core t" "core (park_if_paced e p t) = core t"
  by (simp_all add: core_def park_if_paced_def split: option.split)

lemma built_fields [simp]: "built_profile (t\<lparr>t_pending_out := x1\<rparr>) = built_profile t"
  "built_profile (t\<lparr>t_pending_deadline := x2\<rparr>) = built_profile t"
  by (simp_all add: built_profile_def)

lemma core_resend [simp]: "core (snd (resend_due e rto os t)) = core t"
  by (induction os arbitrary: t) (simp_all add: split_def Let_def core_ends [OF ends_fst_snd(2)])

lemma event_control:
  "close_with e x t = Inr (y, t') \<Longrightarrow> keeps_books 256 t t' \<and> core t' = core t"
  by (auto simp: close_with_def try_bind_eq_Inr dest: core_ends [OF ends_send_control] intro: keeps_mono [OF keeps_send_control])

lemma event_packet:
  "send_packet e ptype p t = Inr (u, t') \<Longrightarrow> keeps_books 256 t t' \<and> core t' = core t"
  by (auto dest: core_ends [OF ends_send_packet] intro: keeps_mono [OF keeps_send_packet])

lemma event_tun:
  "handle_tun_packet e p t = Inr (b, t') \<Longrightarrow> built_profile t \<Longrightarrow> keeps_books 256 t t' \<and> core t' = core t"
  by (auto dest: core_ends [OF ends_tun_packet] keeps_tun_packet)

lemma keeps_event:
  assumes "run_event e v t = Inr (x, t')" "built_profile t"
  shows "keeps_books 256 t t' \<and> core t' = core t"
proof (cases v)
  case (EvTun p)
  then obtain sent t1 where "handle_tun_packet e p (t\<lparr>t_pending_out := None, t_pending_deadline := None\<rparr>) = Inr (sent, t1)"
    "t' = (if sent then t1 else park_if_paced e p t1)" using assms(1) by (auto simp: try_bind_eq_Inr)
  then show ?thesis using event_tun [of e p "t\<lparr>t_pending_out := None, t_pending_deadline := None\<rparr>" sent t1] assms(2) by auto
next
  case EvPacerRetry
  then show ?thesis using assms
    by (auto simp: keep_running_def retry_pending_def try_bind_eq_Inr keeps_same split: if_split_asm option.split_asm dest!: event_tun)
next
  case (EvUdp d a)
  then show ?thesis using assms by (auto simp: try_bind_eq_Inr dest: received_keeps(1) intro: keeps_mono [OF keeps_udp])
next
  case EvFecTick
  then obtain t1 where f: "flush_fec_group_if_stale e t = Inr ((), t1)" "t' = publish_stats (evict_expired_rx_groups e t1)"
    using assms(1) by (auto simp: try_bind_eq_Inr)
  then have "keeps_books 256 t t1 \<and> core t1 = core t"
    using assms(2) by (auto simp: flush_fec_group_if_stale_def keeps_same split: if_split_asm
        dest: core_ends [OF ends_flush] intro: keeps_mono [OF keeps_flush])
  then show ?thesis using f(2) by (simp add: publish_stats_def evict_expired_rx_groups_def)
next
  case EvRtoTick
  have "core (check_retransmits e t) = core t"
    by (simp add: check_retransmits_def split_def Let_def core_ends [OF ends_reconcile])
  then show ?thesis using EvRtoTick assms(1) keeps_mono [OF keeps_retransmits] by auto
qed (use assms in \<open>auto simp: keep_running_def send_ping_def maybe_send_keepalive_def send_keepalive_def flush_coalesced_ack_def
    try_bind_eq_Inr keeps_same Let_def split: if_split_asm dest!: event_control event_packet\<close>)

text \<open>C7. The ledger. Run the event loop over any sequence of events from a tunnel whose books are
  balanced, such as a new one. As long as the sequence space lasts (256 numbers per event are
  enough), the congestion controller counts as in flight exactly the bytes of the data and parity
  packets that were sent and are neither acknowledged nor given up, and their
  sequence numbers are distinct: every failed send is refunded, every
  acknowledgement and loss is booked once, and the window never leaks credit.\<close>

theorem ledger_balanced:
  assumes "run_loop evs t = Inr (x, t')" "balanced 0 t" "built_profile t" "seqs_used t + 256 * length evs < 2 ^ 32"
  shows "balanced 0 t'"
  using assms
proof (induction evs arbitrary: t)
  case (Cons ev evs)
  obtain e v where ev: "ev = (e, v)" by fastforce
  obtain y t1 where r: "run_event e v t = Inr (y, t1)" using Cons.prems(1) ev by (auto simp: try_bind_eq_Inr)
  note k = keeps_event [OF r Cons.prems(3)]
  have t1: "balanced 0 t1" "seqs_used t1 \<le> seqs_used t + 256" "built_profile t1"
    using k Cons.prems(2,3,4) built_core [of t1 t] by (auto simp: keeps_books_def)
  show ?case
  proof (cases y)
    case None
    then show ?thesis using Cons.IH [of t1] Cons.prems(1,4) ev r t1 by auto
  next
    case (Some z)
    then have "t' = finish_run z t1" using Cons.prems(1) ev r by auto
    then show ?thesis using t1(1) book_eq [OF book_fields(1)] by (simp add: finish_run_def)
  qed
qed simp

text \<open>A client with the default congestion controller, one packet from its device.\<close>

definition reno_client :: Tunnel where
  "reno_client = from_handshake 0 UdpCarrier (demo_addr 1) (session_new 7 Initiator) (demo_profile\<lparr>rp_congestion := TcpReno\<rparr>)
     (build_stack None) [1] [2] InitiatorToResponder ResponderToInitiator counters_default"

theorem ledger_balanced_witness:
  "\<exists>x t'. run_loop [(demo_env, EvTun [1, 2])] reno_client = Inr (x, t') \<and> balanced 0 t'"
proof -
  have plain: "\<not> os_active (t_obf reno_client)" by (simp add: reno_client_def from_handshake_def build_stack_def stack_new_def)
  then obtain b t1 where "handle_tun_packet demo_env [1, 2] (reno_client\<lparr>t_pending_out := None, t_pending_deadline := None\<rparr>) = Inr (b, t1)"
    using tun_packet_admitted [of demo_env demo_dec "reno_client\<lparr>t_pending_out := None, t_pending_deadline := None\<rparr>" "[1, 2]"]
      demo_laws by auto
  then obtain x t' where r: "run_loop [(demo_env, EvTun [1, 2])] reno_client = Inr (x, t')" by simp
  have "balanced 0 reno_client" "seqs_used reno_client = 1"
    by (simp_all add: balanced_def seqs_used_def reno_client_def from_handshake_def session_new_def cc_new_inv booked_def,
        simp add: cc_new_def)
  moreover have "rp_fec (t_profile reno_client) = fec_build ReedSolomonKind"
    by (simp add: reno_client_def from_handshake_def demo_profile_def)
  then have "built_profile reno_client" unfolding built_profile_def by blast
  ultimately show ?thesis using ledger_balanced [OF r] r by auto
qed

end
