(* ===== verification/Carrier_Io.thy ===== *)
theory Carrier_Io
  imports Carrier_Stream
begin

text \<open>
  Carriers and listeners as the daemons open them (\<open>src/src/carrier/mod.rs\<close>). The results of the socket calls are
  arguments, an error being a text. The locale \<open>listener_seam\<close> is the contract of \<open>CarrierListener\<close>, on which
  the dispatcher relies: it answers datagrams on a shared sender and gives a connection a session of its own.
\<close>

datatype carrier_error = CarrierErr io_error | OsErr string

text \<open>A datagram carrier keeps the address to report for an unspecified source, a stream carrier that of its peer.\<close>

datatype carrier_handle = UdpHandle SocketAddr | TcpHandle SocketAddr

fun handle_kind :: "carrier_handle \<Rightarrow> carrier_kind" where
  "handle_kind (UdpHandle _) = UdpCarrier"
| "handle_kind (TcpHandle _) = TcpCarrier"

datatype Inbound = InDatagram bytes SocketAddr | InConnection carrier_handle SocketAddr

fun inbound_from :: "Inbound \<Rightarrow> SocketAddr" where
  "inbound_from (InDatagram _ a) = a"
| "inbound_from (InConnection _ a) = a"

fun inbound_kind :: "Inbound \<Rightarrow> string" where
  "inbound_kind (InDatagram _ _) = ''datagram''"
| "inbound_kind (InConnection _ _) = ''connection''"

fun is_unspecified :: "IpAddr \<Rightarrow> bool" where
  "is_unspecified (V4 a b c d) = (a = 0 \<and> b = 0 \<and> c = 0 \<and> d = 0)"
| "is_unspecified (V6 segs) = list_all (\<lambda>x. x = 0) segs"

definition UDP_BUFFER :: nat where "UDP_BUFFER = 65535"

text \<open>\<open>recv_from\<close> cuts a datagram to the buffer.\<close>

definition udp_recv :: "SocketAddr \<Rightarrow> string + bytes \<times> SocketAddr \<Rightarrow> carrier_error + bytes \<times> SocketAddr" where
  "udp_recv fallback got = (case got of
       Inl e \<Rightarrow> Inl (OsErr e)
     | Inr (data, src) \<Rightarrow> Inr (take UDP_BUFFER data, if is_unspecified (sock_ip src) then fallback else src))"

definition udp_next_event :: "SocketAddr \<Rightarrow> string + bytes \<times> SocketAddr \<Rightarrow> carrier_error + Inbound" where
  "udp_next_event fallback got = (case got of
       Inl e \<Rightarrow> Inl (OsErr e)
     | Inr (data, src) \<Rightarrow> Inr (InDatagram (take UDP_BUFFER data) (if is_unspecified (sock_ip src) then fallback else src)))"

text \<open>A stream is only used once Nagle's algorithm is off.\<close>

definition tcp_new :: "string + unit \<Rightarrow> SocketAddr \<Rightarrow> carrier_error + carrier_handle" where
  "tcp_new nodelay peer = (case nodelay of Inl e \<Rightarrow> Inl (OsErr e) | Inr _ \<Rightarrow> Inr (TcpHandle peer))"

definition tcp_connect :: "string + unit \<Rightarrow> string + unit \<Rightarrow> SocketAddr \<Rightarrow> carrier_error + carrier_handle" where
  "tcp_connect conn nodelay remote = (case conn of Inl e \<Rightarrow> Inl (OsErr e) | Inr _ \<Rightarrow> tcp_new nodelay remote)"

definition tcp_next_event :: "string + SocketAddr \<Rightarrow> string + unit \<Rightarrow> carrier_error + Inbound" where
  "tcp_next_event accepted nodelay = (case accepted of
       Inl e \<Rightarrow> Inl (OsErr e)
     | Inr src \<Rightarrow> (case tcp_new nodelay src of Inl e \<Rightarrow> Inl e | Inr carrier \<Rightarrow> Inr (InConnection carrier src)))"

text \<open>A message received on a carrier: the chunks of the stream that are read, or the datagram.\<close>

definition tcp_recv :: "SocketAddr \<Rightarrow> bytes \<Rightarrow> bytes list \<Rightarrow> (carrier_error + bytes \<times> SocketAddr) option \<times> bytes \<times> bytes list" where
  "tcp_recv peer leftover chunks = (case read_message leftover chunks of (r, leftover, chunks) \<Rightarrow>
     (map_option (\<lambda>x. case x of Inl e \<Rightarrow> Inl (CarrierErr e) | Inr msg \<Rightarrow> Inr (msg, peer)) r, leftover, chunks))"

subsection \<open>Listeners\<close>

datatype listener = UdpListener SocketAddr | TcpListenerHandle

fun listener_kind :: "listener \<Rightarrow> carrier_kind" where
  "listener_kind (UdpListener _) = UdpCarrier"
| "listener_kind TcpListenerHandle = TcpCarrier"

fun listener_sender :: "listener \<Rightarrow> carrier_handle option" where
  "listener_sender (UdpListener fallback) = Some (UdpHandle fallback)"
| "listener_sender TcpListenerHandle = None"

record socket_results =
  sk_recv :: "string + bytes \<times> SocketAddr"
  sk_accept :: "string + SocketAddr"
  sk_bind :: "string + unit"
  sk_connect :: "string + unit"
  sk_nodelay :: "string + unit"

fun next_event :: "socket_results \<Rightarrow> listener \<Rightarrow> carrier_error + Inbound" where
  "next_event os (UdpListener fallback) = udp_next_event fallback (sk_recv os)"
| "next_event os TcpListenerHandle = tcp_next_event (sk_accept os) (sk_nodelay os)"

definition bind_carrier_listener :: "socket_results \<Rightarrow> string \<Rightarrow> SocketAddr \<Rightarrow> carrier_error + listener" where
  "bind_carrier_listener os name addr =
     (if name = ''udp'' then (case sk_bind os of Inl e \<Rightarrow> Inl (OsErr e) | Inr _ \<Rightarrow> Inr (UdpListener addr))
      else if name = ''tcp'' then (case sk_bind os of Inl e \<Rightarrow> Inl (OsErr e) | Inr _ \<Rightarrow> Inr TcpListenerHandle)
      else Inl (CarrierErr (unknown_carrier name)))"

text \<open>The datagram carrier binds an IPv4 socket; that its \<open>connect\<close> may fail is ignored.\<close>

definition connect_carrier :: "socket_results \<Rightarrow> string \<Rightarrow> SocketAddr \<Rightarrow> carrier_error + carrier_handle" where
  "connect_carrier os name remote =
     (if name = ''udp'' then (case sk_bind os of Inl e \<Rightarrow> Inl (OsErr e) | Inr _ \<Rightarrow> Inr (UdpHandle remote))
      else if name = ''tcp'' then tcp_connect (sk_connect os) (sk_nodelay os) remote
      else Inl (CarrierErr (unknown_carrier name)))"

subsection \<open>The contract of a listener\<close>

locale listener_seam =
  fixes boundaries :: bool
    and event :: "socket_results \<Rightarrow> carrier_error + Inbound"
    and sender :: "carrier_handle option"
  assumes datagrams: "event os = Inr (InDatagram data src) \<Longrightarrow> boundaries \<and> \<not> is_unspecified (sock_ip src) \<or> boundaries \<and> sender = Some (UdpHandle src)"
    and connections: "event os = Inr (InConnection carrier src) \<Longrightarrow> \<not> boundaries \<and> carrier = TcpHandle src"
    and shared_sender: "sender \<noteq> None \<longleftrightarrow> boundaries"
begin

text \<open>Every datagram can be answered on the shared sender, and every connection on itself.\<close>

lemma answerable:
  assumes "event os = Inr ev"
  shows "case ev of
      InDatagram data src \<Rightarrow> sender \<noteq> None
    | InConnection carrier src \<Rightarrow> sender = None \<and> handle_kind carrier = TcpCarrier"
  using assms datagrams connections shared_sender by (cases ev) fastforce+

lemma kind_matches: "event os = Inr ev \<Longrightarrow> inbound_kind ev = (if boundaries then ''datagram'' else ''connection'')"
  using datagrams connections by (cases ev) fastforce+

end

interpretation udp_listener: listener_seam
  "preserves_boundaries (listener_kind (UdpListener fallback))" "\<lambda>os. next_event os (UdpListener fallback)"
  "listener_sender (UdpListener fallback)" for fallback
  by unfold_locales (auto simp: udp_next_event_def split: sum.splits if_splits)

interpretation tcp_listener: listener_seam
  "preserves_boundaries (listener_kind TcpListenerHandle)" "\<lambda>os. next_event os TcpListenerHandle"
  "listener_sender TcpListenerHandle"
  by unfold_locales (auto simp: tcp_next_event_def tcp_new_def split: sum.splits)

text \<open>The names the configuration accepts are exactly those both sides can open, and both sides then agree on the carrier.\<close>

lemma bind_known:
  "sk_bind os = Inr () \<Longrightarrow> (\<exists>l. bind_carrier_listener os name addr = Inr l) \<longleftrightarrow> is_known_carrier name"
  by (auto simp: bind_carrier_listener_def is_known_carrier_def KNOWN_CARRIERS_def)

lemma peers_same_carrier:
  assumes "bind_carrier_listener os name addr = Inr l" "connect_carrier os' name remote = Inr h"
  shows "handle_kind h = listener_kind l \<and> is_known_carrier name \<and> carrier_name (listener_kind l) = name"
  using assms
  by (auto simp: bind_carrier_listener_def connect_carrier_def tcp_connect_def tcp_new_def is_known_carrier_def
      KNOWN_CARRIERS_def split: if_splits sum.splits)

lemma listener_answerable:
  "next_event os l = Inr (InDatagram data src) \<Longrightarrow> listener_sender l \<noteq> None"
  "next_event os l = Inr (InConnection carrier src) \<Longrightarrow> listener_sender l = None \<and> handle_kind carrier = TcpCarrier"
  using udp_listener.answerable tcp_listener.answerable by (cases l; force)+

end
