(* ===== verification/Peer_Auth.thy ===== *)
theory Peer_Auth
  imports Rn_Prelude
begin

text \<open>
  Peer authorization (\<open>src/src/tunnel/peers.rs\<close>): the allowlist of static keys, the runtime denylist and
  open mode. \<open>hex_decode\<close> stands for \<open>hex::decode\<close> of the crate \<open>hex\<close>. A key is its 32 bytes.
\<close>

record PeerEntry =
  pe_public_key :: string
  pe_name :: "string option"

record PeerAuth =
  pa_keys :: "bytes \<rightharpoonup> string option"
  pa_denylist :: "bytes set"
  pa_open :: bool

definition open_mode :: PeerAuth where
  "open_mode = \<lparr>pa_keys = Map.empty, pa_denylist = {}, pa_open = True\<rparr>"

definition add_entry :: "(string \<Rightarrow> bytes option) \<Rightarrow> (bytes \<rightharpoonup> string option) \<Rightarrow> PeerEntry \<Rightarrow> (bytes \<rightharpoonup> string option)" where
  "add_entry hex_decode keys entry =
     (let line = trim (pe_public_key entry)
      in if line = [] then keys
         else case hex_decode line of
             None \<Rightarrow> keys
           | Some bs \<Rightarrow>
               if length bs \<noteq> 32 then keys
               else keys(bs \<mapsto> (case pe_name entry of
                   Some s \<Rightarrow> if trim s \<noteq> [] then Some s else None
                 | None \<Rightarrow> None)))"

definition from_entries :: "(string \<Rightarrow> bytes option) \<Rightarrow> PeerEntry list \<Rightarrow> PeerAuth" where
  "from_entries hex_decode peers =
     \<lparr>pa_keys = foldl (add_entry hex_decode) Map.empty peers, pa_denylist = {}, pa_open = False\<rparr>"

definition is_revoked :: "bytes \<Rightarrow> PeerAuth \<Rightarrow> bool" where
  "is_revoked key a \<longleftrightarrow> key \<in> pa_denylist a"

definition authorized :: "bytes \<Rightarrow> PeerAuth \<Rightarrow> bool" where
  "authorized key a \<longleftrightarrow> \<not> is_revoked key a \<and> (pa_open a \<or> pa_keys a key \<noteq> None)"

definition peer_check :: "PeerAuth \<Rightarrow> bytes \<Rightarrow> bool \<times> string option" where
  "peer_check a key =
     (if is_revoked key a then (False, Some ''revoked'')
      else if pa_open a then (True, None)
      else case pa_keys a key of Some name \<Rightarrow> (True, name) | None \<Rightarrow> (False, None))"

definition revoke :: "bytes \<Rightarrow> PeerAuth \<Rightarrow> PeerAuth" where
  "revoke key a = a\<lparr>pa_denylist := insert key (pa_denylist a)\<rparr>"

definition unrevoke :: "bytes \<Rightarrow> PeerAuth \<Rightarrow> PeerAuth" where
  "unrevoke key a = a\<lparr>pa_denylist := pa_denylist a - {key}\<rparr>"

definition deny_count :: "PeerAuth \<Rightarrow> nat" where
  "deny_count a = card (pa_denylist a)"

definition set_peers :: "(string \<Rightarrow> bytes option) \<Rightarrow> PeerEntry list \<Rightarrow> PeerAuth \<Rightarrow> PeerAuth" where
  "set_peers hex_decode peers a = a\<lparr>pa_keys := pa_keys (from_entries hex_decode peers), pa_open := False\<rparr>"

definition set_open :: "PeerAuth \<Rightarrow> PeerAuth" where
  "set_open a = a\<lparr>pa_keys := Map.empty, pa_open := True\<rparr>"

definition peers_len :: "PeerAuth \<Rightarrow> nat" where
  "peers_len a = card (dom (pa_keys a))"

definition is_open_mode :: "PeerAuth \<Rightarrow> bool" where
  "is_open_mode a = pa_open a"

subsection \<open>The policy\<close>

text \<open>The administrative operations in the order they happen, and the decision they call for: a key
  whose last revocation was not lifted is refused; otherwise the last configuration decides.\<close>

datatype auth_op = Revoke bytes | Unrevoke bytes | SetPeers "PeerEntry list" | SetOpen

fun auth_step :: "(string \<Rightarrow> bytes option) \<Rightarrow> PeerAuth \<Rightarrow> auth_op \<Rightarrow> PeerAuth" where
  "auth_step hex a (Revoke k) = revoke k a"
| "auth_step hex a (Unrevoke k) = unrevoke k a"
| "auth_step hex a (SetPeers ps) = set_peers hex ps a"
| "auth_step hex a SetOpen = set_open a"

text \<open>The key an entry of the configuration lists.\<close>

definition entry_key :: "(string \<Rightarrow> bytes option) \<Rightarrow> PeerEntry \<Rightarrow> bytes option" where
  "entry_key hex entry = (let line = trim (pe_public_key entry)
     in if line = [] then None
        else case hex line of None \<Rightarrow> None | Some bs \<Rightarrow> if length bs = 32 then Some bs else None)"

definition concerns :: "bytes \<Rightarrow> auth_op \<Rightarrow> bool" where
  "concerns k x \<longleftrightarrow> x = Revoke k \<or> x = Unrevoke k"

definition configures :: "auth_op \<Rightarrow> bool" where
  "configures x \<longleftrightarrow> x = SetOpen \<or> (\<exists>ps. x = SetPeers ps)"

definition policy_allows :: "(string \<Rightarrow> bytes option) \<Rightarrow> auth_op list \<Rightarrow> bytes \<Rightarrow> bool" where
  "policy_allows hex ops k \<longleftrightarrow>
     find (concerns k) (rev ops) \<noteq> Some (Revoke k) \<and>
     (case find configures (rev ops) of
        Some (SetPeers ps) \<Rightarrow> Some k \<in> entry_key hex ` set ps
      | _ \<Rightarrow> True)"

lemma add_entry_dom: "add_entry hex m entry k \<noteq> None \<longleftrightarrow> m k \<noteq> None \<or> entry_key hex entry = Some k"
  by (auto simp: add_entry_def entry_key_def Let_def split: option.splits)

lemma from_entries_dom: "pa_keys (from_entries hex ps) k \<noteq> None \<longleftrightarrow> Some k \<in> entry_key hex ` set ps"
proof -
  have "foldl (add_entry hex) m ps k \<noteq> None \<longleftrightarrow> m k \<noteq> None \<or> Some k \<in> entry_key hex ` set ps" for m
  proof (induction ps arbitrary: m)
    case (Cons e ps)
    show ?case using Cons.IH [of "add_entry hex m e"] add_entry_dom [of hex m e k]
      by (simp del: not_None_eq) (metis image_iff)
  qed simp
  then show ?thesis by (simp add: from_entries_def)
qed

lemma authorized_check: "fst (peer_check a k) = authorized k a"
  by (simp add: peer_check_def authorized_def split: option.split)

lemma auth_run:
  "authorized k (foldl (auth_step hex) open_mode ops) = policy_allows hex ops k"
proof -
  let ?a = "\<lambda>ops. foldl (auth_step hex) open_mode ops"
  have "(k \<in> pa_denylist (?a ops)) = (find (concerns k) (rev ops) = Some (Revoke k)) \<and>
    (pa_open (?a ops) \<longleftrightarrow> (\<forall>ps. find configures (rev ops) \<noteq> Some (SetPeers ps))) \<and>
    (\<forall>ps. find configures (rev ops) = Some (SetPeers ps) \<longrightarrow> pa_keys (?a ops) = pa_keys (from_entries hex ps))"
  proof (induction ops rule: rev_induct)
    case (snoc x ops)
    then show ?case
      by (cases x) (auto simp: revoke_def unrevoke_def set_peers_def set_open_def concerns_def configures_def)
  qed (simp add: open_mode_def)
  moreover have "find configures (rev ops) = Some x \<Longrightarrow> x = SetOpen \<or> (\<exists>ps. x = SetPeers ps)" for x
    by (auto simp: find_Some_iff configures_def)
  ultimately show ?thesis
    by (auto simp: authorized_def is_revoked_def policy_allows_def from_entries_dom [symmetric]
        split: option.splits auth_op.splits simp del: not_None_eq)
qed

subsection \<open>Properties\<close>

text \<open>C10. After any sequence of revocations and reloads the authorizer implements the
  administrators' intent: a revoked key stays refused, whatever is reloaded, until it is unrevoked;
  any other key is accepted exactly if the last configuration lists it or has no peer list.\<close>

theorem peer_policy:
  "fst (peer_check (foldl (auth_step hex) open_mode ops) k) = policy_allows hex ops k"
  by (simp add: authorized_check auth_run)

end
