(* ===== verification/Probe_Limiter.thy ===== *)
theory Probe_Limiter
  imports Net_Addr Obfuscation "HOL-Library.AList"
begin

text \<open>
  The handshake-probe rate limiter of \<open>src/src/tunnel/server.rs\<close>: one token bucket per source address. The
  table is an association list; \<open>now\<close> is the time of the call in nanoseconds, the same for every
  \<open>Instant::now()\<close> of one call. Tokens are 32-bit words.
\<close>

definition HANDSHAKE_PROBE_BURST :: u32 where "HANDSHAKE_PROBE_BURST = 4"
definition HANDSHAKE_PROBE_INTERVAL_MS :: nat where "HANDSHAKE_PROBE_INTERVAL_MS = 200"
definition HANDSHAKE_PROBE_GLOBAL_CAP :: nat where "HANDSHAKE_PROBE_GLOBAL_CAP = 64"
definition HANDSHAKE_TOKEN_TTL_MS :: nat where "HANDSHAKE_TOKEN_TTL_MS = 5000"

definition as_millis :: "nat \<Rightarrow> nat" where "as_millis ns = ns div 1000000"

record ProbeBucket =
  pb_last_refill :: nat
  pb_tokens :: u32

definition bucket_new :: "nat \<Rightarrow> ProbeBucket" where
  "bucket_new now = \<lparr>pb_last_refill = now, pb_tokens = HANDSHAKE_PROBE_BURST\<rparr>"

definition bucket_take :: "nat \<Rightarrow> ProbeBucket \<Rightarrow> bool \<times> ProbeBucket" where
  "bucket_take now b =
     (let elapsed_ms = as_millis (now - pb_last_refill b);
          b = b\<lparr>pb_last_refill := now\<rparr>;
          gained = elapsed_ms div HANDSHAKE_PROBE_INTERVAL_MS;
          b = (if elapsed_ms > 0 \<and> gained > 0
               then b\<lparr>pb_tokens := min (pb_tokens b + of_nat gained) HANDSHAKE_PROBE_BURST\<rparr> else b)
      in if pb_tokens b > 0 then (True, b\<lparr>pb_tokens := pb_tokens b - 1\<rparr>) else (False, b))"

record ProbeLimiter =
  pl_by_source :: "(SocketAddr \<times> ProbeBucket) list"
  pl_last_purge :: nat

definition limiter_new :: "nat \<Rightarrow> ProbeLimiter" where
  "limiter_new now = \<lparr>pl_by_source = [], pl_last_purge = now\<rparr>"

definition limiter_purge :: "nat \<Rightarrow> ProbeLimiter \<Rightarrow> ProbeLimiter" where
  "limiter_purge now l =
     (if as_millis (now - pl_last_purge l) \<ge> HANDSHAKE_TOKEN_TTL_MS
      then \<lparr>pl_by_source = filter (\<lambda>(_, b). as_millis (now - pb_last_refill b) < HANDSHAKE_TOKEN_TTL_MS) (pl_by_source l),
            pl_last_purge = now\<rparr>
      else l)"

definition limiter_allow :: "nat \<Rightarrow> SocketAddr \<Rightarrow> ProbeLimiter \<Rightarrow> bool \<times> ProbeLimiter" where
  "limiter_allow now src l =
     (let l = limiter_purge now l
      in case map_of (pl_by_source l) src of
          Some b \<Rightarrow> let (allowed, b) = bucket_take now b
            in (allowed, l\<lparr>pl_by_source := AList.update src b (pl_by_source l)\<rparr>)
        | None \<Rightarrow>
            if length (pl_by_source l) \<ge> HANDSHAKE_PROBE_GLOBAL_CAP then (False, l)
            else let (allowed, b) = bucket_take now (bucket_new now)
              in (allowed, l\<lparr>pl_by_source := AList.update src b (pl_by_source l)\<rparr>))"

subsection \<open>The table\<close>

definition limiter_wf :: "ProbeLimiter \<Rightarrow> bool" where
  "limiter_wf l \<longleftrightarrow> distinct (map fst (pl_by_source l)) \<and> length (pl_by_source l) \<le> HANDSHAKE_PROBE_GLOBAL_CAP \<and>
     (\<forall>(_, b) \<in> set (pl_by_source l). pb_tokens b \<le> HANDSHAKE_PROBE_BURST)"

lemma limiter_purge_wf: "limiter_wf l \<Longrightarrow> limiter_wf (limiter_purge now l)"
  by (auto simp: limiter_wf_def limiter_purge_def distinct_map_filter intro: le_trans [OF length_filter_le])

lemma alist_update_set: "distinct (map fst xs) \<Longrightarrow> set (AList.update k v xs) = insert (k, v) {p \<in> set xs. fst p \<noteq> k}"
  by (induction xs) (auto simp: image_iff)

lemma alist_update_length:
  "length (AList.update k v xs) = (if k \<in> fst ` set xs then length xs else Suc (length xs))"
  by (induction xs) auto

lemma take_tokens_le: "pb_tokens b \<le> HANDSHAKE_PROBE_BURST \<Longrightarrow> pb_tokens (snd (bucket_take now b)) \<le> HANDSHAKE_PROBE_BURST"
  by (auto simp: bucket_take_def Let_def HANDSHAKE_PROBE_BURST_def word_le_nat_alt word_less_nat_alt unat_sub_if' min_def
      split: if_splits)

lemma limiter_allow_wf: "limiter_wf l \<Longrightarrow> limiter_wf (snd (limiter_allow now src l))"
proof -
  assume "limiter_wf l"
  define m where "m = limiter_purge now l"
  have m: "distinct (map fst (pl_by_source m))" "length (pl_by_source m) \<le> HANDSHAKE_PROBE_GLOBAL_CAP"
    "\<And>a b. (a, b) \<in> set (pl_by_source m) \<Longrightarrow> pb_tokens b \<le> HANDSHAKE_PROBE_BURST"
    using limiter_purge_wf [OF \<open>limiter_wf l\<close>, of now] by (auto simp: limiter_wf_def m_def)
  have upd: "limiter_wf (m\<lparr>pl_by_source := AList.update src (snd (bucket_take now b)) (pl_by_source m)\<rparr>)"
    if "pb_tokens b \<le> HANDSHAKE_PROBE_BURST"
      "src \<in> fst ` set (pl_by_source m) \<or> length (pl_by_source m) < HANDSHAKE_PROBE_GLOBAL_CAP" for b
    using m that take_tokens_le [OF that(1), of now]
    by (auto simp: limiter_wf_def alist_update_set alist_update_length distinct_update)
  show ?thesis
  proof (cases "map_of (pl_by_source m) src")
    case None
    then show ?thesis using upd [of "bucket_new now"] m
      by (auto simp: limiter_allow_def m_def [symmetric] split_def Let_def limiter_wf_def bucket_new_def not_le split: if_splits)
  next
    case (Some b)
    then have "(src, b) \<in> set (pl_by_source m)" by (rule map_of_SomeD)
    then have "limiter_wf (m\<lparr>pl_by_source := AList.update src (snd (bucket_take now b)) (pl_by_source m)\<rparr>)"
      by (intro upd m(3)) (auto simp: image_iff intro: bexI [of _ "(src, b)"])
    then show ?thesis using Some by (simp add: limiter_allow_def m_def [symmetric] split_def Let_def)
  qed
qed


subsection \<open>The rate\<close>

text \<open>A sequence of probes, each a time and a source, and the limiter's answers.\<close>

fun probes :: "(nat \<times> SocketAddr) list \<Rightarrow> ProbeLimiter \<Rightarrow> bool list \<times> ProbeLimiter" where
  "probes [] l = ([], l)"
| "probes ((now, src) # ps) l =
     (let (ok, l) = limiter_allow now src l; (oks, l) = probes ps l in (ok # oks, l))"

text \<open>The credit a source holds at a time, in nanoseconds of refill time.\<close>

definition REFILL_NS :: nat where "REFILL_NS = 200000000"

definition credit :: "ProbeLimiter \<Rightarrow> SocketAddr \<Rightarrow> nat \<Rightarrow> nat" where
  "credit l src t = (case map_of (pl_by_source l) src of
      None \<Rightarrow> 4 * REFILL_NS
    | Some b \<Rightarrow> min (4 * REFILL_NS) (unat (pb_tokens b) * REFILL_NS + (t - pb_last_refill b)))"

lemma credit_later: "t \<le> u \<Longrightarrow> credit l src u \<le> credit l src t + (u - t)"
  by (auto simp: credit_def split: option.split)

lemma map_of_filter_Some: "map_of xs k = Some v \<Longrightarrow> Q (k, v) \<Longrightarrow> map_of (filter Q xs) k = Some v"
  by (induction xs) (auto split: if_splits)

lemma map_of_filter_out:
  "distinct (map fst xs) \<Longrightarrow> map_of xs k = Some v \<Longrightarrow> \<not> Q (k, v) \<Longrightarrow> map_of (filter Q xs) k = None"
  by (induction xs) (auto simp: map_of_eq_None_iff split: if_splits)

lemma map_of_filter_None: "map_of xs k = None \<Longrightarrow> map_of (filter Q xs) k = None"
  by (auto simp: map_of_eq_None_iff)

lemma credit_purge: "limiter_wf l \<Longrightarrow> credit (limiter_purge now l) src now = credit l src now"
proof -
  assume "limiter_wf l"
  then have d: "distinct (map fst (pl_by_source l))" by (simp add: limiter_wf_def)
  let ?Q = "\<lambda>(a :: SocketAddr, b). as_millis (now - pb_last_refill b) < HANDSHAKE_TOKEN_TTL_MS"
  show ?thesis
  proof (cases "map_of (pl_by_source l) src")
    case None
    then show ?thesis by (simp add: credit_def limiter_purge_def map_of_filter_None)
  next
    case (Some b)
    show ?thesis
    proof (cases "?Q (src, b)")
      case True
      then show ?thesis using Some map_of_filter_Some [OF Some, of ?Q] by (simp add: credit_def limiter_purge_def)
    next
      case False
      then have "4 * REFILL_NS \<le> now - pb_last_refill b"
        by (simp add: as_millis_def HANDSHAKE_TOKEN_TTL_MS_def REFILL_NS_def)
      then show ?thesis using Some False map_of_filter_out [OF d Some, of ?Q] by (simp add: credit_def limiter_purge_def)
    qed
  qed
qed

lemma bucket_take_credit:
  assumes "pb_tokens b \<le> HANDSHAKE_PROBE_BURST" "bucket_take now b = (ok, b')"
  shows "of_bool ok * REFILL_NS + unat (pb_tokens b') * REFILL_NS
      \<le> min (4 * REFILL_NS) (unat (pb_tokens b) * REFILL_NS + (now - pb_last_refill b))"
    "pb_last_refill b' = now"
proof -
  define g where "g = as_millis (now - pb_last_refill b) div HANDSHAKE_PROBE_INTERVAL_MS"
  define t where "t = (if 0 < as_millis (now - pb_last_refill b) \<and> 0 < g
    then min (pb_tokens b + of_nat g) HANDSHAKE_PROBE_BURST else pb_tokens b)"
  have take: "ok = (0 < t)" "pb_tokens b' = (if 0 < t then t - 1 else t)" "pb_last_refill b' = now"
    using assms(2) by (auto simp: bucket_take_def Let_def g_def t_def split: if_splits)
  have g: "g * REFILL_NS \<le> now - pb_last_refill b"
    by (simp add: g_def as_millis_def HANDSHAKE_PROBE_INTERVAL_MS_def REFILL_NS_def div_mult2_eq [symmetric])
  have "unat (pb_tokens b + of_nat g) \<le> unat (pb_tokens b) + g"
  proof -
    have "unat (pb_tokens b + of_nat g) \<le> unat (pb_tokens b) + unat (of_nat g :: u32)"
      unfolding unat_word_ariths(1) by (rule mod_less_eq_dividend)
    moreover have "unat (of_nat g :: u32) \<le> g" by (simp add: unat_of_nat)
    ultimately show ?thesis by linarith
  qed
  then have "unat t \<le> unat (pb_tokens b) + g" "unat t \<le> 4"
    using assms(1) by (auto simp: t_def HANDSHAKE_PROBE_BURST_def min_def word_le_nat_alt)
  then have "unat t * REFILL_NS \<le> min (4 * REFILL_NS) ((unat (pb_tokens b) + g) * REFILL_NS)"
    by (metis min.boundedI mult_le_mono1)
  also have "\<dots> \<le> min (4 * REFILL_NS) (unat (pb_tokens b) * REFILL_NS + (now - pb_last_refill b))"
    using g by (simp add: algebra_simps)
  finally have le: "unat t * REFILL_NS \<le> min (4 * REFILL_NS) (unat (pb_tokens b) * REFILL_NS + (now - pb_last_refill b))" .
  have "of_bool ok * REFILL_NS + unat (pb_tokens b') * REFILL_NS = unat t * REFILL_NS"
  proof (cases "0 < t")
    case True
    then have "t \<noteq> 0" by simp
    then have "unat (t - 1) + 1 = unat t" using unat_minus_one [of t] unat_gt_0 [of t] by linarith
    then have "(1 + unat (t - 1)) * REFILL_NS = unat t * REFILL_NS" by simp
    then show ?thesis using True by (simp add: take(1,2))
  qed (simp add: take)
  then show "of_bool ok * REFILL_NS + unat (pb_tokens b') * REFILL_NS
      \<le> min (4 * REFILL_NS) (unat (pb_tokens b) * REFILL_NS + (now - pb_last_refill b))" using le by simp
  show "pb_last_refill b' = now" by (rule take(3))
qed


lemma allow_credit:
  assumes "limiter_wf l" "limiter_allow now s l = (ok, l')"
  shows "of_bool (ok \<and> s = src) * REFILL_NS + credit l' src now \<le> credit l src now"
proof -
  define m where "m = limiter_purge now l"
  have wf: "limiter_wf m" and cr: "credit m src now = credit l src now"
    using assms(1) by (simp_all add: m_def limiter_purge_wf credit_purge)
  have upd: "of_bool (ok \<and> s = src) * REFILL_NS + credit (m\<lparr>pl_by_source := AList.update s b' (pl_by_source m)\<rparr>) src now
      \<le> credit m src now"
    if t: "bucket_take now b = (ok, b')" "pb_tokens b \<le> HANDSHAKE_PROBE_BURST"
      "s = src \<Longrightarrow> min (4 * REFILL_NS) (unat (pb_tokens b) * REFILL_NS + (now - pb_last_refill b)) \<le> credit m src now" for b b'
  proof (cases "s = src")
    case True
    have "credit (m\<lparr>pl_by_source := AList.update s b' (pl_by_source m)\<rparr>) src now \<le> unat (pb_tokens b') * REFILL_NS"
      using True bucket_take_credit(2) [OF t(2,1)] by (simp add: credit_def update_conv')
    then have "of_bool (ok \<and> s = src) * REFILL_NS + credit (m\<lparr>pl_by_source := AList.update s b' (pl_by_source m)\<rparr>) src now
      \<le> of_bool ok * REFILL_NS + unat (pb_tokens b') * REFILL_NS" using True by simp
    also note bucket_take_credit(1) [OF t(2,1)]
    also note t(3) [OF True]
    finally show ?thesis .
  qed (simp add: credit_def update_conv')
  show ?thesis
  proof (cases "map_of (pl_by_source m) s")
    case None
    then have "4 * REFILL_NS \<le> credit m src now" if "s = src" using that by (simp add: credit_def)
    then show ?thesis
      using None assms(2) cr upd [of "bucket_new now"]
      by (auto simp: limiter_allow_def m_def [symmetric] Let_def bucket_new_def HANDSHAKE_PROBE_BURST_def split: if_splits prod.splits)
  next
    case (Some b)
    then have "(s, b) \<in> set (pl_by_source m)" by (rule map_of_SomeD)
    then have tok: "pb_tokens b \<le> HANDSHAKE_PROBE_BURST" using wf by (auto simp: limiter_wf_def)
    obtain b' where b': "bucket_take now b = (ok, b')" "l' = m\<lparr>pl_by_source := AList.update s b' (pl_by_source m)\<rparr>"
      using Some assms(2) by (auto simp: limiter_allow_def m_def [symmetric] Let_def split: prod.splits)
    have "min (4 * REFILL_NS) (unat (pb_tokens b) * REFILL_NS + (now - pb_last_refill b)) \<le> credit m src now" if "s = src"
      using that Some by (simp add: credit_def)
    then show ?thesis using upd [OF b'(1) tok] cr by (simp add: b'(2))
  qed
qed

definition granted :: "SocketAddr \<Rightarrow> (nat \<times> SocketAddr) list \<Rightarrow> bool list \<Rightarrow> nat" where
  "granted src ps oks = length (filter (\<lambda>((_, s), ok). ok \<and> s = src) (zip ps oks))"

lemma probes_credit:
  assumes "sorted (t # map fst ps)" "\<forall>u \<in> fst ` set ps. u \<le> e" "t \<le> e" "limiter_wf l" "probes ps l = (oks, l')"
  shows "granted src ps oks * REFILL_NS + credit l' src e \<le> credit l src t + (e - t) \<and> limiter_wf l'"
  using assms
proof (induction ps arbitrary: t l oks)
  case Nil
  then show ?case using credit_later by (simp add: granted_def)
next
  case (Cons p ps)
  obtain u s where p: "p = (u, s)" by fastforce
  obtain ok l1 where a: "limiter_allow u s l = (ok, l1)" by fastforce
  obtain oks1 where r: "probes ps l1 = (oks1, l')" "oks = ok # oks1"
    using Cons.prems(5) by (auto simp: p a Let_def split: prod.splits)
  have wf: "limiter_wf l1" using limiter_allow_wf [OF Cons.prems(4), of u s] a by simp
  have "granted src ps oks1 * REFILL_NS + credit l' src e \<le> credit l1 src u + (e - u)" "limiter_wf l'"
    using Cons.IH [of u l1 oks1] Cons.prems(1,2) wf r(1) by (simp_all add: p)
  moreover have "of_bool (ok \<and> s = src) * REFILL_NS + credit l1 src u \<le> credit l src u"
    by (rule allow_credit [OF Cons.prems(4) a])
  moreover have "credit l src u \<le> credit l src t + (u - t)" "t \<le> u" "u \<le> e"
    using credit_later [of t u l src] Cons.prems(1,2) by (simp_all add: p)
  moreover have "granted src (p # ps) oks = of_bool (ok \<and> s = src) + granted src ps oks1"
    by (simp add: granted_def p r(2))
  ultimately show ?case by (simp add: add_mult_distrib)
qed

lemma limiter_new_wf: "limiter_wf (limiter_new t)"
  by (simp add: limiter_wf_def limiter_new_def)

text \<open>Probes of one source that follow each other within less than the refill interval.\<close>

fun frequent :: "nat list \<Rightarrow> bool" where
  "frequent (t # u # ts) \<longleftrightarrow> t \<le> u \<and> as_millis (u - t) < HANDSHAKE_PROBE_INTERVAL_MS \<and> frequent (u # ts)"
| "frequent _ \<longleftrightarrow> True"

lemma purge_keeps:
  assumes "limiter_wf l" "map_of (pl_by_source l) src = Some b" "as_millis (now - pb_last_refill b) < HANDSHAKE_PROBE_INTERVAL_MS"
  shows "map_of (pl_by_source (limiter_purge now l)) src = Some b"
proof -
  have "as_millis (now - pb_last_refill b) < HANDSHAKE_TOKEN_TTL_MS"
    using assms(3) by (simp add: HANDSHAKE_PROBE_INTERVAL_MS_def HANDSHAKE_TOKEN_TTL_MS_def)
  then show ?thesis using assms(2) by (simp add: limiter_purge_def map_of_filter_Some)
qed

lemma drain_take:
  assumes "as_millis (u - t) < HANDSHAKE_PROBE_INTERVAL_MS" "n \<le> 4"
  shows "bucket_take u \<lparr>pb_last_refill = t, pb_tokens = of_nat n\<rparr>
    = (0 < n, \<lparr>pb_last_refill = u, pb_tokens = of_nat (n - 1)\<rparr>)"
proof -
  consider "n = 0" | "n = 1" | "n = 2" | "n = 3" | "n = 4" using assms(2) by linarith
  then show ?thesis using assms(1) by cases (simp_all add: bucket_take_def Let_def)
qed

lemma map_less_upt: "map (\<lambda>i. i < n) [0..<Suc m] = (0 < n) # map (\<lambda>i. i < n - 1) [0..<m]"
proof (rule nth_equalityI)
  fix i assume "i < length (map (\<lambda>i. i < n) [0..<Suc m])"
  then show "map (\<lambda>i. i < n) [0..<Suc m] ! i = ((0 < n) # map (\<lambda>i. i < n - 1) [0..<m]) ! i"
    by (cases i) (auto simp del: upt_Suc)
qed simp

lemma frequent_drains:
  assumes "frequent (t # ts)" "limiter_wf l" "map_of (pl_by_source l) src = Some \<lparr>pb_last_refill = t, pb_tokens = of_nat n\<rparr>" "n \<le> 4"
  shows "fst (probes (map (\<lambda>u. (u, src)) ts) l) = map (\<lambda>i. i < n) [0..<length ts]"
  using assms
proof (induction ts arbitrary: t n l)
  case (Cons u ts)
  have fr: "as_millis (u - t) < HANDSHAKE_PROBE_INTERVAL_MS" "frequent (u # ts)" using Cons.prems(1) by simp_all
  have kept: "map_of (pl_by_source (limiter_purge u l)) src = Some \<lparr>pb_last_refill = t, pb_tokens = of_nat n\<rparr>"
    using purge_keeps [OF Cons.prems(2,3)] fr(1) by simp
  obtain l1 where a: "limiter_allow u src l = (0 < n, l1)"
      "map_of (pl_by_source l1) src = Some \<lparr>pb_last_refill = u, pb_tokens = of_nat (n - 1)\<rparr>"
    using kept drain_take [OF fr(1) Cons.prems(4)] by (auto simp: limiter_allow_def Let_def update_conv')
  have "limiter_wf l1" using limiter_allow_wf [OF Cons.prems(2), of u src] a(1) by simp
  then have "fst (probes (map (\<lambda>u. (u, src)) ts) l1) = map (\<lambda>i. i < n - 1) [0..<length ts]"
    using Cons.IH [of u l1 "n - 1"] fr(2) a(2) Cons.prems(4) by simp
  then show ?case by (simp add: a split_def Let_def map_less_upt del: upt_Suc)
qed simp


subsection \<open>Properties\<close>

text \<open>C12. The limiter bounds the handshakes computed for a source: whatever sequence of probes
  arrives from any mix of addresses, a source is granted at most its burst of 4 and one more per
  200 ms since the start, across purges of idle entries; and at most 64 sources are tracked.\<close>

theorem probe_rate_bounded:
  assumes "sorted (t # map fst ps)" "\<forall>u \<in> fst ` set ps. u \<le> e" "t \<le> e" "probes ps (limiter_new t) = (oks, l)"
  shows "granted src ps oks \<le> 4 + as_millis (e - t) div HANDSHAKE_PROBE_INTERVAL_MS
    \<and> length (pl_by_source l) \<le> HANDSHAKE_PROBE_GLOBAL_CAP"
proof -
  have "granted src ps oks * REFILL_NS \<le> 4 * REFILL_NS + (e - t)" "limiter_wf l"
    using probes_credit [OF assms(1,2,3) limiter_new_wf assms(4), of src] by (simp_all add: credit_def limiter_new_def)
  then have "granted src ps oks \<le> (4 * REFILL_NS + (e - t)) div REFILL_NS" "limiter_wf l"
    by (simp_all add: less_eq_div_iff_mult_less_eq REFILL_NS_def)
  then show ?thesis
    by (simp add: REFILL_NS_def as_millis_def HANDSHAKE_PROBE_INTERVAL_MS_def div_mult2_eq [symmetric] limiter_wf_def)
qed

theorem probe_rate_bounded_witness:
  "granted \<lparr>sock_ip = V4 1 2 3 4, sock_port = 9\<rparr> [(5, \<lparr>sock_ip = V4 1 2 3 4, sock_port = 9\<rparr>)]
     (fst (probes [(5, \<lparr>sock_ip = V4 1 2 3 4, sock_port = 9\<rparr>)] (limiter_new 0))) \<le> 4"
proof -
  let ?ps = "[(5 :: nat, \<lparr>sock_ip = V4 1 2 3 4, sock_port = 9\<rparr>)]"
  obtain oks l where "probes ?ps (limiter_new 0) = (oks, l)" by fastforce
  then show ?thesis
    using probe_rate_bounded [of 0 ?ps 5 oks l "\<lparr>sock_ip = V4 1 2 3 4, sock_port = 9\<rparr>"]
    by (simp add: as_millis_def HANDSHAKE_PROBE_INTERVAL_MS_def)
qed

text \<open>A refused probe also discards the time it waited: a source that retries within less than 200 ms
  of its last attempt is granted four probes and then none, however long it goes on, although the
  bucket is documented to regain one token per 200 ms.\<close>

theorem frequent_probes_starve:
  assumes "frequent (t # ts)"
  shows "fst (probes (map (\<lambda>u. (u, src)) (t # ts)) (limiter_new t)) = map (\<lambda>i. i < 4) [0..<Suc (length ts)]"
proof -
  have take: "bucket_take t (bucket_new t) = (True, \<lparr>pb_last_refill = t, pb_tokens = of_nat 3\<rparr>)"
    by (simp add: bucket_take_def bucket_new_def Let_def as_millis_def HANDSHAKE_PROBE_BURST_def)
  define l1 where "l1 = (limiter_new t)\<lparr>pl_by_source := [(src, \<lparr>pb_last_refill = t, pb_tokens = of_nat 3\<rparr>)]\<rparr>"
  have a: "limiter_allow t src (limiter_new t) = (True, l1)"
    using take by (simp add: limiter_allow_def limiter_purge_def limiter_new_def Let_def l1_def
        as_millis_def HANDSHAKE_TOKEN_TTL_MS_def HANDSHAKE_PROBE_GLOBAL_CAP_def)
  have "limiter_wf l1" using limiter_allow_wf [OF limiter_new_wf, of t src t] a by simp
  moreover have "map_of (pl_by_source l1) src = Some \<lparr>pb_last_refill = t, pb_tokens = of_nat 3\<rparr>" by (simp add: l1_def)
  ultimately have "fst (probes (map (\<lambda>u. (u, src)) ts) l1) = map (\<lambda>i. i < 3) [0..<length ts]"
    using frequent_drains [OF assms, of l1 src 3] by simp
  then show ?thesis by (simp add: a split_def Let_def map_less_upt del: upt_Suc)
qed

theorem frequent_probes_starve_witness:
  "fst (probes (map (\<lambda>u. (u, \<lparr>sock_ip = V4 1 2 3 4, sock_port = 9\<rparr>)) (map (\<lambda>i. i * 199000000) [0..<6]))
     (limiter_new 0)) = [True, True, True, True, False, False]"
proof -
  have ts: "map (\<lambda>i. i * 199000000) [0..<6] = 0 # [199000000, 398000000, 597000000, 796000000, 995000000 :: nat]"
    by (simp add: upt_rec)
  show ?thesis unfolding ts
    by (subst frequent_probes_starve)
      (simp_all add: as_millis_def HANDSHAKE_PROBE_INTERVAL_MS_def upt_rec)
qed

end
