(* ===== verification/Noise_Handshake.thy ===== *)
theory Noise_Handshake
  imports Negotiation Net_Addr
begin

text \<open>
  The Noise IK key exchange (\<open>src/src/crypto/noise.rs\<close>) and the handshake seam
  (\<open>src/src/protocol/handshake.rs\<close>). SHA-256, HKDF, X25519 and the AEAD are third-party crates and
  form the record \<open>noise_crypto\<close>; \<open>noise_laws\<close> states what the exchange needs of them. Fresh
  ephemeral secrets are arguments. A failed step discards the handshake, so errors carry no state.
\<close>

subsection \<open>Primitives\<close>

record noise_crypto =
  nc_sha256 :: "bytes \<Rightarrow> bytes"
  nc_hkdf :: "bytes \<Rightarrow> bytes \<Rightarrow> bytes \<Rightarrow> nat \<Rightarrow> bytes option"
  nc_public :: "bytes \<Rightarrow> bytes"
  nc_dh :: "bytes \<Rightarrow> bytes \<Rightarrow> bytes"
  nc_enc :: aead_fun
  nc_dec :: aead_fun

text \<open>Diffie-Hellman commutes, public keys and digests have 32 bytes, HKDF yields the 64 bytes
  asked for, and the AEAD is correct.\<close>

definition noise_laws :: "noise_crypto \<Rightarrow> bool" where
  "noise_laws c \<longleftrightarrow> (\<forall>a b. nc_dh c a (nc_public c b) = nc_dh c b (nc_public c a)) \<and>
     (\<forall>s. length (nc_public c s) = 32) \<and> (\<forall>x. length (nc_sha256 c x) = 32) \<and>
     (\<forall>salt ikm info. \<exists>okm. nc_hkdf c salt ikm info 64 = Some okm \<and> length okm = 64) \<and>
     aead_laws (nc_enc c) (nc_dec c)"

record KeyPair =
  kp_secret :: bytes
  kp_public :: bytes

definition keypair_of :: "noise_crypto \<Rightarrow> bytes \<Rightarrow> KeyPair" where
  "keypair_of c secret = \<lparr>kp_secret = secret, kp_public = nc_public c secret\<rparr>"

subsection \<open>The symmetric state\<close>

definition bytes_of_string :: "string \<Rightarrow> bytes" where
  "bytes_of_string s = map (\<lambda>ch. of_nat (of_char ch)) s"

definition NOISE_NAME :: bytes where "NOISE_NAME = bytes_of_string ''Noise_IK_25519_ChaChaPoly_SHA256''"
definition TRANSPORT_KEY_INFO :: bytes where "TRANSPORT_KEY_INFO = bytes_of_string ''rustnies-transport-keys''"

datatype NoiseError =
    WrongRole | MessageTooShort | DecryptFailed | BadStaticKey | MissingPeerStatic | MissingPeerEphemeral
  | MissingLocalEphemeral | MissingKey | HkdfFailed | EncryptFailed | UnsupportedHandshake

datatype HandshakeRole = NoiseInitiator | NoiseResponder

record HandshakeResult =
  hr_key_i2r :: bytes
  hr_key_r2i :: bytes
  hr_hash :: bytes

record NoiseState =
  nh_role :: HandshakeRole
  nh_ck :: bytes
  nh_h :: bytes
  nh_k :: "bytes option"
  nh_n :: u64
  nh_local :: KeyPair
  nh_local_eph :: "bytes option"
  nh_peer_static :: "bytes option"
  nh_peer_eph :: "bytes option"

definition noise_new :: "noise_crypto \<Rightarrow> HandshakeRole \<Rightarrow> KeyPair \<Rightarrow> bytes option \<Rightarrow> NoiseState" where
  "noise_new c role local peer_static =
     (let h = nc_sha256 c NOISE_NAME
      in \<lparr>nh_role = role, nh_ck = h, nh_h = h, nh_k = None, nh_n = 0, nh_local = local, nh_local_eph = None,
          nh_peer_static = peer_static, nh_peer_eph = None\<rparr>)"

definition mix_hash :: "noise_crypto \<Rightarrow> bytes \<Rightarrow> NoiseState \<Rightarrow> NoiseState" where
  "mix_hash c data s = s\<lparr>nh_h := nc_sha256 c (nh_h s @ data)\<rparr>"

definition mix_key :: "noise_crypto \<Rightarrow> bytes \<Rightarrow> NoiseState \<Rightarrow> NoiseError + NoiseState" where
  "mix_key c input s =
     try_bind (ok_or (nc_hkdf c (nh_ck s) input [] 64) HkdfFailed) (\<lambda>okm.
       Inr (s\<lparr>nh_ck := take 32 okm, nh_k := Some (drop 32 okm), nh_n := 0\<rparr>))"

definition noise_nonce :: "u64 \<Rightarrow> bytes" where
  "noise_nonce n = replicate 4 0 @ to_le_bytes64 n"

definition noise_aead_encrypt :: "noise_crypto \<Rightarrow> bytes \<Rightarrow> u64 \<Rightarrow> bytes \<Rightarrow> bytes \<Rightarrow> NoiseError + bytes" where
  "noise_aead_encrypt c key n ad plaintext = ok_or (nc_enc c key (noise_nonce n) ad plaintext) EncryptFailed"

definition noise_aead_decrypt :: "noise_crypto \<Rightarrow> bytes \<Rightarrow> u64 \<Rightarrow> bytes \<Rightarrow> bytes \<Rightarrow> NoiseError + bytes" where
  "noise_aead_decrypt c key n ad ciphertext = ok_or (nc_dec c key (noise_nonce n) ad ciphertext) DecryptFailed"

definition encrypt_and_hash :: "noise_crypto \<Rightarrow> bytes \<Rightarrow> NoiseState \<Rightarrow> NoiseError + bytes \<times> NoiseState" where
  "encrypt_and_hash c plaintext s =
     try_bind (ok_or (nh_k s) MissingKey) (\<lambda>k.
     try_bind (noise_aead_encrypt c k (nh_n s) (nh_h s) plaintext) (\<lambda>ct.
       Inr (ct, mix_hash c ct (s\<lparr>nh_n := nh_n s + 1\<rparr>))))"

definition decrypt_and_hash :: "noise_crypto \<Rightarrow> bytes \<Rightarrow> NoiseState \<Rightarrow> NoiseError + bytes \<times> NoiseState" where
  "decrypt_and_hash c ciphertext s =
     try_bind (ok_or (nh_k s) MissingKey) (\<lambda>k.
     try_bind (noise_aead_decrypt c k (nh_n s) (nh_h s) ciphertext) (\<lambda>p.
       Inr (p, mix_hash c ciphertext (s\<lparr>nh_n := nh_n s + 1\<rparr>))))"

definition noise_split :: "noise_crypto \<Rightarrow> bytes \<Rightarrow> NoiseState \<Rightarrow> NoiseError + HandshakeResult" where
  "noise_split c schedule s =
     try_bind (ok_or (nc_hkdf c (nh_ck s) [] (TRANSPORT_KEY_INFO @ schedule) 64) HkdfFailed) (\<lambda>okm.
       Inr \<lparr>hr_key_i2r = take 32 okm, hr_key_r2i = drop 32 okm, hr_hash = nh_h s\<rparr>)"

subsection \<open>The messages\<close>

text \<open>\<open>write_message_1\<close> with the fresh ephemeral secret \<open>e\<close>.\<close>

definition write_message_1 :: "noise_crypto \<Rightarrow> bytes \<Rightarrow> bytes \<Rightarrow> NoiseState \<Rightarrow> NoiseError + bytes \<times> NoiseState" where
  "write_message_1 c e offer s =
     (if nh_role s \<noteq> NoiseInitiator then Inl WrongRole
      else try_bind (ok_or (nh_peer_static s) MissingPeerStatic) (\<lambda>rs.
        let e_pub = nc_public c e; s = mix_hash c e_pub s
        in try_bind (mix_key c (nc_dh c e rs) s) (\<lambda>s.
           try_bind (encrypt_and_hash c (kp_public (nh_local s)) s) (\<lambda>(s_enc, s).
           try_bind (mix_key c (nc_dh c (kp_secret (nh_local s)) rs) s) (\<lambda>s.
           try_bind (if offer \<noteq> [] then encrypt_and_hash c offer s else Inr ([], s)) (\<lambda>(offer_enc, s).
             Inr (e_pub @ s_enc @ offer_enc, s\<lparr>nh_local_eph := Some e\<rparr>)))))))"

definition NOISE_TAG_LEN :: nat where "NOISE_TAG_LEN = 16"

definition read_message_1 :: "noise_crypto \<Rightarrow> bytes \<Rightarrow> NoiseState \<Rightarrow> NoiseError + (bytes \<times> bytes) \<times> NoiseState" where
  "read_message_1 c msg s =
     (if nh_role s \<noteq> NoiseResponder then Inl WrongRole
      else if length msg < 32 + 32 + NOISE_TAG_LEN then Inl MessageTooShort
      else let e_pub = take 32 msg; s = mix_hash c e_pub (s\<lparr>nh_peer_eph := Some e_pub\<rparr>)
      in try_bind (mix_key c (nc_dh c (kp_secret (nh_local s)) e_pub) s) (\<lambda>s.
         let rest = drop 32 msg; s_token_len = 32 + NOISE_TAG_LEN
         in if length rest < s_token_len then Inl MessageTooShort
            else let s_enc = take s_token_len rest; trailing = drop s_token_len rest
            in try_bind (decrypt_and_hash c s_enc s) (\<lambda>(s_pub, s).
               if length s_pub \<noteq> 32 then Inl BadStaticKey
               else try_bind (mix_key c (nc_dh c (kp_secret (nh_local s)) s_pub) (s\<lparr>nh_peer_static := Some s_pub\<rparr>)) (\<lambda>s.
                 try_bind (if trailing = [] then Inr ([], s) else decrypt_and_hash c trailing s) (\<lambda>(offer, s).
                   Inr ((s_pub, offer), s))))))"

definition write_message_2 ::
  "noise_crypto \<Rightarrow> bytes \<Rightarrow> bytes \<Rightarrow> bytes \<Rightarrow> NoiseState \<Rightarrow> NoiseError + (bytes \<times> HandshakeResult) \<times> NoiseState" where
  "write_message_2 c e payload schedule s =
     (if nh_role s \<noteq> NoiseResponder then Inl WrongRole
      else try_bind (ok_or (nh_peer_eph s) MissingPeerEphemeral) (\<lambda>initiator_e.
        try_bind (ok_or (nh_peer_static s) MissingPeerStatic) (\<lambda>initiator_s.
        let e_pub = nc_public c e; s = mix_hash c e_pub s
        in try_bind (mix_key c (nc_dh c e initiator_e) s) (\<lambda>s.
           try_bind (mix_key c (nc_dh c e initiator_s) s) (\<lambda>s.
           try_bind (encrypt_and_hash c payload s) (\<lambda>(enc_payload, s).
           let s = s\<lparr>nh_local_eph := Some e\<rparr>
           in try_bind (noise_split c schedule s) (\<lambda>result.
             Inr ((e_pub @ enc_payload, result), s))))))))"

definition read_message_2 ::
  "noise_crypto \<Rightarrow> bytes \<Rightarrow> (bytes \<Rightarrow> bytes) \<Rightarrow> NoiseState \<Rightarrow> NoiseError + (bytes \<times> HandshakeResult) \<times> NoiseState" where
  "read_message_2 c msg schedule s =
     (if nh_role s \<noteq> NoiseInitiator then Inl WrongRole
      else if length msg < 32 + NOISE_TAG_LEN then Inl MessageTooShort
      else let e_pub = take 32 msg; s = mix_hash c e_pub (s\<lparr>nh_peer_eph := Some e_pub\<rparr>)
      in try_bind (ok_or (nh_local_eph s) MissingLocalEphemeral) (\<lambda>e_local.
         try_bind (mix_key c (nc_dh c e_local e_pub) (s\<lparr>nh_local_eph := None\<rparr>)) (\<lambda>s.
         try_bind (mix_key c (nc_dh c (kp_secret (nh_local s)) e_pub) s) (\<lambda>s.
         try_bind (decrypt_and_hash c (drop 32 msg) s) (\<lambda>(payload, s).
         try_bind (noise_split c (schedule payload) s) (\<lambda>result.
           Inr ((payload, result), s)))))))"

subsection \<open>The handshake seam\<close>

datatype HandshakeError = Kex NoiseError | UnsupportedKex string | IncompatibleKex string | IncompatibleProfile ProfileError

record InitiatorHello =
  ih_peer_static :: bytes
  ih_offer :: bytes

record SessionEstablished =
  se_peer :: SocketAddr
  se_session_id :: session_id
  se_send_key :: bytes
  se_recv_key :: bytes
  se_send_dir :: direction
  se_recv_dir :: direction
  se_peer_static :: bytes
  se_peer_label :: "string option"
  se_hash :: bytes
  se_selection :: Selection

datatype HandshakeSide = InitiatorSide | ResponderSide

fun noise_role :: "HandshakeSide \<Rightarrow> HandshakeRole" where
  "noise_role InitiatorSide = NoiseInitiator"
| "noise_role ResponderSide = NoiseResponder"

fun build_handshake :: "noise_crypto \<Rightarrow> HandshakeKind \<Rightarrow> HandshakeSide \<Rightarrow> KeyPair \<Rightarrow> bytes option \<Rightarrow> HandshakeError + NoiseState" where
  "build_handshake c NoiseIk side local peer_static = Inr (noise_new c (noise_role side) local peer_static)"

definition suite_schedule :: "Selection \<Rightarrow> bytes" where
  "suite_schedule sel = bytes_of_string (case cipher_from_id (sel_cipher sel) of
     Some kind \<Rightarrow> key_schedule kind | None \<Rightarrow> key_schedule ChaCha20Poly1305)"

definition initiator_message_1 :: "noise_crypto \<Rightarrow> bytes \<Rightarrow> bytes \<Rightarrow> NoiseState \<Rightarrow> HandshakeError + bytes \<times> NoiseState" where
  "initiator_message_1 c e offer s = map_err Kex (write_message_1 c e offer s)"

definition responder_read_message_1 :: "noise_crypto \<Rightarrow> bytes \<Rightarrow> NoiseState \<Rightarrow> HandshakeError + InitiatorHello \<times> NoiseState" where
  "responder_read_message_1 c msg1 s =
     try_bind (map_err Kex (read_message_1 c msg1 s)) (\<lambda>((peer_static, offer), s).
       Inr (\<lparr>ih_peer_static = peer_static, ih_offer = offer\<rparr>, s))"

definition responder_message_2 ::
  "noise_crypto \<Rightarrow> bytes \<Rightarrow> InitiatorHello \<Rightarrow> Selection \<Rightarrow> SocketAddr \<Rightarrow> string option \<Rightarrow> NoiseState
   \<Rightarrow> HandshakeError + bytes \<times> SessionEstablished" where
  "responder_message_2 c e hello sel peer label s =
     try_bind (map_err IncompatibleProfile (sel_check sel)) (\<lambda>_.
     try_bind (map_err Kex (write_message_2 c e (sel_encode sel) (suite_schedule sel) s)) (\<lambda>((m2, result), _).
       Inr (m2, \<lparr>se_peer = peer, se_session_id = session_id_from_hash (hr_hash result),
         se_send_key = hr_key_r2i result, se_recv_key = hr_key_i2r result,
         se_send_dir = ResponderToInitiator, se_recv_dir = InitiatorToResponder,
         se_peer_static = ih_peer_static hello, se_peer_label = label, se_hash = hr_hash result, se_selection = sel\<rparr>)))"

definition client_finalize :: "noise_crypto \<Rightarrow> bytes \<Rightarrow> SocketAddr \<Rightarrow> NoiseState \<Rightarrow> HandshakeError + SessionEstablished" where
  "client_finalize c msg2 peer s =
     try_bind (map_err Kex (read_message_2 c msg2 (\<lambda>p. case sel_decode p of
         Inr sel \<Rightarrow> suite_schedule sel | Inl _ \<Rightarrow> suite_schedule sel_defaults) s)) (\<lambda>((payload, result), s).
     try_bind (map_err IncompatibleProfile (sel_decode payload)) (\<lambda>sel.
     try_bind (map_err IncompatibleProfile (sel_check sel)) (\<lambda>_.
     try_bind (map_err Kex (ok_or (nh_peer_static s) MissingPeerStatic)) (\<lambda>peer_static.
       Inr \<lparr>se_peer = peer, se_session_id = session_id_from_hash (hr_hash result),
         se_send_key = hr_key_i2r result, se_recv_key = hr_key_r2i result,
         se_send_dir = InitiatorToResponder, se_recv_dir = ResponderToInitiator,
         se_peer_static = peer_static, se_peer_label = None, se_hash = hr_hash result, se_selection = sel\<rparr>))))"

subsection \<open>Both sides compute the same\<close>

definition okm_of :: "noise_crypto \<Rightarrow> bytes \<Rightarrow> bytes \<Rightarrow> bytes" where
  "okm_of c ck input = the (nc_hkdf c ck input [] 64)"

lemma mix_key_ok:
  "noise_laws c \<Longrightarrow> mix_key c input s =
    Inr (s\<lparr>nh_ck := take 32 (okm_of c (nh_ck s) input), nh_k := Some (drop 32 (okm_of c (nh_ck s) input)), nh_n := 0\<rparr>)"
  by (auto simp: noise_laws_def mix_key_def okm_of_def ok_or_def split: option.split) (metis option.distinct(1))+

lemma encrypt_ok:
  assumes "noise_laws c" "nh_k s = Some k" "length p < 65536"
  obtains ct where "encrypt_and_hash c p s = Inr (ct, mix_hash c ct (s\<lparr>nh_n := nh_n s + 1\<rparr>))" "length ct = length p + 16"
    "\<And>s'. nh_k s' = Some k \<Longrightarrow> nh_n s' = nh_n s \<Longrightarrow> nh_h s' = nh_h s \<Longrightarrow>
      decrypt_and_hash c ct s' = Inr (p, mix_hash c ct (s'\<lparr>nh_n := nh_n s' + 1\<rparr>))"
proof -
  have laws: "aead_laws (nc_enc c) (nc_dec c)" using assms(1) by (simp add: noise_laws_def)
  obtain ct where ct: "nc_enc c k (noise_nonce (nh_n s)) (nh_h s) p = Some ct"
    using laws assms(3) unfolding aead_laws_def by blast
  have "nc_dec c k (noise_nonce (nh_n s)) (nh_h s) ct = Some p" "length ct = length p + 16"
    using laws ct unfolding aead_laws_def TAG_LEN_def by blast+
  then show thesis using that [of ct] ct assms(2)
    by (simp add: encrypt_and_hash_def decrypt_and_hash_def noise_aead_encrypt_def noise_aead_decrypt_def ok_or_def)
qed

definition same_sym :: "NoiseState \<Rightarrow> NoiseState \<Rightarrow> bool" where
  "same_sym s t \<longleftrightarrow> nh_ck s = nh_ck t \<and> nh_h s = nh_h t \<and> nh_k s = nh_k t \<and> nh_n s = nh_n t"

lemma mix_hash_simps [simp]:
  "nh_role (mix_hash c d s) = nh_role s" "nh_ck (mix_hash c d s) = nh_ck s" "nh_k (mix_hash c d s) = nh_k s"
  "nh_n (mix_hash c d s) = nh_n s" "nh_local (mix_hash c d s) = nh_local s" "nh_local_eph (mix_hash c d s) = nh_local_eph s"
  "nh_peer_static (mix_hash c d s) = nh_peer_static s" "nh_peer_eph (mix_hash c d s) = nh_peer_eph s"
  "nh_h (mix_hash c d s) = nc_sha256 c (nh_h s @ d)"
  by (simp_all add: mix_hash_def)

definition same_keys :: "NoiseState \<Rightarrow> NoiseState \<Rightarrow> bool" where
  "same_keys s s' \<longleftrightarrow> nh_role s' = nh_role s \<and> nh_local s' = nh_local s \<and> nh_local_eph s' = nh_local_eph s \<and>
     nh_peer_static s' = nh_peer_static s \<and> nh_peer_eph s' = nh_peer_eph s"

lemma mix_key_same:
  assumes "noise_laws c" "same_sym s t"
  obtains s' t' where "mix_key c x s = Inr s'" "mix_key c x t = Inr t'" "same_sym s' t'" "nh_k s' \<noteq> None"
    "same_keys s s'" "same_keys t t'"
  using assms by (auto simp: mix_key_ok same_sym_def same_keys_def)

lemma token_same:
  assumes "noise_laws c" "same_sym s t" "nh_k s \<noteq> None" "length p < 65536"
  obtains ct s' t' where "encrypt_and_hash c p s = Inr (ct, s')" "decrypt_and_hash c ct t = Inr (p, t')"
    "length ct = length p + 16" "same_sym s' t'" "nh_k s' \<noteq> None" "same_keys s s'" "same_keys t t'"
proof -
  obtain k where k: "nh_k s = Some k" using assms(3) by auto
  have eq: "nh_k t = Some k" "nh_n t = nh_n s" "nh_h t = nh_h s" "nh_ck t = nh_ck s"
    using assms(2) k by (simp_all add: same_sym_def)
  obtain ct where ct: "encrypt_and_hash c p s = Inr (ct, mix_hash c ct (s\<lparr>nh_n := nh_n s + 1\<rparr>))" "length ct = length p + 16"
    "decrypt_and_hash c ct t = Inr (p, mix_hash c ct (t\<lparr>nh_n := nh_n t + 1\<rparr>))"
    by (rule encrypt_ok [OF assms(1) k assms(4)]) (use eq in blast)
  show thesis by (rule that [OF ct(1) ct(3) ct(2)]) (simp_all add: k eq same_sym_def same_keys_def)
qed

text \<open>An optional payload at the end of a message.\<close>

lemma optional_same:
  assumes "noise_laws c" "same_sym s t" "nh_k s \<noteq> None" "length p < 65536"
  obtains ct s' t' where "(if p \<noteq> [] then encrypt_and_hash c p s else Inr ([], s)) = Inr (ct, s')"
    "(if ct = [] then Inr ([], t) else decrypt_and_hash c ct t) = Inr (p, t')"
    "same_sym s' t'" "same_keys s s'" "same_keys t t'" "length ct \<le> length p + 16"
proof (cases "p = []")
  case True
  then show thesis using that [of "[]" s t] assms(2) by (auto simp: same_keys_def)
next
  case False
  obtain ct s' t' where ct: "encrypt_and_hash c p s = Inr (ct, s')" "decrypt_and_hash c ct t = Inr (p, t')"
    "length ct = length p + 16" "same_sym s' t'" "same_keys s s'" "same_keys t t'"
    by (rule token_same [OF assms])
  then have "ct \<noteq> []" by auto
  then show thesis using that [of ct s' t'] ct False by simp
qed

lemma message_1_agrees:
  assumes laws: "noise_laws c" and len: "length offer < 65536"
    and ini: "ini = noise_new c NoiseInitiator (keypair_of c si) (Some (nc_public c sr))"
    and res: "res = noise_new c NoiseResponder (keypair_of c sr) None"
  obtains m1 ini' res' where "write_message_1 c e offer ini = Inr (m1, ini')" "80 \<le> length m1" "length m1 \<le> 96 + length offer"
    "read_message_1 c m1 res = Inr ((nc_public c si, offer), res')" "same_sym ini' res'"
    "nh_role ini' = NoiseInitiator" "nh_local ini' = keypair_of c si" "nh_local_eph ini' = Some e"
    "nh_peer_static ini' = Some (nc_public c sr)"
    "nh_role res' = NoiseResponder" "nh_peer_static res' = Some (nc_public c si)" "nh_peer_eph res' = Some (nc_public c e)"
proof -
  let ?epub = "nc_public c e" and ?spub = "nc_public c si"
  have dh: "nc_dh c a (nc_public c b) = nc_dh c b (nc_public c a)" and plen: "length (nc_public c x) = 32" for a b x
    using laws by (simp_all add: noise_laws_def)
  define i0 where "i0 = mix_hash c ?epub ini"
  define r0 where "r0 = mix_hash c ?epub (res\<lparr>nh_peer_eph := Some ?epub\<rparr>)"
  have "same_sym i0 r0" by (simp add: i0_def r0_def ini res noise_new_def same_sym_def Let_def)
  from mix_key_same [OF laws this, of "nc_dh c e (nc_public c sr)"] obtain i1 r1 where
    s1: "mix_key c (nc_dh c e (nc_public c sr)) i0 = Inr i1" "mix_key c (nc_dh c e (nc_public c sr)) r0 = Inr r1"
      "same_sym i1 r1" "nh_k i1 \<noteq> None" "same_keys i0 i1" "same_keys r0 r1" by metis
  obtain s_enc i2 r2 where
    s2: "encrypt_and_hash c ?spub i1 = Inr (s_enc, i2)" "decrypt_and_hash c s_enc r1 = Inr (?spub, r2)"
      "length s_enc = length ?spub + 16" "same_sym i2 r2" "nh_k i2 \<noteq> None" "same_keys i1 i2" "same_keys r1 r2"
    by (rule token_same [OF laws s1(3,4), of ?spub]) (simp_all add: plen)
  have "same_sym i2 (r2\<lparr>nh_peer_static := Some ?spub\<rparr>)" using s2(4) by (simp add: same_sym_def)
  from mix_key_same [OF laws this, of "nc_dh c si (nc_public c sr)"] obtain i3 r3 where
    s3: "mix_key c (nc_dh c si (nc_public c sr)) i2 = Inr i3"
      "mix_key c (nc_dh c si (nc_public c sr)) (r2\<lparr>nh_peer_static := Some ?spub\<rparr>) = Inr r3"
      "same_sym i3 r3" "nh_k i3 \<noteq> None" "same_keys i2 i3" "same_keys (r2\<lparr>nh_peer_static := Some ?spub\<rparr>) r3" by metis
  from optional_same [OF laws s3(3,4) len] obtain o_enc i4 r4 where
    s4: "(if offer \<noteq> [] then encrypt_and_hash c offer i3 else Inr ([], i3)) = Inr (o_enc, i4)"
      "(if o_enc = [] then Inr ([], r3) else decrypt_and_hash c o_enc r3) = Inr (offer, r4)"
      "same_sym i4 r4" "same_keys i3 i4" "same_keys r3 r4" "length o_enc \<le> length offer + 16" by metis
  define m1 where "m1 = ?epub @ s_enc @ o_enc"
  have ini0: "nh_role ini = NoiseInitiator" "nh_peer_static ini = Some (nc_public c sr)" "nh_local ini = keypair_of c si"
    and res0: "nh_role res = NoiseResponder" "nh_local res = keypair_of c sr"
    by (simp_all add: ini res noise_new_def Let_def)
  have loc: "nh_local i1 = keypair_of c si" "nh_local i2 = keypair_of c si" "nh_local r2 = keypair_of c sr"
    using s1(5,6) s2(6,7) ini0 res0 by (simp_all add: same_keys_def i0_def r0_def)
  have w: "write_message_1 c e offer ini = Inr (m1, i4\<lparr>nh_local_eph := Some e\<rparr>)"
    using ini0 s1(1) s2(1) s3(1) s4(1) loc
    by (simp add: write_message_1_def i0_def [symmetric] m1_def Let_def keypair_of_def)
  have r: "read_message_1 c m1 res = Inr ((?spub, offer), r4)"
    using res0 s1(2) s2(2,3) s3(2) s4(2) loc plen dh [of sr e] dh [of sr si]
    by (simp add: read_message_1_def m1_def r0_def [symmetric] NOISE_TAG_LEN_def Let_def keypair_of_def)
  show thesis
    by (rule that [OF w _ _ r])
      (use s1(5,6) s2(3,6,7) s3(5,6) s4(3,4,5,6) ini0 res0 plen in \<open>simp_all add: same_keys_def same_sym_def i0_def r0_def m1_def\<close>)
qed

lemma split_same:
  assumes "noise_laws c" "same_sym s t"
  obtains result where "noise_split c sch s = Inr result" "noise_split c sch t = Inr result"
proof -
  obtain okm where "nc_hkdf c (nh_ck s) [] (TRANSPORT_KEY_INFO @ sch) 64 = Some okm"
    using assms(1) unfolding noise_laws_def by blast
  then show thesis using that assms(2) by (auto simp: noise_split_def same_sym_def ok_or_def)
qed

lemma message_2_agrees:
  assumes laws: "noise_laws c" and len: "length payload < 65536" and same: "same_sym ini res"
    and ini: "nh_role ini = NoiseInitiator" "nh_local ini = keypair_of c si" "nh_local_eph ini = Some ei"
    and res: "nh_role res = NoiseResponder" "nh_peer_static res = Some (nc_public c si)" "nh_peer_eph res = Some (nc_public c ei)"
    and sched: "ks payload = sch"
  obtains m2 result ini' res' where "write_message_2 c er payload sch res = Inr ((m2, result), res')" "length m2 = 48 + length payload"
    "read_message_2 c m2 ks ini = Inr ((payload, result), ini')" "nh_peer_static ini' = nh_peer_static ini"
proof -
  let ?epub = "nc_public c er"
  have dh: "nc_dh c a (nc_public c b) = nc_dh c b (nc_public c a)" and plen: "length (nc_public c x) = 32" for a b x
    using laws by (simp_all add: noise_laws_def)
  define i0 where "i0 = (mix_hash c ?epub (ini\<lparr>nh_peer_eph := Some ?epub\<rparr>))\<lparr>nh_local_eph := None\<rparr>"
  define r0 where "r0 = mix_hash c ?epub res"
  have "same_sym r0 i0" using same by (simp add: i0_def r0_def same_sym_def)
  from mix_key_same [OF laws this, of "nc_dh c er (nc_public c ei)"] obtain i1 r1 where
    s1: "mix_key c (nc_dh c er (nc_public c ei)) r0 = Inr r1" "mix_key c (nc_dh c er (nc_public c ei)) i0 = Inr i1"
      "same_sym r1 i1" "same_keys r0 r1" "same_keys i0 i1" by metis
  from mix_key_same [OF laws s1(3), of "nc_dh c er (nc_public c si)"] obtain i2 r2 where
    s2: "mix_key c (nc_dh c er (nc_public c si)) r1 = Inr r2" "mix_key c (nc_dh c er (nc_public c si)) i1 = Inr i2"
      "same_sym r2 i2" "nh_k r2 \<noteq> None" "same_keys r1 r2" "same_keys i1 i2" by metis
  obtain ct r3 i3 where
    s3: "encrypt_and_hash c payload r2 = Inr (ct, r3)" "decrypt_and_hash c ct i2 = Inr (payload, i3)"
      "length ct = length payload + 16" "same_sym r3 i3" "same_keys r2 r3" "same_keys i2 i3"
    by (rule token_same [OF laws s2(3,4) len])
  obtain result where split: "noise_split c sch (r3\<lparr>nh_local_eph := Some er\<rparr>) = Inr result" "noise_split c sch i3 = Inr result"
    by (rule split_same [OF laws s3(4)]) (simp add: noise_split_def)
  have loc: "nh_local i1 = keypair_of c si" using s1(5) ini by (simp add: same_keys_def i0_def)
  have w: "write_message_2 c er payload sch res = Inr ((?epub @ ct, result), r3\<lparr>nh_local_eph := Some er\<rparr>)"
    using res s1(1) s2(1) s3(1) split by (simp add: write_message_2_def r0_def [symmetric] Let_def ok_or_def)
  have r: "read_message_2 c (?epub @ ct) ks ini = Inr ((payload, result), i3)"
    using ini s1(2) s2(2) s3(2,3) split plen dh [of ei er] dh [of si er] loc sched
    by (simp add: read_message_2_def NOISE_TAG_LEN_def Let_def ok_or_def keypair_of_def i0_def [symmetric])
  show thesis by (rule that [OF w _ r]) (use s1(5) s2(6) s3(3,6) plen in \<open>simp_all add: same_keys_def i0_def\<close>)
qed


subsection \<open>The seam\<close>

text \<open>The views the two sides have of one session.\<close>

definition session_match :: "SessionEstablished \<Rightarrow> SessionEstablished \<Rightarrow> bool" where
  "session_match cl sv \<longleftrightarrow>
     se_session_id cl = se_session_id sv \<and> se_hash cl = se_hash sv \<and> se_selection cl = se_selection sv \<and>
     se_send_key cl = se_recv_key sv \<and> se_recv_key cl = se_send_key sv \<and>
     se_send_dir cl = se_recv_dir sv \<and> se_recv_dir cl = se_send_dir sv"

lemma seam_agrees:
  assumes laws: "noise_laws c" and sel: "sel_check sel = Inr ()" and offer: "length offer < 65536"
    and ini: "build_handshake c NoiseIk InitiatorSide (keypair_of c si) (Some (nc_public c sr)) = Inr ini"
    and res: "build_handshake c NoiseIk ResponderSide (keypair_of c sr) None = Inr res"
  obtains m1 ini' hello res' m2 sv cl where
    "initiator_message_1 c ei offer ini = Inr (m1, ini')" "80 \<le> length m1" "length m1 \<le> 96 + length offer"
    "responder_read_message_1 c m1 res = Inr (hello, res')"
    "ih_peer_static hello = nc_public c si" "ih_offer hello = offer"
    "responder_message_2 c er hello sel caddr label res' = Inr (m2, sv)" "length m2 = 55"
    "client_finalize c m2 saddr ini' = Inr cl" "session_match cl sv"
    "se_peer sv = caddr" "se_peer cl = saddr" "se_peer_static sv = nc_public c si" "se_peer_static cl = nc_public c sr"
    "se_peer_label sv = label" "se_selection sv = sel"
proof -
  have ini0: "ini = noise_new c NoiseInitiator (keypair_of c si) (Some (nc_public c sr))"
    and res0: "res = noise_new c NoiseResponder (keypair_of c sr) None" using ini res by simp_all
  obtain m1 i1 r1 where m1: "write_message_1 c ei offer ini = Inr (m1, i1)" "80 \<le> length m1" "length m1 \<le> 96 + length offer"
    "read_message_1 c m1 res = Inr ((nc_public c si, offer), r1)" "same_sym i1 r1"
    "nh_role i1 = NoiseInitiator" "nh_local i1 = keypair_of c si" "nh_local_eph i1 = Some ei"
    "nh_peer_static i1 = Some (nc_public c sr)"
    "nh_role r1 = NoiseResponder" "nh_peer_static r1 = Some (nc_public c si)" "nh_peer_eph r1 = Some (nc_public c ei)"
    by (rule message_1_agrees [OF laws offer ini0 res0])
  let ?ks = "\<lambda>p. case sel_decode p of Inr sel \<Rightarrow> suite_schedule sel | Inl _ \<Rightarrow> suite_schedule sel_defaults"
  have len: "length (sel_encode sel) = 7" by (simp add: sel_encode_def)
  obtain m2 result i2 r2 where m2: "write_message_2 c er (sel_encode sel) (suite_schedule sel) r1 = Inr ((m2, result), r2)"
    "length m2 = 48 + length (sel_encode sel)" "read_message_2 c m2 ?ks i1 = Inr ((sel_encode sel, result), i2)"
    "nh_peer_static i2 = nh_peer_static i1"
    by (rule message_2_agrees [OF laws _ m1(5,6,7,8,10,11,12), of "sel_encode sel" ?ks "suite_schedule sel" er])
      (simp_all add: len sel_roundtrip)
  show thesis
    by (rule that [of m1 i1 "\<lparr>ih_peer_static = nc_public c si, ih_offer = offer\<rparr>" r1 m2],
      simp_all add: initiator_message_1_def m1 responder_read_message_1_def responder_message_2_def client_finalize_def
        sel m2 len sel_roundtrip session_match_def ok_or_def, simp_all)
qed

end
