(* ===== verification/Handshake_Driver.thy ===== *)
theory Handshake_Driver
  imports Noise_Handshake Obfuscation
begin

text \<open>
  The handshake driver (\<open>src/src/tunnel/handshake.rs\<close>): the client's retry loop and the responder's
  treatment of one message 1. The network is an argument: for each attempt its fresh ephemeral
  secret, the time, whether the send succeeds, and what arrives before the timeout as a function of
  the message sent. The shared obfuscation stack is threaded through, since sending changes its
  timing state.
\<close>

definition HANDSHAKE_RTO :: nat where "HANDSHAKE_RTO = from_millis 500"
definition HANDSHAKE_MAX_ATTEMPTS :: nat where "HANDSHAKE_MAX_ATTEMPTS = 10"
definition MSG1_MIN :: nat where "MSG1_MIN = 32 + 32 + 16"
definition MSG2_MIN :: nat where "MSG2_MIN = 32 + 16"

datatype DriverError = TimeoutErr | ProtocolErr HandshakeError | IoErr

datatype Reply = Received bytes SocketAddr | RecvFailed | TimedOut

record Attempt =
  at_ephemeral :: bytes
  at_now :: nat
  at_send_ok :: bool
  at_reply :: "bytes \<Rightarrow> Reply"

type_synonym Authorizer = "bytes \<Rightarrow> bool \<times> string option"

definition clone_keypair :: "noise_crypto \<Rightarrow> KeyPair \<Rightarrow> KeyPair" where
  "clone_keypair c kp = keypair_of c (kp_secret kp)"

subsection \<open>The client\<close>

text \<open>What a reply leads to: \<open>None\<close> retries, \<open>Some\<close> ends the loop.\<close>

definition client_reply ::
  "noise_crypto \<Rightarrow> SocketAddr \<Rightarrow> transport \<Rightarrow> ObfuscationStack \<Rightarrow> NoiseState \<Rightarrow> Reply
   \<Rightarrow> (DriverError + SessionEstablished) option" where
  "client_reply c server transport obf hs reply =
     (case reply of
        RecvFailed \<Rightarrow> None
      | TimedOut \<Rightarrow> None
      | Received msg2 from \<Rightarrow>
          if from \<noteq> server then None
          else (case unwrap transport msg2 of
              Inl _ \<Rightarrow> None
            | Inr unwrapped \<Rightarrow> (case stack_reverse obf unwrapped of
                Inl _ \<Rightarrow> None
              | Inr unwrapped \<Rightarrow>
                  if length unwrapped < MSG2_MIN then None
                  else (case client_finalize c unwrapped server hs of
                      Inl _ \<Rightarrow> None
                    | Inr est \<Rightarrow> (case sel_check (se_selection est) of
                        Inr _ \<Rightarrow> Some (Inr est)
                      | Inl err \<Rightarrow> Some (Inl (ProtocolErr (IncompatibleProfile err))))))))"

text \<open>The loop over the attempts that are left; the last component is what was sent.\<close>

fun client_attempts ::
  "noise_crypto \<Rightarrow> SocketAddr \<Rightarrow> KeyPair \<Rightarrow> bytes \<Rightarrow> HandshakeKind \<Rightarrow> transport \<Rightarrow> bytes \<Rightarrow> Attempt list \<Rightarrow> ObfuscationStack
   \<Rightarrow> (DriverError + SessionEstablished) \<times> ObfuscationStack \<times> bytes list" where
  "client_attempts c server kp server_pub kind transport offer [] obf = (Inl TimeoutErr, obf, [])"
| "client_attempts c server kp server_pub kind transport offer (a # as) obf =
     (case build_handshake c kind InitiatorSide (clone_keypair c kp) (Some server_pub) of
        Inl err \<Rightarrow> (Inl (ProtocolErr err), obf, [])
      | Inr hs \<Rightarrow> (case initiator_message_1 c (at_ephemeral a) offer hs of
          Inl err \<Rightarrow> (Inl (ProtocolErr err), obf, [])
        | Inr (m1, hs) \<Rightarrow>
            let (obf, o1) = stack_apply (at_now a) obf m1; wire = wrap transport o1
            in if \<not> at_send_ok a then (Inl IoErr, obf, [])
               else (case client_reply c server transport obf hs (at_reply a wire) of
                   Some res \<Rightarrow> (res, obf, [wire])
                 | None \<Rightarrow>
                     let (res, obf, sent) = client_attempts c server kp server_pub kind transport offer as obf
                     in (res, obf, wire # sent))))"

definition handshake_client ::
  "noise_crypto \<Rightarrow> SocketAddr \<Rightarrow> KeyPair \<Rightarrow> bytes \<Rightarrow> LocalProfile \<Rightarrow> (nat \<Rightarrow> Attempt) \<Rightarrow> ObfuscationStack
   \<Rightarrow> (DriverError + SessionEstablished) \<times> ObfuscationStack \<times> bytes list" where
  "handshake_client c server kp server_pub profile net obf =
     (case select_handshake (lp_kex_name profile) of
        Inl n \<Rightarrow> (Inl (ProtocolErr (UnsupportedKex n)), obf, [])
      | Inr kind \<Rightarrow>
          let offer = (case lp_offer profile of None \<Rightarrow> [] | Some co \<Rightarrow> offer_encode co)
          in client_attempts c server kp server_pub kind (lp_handshake_transport profile) offer
               (map net [1..<HANDSHAKE_MAX_ATTEMPTS + 1]) obf)"

subsection \<open>The responder\<close>

definition respond_message_1 ::
  "noise_crypto \<Rightarrow> bytes \<Rightarrow> nat \<Rightarrow> KeyPair \<Rightarrow> LocalProfile \<Rightarrow> bytes \<Rightarrow> SocketAddr \<Rightarrow> Authorizer option \<Rightarrow> ObfuscationStack
   \<Rightarrow> (SessionEstablished \<times> bytes) option \<times> ObfuscationStack" where
  "respond_message_1 c e now kp profile msg1_wire peer authorizer obf =
     (case unwrap (lp_handshake_transport profile) msg1_wire of
        Inl _ \<Rightarrow> (None, obf)
      | Inr unwrapped \<Rightarrow> (case stack_reverse obf unwrapped of
          Inl _ \<Rightarrow> (None, obf)
        | Inr unwrapped \<Rightarrow>
            if length unwrapped < MSG1_MIN then (None, obf)
            else (case select_handshake (lp_kex_name profile) of
                Inl _ \<Rightarrow> (None, obf)
              | Inr kind \<Rightarrow> (case build_handshake c kind ResponderSide (clone_keypair c kp) None of
                  Inl _ \<Rightarrow> (None, obf)
                | Inr hs \<Rightarrow> (case responder_read_message_1 c unwrapped hs of
                    Inl _ \<Rightarrow> (None, obf)
                  | Inr (hello, hs) \<Rightarrow>
                      let (allowed, label) = (case authorizer of None \<Rightarrow> (True, None) | Some auth \<Rightarrow> auth (ih_peer_static hello))
                      in if \<not> allowed then (None, obf)
                         else let offer = (case offer_decode (ih_offer hello) of Inr o1 \<Rightarrow> o1 | Inl _ \<Rightarrow> None)
                           in (case negotiate (lp_prefs profile) offer (lp_data_tag profile) of
                               Inl _ \<Rightarrow> (None, obf)
                             | Inr sel \<Rightarrow> (case responder_message_2 c e hello sel peer label hs of
                                 Inl _ \<Rightarrow> (None, obf)
                               | Inr (m2, est) \<Rightarrow>
                                   let (obf, o2) = stack_apply now obf m2
                                   in (Some (est, wrap (lp_handshake_transport profile) o2), obf))))))))"

text \<open>The single-client responder: it answers until one message 1 is valid, over a sequence of
  receptions (\<open>None\<close> a receive error), each with its ephemeral and whether the reply can be sent.\<close>

fun handshake_server ::
  "noise_crypto \<Rightarrow> KeyPair \<Rightarrow> LocalProfile \<Rightarrow> (bytes \<times> nat \<times> (bytes \<times> SocketAddr) option \<times> bool) list \<Rightarrow> ObfuscationStack
   \<Rightarrow> ((DriverError + SessionEstablished) \<times> (bytes \<times> SocketAddr) list) option" where
  "handshake_server c kp profile [] obf = None"
| "handshake_server c kp profile ((e, now, None, ok) # rs) obf = Some (Inl IoErr, [])"
| "handshake_server c kp profile ((e, now, Some (msg1, from), ok) # rs) obf =
     (case respond_message_1 c e now kp profile msg1 from None obf of
        (Some (est, wire), _) \<Rightarrow> if ok then Some (Inr est, [(wire, from)]) else Some (Inl IoErr, [])
      | (None, obf) \<Rightarrow> handshake_server c kp profile rs obf)"


subsection \<open>The honest exchange\<close>

lemma clone_keypair_simp [simp]: "clone_keypair c (keypair_of c s) = keypair_of c s"
  by (simp add: clone_keypair_def keypair_of_def)

definition client_offer :: "LocalProfile \<Rightarrow> bytes" where
  "client_offer lp = (case lp_offer lp of None \<Rightarrow> [] | Some co \<Rightarrow> offer_encode co)"

text \<open>The client's and the server's configuration fit: the same envelope, key exchanges this build
  knows, and obfuscation stacks that undo each other on messages of up to 229 bytes, the longest
  message 1.\<close>

definition drivers_fit :: "LocalProfile \<Rightarrow> ObfuscationStack \<Rightarrow> LocalProfile \<Rightarrow> ObfuscationStack \<Rightarrow> bool" where
  "drivers_fit cli ocl srv osv \<longleftrightarrow>
     lp_handshake_transport cli = lp_handshake_transport srv \<and>
     select_handshake (lp_kex_name cli) = Inr NoiseIk \<and> select_handshake (lp_kex_name srv) = Inr NoiseIk \<and>
     stack_carries ocl osv 229 \<and> stack_carries osv ocl 229"

lemma stack_peer_kept: "peer_stack r st \<Longrightarrow> stack_carries st r n \<Longrightarrow> length f \<le> n \<Longrightarrow>
   stack_carries r st m \<Longrightarrow> stack_carries r (fst (stack_apply now st f)) m"
  using stack_carries_apply(2) [of st r n f now] peer_stack_commute by (auto simp: stack_carries_def)

lemma honest_attempt:
  assumes laws: "noise_laws c" and fit: "drivers_fit cli ocl srv osv"
    and auth: "case authorizer of None \<Rightarrow> True | Some auth \<Rightarrow> fst (auth (nc_public c si))"
  obtains hs m1 hs' o1 wire1 ocl' sv wire2 osv' cl where
    "build_handshake c NoiseIk InitiatorSide (clone_keypair c (keypair_of c si)) (Some (nc_public c sr)) = Inr hs"
    "initiator_message_1 c ei (client_offer cli) hs = Inr (m1, hs')" "stack_apply now1 ocl m1 = (ocl', o1)"
    "wire1 = wrap (lp_handshake_transport cli) o1"
    "respond_message_1 c er now2 (keypair_of c sr) srv wire1 caddr authorizer osv = (Some (sv, wire2), osv')"
    "client_reply c saddr (lp_handshake_transport cli) ocl' hs' (Received wire2 saddr) = Some (Inr cl)"
    "session_match cl sv" "se_peer sv = caddr" "se_peer cl = saddr" "se_peer_static sv = nc_public c si"
    "se_peer_static cl = nc_public c sr" "sel_check (se_selection sv) = Inr ()" "peer_stack ocl' osv'"
proof -
  let ?tr = "lp_handshake_transport cli"
  define label where "label = (case authorizer of None \<Rightarrow> None | Some auth \<Rightarrow> snd (auth (nc_public c si)))"
  obtain off sel where neg: "offer_decode (client_offer cli) = Inr off"
    "negotiate (lp_prefs srv) off (lp_data_tag srv) = Inr sel" "sel_check sel = Inr ()"
    using negotiation_succeeds [of cli srv] unfolding client_offer_def by blast
  have olen: "length (client_offer cli) \<le> 133" unfolding client_offer_def by (rule offer_length)
  define ini where "ini = noise_new c NoiseInitiator (keypair_of c si) (Some (nc_public c sr))"
  define res where "res = noise_new c NoiseResponder (keypair_of c sr) None"
  obtain m1 ini' hello res' m2 sv cl where seam:
    "initiator_message_1 c ei (client_offer cli) ini = Inr (m1, ini')" "80 \<le> length m1" "length m1 \<le> 96 + length (client_offer cli)"
    "responder_read_message_1 c m1 res = Inr (hello, res')"
    "ih_peer_static hello = nc_public c si" "ih_offer hello = client_offer cli"
    "responder_message_2 c er hello sel caddr label res' = Inr (m2, sv)" "length m2 = 55"
    "client_finalize c m2 saddr ini' = Inr cl" "session_match cl sv"
    "se_peer sv = caddr" "se_peer cl = saddr" "se_peer_static sv = nc_public c si" "se_peer_static cl = nc_public c sr"
    "se_peer_label sv = label" "se_selection sv = sel"
    by (rule seam_agrees [OF laws neg(3), of "client_offer cli" si sr ini res])
      (use olen in \<open>simp_all add: ini_def res_def\<close>)
  obtain ocl' o1 where a1: "stack_apply now1 ocl m1 = (ocl', o1)" by fastforce
  obtain osv' o2 where a2: "stack_apply now2 osv m2 = (osv', o2)" by fastforce
  have m1len: "length m1 \<le> 229" using seam(3) olen by simp
  have r1: "stack_reverse osv o1 = Inr m1"
    using stack_carries_apply(1) [of ocl osv 229 m1 now1] fit m1len a1 by (simp add: drivers_fit_def)
  have os: "stack_carries osv ocl' 229"
    using stack_peer_kept [of osv ocl 229 m1 229 now1] fit m1len a1 by (simp add: drivers_fit_def stack_carries_def)
  then have r2: "stack_reverse ocl' o2 = Inr m2"
    using stack_carries_apply(1) [of osv ocl' 229 m2 now2] seam(8) a2 by simp
  have peers: "peer_stack ocl' osv'"
    using stack_carries_apply(2) [OF os, of m2 now2] seam(8) a2 peer_stack_commute by (simp add: stack_carries_def)
  have same: "lp_handshake_transport srv = ?tr" "select_handshake (lp_kex_name srv) = Inr NoiseIk"
    using fit by (simp_all add: drivers_fit_def)
  have ok: "(case authorizer of None \<Rightarrow> (True, None) | Some auth \<Rightarrow> auth (ih_peer_static hello)) = (True, label)"
    using auth seam(5) by (auto simp: label_def prod_eq_iff split: option.splits)
  have resp: "respond_message_1 c er now2 (keypair_of c sr) srv (wrap ?tr o1) caddr authorizer osv = (Some (sv, wrap ?tr o2), osv')"
    by (simp add: not_less respond_message_1_def same r1 MSG1_MIN_def res_def [symmetric] seam ok neg a2)
  have fin: "client_reply c saddr ?tr ocl' ini' (Received (wrap ?tr o2) saddr) = Some (Inr cl)"
    using seam(8,10,16) neg(3) by (simp add: client_reply_def r2 MSG2_MIN_def seam(9) session_match_def)
  show thesis
    by (rule that [of ini m1 ini' ocl' o1 _ sv "wrap ?tr o2" osv' cl, OF _ seam(1) a1 refl resp fin seam(10)])
      (simp_all add: ini_def seam neg peers)
qed


text \<open>Attempts that bring no message from the server leave the client ready for the next one.\<close>

definition unanswered :: "SocketAddr \<Rightarrow> Attempt \<Rightarrow> bool" where
  "unanswered server a \<longleftrightarrow> at_send_ok a \<and>
     (\<forall>wire m from. at_reply a wire = Received m from \<longrightarrow> from \<noteq> server)"

lemma unanswered_retries: "unanswered server a \<Longrightarrow> client_reply c server tr obf hs (at_reply a wire) = None"
  by (auto simp: unanswered_def client_reply_def split: Reply.split)

lemma message_1_sent:
  assumes "noise_laws c"
  obtains hs m1 hs' where
    "build_handshake c NoiseIk InitiatorSide (clone_keypair c (keypair_of c si)) (Some (nc_public c sr)) = Inr hs"
    "initiator_message_1 c e (client_offer cli) hs = Inr (m1, hs')" "length m1 \<le> 229"
proof -
  have olen: "length (client_offer cli) \<le> 133" unfolding client_offer_def by (rule offer_length)
  obtain m1 hs' where "write_message_1 c e (client_offer cli) (noise_new c NoiseInitiator (keypair_of c si) (Some (nc_public c sr)))
      = Inr (m1, hs')" "length m1 \<le> 96 + length (client_offer cli)"
    by (rule message_1_agrees [OF assms, of "client_offer cli" _ si sr]) (use olen in auto)
  then show thesis using that olen by (simp add: initiator_message_1_def)
qed

lemma drivers_fit_sent:
  assumes "drivers_fit cli ocl srv osv" "length m \<le> 229"
  shows "drivers_fit cli (fst (stack_apply now ocl m)) srv osv"
  using assms stack_carries_apply(2) [of ocl osv 229 m now] stack_peer_kept [of osv ocl 229 m 229 now]
  by (auto simp: drivers_fit_def stack_carries_def)

lemma attempts_complete:
  assumes laws: "noise_laws c" and auth: "case authorizer of None \<Rightarrow> True | Some auth \<Rightarrow> fst (auth (nc_public c si))"
    and reply: "at_send_ok a" "\<And>wire. at_reply a wire =
      (case respond_message_1 c er now2 (keypair_of c sr) srv wire caddr authorizer osv of
         (Some (sv, m2), _) \<Rightarrow> Received m2 saddr | _ \<Rightarrow> TimedOut)"
  shows "drivers_fit cli ocl srv osv \<Longrightarrow> \<forall>b \<in> set bs. unanswered saddr b \<Longrightarrow>
    \<exists>cl ocl' sent wire1 sv wire2 osv'.
      client_attempts c saddr (keypair_of c si) (nc_public c sr) NoiseIk (lp_handshake_transport cli) (client_offer cli)
        (bs @ a # rest) ocl = (Inr cl, ocl', sent @ [wire1]) \<and> length sent = length bs \<and>
      respond_message_1 c er now2 (keypair_of c sr) srv wire1 caddr authorizer osv = (Some (sv, wire2), osv') \<and>
      session_match cl sv \<and> se_peer sv = caddr \<and> se_peer cl = saddr \<and> se_peer_static sv = nc_public c si \<and>
      se_peer_static cl = nc_public c sr \<and> sel_check (se_selection sv) = Inr () \<and> peer_stack ocl' osv'"
proof (induction bs arbitrary: ocl)
  case Nil
  show ?case
    by (rule honest_attempt [OF laws Nil(1) auth, where ei = "at_ephemeral a" and ?now1.0 = "at_now a" and er = er
        and ?now2.0 = now2 and sr = sr and caddr = caddr and saddr = saddr])
      (auto simp: reply)
next
  case (Cons b bs)
  obtain hs m1 hs' where m1:
    "build_handshake c NoiseIk InitiatorSide (clone_keypair c (keypair_of c si)) (Some (nc_public c sr)) = Inr hs"
    "initiator_message_1 c (at_ephemeral b) (client_offer cli) hs = Inr (m1, hs')" "length m1 \<le> 229"
    by (rule message_1_sent [OF laws])
  obtain obf o1 where o1: "stack_apply (at_now b) ocl m1 = (obf, o1)" by fastforce
  have "drivers_fit cli obf srv osv" using drivers_fit_sent [OF Cons.prems(1) m1(3), of "at_now b"] o1 by simp
  moreover have "unanswered saddr b" "\<forall>b \<in> set bs. unanswered saddr b" using Cons.prems(2) by auto
  ultimately show ?case
    using Cons.IH [of obf] m1(1,2) o1 unanswered_retries [of saddr b]
    by (fastforce simp: unanswered_def)
qed


subsection \<open>What the loops guarantee\<close>

lemma client_reply_Some:
  assumes "client_reply c server tr obf hs reply = Some res"
  obtains m est where "reply = Received m server" "res = Inr est" "se_peer est = server"
    "sel_check (se_selection est) = Inr ()"
proof -
  obtain m u v est where r: "reply = Received m server" "unwrap tr m = Inr u" "stack_reverse obf u = Inr v"
    "client_finalize c v server hs = Inr est"
    "res = (case sel_check (se_selection est) of Inr _ \<Rightarrow> Inr est | Inl err \<Rightarrow> Inl (ProtocolErr (IncompatibleProfile err)))"
    using assms by (auto simp: client_reply_def split: Reply.split_asm if_split_asm sum.split_asm)
  have "se_peer est = server" "sel_check (se_selection est) = Inr ()"
    using r(4) by (auto simp: client_finalize_def try_bind_eq_Inr)
  then show thesis using that r by simp
qed

lemma attempts_sent:
  "client_attempts c server kp server_pub kind tr offer as obf = (res, obf', sent) \<Longrightarrow>
    length sent \<le> length as \<and> (res = Inl TimeoutErr \<longrightarrow> length sent = length as) \<and>
    (\<forall>est. res = Inr est \<longrightarrow> sent \<noteq> [] \<and> (\<exists>m. at_reply (as ! (length sent - 1)) (last sent) = Received m server) \<and>
       se_peer est = server \<and> sel_check (se_selection est) = Inr ())"
proof (induction as arbitrary: obf obf' res sent)
  case (Cons a as)
  show ?case
  proof (cases "initiator_message_1 c (at_ephemeral a) offer (noise_new c NoiseInitiator (clone_keypair c kp) (Some server_pub))")
    case (Inl err)
    then have "res = Inl (ProtocolErr err)" "sent = []" using Cons.prems by (cases kind; simp)+
    then show ?thesis by simp
  next
    case (Inr p)
    obtain m1 hs where p: "p = (m1, hs)" by fastforce
    obtain obf1 o1 where o1: "stack_apply (at_now a) obf m1 = (obf1, o1)" by fastforce
    let ?reply = "client_reply c server tr obf1 hs (at_reply a (wrap tr o1))"
    consider "\<not> at_send_ok a" | r where "at_send_ok a" "?reply = Some r" | "at_send_ok a" "?reply = None" by fastforce
    then show ?thesis
    proof cases
      case 1
      then have "res = Inl IoErr" "sent = []" using Cons.prems Inr p o1 by (cases kind; simp)+
      then show ?thesis by simp
    next
      case 2
      obtain m est where "at_reply a (wrap tr o1) = Received m server" "r = Inr est" "se_peer est = server"
        "sel_check (se_selection est) = Inr ()" by (rule client_reply_Some [OF 2(2)])
      moreover have "res = r" "sent = [wrap tr o1]" using Cons.prems Inr p o1 2 by (cases kind; simp)+
      ultimately show ?thesis by simp
    next
      case 3
      obtain res1 obf2 sent1 where rec: "client_attempts c server kp server_pub kind tr offer as obf1 = (res1, obf2, sent1)"
        by (metis prod_cases3)
      then have eq: "res = res1" "sent = wrap tr o1 # sent1" using Cons.prems Inr p o1 3 by (cases kind; simp)+
      note IH = Cons.IH [OF rec]
      have "sent1 \<noteq> [] \<Longrightarrow> (a # as) ! (length sent - 1) = as ! (length sent1 - 1)" by (cases sent1) (simp_all add: eq)
      moreover have "sent1 \<noteq> [] \<Longrightarrow> last sent = last sent1" "sent \<noteq> []" by (simp_all add: eq)
      moreover have "length sent \<le> length (a # as)" "res = Inl TimeoutErr \<Longrightarrow> length sent = length (a # as)"
        using IH by (simp_all add: eq)
      ultimately show ?thesis using IH eq(1) by metis
    qed
  qed
qed simp

lemma respond_Some:
  assumes "respond_message_1 c e now kp profile wire peer authorizer obf = (Some (est, wire2), obf')"
  shows "case authorizer of None \<Rightarrow> se_peer_label est = None
    | Some auth \<Rightarrow> auth (se_peer_static est) = (True, se_peer_label est)"
    and "sel_check (se_selection est) = Inr ()" "se_peer est = peer"
proof -
  obtain hello hs sel m2 label where r:
    "(case authorizer of None \<Rightarrow> (True, None) | Some auth \<Rightarrow> auth (ih_peer_static hello)) = (True, label)"
    "responder_message_2 c e hello sel peer label hs = Inr (m2, est)"
    using assms unfolding respond_message_1_def Let_def
    by (simp split: sum.split_asm if_split_asm prod.split_asm)
  have "se_peer est = peer" "se_peer_static est = ih_peer_static hello" "se_peer_label est = label"
    "sel_check (se_selection est) = Inr ()"
    using r(2) by (auto simp: responder_message_2_def try_bind_eq_Inr)
  then show "case authorizer of None \<Rightarrow> se_peer_label est = None
    | Some auth \<Rightarrow> auth (se_peer_static est) = (True, se_peer_label est)"
    "sel_check (se_selection est) = Inr ()" "se_peer est = peer"
    using r(1) by (auto split: option.splits)
qed

lemma handshake_client_outcome:
  assumes "handshake_client c server kp server_pub profile net obf = (res, obf', sent)"
  shows "length sent \<le> 10 \<and> (res = Inl TimeoutErr \<longrightarrow> length sent = 10) \<and>
    (\<forall>est. res = Inr est \<longrightarrow> sent \<noteq> [] \<and> (\<exists>m. at_reply (net (length sent)) (last sent) = Received m server) \<and>
       se_peer est = server \<and> sel_check (se_selection est) = Inr ())"
proof (cases "select_handshake (lp_kex_name profile)")
  case (Inl n)
  then show ?thesis using assms by (auto simp: handshake_client_def)
next
  case (Inr kind)
  define as where "as = map net [1..<HANDSHAKE_MAX_ATTEMPTS + 1]"
  have len: "length as = 10" by (simp add: as_def HANDSHAKE_MAX_ATTEMPTS_def del: upt_Suc)
  have run: "client_attempts c server kp server_pub kind (lp_handshake_transport profile) (client_offer profile) as obf = (res, obf', sent)"
    using assms Inr by (simp add: handshake_client_def client_offer_def as_def del: upt_Suc)
  have nth: "as ! (length sent - 1) = net (length sent)" if "sent \<noteq> []" "length sent \<le> length as"
    using that by (cases sent) (simp_all add: as_def del: upt_Suc)
  show ?thesis using attempts_sent [OF run] nth len by metis
qed

subsection \<open>Properties\<close>

text \<open>C22. The client's handshake loop ends: it sends at most ten messages, reports a timeout only after
  all ten, and succeeds only on a message that came from the server's address in the last attempt,
  with a profile this build can run.\<close>

theorem handshake_client_ends:
  assumes "handshake_client c server kp server_pub profile net obf = (res, obf', sent)"
  shows "length sent \<le> 10 \<and> (res = Inl TimeoutErr \<longrightarrow> length sent = 10) \<and>
    (\<forall>est. res = Inr est \<longrightarrow> sent \<noteq> [] \<and> (\<exists>m. at_reply (net (length sent)) (last sent) = Received m server) \<and>
       se_peer est = server \<and> sel_check (se_selection est) = Inr ())"
  using handshake_client_outcome [OF assms] .

end
