(* ===== verification/Server.thy ===== *)
theory Server
  imports Peer_Auth Probe_Limiter Handshake_Driver Tunnel_State
begin

text \<open>
  The multi-client server (\<open>src/src/tunnel/server.rs\<close>): the dispatcher's session table, the address index,
  handshakes, routing in both directions, roaming, eviction and the sweep. The dispatcher is one
  task, so its state is one record and each arm of its \<open>select!\<close> is one event. The session table is an
  association list whose order stands for the iteration order of the \<open>HashMap\<close>; the properties hold for
  every order. A channel to a tunnel task is the list of its queued messages, and \<open>ch_closed\<close> says that
  the task has dropped its receivers. Networks of the crate \<open>ipnet\<close> are their \<open>contains\<close> predicates,
  and the codec of the crate \<open>hex\<close> is a parameter.
\<close>

definition PER_CLIENT_CHAN :: nat where "PER_CLIENT_CHAN = 512"

subsection \<open>State\<close>

record ClientHandle =
  ch_udp :: "(bytes \<times> SocketAddr) list"
  ch_tun :: "bytes list"
  ch_closed :: bool
  ch_current_addr :: SocketAddr
  ch_peer_key :: bytes
  ch_peer_label :: "string option"
  ch_last_forwarded :: nat
  ch_roam_count :: u32
  ch_last_roam :: "nat option"
  ch_spawned_at :: nat
  ch_tun_ips :: "IpAddr set"
  ch_warned :: "IpAddr set"
  ch_keystream :: "bytes option"
  ch_tunnel :: Tunnel

type_synonym sessions = "(session_id \<times> ClientHandle) list"

record ServerCounters =
  sc_connected :: bool
  sc_clients :: nat
  sc_handshakes_accepted :: nat
  sc_handshakes_rejected :: nat
  sc_handshake_errors :: nat
  sc_sessions_roamed :: nat
  sc_sessions_evicted :: nat
  sc_dispatch_backpressure :: nat

record ServerCtx =
  sx_crypto :: noise_crypto
  sx_hkdf :: hkdf_fun
  sx_kp :: KeyPair
  sx_profile :: LocalProfile
  sx_sender :: "carrier_kind option"
  sx_nets :: "(IpAddr \<Rightarrow> bool) list"
  sx_fec :: FecConfig
  sx_max_sessions :: u8
  sx_hex_encode :: "bytes \<Rightarrow> string"
  sx_hex_decode :: "string \<Rightarrow> bytes option"

text \<open>\<open>sv_wire\<close>, \<open>sv_tun_out\<close> and \<open>sv_signals\<close> record what left the dispatcher: handshake replies, packets
  for the device, and eviction signals. \<open>sv_shared\<close> holds the counters the tunnels share.\<close>

record ServerState =
  sv_sessions :: sessions
  sv_addr_index :: "SocketAddr \<rightharpoonup> session_id"
  sv_limiter :: ProbeLimiter
  sv_obf :: ObfuscationStack
  sv_auth :: PeerAuth
  sv_counters :: ServerCounters
  sv_shared :: Counters
  sv_wire :: "(bytes \<times> SocketAddr) list"
  sv_tun_out :: "bytes list"
  sv_signals :: "session_id list"
  sv_running :: bool

definition live :: "sessions \<Rightarrow> session_id \<Rightarrow> bool" where
  "live ss sid \<longleftrightarrow> map_of ss sid \<noteq> None"

text \<open>\<open>try_send\<close> on a bounded channel.\<close>

definition udp_try_send :: "bytes \<times> SocketAddr \<Rightarrow> ClientHandle \<Rightarrow> bool \<times> ClientHandle" where
  "udp_try_send m h =
     (if \<not> ch_closed h \<and> length (ch_udp h) < PER_CLIENT_CHAN then (True, h\<lparr>ch_udp := ch_udp h @ [m]\<rparr>) else (False, h))"

subsection \<open>Routing metadata\<close>

definition extract_header_xor_keystream :: "hkdf_fun \<Rightarrow> bytes \<Rightarrow> ObfuscationStack \<Rightarrow> nat \<Rightarrow> bytes option" where
  "extract_header_xor_keystream hkdf handshake_hash stack header_len =
     (if \<not> os_active stack \<or> ''header_xor'' \<notin> set (map layer_name (os_layers stack)) then None
      else Some (hkdf handshake_hash HKDF_INFO header_len))"

definition route_session_id :: "bytes \<Rightarrow> session_id option" where
  "route_session_id datagram =
     (case peek_any_session_id datagram of
        None \<Rightarrow> None
      | Some i \<Rightarrow> if i = 0 then None else Some i)"

definition addr_fallback :: "sessions \<Rightarrow> (SocketAddr \<rightharpoonup> session_id) \<Rightarrow> SocketAddr \<Rightarrow> session_id option" where
  "addr_fallback ss index from =
     (case index from of None \<Rightarrow> None | Some sid \<Rightarrow> if live ss sid then Some sid else None)"

definition peek_live :: "sessions \<Rightarrow> bytes \<Rightarrow> session_id option" where
  "peek_live ss frame =
     (case route_session_id frame of
        None \<Rightarrow> None
      | Some sid \<Rightarrow> if live ss sid then Some sid else None)"

definition dewhiten :: "bytes \<Rightarrow> bytes \<Rightarrow> bytes" where
  "dewhiten ks buf = (let n = min (length buf) (length ks) in map2 (XOR) (take n buf) (take n ks) @ drop n buf)"

definition peek_routed_session :: "sessions \<Rightarrow> transport \<Rightarrow> bytes \<Rightarrow> session_id option" where
  "peek_routed_session ss transport datagram =
     (case peek_live ss datagram of
        Some sid \<Rightarrow> Some sid
      | None \<Rightarrow> (case unwrap transport datagram of
          Inl _ \<Rightarrow> None
        | Inr unwrapped \<Rightarrow> (case peek_live ss unwrapped of
            Some sid \<Rightarrow> Some sid
          | None \<Rightarrow> find_map (\<lambda>(_, h). case ch_keystream h of
                None \<Rightarrow> None
              | Some ks \<Rightarrow> peek_live ss (dewhiten ks unwrapped)) ss)))"

definition ipv4_dst :: "bytes \<Rightarrow> IpAddr option" where
  "ipv4_dst pkt =
     (if length pkt < 20 \<or> drop_bit 4 (pkt ! 0) \<noteq> 4 then None
      else Some (V4 (pkt ! 16) (pkt ! 17) (pkt ! 18) (pkt ! 19)))"

definition ipv4_src :: "bytes \<Rightarrow> IpAddr option" where
  "ipv4_src pkt =
     (if length pkt < 20 \<or> drop_bit 4 (pkt ! 0) \<noteq> 4 then None
      else Some (V4 (pkt ! 12) (pkt ! 13) (pkt ! 14) (pkt ! 15)))"

definition should_learn_tun_ip :: "IpAddr \<Rightarrow> (IpAddr \<Rightarrow> bool) list \<Rightarrow> bool" where
  "should_learn_tun_ip src nets \<longleftrightarrow> nets = [] \<or> list_ex (\<lambda>n. n src) nets"

definition note_implausible_ip :: "IpAddr \<Rightarrow> IpAddr set \<Rightarrow> bool \<times> IpAddr set" where
  "note_implausible_ip src seen = (src \<notin> seen, insert src seen)"

subsection \<open>Evictions\<close>

text \<open>The first element with the least key, as \<open>min_by_key\<close>.\<close>

fun min_by_key :: "('a \<Rightarrow> nat) \<Rightarrow> 'a list \<Rightarrow> 'a option" where
  "min_by_key f [] = None"
| "min_by_key f (x # xs) = (case min_by_key f xs of None \<Rightarrow> Some x | Some y \<Rightarrow> if f x \<le> f y then Some x else Some y)"

definition send_evict :: "session_id \<Rightarrow> ServerState \<Rightarrow> ServerState" where
  "send_evict sid s =
     (case map_of (sv_sessions s) sid of
        Some h \<Rightarrow> if ch_closed h then s else s\<lparr>sv_signals := sv_signals s @ [sid]\<rparr>
      | None \<Rightarrow> s)"

definition keyed :: "bytes \<Rightarrow> sessions \<Rightarrow> sessions" where
  "keyed key ss = filter (\<lambda>(_, h). ch_peer_key h = key) ss"

definition evict_oldest_peer_session :: "bytes \<Rightarrow> u8 \<Rightarrow> ServerState \<Rightarrow> ServerState" where
  "evict_oldest_peer_session peer_key mx s =
     (if mx = 0 \<or> length (keyed peer_key (sv_sessions s)) < unat mx then s
      else case min_by_key (\<lambda>(_, h). ch_last_forwarded h) (keyed peer_key (sv_sessions s)) of
          None \<Rightarrow> s
        | Some (sid, _) \<Rightarrow>
            let s = send_evict sid s in s\<lparr>sv_sessions := AList.delete sid (sv_sessions s)\<rparr>)"

definition count_evicted :: "nat \<Rightarrow> ServerState \<Rightarrow> ServerState" where
  "count_evicted n s =
     (if n > 0 then s\<lparr>sv_counters := (sv_counters s)\<lparr>sc_sessions_evicted := sat_add64 (sc_sessions_evicted (sv_counters s)) n\<rparr>\<rparr>
      else s)"

definition evict_sessions_for_key :: "bytes \<Rightarrow> ServerState \<Rightarrow> nat \<times> ServerState" where
  "evict_sessions_for_key peer_key s =
     (let victims = map fst (keyed peer_key (sv_sessions s))
      in (length victims, count_evicted (length victims) (fold send_evict victims s)))"

definition evict_sessions :: "session_id option \<Rightarrow> bytes option \<Rightarrow> ServerState \<Rightarrow> nat \<times> ServerState" where
  "evict_sessions session_id peer_key s =
     (case (case session_id of
         Some sid \<Rightarrow> Some (if live (sv_sessions s) sid then [sid] else [])
       | None \<Rightarrow> (case peer_key of
           Some key \<Rightarrow> Some (map fst (keyed key (sv_sessions s)))
         | None \<Rightarrow> None)) of
        None \<Rightarrow> (0, s)
      | Some victims \<Rightarrow> (length victims, count_evicted (length victims) (fold send_evict victims s)))"

subsection \<open>Handshakes\<close>

definition spawn_tunnel ::
  "ServerCtx \<Rightarrow> nat \<Rightarrow> carrier_kind \<Rightarrow> ResolvedProfile \<Rightarrow> ObfuscationStack \<Rightarrow> SessionEstablished \<Rightarrow> Counters \<Rightarrow> Tunnel" where
  "spawn_tunnel ctx now carrier profile obf est counters =
     configure_fec (sx_fec ctx) (set_evict_rx (set_addr_change_tx
       (from_handshake now carrier (se_peer est) (session_new (se_session_id est) Responder) profile obf
          (se_send_key est) (se_recv_key est) (se_send_dir est) (se_recv_dir est) counters)))"

definition new_handle ::
  "ServerCtx \<Rightarrow> nat \<Rightarrow> carrier_kind \<Rightarrow> ResolvedProfile \<Rightarrow> ObfuscationStack \<Rightarrow> SessionEstablished \<Rightarrow> bytes option
   \<Rightarrow> Counters \<Rightarrow> ClientHandle" where
  "new_handle ctx now carrier profile obf est keystream counters =
     \<lparr>ch_udp = [], ch_tun = [], ch_closed = False, ch_current_addr = se_peer est, ch_peer_key = se_peer_static est,
      ch_peer_label = se_peer_label est, ch_last_forwarded = now, ch_roam_count = 0, ch_last_roam = None,
      ch_spawned_at = now, ch_tun_ips = {}, ch_warned = {}, ch_keystream = keystream,
      ch_tunnel = spawn_tunnel ctx now carrier profile obf est counters\<rparr>"

definition spawn_client ::
  "ServerCtx \<Rightarrow> nat \<Rightarrow> carrier_kind \<Rightarrow> ResolvedProfile \<Rightarrow> ObfuscationStack \<Rightarrow> SessionEstablished \<Rightarrow> bytes option
   \<Rightarrow> ServerState \<Rightarrow> ServerState" where
  "spawn_client ctx now carrier profile obf est keystream s =
     s\<lparr>sv_sessions := AList.update (se_session_id est)
         (new_handle ctx now carrier profile obf est keystream (sv_shared s)) (sv_sessions s),
       sv_addr_index := (sv_addr_index s)(se_peer est \<mapsto> se_session_id est)\<rparr>"

definition bump_errors :: "ServerState \<Rightarrow> ServerState" where
  "bump_errors s = s\<lparr>sv_counters := (sv_counters s)\<lparr>sc_handshake_errors := sat_add64 (sc_handshake_errors (sv_counters s)) 1\<rparr>\<rparr>"

text \<open>What follows a valid message 1; \<open>send_ok\<close> says whether the reply can be sent. The panic of
  \<open>new_congestion\<close> ends the dispatcher.\<close>

definition accept_handshake ::
  "ServerCtx \<Rightarrow> nat \<Rightarrow> bool \<Rightarrow> SocketAddr \<Rightarrow> carrier_kind \<Rightarrow> SessionEstablished \<Rightarrow> bytes \<Rightarrow> ServerState
   \<Rightarrow> bool \<times> ServerState" where
  "accept_handshake ctx now send_ok from carrier est m2_wire s =
     (if \<not> send_ok then (False, bump_errors s)
      else
        let s = s\<lparr>sv_wire := sv_wire s @ [(m2_wire, from)]\<rparr>;
            s = evict_oldest_peer_session (se_peer_static est) (sx_max_sessions ctx) s;
            session_stack = stack_init (sx_hkdf ctx) (se_hash est) (sv_obf s)
        in case new_congestion (sx_profile ctx) of
            Inl _ \<Rightarrow> (False, s\<lparr>sv_running := False\<rparr>)
          | Inr congestion \<Rightarrow>
              (case with_handshake_transport (se_selection est) (lp_handshake_transport (sx_profile ctx)) congestion of
                 Inl _ \<Rightarrow> (False, bump_errors s)
               | Inr resolved \<Rightarrow>
                   let keystream = extract_header_xor_keystream (sx_hkdf ctx) (se_hash est) (sv_obf s)
                         (max_header_len (rp_codec resolved));
                       s = spawn_client ctx now carrier resolved session_stack est keystream s
                   in (True, s\<lparr>sv_counters := (sv_counters s)\<lparr>sc_clients := length (sv_sessions s),
                         sc_handshakes_accepted := sat_add64 (sc_handshakes_accepted (sv_counters s)) 1\<rparr>\<rparr>)))"

definition authorizer_of :: "PeerAuth \<Rightarrow> Authorizer option" where
  "authorizer_of auth = (if is_open_mode auth then None else Some (peer_check auth))"

text \<open>\<open>e\<close> is the fresh ephemeral secret of the reply.\<close>

definition handle_handshake ::
  "ServerCtx \<Rightarrow> bytes \<Rightarrow> nat \<Rightarrow> bool \<Rightarrow> bytes \<Rightarrow> SocketAddr \<Rightarrow> carrier_kind \<Rightarrow> ServerState \<Rightarrow> bool \<times> ServerState" where
  "handle_handshake ctx e now send_ok msg1 from carrier s =
     (case respond_message_1 (sx_crypto ctx) e now (sx_kp ctx) (sx_profile ctx) msg1 from
         (authorizer_of (sv_auth s)) (sv_obf s) of
        (Some (est, m2_wire), obf) \<Rightarrow> accept_handshake ctx now send_ok from carrier est m2_wire (s\<lparr>sv_obf := obf\<rparr>)
      | (None, obf) \<Rightarrow> (False, s\<lparr>sv_obf := obf, sv_counters := (sv_counters s)\<lparr>sc_handshakes_rejected :=
          sat_add64 (sc_handshakes_rejected (sv_counters s)) 1\<rparr>\<rparr>))"

subsection \<open>Dispatch\<close>

text \<open>Hand a datagram to a live session; the flag says whether its channel took it.\<close>

definition forward :: "nat \<Rightarrow> bytes \<Rightarrow> SocketAddr \<Rightarrow> session_id \<Rightarrow> ServerState \<Rightarrow> bool \<times> ServerState" where
  "forward now datagram from sid s =
     (case map_of (sv_sessions s) sid of
        None \<Rightarrow> (False, s)
      | Some h \<Rightarrow>
          let (ok, h) = udp_try_send (datagram, from) h
          in if ok then (True, s\<lparr>sv_sessions := AList.update sid (h\<lparr>ch_last_forwarded := now\<rparr>) (sv_sessions s)\<rparr>)
             else (False, s))"

text \<open>Steps 2 and 3 of the dispatch: a datagram no live session took is probed for a handshake, and last
  the address index is asked.\<close>

definition probe_datagram :: "ServerCtx \<Rightarrow> bytes \<Rightarrow> nat \<Rightarrow> bool \<Rightarrow> bytes \<Rightarrow> SocketAddr \<Rightarrow> ServerState \<Rightarrow> ServerState" where
  "probe_datagram ctx e now send_ok datagram from s =
     (case limiter_allow now from (sv_limiter s) of
        (False, limiter) \<Rightarrow> s\<lparr>sv_limiter := limiter\<rparr>
      | (True, limiter) \<Rightarrow> (case sx_sender ctx of
          None \<Rightarrow> s\<lparr>sv_limiter := limiter\<rparr>
        | Some sender \<Rightarrow> (case handle_handshake ctx e now send_ok datagram from sender (s\<lparr>sv_limiter := limiter\<rparr>) of
            (True, s) \<Rightarrow> s
          | (False, s) \<Rightarrow>
              if \<not> sv_running s then s
              else (case addr_fallback (sv_sessions s) (sv_addr_index s) from of
                  Some sid \<Rightarrow> snd (forward now datagram from sid s)
                | None \<Rightarrow> s))))"

definition dispatch_datagram :: "ServerCtx \<Rightarrow> bytes \<Rightarrow> nat \<Rightarrow> bool \<Rightarrow> bytes \<Rightarrow> SocketAddr \<Rightarrow> ServerState \<Rightarrow> ServerState" where
  "dispatch_datagram ctx e now send_ok datagram from s =
     (case peek_routed_session (sv_sessions s) (lp_handshake_transport (sx_profile ctx)) datagram of
        None \<Rightarrow> probe_datagram ctx e now send_ok datagram from s
      | Some sid \<Rightarrow> (case forward now datagram from sid s of
          (True, s) \<Rightarrow> s
        | (False, s) \<Rightarrow> probe_datagram ctx e now send_ok datagram from s))"

definition dispatch_connection ::
  "ServerCtx \<Rightarrow> bytes \<Rightarrow> nat \<Rightarrow> bool \<Rightarrow> bytes option \<Rightarrow> SocketAddr \<Rightarrow> carrier_kind \<Rightarrow> ServerState \<Rightarrow> ServerState" where
  "dispatch_connection ctx e now send_ok first_message from carrier s =
     (case first_message of
        None \<Rightarrow> s
      | Some msg1 \<Rightarrow> snd (handle_handshake ctx e now send_ok msg1 from carrier s))"


subsection \<open>Operator commands\<close>

record SessionInfo =
  si_session_id :: session_id
  si_peer_key :: string
  si_peer_name :: "string option"
  si_peer_addr :: string
  si_roam_count :: u32
  si_last_roam :: "f64 option"
  si_age_secs :: f64

text \<open>How the standard library prints a socket address (no scope identifier).\<close>

definition show_socket :: "SocketAddr \<Rightarrow> string" where
  "show_socket a =
     (case sock_ip a of
        V4 _ _ _ _ \<Rightarrow> show_ip (sock_ip a)
      | V6 _ \<Rightarrow> ''['' @ show_ip (sock_ip a) @ '']'') @ '':'' @ show_nat (unat (sock_port a))"

definition as_secs_f64 :: "nat \<Rightarrow> f64" where "as_secs_f64 ns = real ns / 1000000000"

definition build_session_list :: "(bytes \<Rightarrow> string) \<Rightarrow> nat \<Rightarrow> sessions \<Rightarrow> SessionInfo list" where
  "build_session_list hex_encode now ss =
     map (\<lambda>(sid, h). \<lparr>si_session_id = sid, si_peer_key = hex_encode (ch_peer_key h), si_peer_name = ch_peer_label h,
       si_peer_addr = show_socket (ch_current_addr h), si_roam_count = ch_roam_count h,
       si_last_roam = map_option (\<lambda>t. as_secs_f64 (now - t)) (ch_last_roam h),
       si_age_secs = as_secs_f64 (now - ch_spawned_at h)\<rparr>) ss"

datatype ControlCommand = CtlRevoke bytes | CtlListSessions | CtlDisconnect "session_id option" "bytes option"

datatype ControlReply = ReplyCount nat | ReplySessions "SessionInfo list"

definition handle_control_command :: "ServerCtx \<Rightarrow> nat \<Rightarrow> ControlCommand \<Rightarrow> ServerState \<Rightarrow> ControlReply \<times> ServerState" where
  "handle_control_command ctx now cmd s =
     (case cmd of
        CtlRevoke peer_key \<Rightarrow> let (evicted, s) = evict_sessions_for_key peer_key s in (ReplyCount evicted, s)
      | CtlListSessions \<Rightarrow> (ReplySessions (build_session_list (sx_hex_encode ctx) now (sv_sessions s)), s)
      | CtlDisconnect session_id peer_key \<Rightarrow> let (evicted, s) = evict_sessions session_id peer_key s in (ReplyCount evicted, s))"

subsection \<open>The dispatcher's loop\<close>

text \<open>A packet from the device. When the channel of the owner is full the dispatcher waits:
  \<open>Some n\<close> says that the tunnel took \<open>Suc n\<close> packets meanwhile, \<open>None\<close> that it exited.\<close>

definition on_tun_read :: "bytes option \<Rightarrow> nat option \<Rightarrow> ServerState \<Rightarrow> ServerState" where
  "on_tun_read pkt waited s =
     (case pkt of
        None \<Rightarrow> s\<lparr>sv_running := False\<rparr>
      | Some pkt \<Rightarrow> (case ipv4_dst pkt of
          None \<Rightarrow> s
        | Some dst \<Rightarrow> (case find (\<lambda>(_, h). dst \<in> ch_tun_ips h \<and> \<not> ch_closed h) (sv_sessions s) of
            None \<Rightarrow> s
          | Some (sid, h) \<Rightarrow>
              if length (ch_tun h) < PER_CLIENT_CHAN
              then s\<lparr>sv_sessions := AList.update sid (h\<lparr>ch_tun := ch_tun h @ [pkt]\<rparr>) (sv_sessions s)\<rparr>
              else
                let s = s\<lparr>sv_counters := (sv_counters s)\<lparr>sc_dispatch_backpressure :=
                      sat_add64 (sc_dispatch_backpressure (sv_counters s)) 1\<rparr>\<rparr>
                in case waited of
                    Some n \<Rightarrow> s\<lparr>sv_sessions := AList.update sid (h\<lparr>ch_tun := drop (Suc n) (ch_tun h) @ [pkt]\<rparr>) (sv_sessions s)\<rparr>
                  | None \<Rightarrow> s\<lparr>sv_sessions := AList.update sid (h\<lparr>ch_closed := True\<rparr>) (sv_sessions s)\<rparr>)))"

definition learn_ip :: "(IpAddr \<Rightarrow> bool) list \<Rightarrow> IpAddr \<Rightarrow> ClientHandle \<Rightarrow> ClientHandle" where
  "learn_ip nets src h =
     (if should_learn_tun_ip src nets then h\<lparr>ch_tun_ips := insert src (ch_tun_ips h)\<rparr>
      else h\<lparr>ch_warned := snd (note_implausible_ip src (ch_warned h))\<rparr>)"

definition on_tun_write :: "ServerCtx \<Rightarrow> session_id \<Rightarrow> bytes \<Rightarrow> bool \<Rightarrow> ServerState \<Rightarrow> ServerState" where
  "on_tun_write ctx sid pkt ok s =
     (let s = (case ipv4_src pkt of
            None \<Rightarrow> s
          | Some src \<Rightarrow> (case map_of (sv_sessions s) sid of
              None \<Rightarrow> s
            | Some h \<Rightarrow> s\<lparr>sv_sessions := AList.update sid (learn_ip (sx_nets ctx) src h) (sv_sessions s)\<rparr>))
      in if ok then s\<lparr>sv_tun_out := sv_tun_out s @ [pkt]\<rparr> else s)"

definition on_addr_change :: "nat \<Rightarrow> session_id \<Rightarrow> SocketAddr \<Rightarrow> ServerState \<Rightarrow> ServerState" where
  "on_addr_change now sid new_addr s =
     (case map_of (sv_sessions s) sid of
        None \<Rightarrow> s
      | Some h \<Rightarrow>
          if ch_current_addr h = new_addr then s
          else
            let index = (if sv_addr_index s (ch_current_addr h) = Some sid
                  then (sv_addr_index s)(ch_current_addr h := None) else sv_addr_index s);
                h = h\<lparr>ch_current_addr := new_addr, ch_roam_count := sat_add (ch_roam_count h) 1, ch_last_roam := Some now\<rparr>
            in s\<lparr>sv_sessions := AList.update sid h (sv_sessions s), sv_addr_index := index(new_addr \<mapsto> sid),
                 sv_counters := (sv_counters s)\<lparr>sc_sessions_roamed := sat_add64 (sc_sessions_roamed (sv_counters s)) 1\<rparr>\<rparr>)"

definition on_sweep :: "ServerState \<Rightarrow> ServerState" where
  "on_sweep s =
     (let before = length (sv_sessions s);
          ss = filter (\<lambda>(_, h). \<not> ch_closed h) (sv_sessions s);
          index = (\<lambda>a. case sv_addr_index s a of None \<Rightarrow> None | Some sid \<Rightarrow> if live ss sid then Some sid else None);
          s = s\<lparr>sv_sessions := ss, sv_addr_index := index\<rparr>;
          reaped = before - length ss
      in if reaped > 0
         then let c = (sv_counters s)\<lparr>sc_clients := length ss\<rparr>
              in s\<lparr>sv_counters := (if sc_clients c = 0 then c\<lparr>sc_connected := False\<rparr> else c)\<rparr>
         else s)"

text \<open>The events: the arms of the \<open>select!\<close>, the steps of the tunnel tasks the dispatcher can see (taking
  queued messages, exiting), and changes of the shared authorizer.\<close>

datatype server_event =
    SvStop bool
  | SvTunRead "bytes option" "nat option"
  | SvTunWrite session_id bytes bool
  | SvAddrChange nat session_id SocketAddr
  | SvControl nat ControlCommand
  | SvDatagram bytes nat bool bytes SocketAddr
  | SvConnection bytes nat bool "bytes option" SocketAddr
  | SvAcceptError
  | SvSweep
  | SvTunnelTakes session_id nat nat
  | SvTunnelExit session_id
  | SvAuth auth_op

definition map_session :: "session_id \<Rightarrow> (ClientHandle \<Rightarrow> ClientHandle) \<Rightarrow> ServerState \<Rightarrow> ServerState" where
  "map_session sid f s = (case map_of (sv_sessions s) sid of
      None \<Rightarrow> s | Some h \<Rightarrow> s\<lparr>sv_sessions := AList.update sid (f h) (sv_sessions s)\<rparr>)"

fun server_event_step :: "ServerCtx \<Rightarrow> server_event \<Rightarrow> ServerState \<Rightarrow> ServerState" where
  "server_event_step ctx (SvStop stop) s = (if stop then s\<lparr>sv_running := False\<rparr> else s)"
| "server_event_step ctx (SvTunRead pkt waited) s = on_tun_read pkt waited s"
| "server_event_step ctx (SvTunWrite sid pkt ok) s = on_tun_write ctx sid pkt ok s"
| "server_event_step ctx (SvAddrChange now sid new_addr) s = on_addr_change now sid new_addr s"
| "server_event_step ctx (SvControl now cmd) s = snd (handle_control_command ctx now cmd s)"
| "server_event_step ctx (SvDatagram e now ok data from) s = dispatch_datagram ctx e now ok data from s"
| "server_event_step ctx (SvConnection e now ok first from) s = dispatch_connection ctx e now ok first from TcpCarrier s"
| "server_event_step ctx SvAcceptError s = s"
| "server_event_step ctx SvSweep s = on_sweep s"
| "server_event_step ctx (SvTunnelTakes sid n m) s =
     map_session sid (\<lambda>h. h\<lparr>ch_udp := drop n (ch_udp h), ch_tun := drop m (ch_tun h)\<rparr>) s"
| "server_event_step ctx (SvTunnelExit sid) s = map_session sid (\<lambda>h. h\<lparr>ch_closed := True\<rparr>) s"
| "server_event_step ctx (SvAuth x) s = s\<lparr>sv_auth := auth_step (sx_hex_decode ctx) (sv_auth s) x\<rparr>"

definition counters_start :: ServerCounters where
  "counters_start = \<lparr>sc_connected = True, sc_clients = 0, sc_handshakes_accepted = 0, sc_handshakes_rejected = 0,
     sc_handshake_errors = 0, sc_sessions_roamed = 0, sc_sessions_evicted = 0, sc_dispatch_backpressure = 0\<rparr>"

definition server_start :: "nat \<Rightarrow> ObfuscationStack \<Rightarrow> PeerAuth \<Rightarrow> Counters \<Rightarrow> ServerState" where
  "server_start now obf auth shared =
     \<lparr>sv_sessions = [], sv_addr_index = Map.empty, sv_limiter = limiter_new now, sv_obf = obf, sv_auth = auth,
      sv_counters = counters_start, sv_shared = shared, sv_wire = [], sv_tun_out = [], sv_signals = [], sv_running = True\<rparr>"

text \<open>What happens after the loop: the tables are dropped and the counters reset.\<close>

definition server_shutdown :: "ServerState \<Rightarrow> ServerState" where
  "server_shutdown s = s\<lparr>sv_sessions := [], sv_addr_index := Map.empty,
     sv_counters := (sv_counters s)\<lparr>sc_connected := False, sc_clients := 0\<rparr>\<rparr>"

fun run_server :: "ServerCtx \<Rightarrow> server_event list \<Rightarrow> ServerState \<Rightarrow> ServerState" where
  "run_server ctx [] s = s"
| "run_server ctx (x # xs) s =
     (let s = server_event_step ctx x s in if sv_running s then run_server ctx xs s else server_shutdown s)"

text \<open>The states the dispatcher goes through.\<close>

inductive server_reach :: "ServerCtx \<Rightarrow> ServerState \<Rightarrow> bool" for ctx where
  start: "server_reach ctx (server_start now obf auth shared)"
| step: "server_reach ctx s \<Longrightarrow> sv_running s \<Longrightarrow> server_reach ctx (server_event_step ctx x s)"

end
