(* ===== verification/Server_Table.thy ===== *)
theory Server_Table
  imports Server
begin

text \<open>
  Invariants of the server's session table. \<open>handle_step\<close> lists the changes the dispatcher makes to one
  client handle and \<open>table_change\<close> those it makes to the table; every event is a sequence of table
  changes, so an invariant is checked once per kind of change. The locale \<open>handle_invariant\<close> carries that
  argument for invariants of single handles.
\<close>

subsection \<open>Changes of a handle\<close>

inductive handle_step :: "ServerCtx \<Rightarrow> ClientHandle \<Rightarrow> ClientHandle \<Rightarrow> bool" for ctx where
  forwarded: "\<not> ch_closed h \<Longrightarrow> length (ch_udp h) < PER_CLIENT_CHAN \<Longrightarrow>
    handle_step ctx h (h\<lparr>ch_udp := ch_udp h @ [m], ch_last_forwarded := now\<rparr>)"
| routed: "\<not> ch_closed h \<Longrightarrow> ipv4_dst pkt = Some dst \<Longrightarrow> dst \<in> ch_tun_ips h \<Longrightarrow>
    length (drop n (ch_tun h)) < PER_CLIENT_CHAN \<Longrightarrow> handle_step ctx h (h\<lparr>ch_tun := drop n (ch_tun h) @ [pkt]\<rparr>)"
| closed: "handle_step ctx h (h\<lparr>ch_closed := True\<rparr>)"
| learned: "ipv4_src pkt = Some src \<Longrightarrow> handle_step ctx h (learn_ip (sx_nets ctx) src h)"
| roamed: "handle_step ctx h (h\<lparr>ch_current_addr := a, ch_roam_count := n, ch_last_roam := Some now\<rparr>)"
| takes: "handle_step ctx h (h\<lparr>ch_udp := drop n (ch_udp h), ch_tun := drop m (ch_tun h)\<rparr>)"

lemma handle_step_key: "handle_step ctx h h' \<Longrightarrow> ch_peer_key h' = ch_peer_key h"
  by (induction rule: handle_step.induct) (simp_all add: learn_ip_def)

subsection \<open>Changes of the table\<close>

definition cap_ok :: "ServerCtx \<Rightarrow> sessions \<Rightarrow> bool" where
  "cap_ok ctx ss \<longleftrightarrow> sx_max_sessions ctx = 0 \<or> (\<forall>key. length (keyed key ss) \<le> unat (sx_max_sessions ctx))"

inductive table_change :: "ServerCtx \<Rightarrow> sessions \<Rightarrow> sessions \<Rightarrow> bool" for ctx where
  upd: "map_of ss sid = Some h \<Longrightarrow> handle_step ctx h h' \<Longrightarrow> table_change ctx ss (AList.update sid h' ss)"
| del: "table_change ctx ss (AList.delete sid ss)"
| keep: "table_change ctx ss (filter P ss)"
| spawn: "sx_max_sessions ctx = 0 \<or> length (keyed (se_peer_static est) ss) < unat (sx_max_sessions ctx) \<Longrightarrow>
    table_change ctx ss (AList.update (se_session_id est) (new_handle ctx now carrier profile obf est ks counters) ss)"

definition queues_ok :: "ClientHandle \<Rightarrow> bool" where
  "queues_ok h \<longleftrightarrow> length (ch_udp h) \<le> PER_CLIENT_CHAN \<and> length (ch_tun h) \<le> PER_CLIENT_CHAN"

definition table_ok :: "ServerCtx \<Rightarrow> sessions \<Rightarrow> bool" where
  "table_ok ctx ss \<longleftrightarrow> distinct (map fst ss) \<and> cap_ok ctx ss \<and> (\<forall>h \<in> snd ` set ss. queues_ok h)"

lemma handle_step_queues: "handle_step ctx h h' \<Longrightarrow> queues_ok h \<Longrightarrow> queues_ok h'"
  by (induction rule: handle_step.induct) (auto simp: queues_ok_def learn_ip_def)

lemma new_handle_queues: "queues_ok (new_handle ctx now carrier profile obf est ks counters)"
  by (simp add: queues_ok_def new_handle_def)

lemma update_handles: "h' \<in> snd ` set (AList.update sid h ss) \<Longrightarrow> h' = h \<or> h' \<in> snd ` set ss"
  by (induction ss) (auto split: if_splits)

lemma keyed_simps [simp]:
  "keyed key [] = []" "keyed key ((sid, h) # ss) = (if ch_peer_key h = key then (sid, h) # keyed key ss else keyed key ss)"
  by (simp_all add: keyed_def)

lemma keyed_update_same:
  "map_of ss sid = Some h \<Longrightarrow> ch_peer_key h' = ch_peer_key h \<Longrightarrow>
   length (keyed key (AList.update sid h' ss)) = length (keyed key ss)"
  by (induction ss) (auto split: if_splits)

lemma keyed_update_le:
  "length (keyed key (AList.update sid h ss)) \<le> length (keyed key ss) + of_bool (ch_peer_key h = key)"
  by (induction ss) auto

lemma keyed_filter_le: "length (keyed key (filter P ss)) \<le> length (keyed key ss)"
  by (induction ss) auto

lemma delete_filter: "AList.delete sid ss = filter (\<lambda>(k, _). k \<noteq> sid) ss"
  by (induction ss) auto

lemma table_change_ok: "table_change ctx ss ss' \<Longrightarrow> table_ok ctx ss \<Longrightarrow> table_ok ctx ss'"
proof (induction rule: table_change.induct)
  case (upd ss sid h h')
  have "h \<in> snd ` set ss" using map_of_SomeD [OF upd(1)] by force
  then have "queues_ok h'" using upd handle_step_queues by (auto simp: table_ok_def)
  then have "\<forall>g \<in> snd ` set (AList.update sid h' ss). queues_ok g"
    using upd(3) by (auto simp: table_ok_def dest!: update_handles [of _ sid h' ss, OF imageI])
  then show ?case
    using upd(3) keyed_update_same [OF upd(1) handle_step_key [OF upd(2)]]
    by (simp add: table_ok_def cap_ok_def distinct_update)
next
  case (del ss sid)
  then show ?case unfolding delete_filter
    by (auto simp: table_ok_def cap_ok_def distinct_map_filter intro: le_trans [OF keyed_filter_le])
next
  case (keep ss P)
  then show ?case by (auto simp: table_ok_def cap_ok_def distinct_map_filter intro: le_trans [OF keyed_filter_le])
next
  case (spawn est ss now carrier profile obf ks counters)
  let ?h = "new_handle ctx now carrier profile obf est ks counters"
  have "length (keyed key (AList.update (se_session_id est) ?h ss)) \<le> unat (sx_max_sessions ctx)"
    if "sx_max_sessions ctx \<noteq> 0" for key
  proof -
    have "length (keyed key ss) + of_bool (se_peer_static est = key) \<le> unat (sx_max_sessions ctx)"
      using spawn that by (cases "se_peer_static est = key") (auto simp: table_ok_def cap_ok_def)
    then show ?thesis using keyed_update_le [of key "se_session_id est" ?h ss] by (simp add: new_handle_def)
  qed
  moreover have "\<forall>g \<in> snd ` set (AList.update (se_session_id est) ?h ss). queues_ok g"
    using spawn(2) new_handle_queues
    by (auto simp: table_ok_def dest!: update_handles [of _ "se_session_id est" ?h ss, OF imageI])
  ultimately show ?case using spawn by (auto simp: table_ok_def cap_ok_def distinct_update)
qed

text \<open>A table reached by a sequence of changes, each from a table in order.\<close>

abbreviation table_path :: "ServerCtx \<Rightarrow> sessions \<Rightarrow> sessions \<Rightarrow> bool" where
  "table_path ctx \<equiv> (table_change ctx)\<^sup>*\<^sup>*"

lemma table_path_ok: "table_path ctx ss ss' \<Longrightarrow> table_ok ctx ss \<Longrightarrow> table_ok ctx ss'"
  by (induction rule: rtranclp_induct) (auto intro: table_change_ok)

subsection \<open>Events are sequences of changes\<close>

lemma send_evict_sessions [simp]: "sv_sessions (send_evict sid s) = sv_sessions s"
  by (simp add: send_evict_def split: option.split)

lemma fold_evict_sessions [simp]: "sv_sessions (fold send_evict sids s) = sv_sessions s"
  by (induction sids arbitrary: s) simp_all

lemma count_evicted_sessions [simp]: "sv_sessions (count_evicted n s) = sv_sessions s"
  by (simp add: count_evicted_def)

lemma bump_errors_sessions [simp]: "sv_sessions (bump_errors s) = sv_sessions s"
  by (simp add: bump_errors_def)

lemma min_by_key_mem: "min_by_key f xs = Some x \<Longrightarrow> x \<in> set xs"
  by (induction xs arbitrary: x) (auto split: option.splits if_splits)

lemma min_by_key_None: "min_by_key f xs = None \<longleftrightarrow> xs = []"
  by (cases xs) (simp_all split: option.split)

lemma keyed_delete_less:
  "(sid, h) \<in> set (keyed key ss) \<Longrightarrow> length (keyed key (AList.delete sid ss)) < length (keyed key ss)"
proof (induction ss)
  case (Cons x ss)
  have le: "length (keyed key (AList.delete sid ss)) \<le> length (keyed key ss)"
    unfolding delete_filter by (rule keyed_filter_le)
  show ?case
  proof (cases "fst x = sid \<and> ch_peer_key (snd x) = key")
    case True
    then show ?thesis using le by (cases x) (simp add: delete_filter)
  next
    case False
    then show ?thesis using Cons by (cases x) (auto simp: delete_filter split: if_splits)
  qed
qed simp

lemma evict_oldest_path:
  assumes "table_ok ctx (sv_sessions s)"
  shows "table_path ctx (sv_sessions s) (sv_sessions (evict_oldest_peer_session key (sx_max_sessions ctx) s)) \<and>
    (sx_max_sessions ctx = 0 \<or>
     length (keyed key (sv_sessions (evict_oldest_peer_session key (sx_max_sessions ctx) s))) < unat (sx_max_sessions ctx))"
proof (cases "sx_max_sessions ctx = 0 \<or> length (keyed key (sv_sessions s)) < unat (sx_max_sessions ctx)")
  case True
  then show ?thesis by (auto simp: evict_oldest_peer_session_def)
next
  case False
  then have "keyed key (sv_sessions s) \<noteq> []" by (auto simp: unat_eq_0)
  then obtain sid h where v: "min_by_key (\<lambda>(_, h). ch_last_forwarded h) (keyed key (sv_sessions s)) = Some (sid, h)"
    by (metis min_by_key_None not_None_eq surj_pair)
  have "length (keyed key (AList.delete sid (sv_sessions s))) < length (keyed key (sv_sessions s))"
    by (rule keyed_delete_less [OF min_by_key_mem [OF v]])
  moreover have "length (keyed key (sv_sessions s)) \<le> unat (sx_max_sessions ctx)"
    using assms False by (simp add: table_ok_def cap_ok_def)
  ultimately show ?thesis
    using False v by (auto simp: evict_oldest_peer_session_def Let_def intro: table_change.del)
qed


lemma spawn_client_sessions:
  "sv_sessions (spawn_client ctx now carrier profile obf est ks s) =
     AList.update (se_session_id est) (new_handle ctx now carrier profile obf est ks (sv_shared s)) (sv_sessions s)"
  by (simp add: spawn_client_def)

lemma accept_path:
  assumes "table_ok ctx (sv_sessions s)"
  shows "table_path ctx (sv_sessions s) (sv_sessions (snd (accept_handshake ctx now ok src carrier est m2 s)))"
proof -
  define s1 where "s1 = evict_oldest_peer_session (se_peer_static est) (sx_max_sessions ctx) (s\<lparr>sv_wire := sv_wire s @ [(m2, src)]\<rparr>)"
  have ev: "table_path ctx (sv_sessions s) (sv_sessions s1)"
    "sx_max_sessions ctx = 0 \<or> length (keyed (se_peer_static est) (sv_sessions s1)) < unat (sx_max_sessions ctx)"
    using evict_oldest_path [of ctx "s\<lparr>sv_wire := sv_wire s @ [(m2, src)]\<rparr>" "se_peer_static est"] assms
    by (simp_all add: s1_def)
  have "table_path ctx (sv_sessions s)
      (AList.update (se_session_id est) (new_handle ctx now carrier p st est ks cs) (sv_sessions s1))" for p st ks cs
    by (rule rtranclp.rtrancl_into_rtrancl [OF ev(1) table_change.spawn [OF ev(2)]])
  then show ?thesis
    using ev(1) by (simp add: accept_handshake_def s1_def [symmetric] Let_def spawn_client_sessions split: sum.split)
qed

lemma handshake_path:
  assumes "table_ok ctx (sv_sessions s)"
  shows "table_path ctx (sv_sessions s) (sv_sessions (snd (handle_handshake ctx e now ok msg1 src carrier s)))"
  using accept_path [of ctx "s\<lparr>sv_obf := _\<rparr>"] assms
  by (simp add: handle_handshake_def split: prod.split option.split)

lemma forward_path: "table_path ctx (sv_sessions s) (sv_sessions (snd (forward now d from sid s)))"
proof (cases "map_of (sv_sessions s) sid")
  case (Some h)
  show ?thesis
  proof (cases "\<not> ch_closed h \<and> length (ch_udp h) < PER_CLIENT_CHAN")
    case True
    then have "handle_step ctx h (h\<lparr>ch_udp := ch_udp h @ [(d, from)], ch_last_forwarded := now\<rparr>)"
      by (auto intro: handle_step.forwarded)
    then have "table_change ctx (sv_sessions s)
      (AList.update sid (h\<lparr>ch_udp := ch_udp h @ [(d, from)], ch_last_forwarded := now\<rparr>) (sv_sessions s))"
      by (rule table_change.upd [OF Some])
    then show ?thesis using Some True by (simp add: forward_def udp_try_send_def)
  qed (auto simp: forward_def udp_try_send_def Some)
qed (simp add: forward_def)

lemma probe_path:
  assumes "table_ok ctx (sv_sessions s)"
  shows "table_path ctx (sv_sessions s) (sv_sessions (probe_datagram ctx e now ok d src s))"
proof (cases "sx_sender ctx")
  case None
  then show ?thesis by (auto simp: probe_datagram_def split: prod.split bool.split)
next
  case (Some k)
  define s1 where "s1 = s\<lparr>sv_limiter := snd (limiter_allow now src (sv_limiter s))\<rparr>"
  have h: "table_path ctx (sv_sessions s) (sv_sessions (snd (handle_handshake ctx e now ok d src k s1)))"
    using handshake_path [of ctx s1] assms by (simp add: s1_def)
  have "probe_datagram ctx e now ok d src s \<in> {s1, snd (handle_handshake ctx e now ok d src k s1)} \<union>
    range (\<lambda>sid. snd (forward now d src sid (snd (handle_handshake ctx e now ok d src k s1))))"
    using Some by (simp add: probe_datagram_def s1_def split: prod.split bool.split option.split)
  then show ?thesis using h rtranclp_trans [OF h forward_path] by (auto simp: s1_def)
qed

lemma forward_False: "forward now d src sid s = (False, s') \<Longrightarrow> s' = s"
  by (auto simp: forward_def split: option.splits prod.splits if_splits)

lemma dispatch_cases:
  "dispatch_datagram ctx e now ok d src s = probe_datagram ctx e now ok d src s \<or>
   (\<exists>sid. peek_routed_session (sv_sessions s) (lp_handshake_transport (sx_profile ctx)) d = Some sid \<and>
      dispatch_datagram ctx e now ok d src s = snd (forward now d src sid s))"
  by (auto simp: dispatch_datagram_def dest: forward_False split: option.split prod.split bool.split)

lemma dispatch_path:
  assumes "table_ok ctx (sv_sessions s)"
  shows "table_path ctx (sv_sessions s) (sv_sessions (dispatch_datagram ctx e now ok d src s))"
  using dispatch_cases [of ctx e now ok d src s] probe_path [OF assms] forward_path by auto

lemma update_path: "map_of (sv_sessions s) sid = Some h \<Longrightarrow> handle_step ctx h h' \<Longrightarrow>
   table_path ctx (sv_sessions s) (AList.update sid h' (sv_sessions s))"
  by (auto intro: table_change.upd)

lemma map_session_path:
  "(\<And>h. handle_step ctx h (f h)) \<Longrightarrow> table_path ctx (sv_sessions s) (sv_sessions (map_session sid f s))"
  by (auto simp: map_session_def update_path split: option.split)

lemma find_session:
  assumes "distinct (map fst ss)" "find P ss = Some (sid, h)"
  shows "map_of ss sid = Some h" "P (sid, h)"
proof -
  have "P (sid, h)" "(sid, h) \<in> set ss" using assms(2) by (auto simp: find_Some_iff in_set_conv_nth)
  then show "map_of ss sid = Some h" "P (sid, h)" using map_of_is_SomeI [OF assms(1)] by auto
qed

lemma tun_read_path:
  assumes "table_ok ctx (sv_sessions s)"
  shows "table_path ctx (sv_sessions s) (sv_sessions (on_tun_read pkt waited s))"
proof -
  have d: "distinct (map fst (sv_sessions s))" using assms by (simp add: table_ok_def)
  show ?thesis
  proof (cases "\<exists>p dst sid h. pkt = Some p \<and> ipv4_dst p = Some dst \<and>
      find (\<lambda>(_, h). dst \<in> ch_tun_ips h \<and> \<not> ch_closed h) (sv_sessions s) = Some (sid, h)")
    case True
    then obtain p dst sid h where r: "pkt = Some p" "ipv4_dst p = Some dst"
      "find (\<lambda>(_, h). dst \<in> ch_tun_ips h \<and> \<not> ch_closed h) (sv_sessions s) = Some (sid, h)" by blast
    note h = find_session [OF d r(3)]
    have put: "table_path ctx (sv_sessions s) (AList.update sid (h\<lparr>ch_tun := drop n (ch_tun h) @ [p]\<rparr>) (sv_sessions s))"
      if "length (drop n (ch_tun h)) < PER_CLIENT_CHAN" for n
      using h r(2) that by (auto intro!: update_path [OF h(1)] handle_step.routed)
    consider "length (ch_tun h) < PER_CLIENT_CHAN" | "\<not> length (ch_tun h) < PER_CLIENT_CHAN" "waited = None"
      | n where "\<not> length (ch_tun h) < PER_CLIENT_CHAN" "waited = Some n" by (cases waited) auto
    then show ?thesis
    proof cases
      case 1
      then show ?thesis using put [of 0] r by (simp add: on_tun_read_def)
    next
      case 2
      then show ?thesis using update_path [OF h(1) handle_step.closed] r by (simp add: on_tun_read_def Let_def)
    next
      case (3 n)
      have "h \<in> snd ` set (sv_sessions s)" using map_of_SomeD [OF h(1)] by force
      then have "length (ch_tun h) \<le> PER_CLIENT_CHAN" using assms by (auto simp: table_ok_def queues_ok_def)
      then have "length (drop (Suc n) (ch_tun h)) < PER_CLIENT_CHAN" by (simp add: PER_CLIENT_CHAN_def)
      then show ?thesis using 3 put [of "Suc n"] r by (simp add: on_tun_read_def Let_def)
    qed
  next
    case False
    then show ?thesis by (auto simp: on_tun_read_def split: option.splits)
  qed
qed


lemma event_path:
  assumes "table_ok ctx (sv_sessions s)"
  shows "table_path ctx (sv_sessions s) (sv_sessions (server_event_step ctx x s))"
proof (cases x)
  case (SvTunRead pkt waited)
  then show ?thesis using tun_read_path [OF assms] by simp
next
  case (SvTunWrite sid pkt ok)
  then show ?thesis
    by (auto simp: on_tun_write_def Let_def split: option.split intro!: update_path handle_step.learned)
next
  case (SvAddrChange now sid a)
  then show ?thesis
    by (auto simp: on_addr_change_def Let_def split: option.split intro!: update_path handle_step.roamed)
next
  case (SvControl now cmd)
  then show ?thesis
    by (auto simp: handle_control_command_def evict_sessions_for_key_def evict_sessions_def Let_def
        split: ControlCommand.split option.split)
next
  case (SvDatagram e now ok d src)
  then show ?thesis using dispatch_path [OF assms] by simp
next
  case (SvConnection e now ok m src)
  then show ?thesis using handshake_path [OF assms] by (auto simp: dispatch_connection_def split: option.split)
next
  case SvSweep
  have "table_change ctx (sv_sessions s) (filter (\<lambda>(_, h). \<not> ch_closed h) (sv_sessions s))" by (rule table_change.keep)
  then show ?thesis using SvSweep by (simp add: on_sweep_def Let_def)
next
  case (SvTunnelTakes sid n m)
  then show ?thesis by (auto intro!: map_session_path handle_step.takes)
next
  case (SvTunnelExit sid)
  then show ?thesis by (auto intro!: map_session_path handle_step.closed)
qed simp_all

lemma reach_table_ok: "server_reach ctx s \<Longrightarrow> table_ok ctx (sv_sessions s)"
proof (induction rule: server_reach.induct)
  case (start now obf auth shared)
  then show ?case by (simp add: table_ok_def cap_ok_def server_start_def)
next
  case (step s x)
  then show ?case using table_path_ok [OF event_path] by blast
qed

subsection \<open>Invariants of handles\<close>

text \<open>A property that new handles have and that every change of a handle keeps holds of every session
  the server ever has.\<close>

locale handle_invariant =
  fixes ctx :: ServerCtx and inv_of :: "ClientHandle \<Rightarrow> bool"
  assumes fresh: "inv_of (new_handle ctx now carrier profile obf est ks counters)"
    and kept: "inv_of h \<Longrightarrow> handle_step ctx h h' \<Longrightarrow> inv_of h'"
begin

lemma change: "table_change ctx ss ss' \<Longrightarrow> \<forall>h \<in> snd ` set ss. inv_of h \<Longrightarrow> \<forall>h \<in> snd ` set ss'. inv_of h"
proof (induction rule: table_change.induct)
  case (upd ss sid h h')
  then have "inv_of h'" using map_of_SomeD [OF upd(1)] kept by force
  then show ?case using upd(3) by (auto dest!: update_handles [of _ sid h' ss, OF imageI])
next
  case (del ss sid)
  then show ?case by (auto simp: delete_filter)
next
  case (keep ss P)
  then show ?case by auto
next
  case (spawn est ss now carrier profile obf ks counters)
  then show ?case
    using fresh by (auto dest!: update_handles [of _ "se_session_id est" "new_handle ctx now carrier profile obf est ks counters" ss, OF imageI])
qed

lemma holds: "server_reach ctx s \<Longrightarrow> (sid, h) \<in> set (sv_sessions s) \<Longrightarrow> inv_of h"
proof -
  assume "server_reach ctx s"
  then have "\<forall>h \<in> snd ` set (sv_sessions s). inv_of h"
  proof (induction rule: server_reach.induct)
    case (step s x)
    have path: "table_path ctx (sv_sessions s) (sv_sessions (server_event_step ctx x s))"
      by (rule event_path [OF reach_table_ok [OF step(1)]])
    show ?case using path step.IH by (induction rule: rtranclp_induct) (use change in blast)+
  qed (simp add: server_start_def)
  then show "(sid, h) \<in> set (sv_sessions s) \<Longrightarrow> inv_of h" by force
qed

end

text \<open>The addresses learned from a client's traffic are plausible.\<close>

interpretation plausible: handle_invariant ctx "\<lambda>h. \<forall>ip \<in> ch_tun_ips h. should_learn_tun_ip ip (sx_nets ctx)" for ctx
proof unfold_locales
  show "\<forall>ip \<in> ch_tun_ips h'. should_learn_tun_ip ip (sx_nets ctx)"
    if "\<forall>ip \<in> ch_tun_ips h. should_learn_tun_ip ip (sx_nets ctx)" "handle_step ctx h h'" for h h'
    using that(2,1) by (induction rule: handle_step.induct) (auto simp: learn_ip_def)
qed (simp add: new_handle_def)

end
