(* ===== verification/Session_Setup.thy ===== *)
theory Session_Setup
  imports Server_Table Tunnel_Demo
begin

text \<open>
  From a handshake to two running tunnels: the client daemon's session setup
  (\<open>src/src/daemon/mod.rs\<close>, the part of \<open>run_client\<close> between the handshake and \<open>Tunnel::run\<close>) against the
  server's, for any number of unanswered attempts before the one that gets through. A small
  concrete cryptography serves the witnesses.
\<close>

datatype SetupError = CongestionPanic | UnusableProfile ProfileError

definition client_tunnel ::
  "hkdf_fun \<Rightarrow> nat \<Rightarrow> carrier_kind \<Rightarrow> LocalProfile \<Rightarrow> FecConfig \<Rightarrow> ObfuscationStack \<Rightarrow> SessionEstablished \<Rightarrow> Counters
   \<Rightarrow> SetupError + Tunnel" where
  "client_tunnel hkdf now carrier profile fec obf est counters =
     (let session_stack = stack_init hkdf (se_hash est) obf
      in case new_congestion profile of
          Inl _ \<Rightarrow> Inl CongestionPanic
        | Inr congestion \<Rightarrow>
            (case with_handshake_transport (se_selection est) (lp_handshake_transport profile) congestion of
               Inl err \<Rightarrow> Inl (UnusableProfile err)
             | Inr resolved \<Rightarrow>
                 Inr (configure_fec fec
                   (from_handshake now carrier (se_peer est) (session_new (se_session_id est) Initiator) resolved session_stack
                      (se_send_key est) (se_recv_key est) (se_send_dir est) (se_recv_dir est) counters))))"

lemma peer_layer_init:
  "\<forall>s i n. length (hkdf s i n) = n \<Longrightarrow> peer_layer l r \<Longrightarrow> peer_layer (layer_init hkdf seed l) (layer_init hkdf seed r)"
  by (cases l; cases r) (auto simp: derive_def)

lemma peer_stack_init:
  "\<forall>s i n. length (hkdf s i n) = n \<Longrightarrow> peer_stack a b \<Longrightarrow> peer_stack (stack_init hkdf seed a) (stack_init hkdf seed b)"
  by (auto simp: peer_stack_def list_all2_conv_all_nth peer_layer_init)

lemma configure_fec_fields [simp]:
  "t_profile (configure_fec cfg t) = t_profile t" "t_obf (configure_fec cfg t) = t_obf t"
  "t_session (configure_fec cfg t) = t_session t" "t_send_key (configure_fec cfg t) = t_send_key t"
  "t_recv_key (configure_fec cfg t) = t_recv_key t" "t_send_dir (configure_fec cfg t) = t_send_dir t"
  "t_recv_dir (configure_fec cfg t) = t_recv_dir t"
  by (simp_all add: configure_fec_def Let_def)

lemma evict_fields [simp]:
  "sv_obf (evict_oldest_peer_session key mx s) = sv_obf s" "sv_shared (evict_oldest_peer_session key mx s) = sv_shared s"
  by (simp_all add: evict_oldest_peer_session_def send_evict_def Let_def split: option.split)

lemma accept_spawns:
  assumes "new_congestion (sx_profile ctx) = Inr k"
    "with_handshake_transport (se_selection est) (lp_handshake_transport (sx_profile ctx)) k = Inr p"
  shows "\<exists>s'. accept_handshake ctx now True src carrier est m2 s = (True, s') \<and>
    map_of (sv_sessions s') (se_session_id est) =
      Some (new_handle ctx now carrier p (stack_init (sx_hkdf ctx) (se_hash est) (sv_obf s)) est
        (extract_header_xor_keystream (sx_hkdf ctx) (se_hash est) (sv_obf s) (max_header_len (rp_codec p))) (sv_shared s)) \<and>
    sv_addr_index s' (se_peer est) = Some (se_session_id est)"
  using assms by (simp add: accept_handshake_def Let_def spawn_client_def update_conv')

lemma honest_accepted:
  assumes "noise_laws (sx_crypto ctx)" "sx_kp ctx = keypair_of (sx_crypto ctx) sr"
    "drivers_fit cli ocl (sx_profile ctx) (sv_obf s)" "new_congestion (sx_profile ctx) = Inr k"
    "is_open_mode (sv_auth s) \<or> authorized (nc_public (sx_crypto ctx) si) (sv_auth s)"
  obtains hs m1 hs' sid h s' where
    "build_handshake (sx_crypto ctx) NoiseIk InitiatorSide (keypair_of (sx_crypto ctx) si) (Some (nc_public (sx_crypto ctx) sr)) = Inr hs"
    "initiator_message_1 (sx_crypto ctx) ei (client_offer cli) hs = Inr (m1, hs')"
    "handle_handshake ctx er now2 True (wrap (lp_handshake_transport cli) (snd (stack_apply now1 ocl m1))) caddr carrier s = (True, s')"
    "map_of (sv_sessions s') sid = Some h" "ch_peer_key h = nc_public (sx_crypto ctx) si"
    "\<not> ch_closed h" "ch_udp h = []" "ch_tun h = []"
proof -
  let ?c = "sx_crypto ctx" and ?auth = "authorizer_of (sv_auth s)"
  have au: "case ?auth of None \<Rightarrow> True | Some a \<Rightarrow> fst (a (nc_public ?c si))"
    using assms(5) by (auto simp: authorizer_of_def authorized_check)
  obtain hs m1 hs' o1 ocl' sv w2 osv' where h:
    "build_handshake ?c NoiseIk InitiatorSide (clone_keypair ?c (keypair_of ?c si)) (Some (nc_public ?c sr)) = Inr hs"
    "initiator_message_1 ?c ei (client_offer cli) hs = Inr (m1, hs')" "stack_apply now1 ocl m1 = (ocl', o1)"
    "respond_message_1 ?c er now2 (keypair_of ?c sr) (sx_profile ctx) (wrap (lp_handshake_transport cli) o1) caddr ?auth (sv_obf s)
      = (Some (sv, w2), osv')"
    "se_peer_static sv = nc_public ?c si" "sel_check (se_selection sv) = Inr ()"
    by (rule honest_attempt [OF assms(1,3) au, where ei = ei and ?now1.0 = now1 and er = er and ?now2.0 = now2 and sr = sr
        and caddr = caddr]) simp
  obtain p where "with_handshake_transport (se_selection sv) (lp_handshake_transport (sx_profile ctx)) k = Inr p"
    using with_handshake_transport_ok [OF h(6)] by blast
  from accept_spawns [OF assms(4) this, of now2 caddr carrier w2 "s\<lparr>sv_obf := osv'\<rparr>"] obtain s' hd where
    "accept_handshake ctx now2 True caddr carrier sv w2 (s\<lparr>sv_obf := osv'\<rparr>) = (True, s')"
    "map_of (sv_sessions s') (se_session_id sv) = Some hd" "ch_peer_key hd = nc_public ?c si"
    "\<not> ch_closed hd" "ch_udp hd = []" "ch_tun hd = []"
    using h(5) by (auto simp: new_handle_def)
  then show thesis using that [of hs m1 hs' s' "se_session_id sv" hd] h assms(2) by (simp add: handle_handshake_def)
qed

text \<open>The two ends of an agreed session are paired in both directions.\<close>

lemma tunnels_paired:
  assumes hk: "\<forall>s i n. length (hkdf s i n) = n" and m: "session_match cl sv" and ps: "peer_stack oc os"
    and ct: "client_tunnel hkdf now1 k1 cli fec1 oc cl cs1 = Inr T"
    and sel: "with_handshake_transport (se_selection sv) (lp_handshake_transport cli) k = Inr p"
    and st: "S = spawn_tunnel ctx now2 k2 p (stack_init hkdf (se_hash sv) os) sv cs2"
  shows "paired T S \<and> paired S T"
proof -
  obtain kc pc where c: "with_handshake_transport (se_selection sv) (lp_handshake_transport cli) kc = Inr pc"
    "T = configure_fec fec1 (from_handshake now1 k1 (se_peer cl) (session_new (se_session_id cl) Initiator) pc
        (stack_init hkdf (se_hash cl) oc) (se_send_key cl) (se_recv_key cl) (se_send_dir cl) (se_recv_dir cl) cs1)"
    using ct m by (auto simp: client_tunnel_def Let_def session_match_def split: sum.split_asm)
  have "rp_codec pc = rp_codec p" "rp_transport pc = rp_transport p"
    using c(1) sel by (auto simp: with_handshake_transport_def from_selection_def try_bind_eq_Inr ok_or_def
        split: if_split_asm option.split_asm)
  moreover have "peer_stack (stack_init hkdf (se_hash cl) oc) (stack_init hkdf (se_hash sv) os)"
    using peer_stack_init [OF hk ps] m by (simp add: session_match_def)
  ultimately show ?thesis
    using m peer_stack_commute
    by (auto simp: paired_def c(2) st spawn_tunnel_def from_handshake_def set_evict_rx_def set_addr_change_tx_def
        session_new_def session_match_def)
qed


text \<open>The server's answer to a message 1, as the client sees it.\<close>

definition server_reply ::
  "ServerCtx \<Rightarrow> bytes \<Rightarrow> nat \<Rightarrow> SocketAddr \<Rightarrow> SocketAddr \<Rightarrow> carrier_kind \<Rightarrow> ServerState \<Rightarrow> bytes \<Rightarrow> Reply" where
  "server_reply ctx e now caddr saddr carrier s wire =
     (case handle_handshake ctx e now True wire caddr carrier s of
        (True, s') \<Rightarrow> Received (fst (last (sv_wire s'))) saddr
      | (False, _) \<Rightarrow> TimedOut)"

lemma evict_wire [simp]: "sv_wire (evict_oldest_peer_session key mx s) = sv_wire s"
  by (simp add: evict_oldest_peer_session_def send_evict_def Let_def split: option.split)

lemma accept_wire:
  assumes "accept_handshake ctx now True src carrier est m2 s = (True, s')"
  shows "sv_wire s' = sv_wire s @ [(m2, src)]"
  using assms by (auto simp: accept_handshake_def Let_def spawn_client_def bump_errors_def split: sum.split_asm)

lemma server_reply_respond:
  assumes k: "new_congestion (sx_profile ctx) = Inr k"
  shows "server_reply ctx e now caddr saddr carrier s wire =
    (case respond_message_1 (sx_crypto ctx) e now (sx_kp ctx) (sx_profile ctx) wire caddr (authorizer_of (sv_auth s)) (sv_obf s) of
       (Some (sv, m2), _) \<Rightarrow> Received m2 saddr | _ \<Rightarrow> TimedOut)"
proof -
  obtain r obf where r: "respond_message_1 (sx_crypto ctx) e now (sx_kp ctx) (sx_profile ctx) wire caddr
      (authorizer_of (sv_auth s)) (sv_obf s) = (r, obf)" by fastforce
  show ?thesis
  proof (cases r)
    case None
    then show ?thesis using r by (simp add: server_reply_def handle_handshake_def)
  next
    case (Some em)
    obtain est m2 where em: "em = (est, m2)" by fastforce
    have "sel_check (se_selection est) = Inr ()" using respond_Some(2) r Some em by blast
    then obtain p where "with_handshake_transport (se_selection est) (lp_handshake_transport (sx_profile ctx)) k = Inr p"
      using with_handshake_transport_ok by blast
    then obtain s' where s': "accept_handshake ctx now True caddr carrier est m2 (s\<lparr>sv_obf := obf\<rparr>) = (True, s')"
      using accept_spawns [OF k] by blast
    show ?thesis using r Some em s' accept_wire [OF s'] by (simp add: server_reply_def handle_handshake_def)
  qed
qed

lemma map_upt_split: "k \<in> {1..10} \<Longrightarrow> map f [1..<11] = map f [1..<k] @ f k # map f [Suc k..<11]"
proof -
  assume "k \<in> {1..10}"
  then have "[1..<11] = [1..<k] @ [k..<11]" "[k..<11] = k # [Suc k..<11]"
    using upt_add_eq_append [of 1 k "11 - k"] by (auto simp: upt_conv_Cons)
  then show ?thesis by simp
qed

text \<open>C3. A handshake gives two ends that can talk: if one of the client's ten attempts reaches a
  server that lets its key in and the answer comes back, whatever was lost before, the client
  establishes the session in that attempt, the server registers it under the same identifier with
  the client's static key, and the tunnels both sides build are paired in both directions: same
  codec, envelope and keystreams, and each end's sending key and nonce direction are the other's
  receiving ones.\<close>

theorem handshake_pairs_tunnels:
  assumes laws: "noise_laws (sx_crypto ctx)" and hk: "\<forall>s i n. length (sx_hkdf ctx s i n) = n"
    and kp: "sx_kp ctx = keypair_of (sx_crypto ctx) sr"
    and fit: "drivers_fit cli ocl (sx_profile ctx) (sv_obf s)"
    and auth: "is_open_mode (sv_auth s) \<or> authorized (nc_public (sx_crypto ctx) si) (sv_auth s)"
    and cong: "new_congestion cli = Inr kc" "new_congestion (sx_profile ctx) = Inr ks"
    and k: "k \<in> {1..10}" "\<forall>j \<in> {1..<k}. unanswered saddr (net j)" "at_send_ok (net k)"
      "at_reply (net k) = server_reply ctx er now2 caddr saddr carrier s"
  shows "\<exists>cl ocl' sent s' h T.
    handshake_client (sx_crypto ctx) saddr (keypair_of (sx_crypto ctx) si) (nc_public (sx_crypto ctx) sr) cli net ocl
      = (Inr cl, ocl', sent) \<and> length sent = k \<and>
    handle_handshake ctx er now2 True (last sent) caddr carrier s = (True, s') \<and>
    map_of (sv_sessions s') (se_session_id cl) = Some h \<and> ch_peer_key h = nc_public (sx_crypto ctx) si \<and>
    client_tunnel (sx_hkdf ctx) now1 carrier cli fec ocl' cl cs = Inr T \<and>
    paired T (ch_tunnel h) \<and> paired (ch_tunnel h) T"
proof -
  let ?c = "sx_crypto ctx" and ?auth = "authorizer_of (sv_auth s)"
  have au: "case ?auth of None \<Rightarrow> True | Some a \<Rightarrow> fst (a (nc_public ?c si))"
    using auth by (auto simp: authorizer_of_def authorized_check)
  have rep: "at_reply (net k) wire = (case respond_message_1 ?c er now2 (keypair_of ?c sr) (sx_profile ctx) wire caddr ?auth (sv_obf s) of
      (Some (sv, m2), _) \<Rightarrow> Received m2 saddr | _ \<Rightarrow> TimedOut)" for wire
    using server_reply_respond [OF cong(2)] k(4) kp by simp
  have un: "\<forall>b \<in> set (map net [1..<k]). unanswered saddr b" using k(2) by auto
  obtain cl ocl' sent w sv w2 osv' where at:
    "client_attempts ?c saddr (keypair_of ?c si) (nc_public ?c sr) NoiseIk (lp_handshake_transport cli) (client_offer cli)
        (map net [1..<k] @ net k # map net [Suc k..<11]) ocl = (Inr cl, ocl', sent @ [w])" "length sent = length (map net [1..<k])"
    "respond_message_1 ?c er now2 (keypair_of ?c sr) (sx_profile ctx) w caddr ?auth (sv_obf s) = (Some (sv, w2), osv')"
    "session_match cl sv" "se_peer sv = caddr" "se_peer_static sv = nc_public ?c si" "sel_check (se_selection sv) = Inr ()"
    "peer_stack ocl' osv'"
    using attempts_complete [OF laws au k(3) rep fit un, of "map net [Suc k..<11]"] by blast
  have cli: "handshake_client ?c saddr (keypair_of ?c si) (nc_public ?c sr) cli net ocl = (Inr cl, ocl', sent @ [w])"
    using at(1) fit map_upt_split [OF k(1), of net]
    by (simp add: handshake_client_def drivers_fit_def client_offer_def HANDSHAKE_MAX_ATTEMPTS_def del: upt_Suc)
  have tr: "lp_handshake_transport cli = lp_handshake_transport (sx_profile ctx)" using fit by (simp add: drivers_fit_def)
  obtain p where p: "with_handshake_transport (se_selection sv) (lp_handshake_transport (sx_profile ctx)) ks = Inr p"
    using with_handshake_transport_ok [OF at(7)] by blast
  obtain pc where "with_handshake_transport (se_selection sv) (lp_handshake_transport cli) kc = Inr pc"
    using with_handshake_transport_ok [OF at(7)] by blast
  then obtain T where T: "client_tunnel (sx_hkdf ctx) now1 carrier cli fec ocl' cl cs = Inr T"
    using cong(1) at(4) by (simp add: client_tunnel_def session_match_def)
  obtain s' where s': "accept_handshake ctx now2 True caddr carrier sv w2 (s\<lparr>sv_obf := osv'\<rparr>) = (True, s')"
    "map_of (sv_sessions s') (se_session_id sv) = Some (new_handle ctx now2 carrier p (stack_init (sx_hkdf ctx) (se_hash sv) osv') sv
        (extract_header_xor_keystream (sx_hkdf ctx) (se_hash sv) osv' (max_header_len (rp_codec p))) (sv_shared s))"
    using accept_spawns [OF cong(2) p, of now2 caddr carrier w2 "s\<lparr>sv_obf := osv'\<rparr>"] by auto
  have "handle_handshake ctx er now2 True w caddr carrier s = (True, s')"
    using at(3) kp s'(1) by (simp add: handle_handshake_def)
  moreover have "paired T S \<and> paired S T"
    if "S = spawn_tunnel ctx now2 carrier p (stack_init (sx_hkdf ctx) (se_hash sv) osv') sv (sv_shared s)" for S
    using tunnels_paired [OF hk at(4) at(8) T _ that] p tr by simp
  ultimately show ?thesis
    using cli at(2,4,6) s'(2) T k(1) by (auto simp: session_match_def new_handle_def)
qed

end
