(* ===== verification/Session_Demo.thy ===== *)
theory Session_Demo
  imports Session_Setup
begin

text \<open>
  A concrete cryptography, client and server for the witnesses: public keys are secrets padded to 32 bytes,
  Diffie-Hellman adds them bytewise, hashes and derived keys are constant, the AEAD appends a tag.
\<close>

definition pad32 :: "bytes \<Rightarrow> bytes" where
  "pad32 s = take 32 (s @ replicate 32 0)"

definition demo_crypto :: noise_crypto where
  "demo_crypto = \<lparr>nc_sha256 = \<lambda>_. replicate 32 7, nc_hkdf = \<lambda>_ _ _ n. Some (replicate n 5), nc_public = pad32,
     nc_dh = \<lambda>a b. map2 (+) (pad32 a) b, nc_enc = demo_enc, nc_dec = demo_dec\<rparr>"

lemma length_pad32 [simp]: "length (pad32 s) = 32"
  by (simp add: pad32_def)

lemma map2_add_commute: "map2 (+) xs ys = map2 (+) ys (xs :: bytes)"
  by (induction xs ys rule: list_induct2') (simp_all add: add.commute)

lemma demo_noise_laws: "noise_laws demo_crypto"
  using demo_laws by (simp add: noise_laws_def demo_crypto_def map2_add_commute)

definition demo_local :: LocalProfile where
  "demo_local = \<lparr>lp_kex_name = [], lp_prefs = rustnies_default, lp_handshake_transport = PlainTransport,
     lp_data_tag = DEFAULT_TAG, lp_congestion_name = DEFAULT_CONGESTION, lp_propose = True\<rparr>"

definition demo_fec :: FecConfig where
  "demo_fec = \<lparr>fc_scheme = [DEFAULT_FEC_SCHEME], fc_k = 2, fc_min_m = 1, fc_max_m = 1, fc_initial_m = 1\<rparr>"

definition demo_ctx :: ServerCtx where
  "demo_ctx = \<lparr>sx_crypto = demo_crypto, sx_hkdf = \<lambda>_ _ n. replicate n 3, sx_kp = keypair_of demo_crypto [9],
     sx_profile = demo_local, sx_sender = Some UdpCarrier, sx_nets = [\<lambda>ip. ip = V4 10 8 0 2], sx_fec = demo_fec,
     sx_max_sessions = 1, sx_hex_encode = \<lambda>_. [], sx_hex_decode = \<lambda>_. None\<rparr>"

lemma demo_ctx_simps [simp]:
  "sx_crypto demo_ctx = demo_crypto" "sx_hkdf demo_ctx = (\<lambda>_ _ n. replicate n 3)" "sx_kp demo_ctx = keypair_of demo_crypto [9]"
  "sx_profile demo_ctx = demo_local" "sx_max_sessions demo_ctx = 1" "sx_sender demo_ctx = Some UdpCarrier"
  "sx_nets demo_ctx = [\<lambda>ip. ip = V4 10 8 0 2]"
  by (simp_all add: demo_ctx_def)

definition demo_start :: "PeerAuth \<Rightarrow> ServerState" where
  "demo_start auth = server_start 0 stack_new auth counters_default"

lemma demo_start_simps [simp]:
  "sv_obf (demo_start auth) = stack_new" "sv_auth (demo_start auth) = auth" "sv_running (demo_start auth)"
  "sv_sessions (demo_start auth) = []" "sv_limiter (demo_start auth) = limiter_new 0"
  by (simp_all add: demo_start_def server_start_def)

lemma plain_carries: "stack_carries stack_new stack_new n"
  by (simp add: stack_carries_def peer_stack_def wf_stack_def stack_new_def)

lemma demo_congestion: "\<exists>k. new_congestion demo_local = Inr k"
  by (simp add: new_congestion_def demo_local_def select_congestion_def DEFAULT_CONGESTION_def trim_def is_whitespace_def)

lemma demo_fit: "drivers_fit demo_local stack_new demo_local stack_new"
  by (simp add: drivers_fit_def plain_carries select_handshake_def demo_local_def trim_def)

text \<open>The first two attempts are lost, the third reaches the server.\<close>

definition demo_net :: "PeerAuth \<Rightarrow> nat \<Rightarrow> Attempt" where
  "demo_net auth j = \<lparr>at_ephemeral = [of_nat j], at_now = j, at_send_ok = True,
     at_reply = (if j = 3 then server_reply demo_ctx [4] 5 (demo_addr 1) (demo_addr 2) UdpCarrier (demo_start auth) else (\<lambda>_. TimedOut))\<rparr>"

theorem handshake_pairs_tunnels_witness:
  "\<exists>cl ocl' sent s' h T.
    handshake_client demo_crypto (demo_addr 2) (keypair_of demo_crypto [1]) (pad32 [9]) demo_local (demo_net open_mode) stack_new
      = (Inr cl, ocl', sent) \<and> length sent = 3 \<and>
    handle_handshake demo_ctx [4] 5 True (last sent) (demo_addr 1) UdpCarrier (demo_start open_mode) = (True, s') \<and>
    map_of (sv_sessions s') (se_session_id cl) = Some h \<and> ch_peer_key h = pad32 [1] \<and>
    client_tunnel (sx_hkdf demo_ctx) 6 UdpCarrier demo_local demo_fec ocl' cl counters_default = Inr T \<and>
    paired T (ch_tunnel h) \<and> paired (ch_tunnel h) T"
proof -
  obtain k where k: "new_congestion demo_local = Inr k" using demo_congestion by blast
  have pub: "nc_public demo_crypto = pad32" by (simp add: demo_crypto_def)
  show ?thesis
    using handshake_pairs_tunnels [of demo_ctx "[9]" demo_local stack_new "demo_start open_mode" "[1]" k k 3 "demo_addr 2"
        "demo_net open_mode" "[4]" 5 "demo_addr 1" UdpCarrier 6 demo_fec counters_default]
    by (simp add: demo_noise_laws demo_fit k pub demo_net_def unanswered_def is_open_mode_def open_mode_def)
qed

text \<open>A reachable server with one session, opened over a stream connection.\<close>

lemma demo_session:
  assumes "is_open_mode auth \<or> authorized (pad32 [1]) auth"
  obtains wire sid h where
    "map_of (sv_sessions (server_event_step demo_ctx (SvConnection [4] 5 True (Some wire) (demo_addr 1)) (demo_start auth))) sid = Some h"
    "ch_peer_key h = pad32 [1]" "\<not> ch_closed h" "ch_udp h = []" "ch_tun h = []"
proof -
  obtain k where k: "new_congestion demo_local = Inr k" using demo_congestion by blast
  have pub: "nc_public demo_crypto = pad32" by (simp add: demo_crypto_def)
  obtain m1 s' sid h where
    "handle_handshake demo_ctx [4] 5 True (wrap (lp_handshake_transport demo_local) (snd (stack_apply 2 stack_new m1))) (demo_addr 1)
      TcpCarrier (demo_start auth) = (True, s')" "map_of (sv_sessions s') sid = Some h" "ch_peer_key h = pad32 [1]"
    "\<not> ch_closed h" "ch_udp h = []" "ch_tun h = []"
    by (rule honest_accepted [of demo_ctx "[9]" demo_local stack_new "demo_start auth" k "[1]" "[2]" "[4]" 5 2 "demo_addr 1" TcpCarrier])
      (use k assms in \<open>simp_all add: demo_noise_laws demo_fit pub\<close>)
  note h = this
  show thesis
    by (rule that [of "wrap (lp_handshake_transport demo_local) (snd (stack_apply 2 stack_new m1))" sid h])
      (use h in \<open>simp_all add: dispatch_connection_def\<close>)
qed

definition demo_packet :: bytes where
  "demo_packet = [69] @ replicate 11 0 @ [10, 8, 0, 2] @ [10, 8, 0, 2]"

lemma demo_packet_ip: "ipv4_src demo_packet = Some (V4 10 8 0 2)" "ipv4_dst demo_packet = Some (V4 10 8 0 2)"
  by (simp_all add: ipv4_src_def ipv4_dst_def demo_packet_def nth_append)

text \<open>After the client has sent a packet, its address is known.\<close>

lemma demo_learned:
  obtains s sid h where "server_reach demo_ctx s" "sv_running s" "map_of (sv_sessions s) sid = Some h"
    "V4 10 8 0 2 \<in> ch_tun_ips h" "\<not> ch_closed h" "ch_tun h = []" "ch_udp h = []" "sv_sessions s = [(sid, h)]"
proof -
  obtain wire sid h where h:
    "map_of (sv_sessions (server_event_step demo_ctx (SvConnection [4] 5 True (Some wire) (demo_addr 1)) (demo_start open_mode))) sid = Some h"
    "\<not> ch_closed h" "ch_udp h = []" "ch_tun h = []"
    by (rule demo_session [of open_mode]) (simp_all add: is_open_mode_def open_mode_def)
  define s1 where "s1 = server_event_step demo_ctx (SvConnection [4] 5 True (Some wire) (demo_addr 1)) (demo_start open_mode)"
  have r0: "server_reach demo_ctx (demo_start open_mode)" unfolding demo_start_def by (rule server_reach.start)
  then have r1: "server_reach demo_ctx s1" unfolding s1_def by (rule server_reach.step) simp
  obtain k where k: "new_congestion demo_local = Inr k" using demo_congestion by blast
  have run: "sv_running s1" and one: "sv_sessions s1 = [] \<or> (\<exists>i g. sv_sessions s1 = [(i, g)])"
    by (auto simp: s1_def dispatch_connection_def handle_handshake_def accept_handshake_def Let_def k spawn_client_def
        bump_errors_def evict_oldest_peer_session_def keyed_def split: prod.split option.split sum.split)
  then have ss: "sv_sessions s1 = [(sid, h)]" using h(1) [folded s1_def] by (auto split: if_splits)
  define h2 where "h2 = h\<lparr>ch_tun_ips := insert (V4 10 8 0 2) (ch_tun_ips h)\<rparr>"
  define s2 where "s2 = server_event_step demo_ctx (SvTunWrite sid demo_packet True) s1"
  have "sv_sessions s2 = [(sid, h2)]" "sv_running s2"
    using run by (simp_all add: s2_def on_tun_write_def demo_packet_ip ss learn_ip_def should_learn_tun_ip_def h2_def)
  moreover have "server_reach demo_ctx s2" unfolding s2_def by (rule server_reach.step [OF r1 run])
  ultimately show thesis using that [of s2 sid h2] h by (simp add: h2_def)
qed


text \<open>A server that never answers: the client gives up after ten messages.\<close>

lemma silent_attempts:
  "\<forall>a \<in> set as. at_send_ok a \<and> (\<forall>w. at_reply a w = TimedOut) \<Longrightarrow>
   fst (client_attempts demo_crypto server (keypair_of demo_crypto [1]) (nc_public demo_crypto [9]) NoiseIk tr (client_offer demo_local) as obf)
     = Inl TimeoutErr"
proof (induction as arbitrary: obf)
  case (Cons a as)
  obtain hs m1 hs' where m1:
    "build_handshake demo_crypto NoiseIk InitiatorSide (clone_keypair demo_crypto (keypair_of demo_crypto [1])) (Some (nc_public demo_crypto [9])) = Inr hs"
    "initiator_message_1 demo_crypto (at_ephemeral a) (client_offer demo_local) hs = Inr (m1, hs')"
    by (rule message_1_sent [OF demo_noise_laws])
  then show ?case using Cons by (auto simp: client_reply_def split_def Let_def)
qed simp

theorem handshake_client_ends_witness:
  "\<exists>obf' sent. handshake_client demo_crypto (demo_addr 2) (keypair_of demo_crypto [1]) (nc_public demo_crypto [9]) demo_local
     (\<lambda>j. \<lparr>at_ephemeral = [of_nat j], at_now = j, at_send_ok = True, at_reply = \<lambda>_. TimedOut\<rparr>) stack_new
     = (Inl TimeoutErr, obf', sent) \<and> length sent = 10"
proof -
  let ?net = "\<lambda>j. \<lparr>at_ephemeral = [of_nat j], at_now = j, at_send_ok = True, at_reply = \<lambda>_. TimedOut\<rparr>"
  let ?run = "handshake_client demo_crypto (demo_addr 2) (keypair_of demo_crypto [1]) (nc_public demo_crypto [9]) demo_local ?net stack_new"
  obtain res obf' sent where r: "?run = (res, obf', sent)" by (rule prod_cases3)
  define as where "as = map ?net [1..<HANDSHAKE_MAX_ATTEMPTS + 1]"
  have "fst (client_attempts demo_crypto (demo_addr 2) (keypair_of demo_crypto [1]) (nc_public demo_crypto [9]) NoiseIk
      (lp_handshake_transport demo_local) (client_offer demo_local) as stack_new) = Inl TimeoutErr"
    by (rule silent_attempts) (simp add: as_def)
  then have "fst ?run = Inl TimeoutErr"
    using demo_fit unfolding handshake_client_def as_def client_offer_def drivers_fit_def by (simp only: sum.case Let_def)
  then have "res = Inl TimeoutErr" using r by simp
  then show ?thesis using handshake_client_ends [OF r] r by blast
qed

end
