(* ===== verification/Server_Safety.thy ===== *)
theory Server_Safety
  imports Session_Demo
begin

text \<open>
  Properties of the dispatcher: the bounds of its tables, who may open a session, where return
  traffic goes, and what stream connections receive.
\<close>

subsection \<open>New sessions\<close>

lemma update_new: "map_of (AList.update k v xs) j = Some w \<Longrightarrow> map_of xs j = None \<Longrightarrow> j = k \<and> w = v"
  by (auto simp: update_conv' split: if_splits)

lemma delete_new: "map_of (AList.delete k xs) j = Some w \<Longrightarrow> map_of xs j = Some w"
  by (auto simp: delete_conv' split: if_splits)

lemma evict_new:
  "map_of (sv_sessions (evict_oldest_peer_session key mx s)) sid = Some h \<Longrightarrow> map_of (sv_sessions s) sid = Some h"
  by (auto simp: evict_oldest_peer_session_def Let_def dest: delete_new split: if_splits option.splits)

text \<open>A handshake adds at most the session it accepts.\<close>

lemma accept_new:
  assumes "map_of (sv_sessions (snd (accept_handshake ctx now ok src carrier est m2 s))) sid = Some h"
    "map_of (sv_sessions s) sid = None"
  shows "fst (accept_handshake ctx now ok src carrier est m2 s) \<and> sid = se_session_id est \<and>
    (\<exists>p st ks. h = new_handle ctx now carrier p st est ks (sv_shared s))"
proof -
  define s1 where "s1 = evict_oldest_peer_session (se_peer_static est) (sx_max_sessions ctx) (s\<lparr>sv_wire := sv_wire s @ [(m2, src)]\<rparr>)"
  have s1: "map_of (sv_sessions s1) sid = None"
    using evict_new [of "se_peer_static est" "sx_max_sessions ctx" "s\<lparr>sv_wire := sv_wire s @ [(m2, src)]\<rparr>" sid] assms(2)
    by (cases "map_of (sv_sessions s1) sid") (auto simp: s1_def)
  have shared: "sv_shared s1 = sv_shared s"
    by (simp add: s1_def evict_oldest_peer_session_def send_evict_def Let_def split: option.split)
  show ?thesis
    using assms(1) assms(2) s1 shared
    by (auto simp: accept_handshake_def s1_def [symmetric] Let_def spawn_client_sessions
        split: if_split_asm sum.split_asm dest!: update_new)
qed

lemma handshake_new:
  assumes "map_of (sv_sessions (snd (handle_handshake ctx e now ok msg1 src carrier s))) sid = Some h"
    "map_of (sv_sessions s) sid = None"
  obtains est m2 obf where
    "respond_message_1 (sx_crypto ctx) e now (sx_kp ctx) (sx_profile ctx) msg1 src (authorizer_of (sv_auth s)) (sv_obf s)
      = (Some (est, m2), obf)"
    "sid = se_session_id est" "ch_peer_key h = se_peer_static est" "ch_peer_label h = se_peer_label est"
    "fst (handle_handshake ctx e now ok msg1 src carrier s)"
proof -
  let ?r = "respond_message_1 (sx_crypto ctx) e now (sx_kp ctx) (sx_profile ctx) msg1 src (authorizer_of (sv_auth s)) (sv_obf s)"
  obtain res obf where r: "?r = (res, obf)" by fastforce
  show thesis
  proof (cases res)
    case None
    then show thesis using assms r by (simp add: handle_handshake_def)
  next
    case (Some em)
    obtain est m2 where em: "em = (est, m2)" by fastforce
    have "fst (accept_handshake ctx now ok src carrier est m2 (s\<lparr>sv_obf := obf\<rparr>)) \<and> sid = se_session_id est \<and>
      (\<exists>p st ks. h = new_handle ctx now carrier p st est ks (sv_shared s))"
      using accept_new [of ctx now ok src carrier est m2 "s\<lparr>sv_obf := obf\<rparr>" sid h] assms r Some em
      by (simp add: handle_handshake_def)
    then show thesis using that [of est m2 obf] r Some em by (auto simp: handle_handshake_def new_handle_def)
  qed
qed


lemma forward_live: "map_of (sv_sessions (snd (forward now d src k s))) sid = None \<longleftrightarrow> map_of (sv_sessions s) sid = None"
  by (auto simp: forward_def udp_try_send_def update_conv' split: option.split)

definition authorized_session :: "PeerAuth \<Rightarrow> ClientHandle \<Rightarrow> bool" where
  "authorized_session auth h \<longleftrightarrow> is_open_mode auth \<or>
     authorized (ch_peer_key h) auth \<and> peer_check auth (ch_peer_key h) = (True, ch_peer_label h)"

lemma handshake_authorized:
  assumes "map_of (sv_sessions (snd (handle_handshake ctx e now ok msg1 src carrier s))) sid = Some h"
    "map_of (sv_sessions s) sid = None"
  shows "authorized_session (sv_auth s) h" "fst (handle_handshake ctx e now ok msg1 src carrier s)"
proof -
  obtain est m2 obf where r:
    "respond_message_1 (sx_crypto ctx) e now (sx_kp ctx) (sx_profile ctx) msg1 src (authorizer_of (sv_auth s)) (sv_obf s)
      = (Some (est, m2), obf)"
    "ch_peer_key h = se_peer_static est" "ch_peer_label h = se_peer_label est"
    "fst (handle_handshake ctx e now ok msg1 src carrier s)"
    by (rule handshake_new [OF assms])
  show "fst (handle_handshake ctx e now ok msg1 src carrier s)" by (rule r(4))
  show "authorized_session (sv_auth s) h"
    using respond_Some(1) [OF r(1)] r(2,3) authorized_check [of "sv_auth s" "ch_peer_key h"]
    by (auto simp: authorizer_of_def authorized_session_def split: if_splits)
qed

lemma forward_fields [simp]:
  "sv_auth (snd (forward now d src k s)) = sv_auth s" "sv_limiter (snd (forward now d src k s)) = sv_limiter s"
  by (auto simp: forward_def split: option.split prod.split)

lemma probe_authorized:
  assumes "map_of (sv_sessions (probe_datagram ctx e now ok d src s)) sid = Some h" "map_of (sv_sessions s) sid = None"
  shows "authorized_session (sv_auth s) h"
proof -
  obtain k l where k: "sx_sender ctx = Some k" "limiter_allow now src (sv_limiter s) = (True, l)"
    using assms by (auto simp: probe_datagram_def split: prod.split_asm bool.split_asm option.split_asm)
  define s1 where "s1 = s\<lparr>sv_limiter := l\<rparr>"
  have s1: "map_of (sv_sessions s1) sid = None" "sv_auth s1 = sv_auth s" using assms(2) by (simp_all add: s1_def)
  obtain acc s2 where hh: "handle_handshake ctx e now ok d src k s1 = (acc, s2)" by fastforce
  have p: "probe_datagram ctx e now ok d src s = (if acc \<or> \<not> sv_running s2 then s2
      else case addr_fallback (sv_sessions s2) (sv_addr_index s2) src of
        Some sid \<Rightarrow> snd (forward now d src sid s2) | None \<Rightarrow> s2)"
    using k hh by (cases acc) (simp_all add: probe_datagram_def s1_def)
  have "map_of (sv_sessions s2) sid \<noteq> None"
  proof
    assume "map_of (sv_sessions s2) sid = None"
    then have "map_of (sv_sessions (snd (forward now d src k s2))) sid = None" for k by (simp add: forward_live)
    then show False using assms(1) \<open>map_of (sv_sessions s2) sid = None\<close> by (simp add: p split: if_split_asm option.split_asm)
  qed
  then obtain h' where h': "map_of (sv_sessions s2) sid = Some h'" by auto
  have "authorized_session (sv_auth s1) h'" acc
    using handshake_authorized [of ctx e now ok d src k s1 sid h'] hh h' s1(1) by simp_all
  then show ?thesis using assms(1) p h' s1(2) by simp
qed

lemma dispatch_authorized:
  assumes "map_of (sv_sessions (dispatch_datagram ctx e now ok d src s)) sid = Some h" "map_of (sv_sessions s) sid = None"
  shows "authorized_session (sv_auth s) h"
  using dispatch_cases [of ctx e now ok d src s] probe_authorized assms forward_live [of now d src _ s sid] by fastforce

lemma find_mem: "find P ss = Some x \<Longrightarrow> x \<in> set ss"
  by (auto simp: find_Some_iff in_set_conv_nth)

lemma find_live: "find P ss = Some (sid, h) \<Longrightarrow> map_of ss sid \<noteq> None"
proof -
  assume "find P ss = Some (sid, h)"
  then have "(sid, h) \<in> set ss" by (rule find_mem)
  then show ?thesis by (auto simp: map_of_eq_None_iff intro: rev_image_eqI)
qed

lemma event_authorized:
  assumes "map_of (sv_sessions (server_event_step ctx x s)) sid = Some h" "map_of (sv_sessions s) sid = None"
  shows "authorized_session (sv_auth s) h \<and> ((\<exists>e now ok d src. x = SvDatagram e now ok d src) \<or>
    (\<exists>e now ok m src. x = SvConnection e now ok m src))"
proof (cases x)
  case (SvDatagram e now ok d src)
  then show ?thesis using dispatch_authorized assms by auto
next
  case (SvConnection e now ok m src)
  then show ?thesis using assms handshake_authorized(1) [of ctx e now ok _ src TcpCarrier s sid h]
    by (auto simp: dispatch_connection_def split: option.split_asm)
next
  case SvSweep
  then have "(sid, h) \<in> set (sv_sessions s)" using map_of_SomeD [OF assms(1)] by (simp add: on_sweep_def Let_def split: if_split_asm)
  then show ?thesis using assms(2) by (auto simp: map_of_eq_None_iff image_iff)
qed (use assms in \<open>auto simp: on_tun_read_def on_tun_write_def on_addr_change_def map_session_def Let_def update_conv'
      handle_control_command_def evict_sessions_for_key_def evict_sessions_def
      split: option.split_asm if_split_asm ControlCommand.split_asm prod.split_asm dest: find_live\<close>)


subsection \<open>Stream connections\<close>

definition is_datagram :: "server_event \<Rightarrow> bool" where
  "is_datagram x \<longleftrightarrow> (\<exists>e now ok d src. x = SvDatagram e now ok d src)"

definition deaf :: "sessions \<Rightarrow> bool" where
  "deaf ss \<longleftrightarrow> (\<forall>h \<in> snd ` set ss. ch_udp h = [])"

lemma deaf_update: "deaf ss \<Longrightarrow> ch_udp h = [] \<Longrightarrow> deaf (AList.update sid h ss)"
  unfolding deaf_def using update_handles by fastforce

lemma deaf_filter: "deaf ss \<Longrightarrow> deaf (filter P ss)" "deaf ss \<Longrightarrow> deaf (AList.delete sid ss)"
  by (auto simp: deaf_def delete_filter)

lemma deaf_handle: "deaf ss \<Longrightarrow> map_of ss sid = Some h \<Longrightarrow> ch_udp h = []"
  "deaf ss \<Longrightarrow> find P ss = Some (sid, h) \<Longrightarrow> ch_udp h = []"
  by (force simp: deaf_def dest!: map_of_SomeD find_mem)+

lemma evict_deaf: "deaf (sv_sessions s) \<Longrightarrow> deaf (sv_sessions (evict_oldest_peer_session key mx s))"
  by (auto simp: evict_oldest_peer_session_def Let_def deaf_filter split: option.split)

lemma handshake_deaf: "deaf (sv_sessions s) \<Longrightarrow> deaf (sv_sessions (snd (handle_handshake ctx e now ok m src carrier s)))"
  by (auto simp: handle_handshake_def accept_handshake_def Let_def spawn_client_sessions new_handle_def
      split: prod.split option.split sum.split intro!: deaf_update evict_deaf)

lemma event_deaf:
  assumes "deaf (sv_sessions s)" "\<not> is_datagram x"
  shows "deaf (sv_sessions (server_event_step ctx x s))"
proof (cases x)
  case (SvTunRead pkt waited)
  then show ?thesis using assms(1)
    by (auto simp: on_tun_read_def Let_def deaf_handle split: option.split intro!: deaf_update)
next
  case (SvTunWrite sid pkt ok)
  then show ?thesis using assms(1)
    by (auto simp: on_tun_write_def Let_def learn_ip_def deaf_handle split: option.split intro!: deaf_update)
next
  case (SvAddrChange now sid a)
  then show ?thesis using assms(1)
    by (auto simp: on_addr_change_def Let_def deaf_handle split: option.split intro!: deaf_update)
next
  case (SvControl now cmd)
  then show ?thesis using assms(1)
    by (auto simp: handle_control_command_def evict_sessions_for_key_def evict_sessions_def Let_def
        split: ControlCommand.split option.split)
next
  case (SvDatagram e now ok d src)
  then show ?thesis using assms(2) by (auto simp: is_datagram_def)
next
  case (SvConnection e now ok m src)
  then show ?thesis using assms(1) by (auto simp: dispatch_connection_def handshake_deaf split: option.split)
next
  case SvSweep
  then show ?thesis using assms(1) by (auto simp: on_sweep_def Let_def deaf_filter)
next
  case (SvTunnelTakes sid n m)
  then show ?thesis using assms(1) by (auto simp: map_session_def deaf_handle split: option.split intro!: deaf_update)
next
  case (SvTunnelExit sid)
  then show ?thesis using assms(1) by (auto simp: map_session_def deaf_handle split: option.split intro!: deaf_update)
qed (use assms in simp_all)

lemma run_deaf: "deaf (sv_sessions s) \<Longrightarrow> \<forall>x \<in> set xs. \<not> is_datagram x \<Longrightarrow> deaf (sv_sessions (run_server ctx xs s))"
proof (induction xs arbitrary: s)
  case (Cons x xs)
  then have "deaf (sv_sessions (server_event_step ctx x s))" by (auto intro: event_deaf)
  moreover have "deaf (sv_sessions (server_shutdown s'))" for s' by (simp add: server_shutdown_def deaf_def)
  ultimately show ?case using Cons by (simp add: Let_def)
qed simp

subsection \<open>Starved sources\<close>

text \<open>The datagrams of one source, each at its time.\<close>

fun dispatch_all :: "ServerCtx \<Rightarrow> SocketAddr \<Rightarrow> (nat \<times> bytes) list \<Rightarrow> ServerState \<Rightarrow> ServerState" where
  "dispatch_all ctx src [] s = s"
| "dispatch_all ctx src ((now, d) # ds) s = dispatch_all ctx src ds (dispatch_datagram ctx [] now True d src s)"

lemma starved:
  assumes "frequent (t # map fst ds)" "limiter_wf (sv_limiter s)"
    "map_of (pl_by_source (sv_limiter s)) src = Some \<lparr>pb_last_refill = t, pb_tokens = 0\<rparr>"
    "\<forall>d \<in> snd ` set ds. peek_routed_session (sv_sessions s) (lp_handshake_transport (sx_profile ctx)) d = None"
  shows "sv_sessions (dispatch_all ctx src ds s) = sv_sessions s"
  using assms
proof (induction ds arbitrary: t s)
  case (Cons x ds)
  obtain now d where x: "x = (now, d)" by fastforce
  have fr: "as_millis (now - t) < HANDSHAKE_PROBE_INTERVAL_MS" "frequent (now # map fst ds)" using Cons.prems(1) by (simp_all add: x)
  have kept: "map_of (pl_by_source (limiter_purge now (sv_limiter s))) src = Some \<lparr>pb_last_refill = t, pb_tokens = 0\<rparr>"
    using purge_keeps [OF Cons.prems(2,3)] fr(1) by simp
  obtain l where l: "limiter_allow now src (sv_limiter s) = (False, l)"
    "map_of (pl_by_source l) src = Some \<lparr>pb_last_refill = now, pb_tokens = 0\<rparr>"
    using kept drain_take [OF fr(1), of 0] by (auto simp: limiter_allow_def Let_def update_conv')
  have "limiter_wf l" using limiter_allow_wf [OF Cons.prems(2), of now src] l(1) by simp
  then have "sv_sessions (dispatch_all ctx src ds (s\<lparr>sv_limiter := l\<rparr>)) = sv_sessions s"
    using Cons.IH [of now "s\<lparr>sv_limiter := l\<rparr>"] fr(2) l(2) Cons.prems(4) by simp
  moreover have "dispatch_datagram ctx [] now True d src s = s\<lparr>sv_limiter := l\<rparr>"
    using Cons.prems(4) l(1) by (simp add: x dispatch_datagram_def probe_datagram_def)
  ultimately show ?case by (simp add: x)
qed simp


subsection \<open>Routing by session id\<close>

text \<open>A tag that the routing peek cannot take for the start of a frame of \<open>n\<close> bytes. The default tag begins with the
  discriminator of \<open>v2-tlv\<close>, but then announces a header longer than any datagram of a device MTU.\<close>

fun tag_clear :: "transport \<Rightarrow> nat \<Rightarrow> bool" where
  "tag_clear PlainTransport n \<longleftrightarrow> True"
| "tag_clear (TaggedTransport a b) n \<longleftrightarrow> a \<noteq> PROTOCOL_VERSION \<and> (a \<noteq> V2_TLV_MAGIC \<or> n < 1 + 256 * unat b)"

lemma default_tag_clear: "n \<le> 19968 \<Longrightarrow> tag_clear (TaggedTransport (fst DEFAULT_TAG) (snd DEFAULT_TAG)) n"
  by (simp add: DEFAULT_TAG_def PROTOCOL_VERSION_def)

lemma be16_ge: "256 * unat b \<le> unat (from_be_bytes16 b c)"
proof -
  define w where "w = from_be_bytes16 b c"
  have "(ucast (drop_bit 8 w) :: u8) = b" using to_from_be_bytes16 [of b c] by (simp add: to_be_bytes16_def w_def)
  then have "unat b = unat (drop_bit 8 w) mod 256" by (auto simp: unsigned_ucast_eq take_bit_eq_mod)
  moreover have "unat (drop_bit 8 w) = unat w div 256" unfolding unat_drop_bit_eq by (simp add: drop_bit_eq_div)
  ultimately have "unat b \<le> unat w div 256" by simp
  then have "256 * unat b \<le> 256 * (unat w div 256)" by simp
  also have "\<dots> \<le> unat w" by simp
  finally show ?thesis by (simp add: w_def)
qed

lemma tag_not_peeked: "tag_clear (TaggedTransport a b) (length frame) \<Longrightarrow> route_session_id (a # b # frame) = None"
proof -
  assume t: "tag_clear (TaggedTransport a b) (length frame)"
  have v1: "v1_peek_session_id (a # b # frame) = None"
    using t by (simp add: v1_peek_session_id_def v1_looks_like_frame_def)
  have v2: "v2_peek_session_id (a # b # frame) = None"
    using t be16_ge [of b "(a # b # frame) ! 2"]
    by (auto simp: v2_peek_session_id_def v2_looks_like_frame_def v2_body_len_def V2_TLV_PREAMBLE_def Let_def)
  show ?thesis using v1 v2 by (simp add: route_session_id_def peek_any_session_id_def ALL_CODECS_def)
qed

lemma frame_peeked:
  assumes "codec_carries c hdr" "encode_frame c hdr body = Inr frame" "hdr_session_id hdr \<noteq> 0"
  shows "route_session_id frame = Some (hdr_session_id hdr)"
proof -
  have p: "peek_session_id c frame = Some (hdr_session_id hdr)" using codec_frame [OF assms(1), of body] assms(2) by auto
  have "peek_any_session_id frame = Some (hdr_session_id hdr)"
  proof (cases c)
    case V1FixedCodec
    then show ?thesis using p by (simp add: peek_any_session_id_def ALL_CODECS_def)
  next
    case V2TlvCodec
    then have "v1_peek_session_id frame = None"
      using p claims_exclusive [of frame] peek_imp_claims [of frame] by (cases "v1_peek_session_id frame") auto
    then show ?thesis using p V2TlvCodec by (simp add: peek_any_session_id_def ALL_CODECS_def)
  qed
  then show ?thesis using assms(3) by (simp add: route_session_id_def)
qed

lemma frame_routed:
  assumes "codec_carries c hdr" "encode_frame c hdr body = Inr frame" "hdr_session_id hdr \<noteq> 0"
    "live ss (hdr_session_id hdr)" "tag_clear tr (length frame)"
  shows "peek_routed_session ss tr (wrap tr frame) = Some (hdr_session_id hdr)"
proof (cases tr)
  case PlainTransport
  then show ?thesis using frame_peeked [OF assms(1-3)] assms(4)
    by (simp add: peek_routed_session_def peek_live_def plain_wrap_def)
next
  case (TaggedTransport a b)
  then have "peek_live ss (a # b # frame) = None" using tag_not_peeked [of a b frame] assms(5) by (simp add: peek_live_def)
  moreover have "unwrap (TaggedTransport a b) (a # b # frame) = Inr frame" by (simp add: tagged_unwrap_Inr)
  moreover have "peek_live ss frame = Some (hdr_session_id hdr)"
    using frame_peeked [OF assms(1-3)] assms(4) by (simp add: peek_live_def)
  ultimately show ?thesis using TaggedTransport by (simp add: peek_routed_session_def tagged_wrap_def del: unwrap.simps)
qed

lemma foreign_envelope_unrouted:
  assumes "tag_clear (TaggedTransport a b) (length frame)" "\<forall>h \<in> snd ` set ss. ch_keystream h = None"
  shows "peek_routed_session ss PlainTransport (wrap (TaggedTransport a b) frame) = None"
proof -
  have "find_map (\<lambda>(_, h). case ch_keystream h of None \<Rightarrow> None | Some ks \<Rightarrow> peek_live tt (dewhiten ks x)) ss = None" for x tt
    using assms(2) by (induction ss) (auto split: option.split)
  then show ?thesis using tag_not_peeked [OF assms(1)]
    by (simp add: peek_routed_session_def peek_live_def tagged_wrap_def plain_unwrap_def)
qed

subsection \<open>Properties\<close>

text \<open>C6. The dispatcher's tables stay in bounds through every run: session identifiers are unique,
  no peer holds more sessions than the configured cap, and the queues to the tunnels never exceed
  their capacity.\<close>

theorem server_table_bounded:
  assumes "server_reach ctx s"
  shows "distinct (map fst (sv_sessions s)) \<and>
    (sx_max_sessions ctx \<noteq> 0 \<longrightarrow> length (filter (\<lambda>(_, h). ch_peer_key h = key) (sv_sessions s)) \<le> unat (sx_max_sessions ctx)) \<and>
    (\<forall>(_, h) \<in> set (sv_sessions s). length (ch_udp h) \<le> PER_CLIENT_CHAN \<and> length (ch_tun h) \<le> PER_CLIENT_CHAN)"
  using reach_table_ok [OF assms] by (auto simp: table_ok_def cap_ok_def keyed_def queues_ok_def)

theorem server_table_bounded_witness:
  "\<exists>s. server_reach demo_ctx s \<and> sv_sessions s \<noteq> [] \<and>
    length (filter (\<lambda>(_, h). ch_peer_key h = pad32 [1]) (sv_sessions s)) \<le> 1"
proof -
  obtain wire sid h where h:
    "map_of (sv_sessions (server_event_step demo_ctx (SvConnection [4] 5 True (Some wire) (demo_addr 1)) (demo_start open_mode))) sid = Some h"
    by (rule demo_session [of open_mode]) (simp_all add: is_open_mode_def open_mode_def)
  let ?s = "server_event_step demo_ctx (SvConnection [4] 5 True (Some wire) (demo_addr 1)) (demo_start open_mode)"
  have "server_reach demo_ctx ?s"
    by (rule server_reach.step) (use server_reach.start [of demo_ctx 0 stack_new open_mode counters_default] in \<open>simp_all add: demo_start_def server_start_def\<close>)
  then show ?thesis using server_table_bounded [of demo_ctx ?s "pad32 [1]"] h by (auto intro!: exI [of _ ?s])
qed

text \<open>C5. Only authorized keys open sessions: whatever event the dispatcher handles, a session that
  was not there before comes from a handshake whose static key the authorizer accepted, unless the
  server runs in open mode; its label is the one configured for that key.\<close>

theorem new_sessions_authorized:
  assumes "map_of (sv_sessions (server_event_step ctx x s)) sid = Some h" "map_of (sv_sessions s) sid = None"
  shows "is_open_mode (sv_auth s) \<or>
    authorized (ch_peer_key h) (sv_auth s) \<and> peer_check (sv_auth s) (ch_peer_key h) = (True, ch_peer_label h)"
  using event_authorized [OF assms] by (simp add: authorized_session_def)

theorem new_sessions_authorized_witness:
  "\<exists>wire sid h. map_of (sv_sessions (server_event_step demo_ctx (SvConnection [4] 5 True (Some wire) (demo_addr 1))
       (demo_start \<lparr>pa_keys = [pad32 [1] \<mapsto> Some ''alice''], pa_denylist = {}, pa_open = False\<rparr>))) sid = Some h \<and>
     ch_peer_label h = Some ''alice''"
proof -
  let ?auth = "\<lparr>pa_keys = [pad32 [1] \<mapsto> Some ''alice''], pa_denylist = {}, pa_open = False\<rparr>"
  obtain wire sid h where h:
    "map_of (sv_sessions (server_event_step demo_ctx (SvConnection [4] 5 True (Some wire) (demo_addr 1)) (demo_start ?auth))) sid = Some h"
    "ch_peer_key h = pad32 [1]"
    by (rule demo_session [of ?auth]) (simp_all add: authorized_def is_revoked_def)
  have "ch_peer_label h = Some ''alice''"
    using new_sessions_authorized [OF h(1)] h(2) by (simp add: is_open_mode_def peer_check_def is_revoked_def)
  then show ?thesis using h(1) by blast
qed

text \<open>C11. Return traffic stays with its owner: a packet from the device reaches at most one session, one
  that has used the destination as a source address, which lies in a configured tunnel network; every
  other session is untouched.\<close>

theorem return_traffic_isolated:
  assumes "server_reach ctx s" "map_of (sv_sessions s) sid = Some h"
    "map_of (sv_sessions (server_event_step ctx (SvTunRead (Some p) w) s)) sid = Some h'" "ch_tun h' \<noteq> ch_tun h"
  shows "\<exists>dst. ipv4_dst p = Some dst \<and> dst \<in> ch_tun_ips h \<and> should_learn_tun_ip dst (sx_nets ctx) \<and> \<not> ch_closed h \<and>
    last (ch_tun h') = p \<and>
    (\<forall>i. i \<noteq> sid \<longrightarrow> map_of (sv_sessions (server_event_step ctx (SvTunRead (Some p) w) s)) i = map_of (sv_sessions s) i)"
proof -
  have d: "distinct (map fst (sv_sessions s))" using reach_table_ok [OF assms(1)] by (simp add: table_ok_def)
  obtain dst i g where f: "ipv4_dst p = Some dst"
    "find (\<lambda>(_, h). dst \<in> ch_tun_ips h \<and> \<not> ch_closed h) (sv_sessions s) = Some (i, g)"
    using assms(2,3,4) by (auto simp: on_tun_read_def split: option.split_asm)
  note g = find_session [OF d f(2)]
  obtain g' where g': "sv_sessions (server_event_step ctx (SvTunRead (Some p) w) s) = AList.update i g' (sv_sessions s)"
    "ch_tun g' = ch_tun g \<or> last (ch_tun g') = p"
  proof (cases "length (ch_tun g) < PER_CLIENT_CHAN")
    case True
    then show ?thesis using that [of "g\<lparr>ch_tun := ch_tun g @ [p]\<rparr>"] f by (simp add: on_tun_read_def)
  next
    case False
    then show ?thesis
      using that [of "g\<lparr>ch_closed := True\<rparr>"] that [of "g\<lparr>ch_tun := drop (Suc (the w)) (ch_tun g) @ [p]\<rparr>"] f
      by (cases w) (simp_all add: on_tun_read_def Let_def)
  qed
  have "i = sid" using assms(2,3,4) g'(1) by (auto simp: update_conv' split: if_splits)
  then have eq: "g = h" "h' = g'" using g(1) assms(2,3) g'(1) by (auto simp: update_conv')
  have "(sid, h) \<in> set (sv_sessions s)" using assms(2) by (rule map_of_SomeD)
  then have "should_learn_tun_ip dst (sx_nets ctx)" using plausible.holds [OF assms(1)] g(2) eq by auto
  then show ?thesis using f(1) g(2) eq g' assms(4) \<open>i = sid\<close> by (auto simp: update_conv')
qed


theorem return_traffic_isolated_witness:
  "\<exists>s sid h h'. server_reach demo_ctx s \<and> map_of (sv_sessions s) sid = Some h \<and>
     map_of (sv_sessions (server_event_step demo_ctx (SvTunRead (Some demo_packet) None) s)) sid = Some h' \<and>
     ch_tun h' = [demo_packet] \<and> V4 10 8 0 2 \<in> ch_tun_ips h"
proof -
  obtain s sid h where r: "server_reach demo_ctx s" "map_of (sv_sessions s) sid = Some h"
    "V4 10 8 0 2 \<in> ch_tun_ips h" "\<not> ch_closed h" "ch_tun h = []" "sv_sessions s = [(sid, h)]"
    by (rule demo_learned)
  let ?h = "h\<lparr>ch_tun := [demo_packet]\<rparr>"
  have m: "map_of (sv_sessions (server_event_step demo_ctx (SvTunRead (Some demo_packet) None) s)) sid = Some ?h"
    using r by (simp add: on_tun_read_def demo_packet_ip PER_CLIENT_CHAN_def)
  have "ch_tun ?h \<noteq> ch_tun h" using r(5) by simp
  then show ?thesis using return_traffic_isolated [OF r(1,2) m] r m by (auto simp: demo_packet_ip)
qed

text \<open>C37. In open mode a revoked key still gets in: the dispatcher consults no authorizer then, so the
  denylist has no effect on new handshakes, although a revoked key is documented to be rejected
  even in open mode.\<close>

theorem revoked_accepted_in_open_mode:
  assumes "noise_laws (sx_crypto ctx)" "sx_kp ctx = keypair_of (sx_crypto ctx) sr"
    "drivers_fit cli ocl (sx_profile ctx) (sv_obf s)" "new_congestion (sx_profile ctx) = Inr k"
    "is_open_mode (sv_auth s)" "is_revoked (nc_public (sx_crypto ctx) si) (sv_auth s)"
  shows "\<exists>wire s' sid h. handle_handshake ctx er now True wire caddr carrier s = (True, s') \<and>
    map_of (sv_sessions s') sid = Some h \<and> ch_peer_key h = nc_public (sx_crypto ctx) si \<and>
    peer_check (sv_auth s) (ch_peer_key h) = (False, Some ''revoked'')"
proof -
  obtain m1 s' sid h where
    "handle_handshake ctx er now True (wrap (lp_handshake_transport cli) (snd (stack_apply 0 ocl m1))) caddr carrier s = (True, s')"
    "map_of (sv_sessions s') sid = Some h" "ch_peer_key h = nc_public (sx_crypto ctx) si"
    by (rule honest_accepted [OF assms(1-4), of si]) (use assms(5) in simp_all)
  moreover from this have "peer_check (sv_auth s) (ch_peer_key h) = (False, Some ''revoked'')"
    using assms(6) by (simp add: peer_check_def)
  ultimately show ?thesis by blast
qed

theorem revoked_accepted_in_open_mode_witness:
  "\<exists>wire s' sid h. handle_handshake demo_ctx [4] 5 True wire (demo_addr 1) UdpCarrier (demo_start (revoke (pad32 [1]) open_mode)) = (True, s') \<and>
    map_of (sv_sessions s') sid = Some h \<and> ch_peer_key h = pad32 [1]"
proof -
  obtain k where k: "new_congestion demo_local = Inr k" using demo_congestion by blast
  have pub: "nc_public demo_crypto = pad32" by (simp add: demo_crypto_def)
  show ?thesis
    using revoked_accepted_in_open_mode [of demo_ctx "[9]" demo_local stack_new "demo_start (revoke (pad32 [1]) open_mode)" k "[1]"
        "[4]" 5 "demo_addr 1" UdpCarrier]
    by (simp add: demo_noise_laws demo_fit k pub is_open_mode_def open_mode_def revoke_def is_revoked_def) blast
qed

text \<open>A stream server never hears its clients again: without datagram events, which a stream listener
  does not produce, no session's tunnel is ever given a message, because nothing reads the
  connection after its first message.\<close>

theorem stream_sessions_deaf:
  assumes "\<forall>x \<in> set xs. \<not> is_datagram x" "(sid, h) \<in> set (sv_sessions (run_server ctx xs (server_start now obf auth shared)))"
  shows "ch_udp h = []"
proof -
  have "deaf (sv_sessions (run_server ctx xs (server_start now obf auth shared)))"
    by (rule run_deaf [OF _ assms(1)]) (simp add: deaf_def server_start_def)
  then show ?thesis using assms(2) by (force simp: deaf_def)
qed

theorem stream_sessions_deaf_witness:
  "\<exists>wire sid h. (sid, h) \<in> set (sv_sessions (run_server demo_ctx [SvConnection [4] 5 True (Some wire) (demo_addr 1)] (demo_start open_mode)))
     \<and> ch_udp h = []"
proof -
  obtain wire sid h where h:
    "map_of (sv_sessions (server_event_step demo_ctx (SvConnection [4] 5 True (Some wire) (demo_addr 1)) (demo_start open_mode))) sid = Some h"
    by (rule demo_session [of open_mode]) (simp_all add: is_open_mode_def open_mode_def)
  let ?x = "SvConnection [4] 5 True (Some wire) (demo_addr 1)"
  have "sv_running (server_event_step demo_ctx ?x (demo_start open_mode))"
    using demo_congestion by (auto simp: dispatch_connection_def handle_handshake_def accept_handshake_def Let_def
        spawn_client_def bump_errors_def evict_oldest_peer_session_def keyed_def split: prod.split option.split sum.split)
  then have "(sid, h) \<in> set (sv_sessions (run_server demo_ctx [?x] (demo_start open_mode)))"
    using map_of_SomeD [OF h] by (simp add: Let_def)
  moreover from this have "ch_udp h = []"
    using stream_sessions_deaf [of "[?x]" sid h demo_ctx 0 stack_new open_mode counters_default]
    by (simp add: is_datagram_def demo_start_def)
  ultimately show ?thesis by blast
qed

text \<open>C16. A frame of a live session is recognised from whatever address it comes, with either codec, provided it travels in the
  envelope of the handshake, whose tag does not look like the start of a frame, and its headers are not whitened. If the session's
  queue has room the frame is put there and nothing else changes, in particular not the probe limiter; if the queue is full, the
  datagram is treated as a probe for a handshake.\<close>

theorem session_datagram_routed:
  assumes "codec_carries c hdr" "encode_frame c hdr body = Inr frame" "hdr_session_id hdr \<noteq> 0"
    "map_of (sv_sessions s) (hdr_session_id hdr) = Some h" "\<not> ch_closed h"
    "tag_clear (lp_handshake_transport (sx_profile ctx)) (length frame)"
  shows "dispatch_datagram ctx e now ok (wrap (lp_handshake_transport (sx_profile ctx)) frame) src s =
    (if length (ch_udp h) < PER_CLIENT_CHAN
     then s\<lparr>sv_sessions := AList.update (hdr_session_id hdr)
        (h\<lparr>ch_udp := ch_udp h @ [(wrap (lp_handshake_transport (sx_profile ctx)) frame, src)], ch_last_forwarded := now\<rparr>)
        (sv_sessions s)\<rparr>
     else probe_datagram ctx e now ok (wrap (lp_handshake_transport (sx_profile ctx)) frame) src s)"
  using frame_routed [OF assms(1-3) _ assms(6), of "sv_sessions s"] assms(4,5)
  by (simp add: dispatch_datagram_def forward_def udp_try_send_def live_def)

theorem session_datagram_routed_witness:
  "\<exists>s h frame. encode_frame V1FixedCodec (new_header Ping 7 1) [] = Inr frame \<and>
     dispatch_datagram demo_ctx [] 9 True frame (demo_addr 5) s = s\<lparr>sv_sessions := [(7, h)]\<rparr> \<and> ch_udp h = [(frame, demo_addr 5)]"
proof -
  obtain h :: ClientHandle where h: "\<not> ch_closed h" "ch_udp h = []" by (rule demo_learned)
  let ?s = "(demo_start open_mode)\<lparr>sv_sessions := [(7, h)]\<rparr>"
  have c: "codec_carries V1FixedCodec (new_header Ping 7 1)" by (simp add: wf_header_def new_header_def)
  obtain frame where f: "encode_frame V1FixedCodec (new_header Ping 7 1) [] = Inr frame" using codec_frame [OF c] by blast
  show ?thesis
    using session_datagram_routed [OF c f, of ?s h demo_ctx "[]" 9 True "demo_addr 5"] h f
    by (auto simp: new_header_def demo_local_def PER_CLIENT_CHAN_def plain_wrap_def
        intro!: exI [of _ ?s] exI [of _ "h\<lparr>ch_udp := [(frame, demo_addr 5)], ch_last_forwarded := 9\<rparr>"])
qed

text \<open>C36. A session whose negotiated envelope is tagged while the handshake's is plain is starved:
  its frames cannot be peeked, so each is treated as a handshake probe, and once the source's
  tokens are spent and it keeps sending at intervals below 200 ms, none of its datagrams is
  forwarded any more.\<close>

theorem foreign_envelope_starves:
  assumes "lp_handshake_transport (sx_profile ctx) = PlainTransport"
    "\<forall>h \<in> snd ` set (sv_sessions s). ch_keystream h = None"
    "\<forall>frame \<in> set frames. tag_clear (TaggedTransport a b) (length frame)" "length ts = length frames"
    "frequent (t # ts)" "limiter_wf (sv_limiter s)"
    "map_of (pl_by_source (sv_limiter s)) src = Some \<lparr>pb_last_refill = t, pb_tokens = 0\<rparr>"
  shows "sv_sessions (dispatch_all ctx src (zip ts (map (wrap (TaggedTransport a b)) frames)) s) = sv_sessions s"
proof (rule starved [where t = t])
  show "frequent (t # map fst (zip ts (map (wrap (TaggedTransport a b)) frames)))" using assms(4,5) by simp
  show "\<forall>d \<in> snd ` set (zip ts (map (wrap (TaggedTransport a b)) frames)).
    peek_routed_session (sv_sessions s) (lp_handshake_transport (sx_profile ctx)) d = None"
  proof
    fix d assume "d \<in> snd ` set (zip ts (map (wrap (TaggedTransport a b)) frames))"
    then obtain frame where "frame \<in> set frames" "d = wrap (TaggedTransport a b) frame"
      by (force dest: set_zip_rightD simp del: wrap.simps)
    then show "peek_routed_session (sv_sessions s) (lp_handshake_transport (sx_profile ctx)) d = None"
      using assms(1-3) foreign_envelope_unrouted by metis
  qed
qed (use assms in auto)

theorem foreign_envelope_starves_witness:
  "\<exists>s sid h. sv_sessions s = [(sid, h)] \<and>
     sv_sessions (dispatch_all demo_ctx (demo_addr 1) [(100, [0x52, 0x4E, 1, 1]), (200, [0x52, 0x4E, 1, 2])] s) = sv_sessions s"
proof -
  obtain h :: ClientHandle where "\<not> ch_closed h" by (rule demo_learned)
  let ?h = "h\<lparr>ch_keystream := None\<rparr>"
  let ?l = "\<lparr>pl_by_source = [(demo_addr 1, \<lparr>pb_last_refill = 50, pb_tokens = 0\<rparr>)], pl_last_purge = 0\<rparr>"
  let ?s = "(demo_start open_mode)\<lparr>sv_sessions := [(7, ?h)], sv_limiter := ?l\<rparr>"
  show ?thesis
    using foreign_envelope_starves [of demo_ctx ?s "[[1, 1], [1, 2]]" "0x52" "0x4E" "[100, 200]" 50 "demo_addr 1"]
    by (auto intro!: exI [of _ ?s] simp: demo_local_def as_millis_def HANDSHAKE_PROBE_INTERVAL_MS_def limiter_wf_def
        HANDSHAKE_PROBE_GLOBAL_CAP_def HANDSHAKE_PROBE_BURST_def tagged_wrap_def PROTOCOL_VERSION_def)
qed

end
