(* ===== verification/Control_Socket.thy ===== *)
theory Control_Socket
  imports Server_Safety
begin

text \<open>
  The daemon's control socket (\<open>src/src/ipc/mod.rs\<close>, \<open>ipc/messages.rs\<close>). Decoding and encoding of the JSON
  lines is the arguments \<open>parse\<close> and \<open>render\<close>, the statistics snapshot the argument \<open>status\<close>. The server-only
  commands go to the dispatcher through a channel, which is the argument \<open>dispatch\<close>; \<open>dispatch_after\<close> is the
  dispatcher of theory \<open>Server\<close>, which may handle any events before it takes the command.
\<close>

datatype Request =
    ReqStatus | ReqStop | ReqPing
  | ReqRevoke string
  | ReqListSessions
  | ReqDisconnect "u32 option" "string option"

datatype 'st Response = RespStatus 'st | RespSessions "SessionInfo list" | RespAck string | RespError string

datatype channel_result = NotRunning | ReplyDropped | GotReply ControlReply

type_synonym dispatcher = "ControlCommand \<Rightarrow> ServerState \<Rightarrow> channel_result \<times> ServerState"

definition decode_key :: "(string \<Rightarrow> bytes option) \<Rightarrow> string \<Rightarrow> bytes option" where
  "decode_key hex_decode text =
     (case hex_decode (trim text) of
        Some b \<Rightarrow> if length b = 32 then Some b else None
      | None \<Rightarrow> None)"

definition channel_error :: "channel_result \<Rightarrow> 'st Response" where
  "channel_error r = (case r of
       NotRunning \<Rightarrow> RespError ''dispatcher is not running''
     | _ \<Rightarrow> RespError ''dispatcher dropped the response (shutdown in progress?)'')"

text \<open>\<open>server_handle\<close> says whether the daemon is a server.\<close>

definition handle_revoke ::
  "(string \<Rightarrow> bytes option) \<Rightarrow> bool \<Rightarrow> dispatcher \<Rightarrow> string \<Rightarrow> ServerState \<Rightarrow> 'st Response \<times> ServerState" where
  "handle_revoke hex_decode server_handle dispatch public_key s =
     (if \<not> server_handle then (RespError ''revoke is only available on the server daemon'', s)
      else case decode_key hex_decode public_key of
          None \<Rightarrow> (RespError ''invalid public key: must be 32-byte hex'', s)
        | Some key \<Rightarrow>
            if is_revoked key (sv_auth s) then (RespAck (''peer key '' @ public_key @ '' already revoked''), s)
            else (case dispatch (CtlRevoke key) (s\<lparr>sv_auth := revoke key (sv_auth s)\<rparr>) of
                (GotReply (ReplyCount n), s) \<Rightarrow> (RespAck (''revoked; '' @ show_nat n @ '' active session(s) evicted''), s)
              | (r, s) \<Rightarrow> (channel_error r, s)))"

definition handle_list_sessions :: "bool \<Rightarrow> dispatcher \<Rightarrow> ServerState \<Rightarrow> 'st Response \<times> ServerState" where
  "handle_list_sessions server_handle dispatch s =
     (if \<not> server_handle then (RespError ''list_sessions is only available on the server daemon'', s)
      else case dispatch CtlListSessions s of
          (GotReply (ReplySessions infos), s) \<Rightarrow> (RespSessions infos, s)
        | (r, s) \<Rightarrow> (channel_error r, s))"

definition handle_disconnect ::
  "(string \<Rightarrow> bytes option) \<Rightarrow> bool \<Rightarrow> dispatcher \<Rightarrow> u32 option \<Rightarrow> string option \<Rightarrow> ServerState \<Rightarrow> 'st Response \<times> ServerState" where
  "handle_disconnect hex_decode server_handle dispatch session_id peer_key s =
     (if \<not> server_handle then (RespError ''disconnect is only available on the server daemon'', s)
      else case (case peer_key of
            None \<Rightarrow> Some None
          | Some text \<Rightarrow> (case decode_key hex_decode text of Some b \<Rightarrow> Some (Some b) | None \<Rightarrow> None)) of
          None \<Rightarrow> (RespError ''invalid peer key: must be 32-byte hex'', s)
        | Some key \<Rightarrow>
            if session_id = None \<and> key = None then (RespError ''disconnect requires --session or --peer-key'', s)
            else (case dispatch (CtlDisconnect session_id key) s of
                (GotReply (ReplyCount n), s) \<Rightarrow> (RespAck (show_nat n @ '' session(s) disconnected''), s)
              | (r, s) \<Rightarrow> (channel_error r, s)))"

text \<open>One request: the response, whether a stop was signalled, and the server's state.\<close>

fun handle_request ::
  "(string \<Rightarrow> bytes option) \<Rightarrow> bool \<Rightarrow> dispatcher \<Rightarrow> 'st \<Rightarrow> Request \<Rightarrow> ServerState \<Rightarrow> 'st Response \<times> bool \<times> ServerState" where
  "handle_request hex_decode server_handle dispatch status ReqStatus s = (RespStatus status, False, s)"
| "handle_request hex_decode server_handle dispatch status ReqStop s = (RespAck ''stopping'', True, s)"
| "handle_request hex_decode server_handle dispatch status ReqPing s = (RespAck ''pong'', False, s)"
| "handle_request hex_decode server_handle dispatch status (ReqRevoke key) s =
     (let (r, s) = handle_revoke hex_decode server_handle dispatch key s in (r, False, s))"
| "handle_request hex_decode server_handle dispatch status ReqListSessions s =
     (let (r, s) = handle_list_sessions server_handle dispatch s in (r, False, s))"
| "handle_request hex_decode server_handle dispatch status (ReqDisconnect session_id peer_key) s =
     (let (r, s) = handle_disconnect hex_decode server_handle dispatch session_id peer_key s in (r, False, s))"

text \<open>A connection: the lines read, each with the statistics at that moment, and the lines written back.
  A read or write that fails ends the connection, so that it handled a prefix of the lines.\<close>

fun handle_client ::
  "(string \<Rightarrow> bytes option) \<Rightarrow> bool \<Rightarrow> dispatcher \<Rightarrow> (string \<Rightarrow> string + Request) \<Rightarrow> ('st Response \<Rightarrow> string) \<Rightarrow> (string \<times> 'st) list
   \<Rightarrow> ServerState \<Rightarrow> string list \<times> bool \<times> ServerState" where
  "handle_client hex_decode server_handle dispatch parse render [] s = ([], False, s)"
| "handle_client hex_decode server_handle dispatch parse render ((line, status) # rest) s =
     (let (resp, stop, s) =
          (case parse line of
             Inl e \<Rightarrow> (RespError (''bad request: '' @ e), False, s)
           | Inr req \<Rightarrow> handle_request hex_decode server_handle dispatch status req s);
          (out, stop', s) = handle_client hex_decode server_handle dispatch parse render rest s
      in ((render resp @ [CHR 0x0A]) # out, stop \<or> stop', s))"

definition run_events :: "ServerCtx \<Rightarrow> server_event list \<Rightarrow> ServerState \<Rightarrow> ServerState" where
  "run_events ctx xs s = fold (server_event_step ctx) xs s"

definition dispatch_after :: "ServerCtx \<Rightarrow> nat \<Rightarrow> server_event list \<Rightarrow> dispatcher" where
  "dispatch_after ctx now before cmd s =
     (let s = run_events ctx before s
      in if sv_running s then let (r, s) = handle_control_command ctx now cmd s in (GotReply r, s) else (ReplyDropped, s))"

subsection \<open>Sessions of a revoked key\<close>

definition key_sids :: "bytes \<Rightarrow> sessions \<Rightarrow> session_id set" where
  "key_sids key ss = {sid. \<exists>h. (sid, h) \<in> set ss \<and> ch_peer_key h = key}"

definition shut_out :: "bytes \<Rightarrow> PeerAuth \<Rightarrow> bool" where
  "shut_out key auth \<longleftrightarrow> is_revoked key auth \<and> \<not> is_open_mode auth"

text \<open>Events that neither lift the revocation nor open the server to everyone.\<close>

definition keeps_revoked :: "bytes \<Rightarrow> server_event \<Rightarrow> bool" where
  "keeps_revoked key x \<longleftrightarrow> x \<noteq> SvAuth (Unrevoke key) \<and> x \<noteq> SvAuth SetOpen"

lemma update_entries: "set (AList.update sid h ss) \<subseteq> insert (sid, h) (set ss)"
  by (induction ss) auto

lemma key_sids_update:
  "sid \<in> key_sids key ss \<or> ch_peer_key h \<noteq> key \<Longrightarrow> key_sids key (AList.update sid h ss) \<subseteq> key_sids key ss"
  using update_entries [of sid h ss] by (auto simp: key_sids_def)

lemma key_sids_map_of: "map_of ss sid = Some h \<Longrightarrow> ch_peer_key h = key \<Longrightarrow> sid \<in> key_sids key ss"
  by (auto simp: key_sids_def dest: map_of_SomeD)

lemma key_sids_same:
  "map_of ss sid = Some h \<Longrightarrow> ch_peer_key h' = ch_peer_key h \<Longrightarrow> key_sids key (AList.update sid h' ss) \<subseteq> key_sids key ss"
  using key_sids_update [of sid key ss h'] key_sids_map_of [of ss sid h key] by auto

lemma key_sids_find: "find P ss = Some (sid, h) \<Longrightarrow> ch_peer_key h = key \<Longrightarrow> sid \<in> key_sids key ss"
  by (auto simp: key_sids_def dest: find_mem)

lemma key_sids_filter: "key_sids key (filter P ss) \<subseteq> key_sids key ss" "key_sids key (AList.delete sid ss) \<subseteq> key_sids key ss"
  by (auto simp: key_sids_def delete_filter)

lemma handshake_shut_out:
  assumes "shut_out key (sv_auth s)"
  shows "key_sids key (sv_sessions (snd (handle_handshake ctx e now ok m src carrier s))) \<subseteq> key_sids key (sv_sessions s)"
proof -
  let ?r = "respond_message_1 (sx_crypto ctx) e now (sx_kp ctx) (sx_profile ctx) m src (authorizer_of (sv_auth s)) (sv_obf s)"
  obtain res obf where r: "?r = (res, obf)" by fastforce
  show ?thesis
  proof (cases res)
    case None
    then show ?thesis using r by (simp add: handle_handshake_def)
  next
    case (Some em)
    obtain est m2 where em: "em = (est, m2)" by fastforce
    have "authorized (se_peer_static est) (sv_auth s)"
      using respond_Some(1) [of _ _ _ _ _ _ _ _ _ est m2] r Some em assms authorized_check [of "sv_auth s" "se_peer_static est"]
      by (fastforce simp: authorizer_of_def shut_out_def split: if_splits)
    then have ne: "se_peer_static est \<noteq> key" using assms by (auto simp: shut_out_def authorized_def)
    define s1 where "s1 = evict_oldest_peer_session (se_peer_static est) (sx_max_sessions ctx) (s\<lparr>sv_obf := obf, sv_wire := sv_wire s @ [(m2, src)]\<rparr>)"
    have s1: "key_sids key (sv_sessions s1) \<subseteq> key_sids key (sv_sessions s)"
      using key_sids_filter(2) by (auto simp: s1_def evict_oldest_peer_session_def Let_def split: option.split)
    have "key_sids key (AList.update (se_session_id est) (new_handle ctx now carrier p st est ks cs) (sv_sessions s1))
        \<subseteq> key_sids key (sv_sessions s)" for p st ks cs
      using key_sids_update [of "se_session_id est" key "sv_sessions s1" "new_handle ctx now carrier p st est ks cs"] ne s1
      by (auto simp: new_handle_def)
    then show ?thesis using s1 r Some em
      by (simp add: handle_handshake_def accept_handshake_def s1_def [symmetric] Let_def spawn_client_sessions split: sum.split)
  qed
qed

lemma forward_key_sids: "key_sids key (sv_sessions (snd (forward now d src k s))) \<subseteq> key_sids key (sv_sessions s)"
proof (cases "map_of (sv_sessions s) k")
  case (Some h)
  have "k \<in> key_sids key (sv_sessions s) \<or> ch_peer_key h \<noteq> key" using key_sids_map_of [OF Some] by blast
  then show ?thesis
    using key_sids_update [of k key "sv_sessions s"] by (auto simp: forward_def Some udp_try_send_def)
qed (simp add: forward_def)

lemma probe_shut_out:
  assumes "shut_out key (sv_auth s)"
  shows "key_sids key (sv_sessions (probe_datagram ctx e now ok d src s)) \<subseteq> key_sids key (sv_sessions s)"
proof (cases "sx_sender ctx")
  case None
  then show ?thesis by (auto simp: probe_datagram_def split: prod.split bool.split)
next
  case (Some k)
  define s1 where "s1 = s\<lparr>sv_limiter := snd (limiter_allow now src (sv_limiter s))\<rparr>"
  have h: "key_sids key (sv_sessions (snd (handle_handshake ctx e now ok d src k s1))) \<subseteq> key_sids key (sv_sessions s)"
    using handshake_shut_out [of key s1] assms by (simp add: s1_def)
  have "probe_datagram ctx e now ok d src s \<in> {s1, snd (handle_handshake ctx e now ok d src k s1)} \<union>
    range (\<lambda>sid. snd (forward now d src sid (snd (handle_handshake ctx e now ok d src k s1))))"
    using Some by (simp add: probe_datagram_def s1_def split: prod.split bool.split option.split)
  then show ?thesis using h by (auto simp: s1_def dest!: subsetD [OF forward_key_sids])
qed

lemma event_shut_out:
  assumes "shut_out key (sv_auth s)"
  shows "key_sids key (sv_sessions (server_event_step ctx x s)) \<subseteq> key_sids key (sv_sessions s)"
proof (cases x)
  case (SvDatagram e now ok d src)
  then show ?thesis
    using dispatch_cases [of ctx e now ok d src s]
    by (auto dest: subsetD [OF probe_shut_out [OF assms]] subsetD [OF forward_key_sids])
next
  case (SvConnection e now ok m src)
  then show ?thesis using handshake_shut_out [OF assms] by (auto simp: dispatch_connection_def split: option.split)
next
  case (SvTunRead pkt waited)
  have u: "find P (sv_sessions s) = Some (sid, h) \<Longrightarrow> ch_peer_key h' = ch_peer_key h \<Longrightarrow>
    key_sids key (AList.update sid h' (sv_sessions s)) \<subseteq> key_sids key (sv_sessions s)" for P sid h h'
    using key_sids_update [of sid key "sv_sessions s" h'] key_sids_find [of P "sv_sessions s" sid h key] by auto
  show ?thesis
    unfolding SvTunRead
    by (simp add: on_tun_read_def Let_def u split: option.split prod.split)
next
  case SvSweep
  then show ?thesis using key_sids_filter(1) by (auto simp: on_sweep_def Let_def)
next
  case (SvControl now cmd)
  then show ?thesis
    by (auto simp: handle_control_command_def evict_sessions_for_key_def evict_sessions_def Let_def
        split: ControlCommand.split option.split)
qed (simp_all add: on_tun_write_def on_addr_change_def map_session_def Let_def learn_ip_def key_sids_same split: option.split)

lemma handshake_auth [simp]: "sv_auth (snd (handle_handshake ctx e now ok m src carrier s)) = sv_auth s"
  by (simp add: handle_handshake_def accept_handshake_def evict_oldest_peer_session_def send_evict_def spawn_client_def bump_errors_def
      Let_def split: prod.split option.split sum.split)

lemma probe_auth [simp]: "sv_auth (probe_datagram ctx e now ok d src s) = sv_auth s"
proof -
  have "sv_auth s2 = sv_auth s" if "handle_handshake ctx e now ok d src k (s\<lparr>sv_limiter := l\<rparr>) = (b, s2)" for k l b s2
    using handshake_auth [of ctx e now ok d src k "s\<lparr>sv_limiter := l\<rparr>"] that by simp
  then show ?thesis by (auto simp: probe_datagram_def split: prod.split bool.split option.split)
qed

lemma send_evict_auth [simp]: "sv_auth (fold send_evict sids s) = sv_auth s" "sv_auth (count_evicted n s) = sv_auth s"
  by (induction sids arbitrary: s) (simp_all add: send_evict_def count_evicted_def split: option.split)

lemma control_auth [simp]: "sv_auth (snd (handle_control_command ctx now cmd s)) = sv_auth s"
  by (simp add: handle_control_command_def evict_sessions_for_key_def evict_sessions_def Let_def
      split: ControlCommand.split option.split)

lemma event_auth: "sv_auth (server_event_step ctx x s) =
    (case x of SvAuth a \<Rightarrow> auth_step (sx_hex_decode ctx) (sv_auth s) a | _ \<Rightarrow> sv_auth s)"
proof (cases x)
  case (SvDatagram e now ok d src)
  then show ?thesis using dispatch_cases [of ctx e now ok d src s] by auto
qed (auto simp: on_tun_read_def on_tun_write_def on_addr_change_def on_sweep_def map_session_def dispatch_connection_def Let_def
    split: option.split)

lemma auth_step_shut_out:
  "shut_out key a \<Longrightarrow> x \<noteq> Unrevoke key \<Longrightarrow> x \<noteq> SetOpen \<Longrightarrow> shut_out key (auth_step hex a x)"
  by (cases x) (auto simp: shut_out_def is_revoked_def is_open_mode_def revoke_def unrevoke_def set_peers_def)

lemma shut_out_kept: "shut_out key (sv_auth s) \<Longrightarrow> keeps_revoked key x \<Longrightarrow> shut_out key (sv_auth (server_event_step ctx x s))"
  using auth_step_shut_out [of key "sv_auth s"] by (auto simp: event_auth keeps_revoked_def split: server_event.split)

lemma run_shut_out:
  assumes "shut_out key (sv_auth s)" "\<forall>x \<in> set xs. keeps_revoked key x"
  shows "shut_out key (sv_auth (run_events ctx xs s)) \<and> key_sids key (sv_sessions (run_events ctx xs s)) \<subseteq> key_sids key (sv_sessions s)"
  using assms
proof (induction xs arbitrary: s)
  case (Cons x xs)
  then show ?case using shut_out_kept [of key s x ctx] event_shut_out [of key s ctx x] Cons.IH [of "server_event_step ctx x s"]
    by (auto simp: run_events_def)
qed (simp add: run_events_def)

lemma fold_evict_signals:
  "set (sv_signals s) \<subseteq> set (sv_signals (fold send_evict sids s))"
  "sid \<in> set sids \<Longrightarrow> map_of (sv_sessions s) sid = Some h \<Longrightarrow> \<not> ch_closed h \<Longrightarrow> sid \<in> set (sv_signals (fold send_evict sids s))"
proof (induction sids arbitrary: s)
  case (Cons x sids)
  have mono: "set (sv_signals s) \<subseteq> set (sv_signals (send_evict x s))" for s by (auto simp: send_evict_def split: option.split)
  {
    case 1
    show ?case using order_trans [OF mono Cons.IH(1)] by simp
  next
    case 2
    show ?case
    proof (cases "x = sid")
      case True
      then have "sid \<in> set (sv_signals (send_evict x s))" using 2 by (simp add: send_evict_def)
      then show ?thesis using Cons.IH(1) [of "send_evict x s"] by auto
    qed (use 2 Cons.IH(2) [of "send_evict x s"] in simp)
  }
qed simp_all

lemma revoke_signals:
  assumes "map_of (sv_sessions s) sid = Some h" "ch_peer_key h = key" "\<not> ch_closed h"
  shows "sid \<in> set (sv_signals (snd (evict_sessions_for_key key s)))"
proof -
  have "sid \<in> set (map fst (keyed key (sv_sessions s)))"
    using map_of_SomeD [OF assms(1)] assms(2) by (force simp: keyed_def)
  from fold_evict_signals(2) [OF this assms(1,3)] show ?thesis
    by (cases "keyed key (sv_sessions s) = []") (simp_all add: evict_sessions_for_key_def Let_def count_evicted_def)
qed

subsection \<open>Properties\<close>

text \<open>C23. A revocation takes effect: when a server with a peer list acknowledges the revocation of a key over the control socket,
  whatever its dispatcher did in between, every live session of that key has been told to close if the key was not revoked
  already; for a key that was, the request changes nothing, its sessions included. In both cases no further session of that key
  appears, whatever happens later, as long as the revocation is not lifted and the server not opened to everyone.\<close>

theorem revocation_effective:
  assumes "handle_revoke hex True (dispatch_after ctx now before) text s = (RespAck resp, s1)" "decode_key hex text = Some key"
    "\<not> is_open_mode (sv_auth s)" "\<forall>x \<in> set (before @ later). keeps_revoked key x"
  shows "(if is_revoked key (sv_auth s) then s1 = s
      else \<forall>sid h. map_of (sv_sessions s1) sid = Some h \<and> ch_peer_key h = key \<and> \<not> ch_closed h \<longrightarrow> sid \<in> set (sv_signals s1)) \<and>
    key_sids key (sv_sessions (run_events ctx later s1)) \<subseteq> key_sids key (sv_sessions s)"
proof (cases "is_revoked key (sv_auth s)")
  case True
  then have "s1 = s" using assms(1,2) by (simp add: handle_revoke_def)
  moreover have "shut_out key (sv_auth s)" using True assms(3) by (simp add: shut_out_def)
  ultimately show ?thesis using True run_shut_out [of key s later ctx] assms(4) by auto
next
  case False
  define s0 where "s0 = s\<lparr>sv_auth := revoke key (sv_auth s)\<rparr>"
  define s2 where "s2 = run_events ctx before s0"
  have s0: "shut_out key (sv_auth s0)" using assms(3) by (simp add: s0_def shut_out_def is_revoked_def is_open_mode_def revoke_def)
  have run: "sv_running s2" "s1 = snd (evict_sessions_for_key key s2)"
    using assms(1,2) False by (auto simp: handle_revoke_def dispatch_after_def s0_def [symmetric] s2_def [symmetric] Let_def
        handle_control_command_def channel_error_def split: if_splits prod.splits)
  have s2: "shut_out key (sv_auth s2)" "key_sids key (sv_sessions s2) \<subseteq> key_sids key (sv_sessions s)"
    using run_shut_out [OF s0, of before ctx] assms(4) by (simp_all add: s2_def s0_def)
  have s1: "sv_sessions s1 = sv_sessions s2" "sv_auth s1 = sv_auth s2"
    using run(2) by (simp_all add: evict_sessions_for_key_def Let_def)
  have "key_sids key (sv_sessions (run_events ctx later s1)) \<subseteq> key_sids key (sv_sessions s)"
    using run_shut_out [of key s1 later ctx] s1 s2 assms(4) by auto
  then show ?thesis using False revoke_signals [of s2 _ _ key] s1(1) run(2) by auto
qed

theorem revocation_effective_witness:
  "\<exists>s s1 sid h. handle_revoke (\<lambda>_. Some (pad32 [1])) True (dispatch_after demo_ctx 9 []) ''k'' s =
      (RespAck ''revoked; 1 active session(s) evicted'' :: unit Response, s1) \<and>
    map_of (sv_sessions s1) sid = Some h \<and> ch_peer_key h = pad32 [1] \<and> sid \<in> set (sv_signals s1)"
proof -
  obtain h :: ClientHandle where h: "\<not> ch_closed h" by (rule demo_learned)
  let ?h = "h\<lparr>ch_peer_key := pad32 [1]\<rparr>"
  let ?s = "(demo_start \<lparr>pa_keys = Map.empty, pa_denylist = {}, pa_open = False\<rparr>)\<lparr>sv_sessions := [(7, ?h)]\<rparr>"
  obtain s1 where s1: "handle_revoke (\<lambda>_. Some (pad32 [1])) True (dispatch_after demo_ctx 9 []) ''k'' ?s =
      (RespAck ''revoked; 1 active session(s) evicted'' :: unit Response, s1)" "sv_sessions s1 = [(7, ?h)]"
    by (simp add: handle_revoke_def decode_key_def is_revoked_def dispatch_after_def run_events_def handle_control_command_def
        evict_sessions_for_key_def show_nat.simps char_of_def bit_Suc_0_iff)
  have "7 \<in> set (sv_signals s1)"
    using revocation_effective [OF s1(1), of "pad32 [1]" "[]"] h s1(2)
    by (simp add: decode_key_def is_revoked_def is_open_mode_def)
  then show ?thesis using s1 by (intro exI [of _ ?s] exI [of _ s1] exI [of _ "7 :: session_id"] exI [of _ ?h]) simp
qed

end
