(* ===== verification/Status_Report.thy ===== *)
theory Status_Report
  imports Net_Addr
begin

text \<open>
  The statistics a daemon publishes (\<open>src/src/stats.rs\<close>) and how the command \<open>status\<close> prints them
  (\<open>format_stats\<close> in \<open>src/src/ipc/mod.rs\<close>). \<open>SharedCounters\<close> is the whole record behind the lock, of which theories
  \<open>Tunnel_State\<close>, \<open>Server\<close> and \<open>Client_Daemon\<close> each have the part they change. A pacing rate of \<open>None\<close> is infinite.
\<close>

datatype DaemonMode = ModeUnknown | ModeClient | ModeServer

record SharedCounters =
  k_connected :: bool
  k_tx_packets :: nat
  k_rx_packets :: nat
  k_tx_bytes :: nat
  k_rx_bytes :: nat
  k_fec_recovered :: nat
  k_loss_rate :: f64
  k_rtt_ms :: f64
  k_fec_k :: u8
  k_fec_m :: u8
  k_congestion_window :: f64
  k_in_flight :: nat
  k_clients :: nat
  k_reconnecting :: bool
  k_reconnect_attempts :: u32
  k_last_error :: "string option"
  k_kill_switch :: bool
  k_dns_leak_protection :: bool
  k_handshakes_accepted :: nat
  k_handshakes_rejected :: nat
  k_handshake_errors :: nat
  k_sessions_timed_out :: nat
  k_sessions_peer_closed :: nat
  k_sessions_evicted :: nat
  k_sessions_roamed :: nat
  k_dispatch_backpressure :: nat
  k_tx_dropped_congestion :: nat
  k_tx_dropped_mtu :: nat
  k_tx_paced :: nat
  k_rtt_samples :: nat
  k_pacing_rate :: "f64 option"
  k_side :: DaemonMode

definition shared_counters_new :: SharedCounters where
  "shared_counters_new = \<lparr>k_connected = False, k_tx_packets = 0, k_rx_packets = 0, k_tx_bytes = 0, k_rx_bytes = 0,
     k_fec_recovered = 0, k_loss_rate = 0, k_rtt_ms = 0, k_fec_k = 0, k_fec_m = 0, k_congestion_window = 0,
     k_in_flight = 0, k_clients = 0, k_reconnecting = False, k_reconnect_attempts = 0, k_last_error = None,
     k_kill_switch = False, k_dns_leak_protection = False, k_handshakes_accepted = 0, k_handshakes_rejected = 0,
     k_handshake_errors = 0, k_sessions_timed_out = 0, k_sessions_peer_closed = 0, k_sessions_evicted = 0,
     k_sessions_roamed = 0, k_dispatch_backpressure = 0, k_tx_dropped_congestion = 0, k_tx_dropped_mtu = 0,
     k_tx_paced = 0, k_rtt_samples = 0, k_pacing_rate = Some 0, k_side = ModeUnknown\<rparr>"

record Stats =
  st_side :: DaemonMode
  st_connected :: bool
  st_uptime_secs :: f64
  st_loss_rate :: f64
  st_rtt_ms :: f64
  st_fec_k :: u8
  st_fec_m :: u8
  st_fec_overhead :: f64
  st_tx_packets :: nat
  st_rx_packets :: nat
  st_tx_bytes :: nat
  st_rx_bytes :: nat
  st_fec_recovered :: nat
  st_congestion_window :: f64
  st_in_flight :: nat
  st_clients :: nat
  st_reconnecting :: bool
  st_reconnect_attempts :: u32
  st_last_error :: "string option"
  st_kill_switch :: bool
  st_dns_leak_protection :: bool
  st_handshakes_accepted :: nat
  st_handshakes_rejected :: nat
  st_handshake_errors :: nat
  st_sessions_timed_out :: nat
  st_sessions_peer_closed :: nat
  st_sessions_evicted :: nat
  st_sessions_roamed :: nat
  st_dispatch_backpressure :: nat
  st_tx_dropped_congestion :: nat
  st_tx_dropped_mtu :: nat
  st_tx_paced :: nat
  st_rtt_samples :: nat
  st_pacing_rate :: "f64 option"

text \<open>\<open>elapsed\<close> is the time since the start in seconds.\<close>

definition stats_snapshot :: "f64 \<Rightarrow> SharedCounters \<Rightarrow> Stats" where
  "stats_snapshot elapsed c = \<lparr>st_side = k_side c, st_connected = k_connected c, st_uptime_secs = elapsed,
     st_loss_rate = k_loss_rate c, st_rtt_ms = k_rtt_ms c, st_fec_k = k_fec_k c, st_fec_m = k_fec_m c,
     st_fec_overhead = (if k_fec_k c = 0 then 0 else real (unat (k_fec_m c)) / real (unat (k_fec_k c))),
     st_tx_packets = k_tx_packets c, st_rx_packets = k_rx_packets c, st_tx_bytes = k_tx_bytes c, st_rx_bytes = k_rx_bytes c,
     st_fec_recovered = k_fec_recovered c, st_congestion_window = k_congestion_window c, st_in_flight = k_in_flight c,
     st_clients = k_clients c, st_reconnecting = k_reconnecting c, st_reconnect_attempts = k_reconnect_attempts c,
     st_last_error = k_last_error c, st_kill_switch = k_kill_switch c, st_dns_leak_protection = k_dns_leak_protection c,
     st_handshakes_accepted = k_handshakes_accepted c, st_handshakes_rejected = k_handshakes_rejected c,
     st_handshake_errors = k_handshake_errors c, st_sessions_timed_out = k_sessions_timed_out c,
     st_sessions_peer_closed = k_sessions_peer_closed c, st_sessions_evicted = k_sessions_evicted c,
     st_sessions_roamed = k_sessions_roamed c, st_dispatch_backpressure = k_dispatch_backpressure c,
     st_tx_dropped_congestion = k_tx_dropped_congestion c, st_tx_dropped_mtu = k_tx_dropped_mtu c,
     st_tx_paced = k_tx_paced c, st_rtt_samples = k_rtt_samples c, st_pacing_rate = k_pacing_rate c\<rparr>"

subsection \<open>Numbers with a fixed number of digits\<close>

text \<open>\<open>{:.d}\<close> of a floating-point number: the nearest decimal, ties to the even digit.\<close>

definition round_even :: "real \<Rightarrow> int" where
  "round_even x = (let f = \<lfloor>x\<rfloor>; d = x - of_int f in
     if d < 1 / 2 then f else if 1 / 2 < d then f + 1 else if even f then f else f + 1)"

definition pad_zeros :: "nat \<Rightarrow> string \<Rightarrow> string" where
  "pad_zeros d s = replicate (d - length s) CHR ''0'' @ s"

definition scaled :: "nat \<Rightarrow> real \<Rightarrow> nat" where
  "scaled d x = nat (round_even (\<bar>x\<bar> * 10 ^ d))"

definition fmt_fixed :: "nat \<Rightarrow> real \<Rightarrow> string" where
  "fmt_fixed d x = (if x < 0 then ''-'' else []) @ show_nat (scaled d x div 10 ^ d) @
     (if d = 0 then [] else ''.'' @ pad_zeros d (show_nat (scaled d x mod 10 ^ d)))"

definition fmt_rate :: "nat \<Rightarrow> real option \<Rightarrow> string" where
  "fmt_rate d x = (case x of Some v \<Rightarrow> fmt_fixed d v | None \<Rightarrow> ''inf'')"

subsection \<open>The report\<close>

definition connected_text :: "Stats \<Rightarrow> string" where
  "connected_text s =
     (if st_connected s then ''yes''
      else if st_side s = ModeClient \<and> st_reconnecting s
      then ''reconnecting (attempt '' @ show_nat (unat (st_reconnect_attempts s)) @ '', last error: '' @
        (case st_last_error s of Some e \<Rightarrow> e | None \<Rightarrow> ''unknown'') @ '')''
      else ''no'')"

definition report_lines :: "Stats \<Rightarrow> string list" where
  "report_lines s =
     [''connected: '' @ connected_text s] @
     (if st_side s = ModeServer then [''clients:   '' @ show_nat (st_clients s)] else []) @
     [''uptime:    '' @ fmt_fixed 1 (st_uptime_secs s) @ '' s'',
      ''loss rate: '' @ fmt_fixed 2 (st_loss_rate s * 100) @ ''%'',
      ''rtt:       '' @ fmt_fixed 1 (st_rtt_ms s) @ '' ms'',
      ''fec:       k='' @ show_nat (unat (st_fec_k s)) @ '' m='' @ show_nat (unat (st_fec_m s)) @ '' ('' @
        fmt_fixed 0 (st_fec_overhead s * 100) @ ''% overhead)'',
      ''tx:        '' @ show_nat (st_tx_packets s) @ '' pkts / '' @ show_nat (st_tx_bytes s) @ '' bytes'',
      ''rx:        '' @ show_nat (st_rx_packets s) @ '' pkts / '' @ show_nat (st_rx_bytes s) @ '' bytes'',
      ''fec recovered: '' @ show_nat (st_fec_recovered s),
      ''cwnd:      '' @ fmt_fixed 1 (st_congestion_window s / 1400) @ '' pkts (in-flight '' @
        fmt_fixed 1 (real (st_in_flight s) / 1400) @ '' pkts)'',
      ''pacing:    '' @ fmt_rate 0 (map_option (\<lambda>r. r * 8 / 1000) (st_pacing_rate s)) @ '' kbit/s ('' @
        show_nat (st_tx_paced s) @ '' paced, '' @ show_nat (st_tx_dropped_congestion s) @ '' dropped-congestion, '' @
        show_nat (st_tx_dropped_mtu s) @ '' dropped-mtu)'',
      ''rtt samples:  '' @ show_nat (st_rtt_samples s)] @
     (if st_side s = ModeServer
      then [''handshakes:  accepted='' @ show_nat (st_handshakes_accepted s) @ '' rejected='' @ show_nat (st_handshakes_rejected s)]
      else []) @
     [''sessions:    timed_out='' @ show_nat (st_sessions_timed_out s) @ '' peer_closed='' @ show_nat (st_sessions_peer_closed s) @
        '' evicted='' @ show_nat (st_sessions_evicted s)] @
     (if st_side s = ModeServer then [''dispatch:    backpressure='' @ show_nat (st_dispatch_backpressure s)] else []) @
     (if st_side s = ModeClient
      then [''kill switch:  '' @ (if st_kill_switch s then ''on (fail closed)'' else ''off''),
            ''dns leak:     '' @ (if st_dns_leak_protection s then ''on (via tunnel)'' else ''off'')]
      else [])"

definition format_stats :: "Stats \<Rightarrow> string" where
  "format_stats s = concat (map (\<lambda>l. l @ [CHR 0x0A]) (report_lines s))"

subsection \<open>What the report shows\<close>

text \<open>A printed number is within half a unit of its last digit, and a small one keeps its leading zeros.\<close>

lemma round_even_near: "\<bar>of_int (round_even x) - x\<bar> \<le> 1 / 2"
  using of_int_floor_le [of x] floor_correct [of x] by (auto simp: round_even_def Let_def)

lemma scaled_near: "\<bar>real (scaled d x) / 10 ^ d - \<bar>x\<bar>\<bar> \<le> 1 / (2 * 10 ^ d)"
proof -
  let ?y = "\<bar>x\<bar> * 10 ^ d"
  have "0 \<le> round_even ?y" by (auto simp: round_even_def Let_def intro!: add_nonneg_nonneg)
  then have "real (scaled d x) = of_int (round_even ?y)" by (simp add: scaled_def)
  then have "\<bar>real (scaled d x) - ?y\<bar> \<le> 1 / 2" using round_even_near [of ?y] by simp
  then have "\<bar>real (scaled d x) - ?y\<bar> / 10 ^ d \<le> 1 / 2 / 10 ^ d" by (rule divide_right_mono) simp
  moreover have "\<bar>real (scaled d x) - ?y\<bar> / 10 ^ d = \<bar>(real (scaled d x) - ?y) / 10 ^ d\<bar>" by (simp add: abs_divide)
  ultimately show ?thesis by (simp add: diff_divide_distrib)
qed

definition starts_with :: "string \<Rightarrow> string \<Rightarrow> bool" where
  "starts_with p s \<longleftrightarrow> take (length p) s = p"

text \<open>The side-specific lines: clients, handshakes and backpressure on the server only, kill switch and DNS guard on the
  client only. No line of one side can be read as one of the other.\<close>

lemma report_sides:
  "list_ex (starts_with ''clients:'') (report_lines s) \<longleftrightarrow> st_side s = ModeServer"
  "list_ex (starts_with ''handshakes:'') (report_lines s) \<longleftrightarrow> st_side s = ModeServer"
  "list_ex (starts_with ''dispatch:'') (report_lines s) \<longleftrightarrow> st_side s = ModeServer"
  "list_ex (starts_with ''kill switch:'') (report_lines s) \<longleftrightarrow> st_side s = ModeClient"
  "list_ex (starts_with ''dns leak:'') (report_lines s) \<longleftrightarrow> st_side s = ModeClient"
  by (cases "st_side s"; simp add: report_lines_def starts_with_def)+

text \<open>The kill switch line repeats the configured value: it says \<open>on\<close> also after the installation has failed.\<close>

lemma report_kill_switch:
  "k_side c = ModeClient \<Longrightarrow>
   (''kill switch:  on (fail closed)'' \<in> set (report_lines (stats_snapshot elapsed c))) = k_kill_switch c"
  by (simp add: report_lines_def stats_snapshot_def)

end
