(* ===== verification/Resolv_Conf.thy ===== *)
theory Resolv_Conf
  imports Rn_Prelude
begin

text \<open>
  The swap of \<open>resolv.conf\<close> (\<open>ResolvConfGuard\<close> in \<open>src/src/platform/linux.rs\<close>) over a file system that maps
  paths to contents. A write may fail before it opens the file or after some of the bytes; reads and
  the removal of a file may fail. Runs of the daemon are sequences of installations, removals and
  crashes, after which the next run starts with a new guard.
\<close>

type_synonym file_system = "string \<rightharpoonup> string"

datatype write_outcome = Written | NotOpened | Partial nat

fun fs_write :: "string \<Rightarrow> string \<Rightarrow> write_outcome \<Rightarrow> file_system \<Rightarrow> bool \<times> file_system" where
  "fs_write path content Written fs = (True, fs(path \<mapsto> content))"
| "fs_write path content NotOpened fs = (False, fs)"
| "fs_write path content (Partial n) fs = (False, fs(path \<mapsto> take n content))"

definition fs_read :: "string \<Rightarrow> bool \<Rightarrow> file_system \<Rightarrow> string option" where
  "fs_read path ok fs = (if ok then fs path else None)"

record ResolvConfGuard =
  rc_resolv_path :: string
  rc_backup_path :: string
  rc_installed :: bool

definition resolv_new :: "string \<Rightarrow> string \<Rightarrow> ResolvConfGuard" where
  "resolv_new resolv_path backup_path =
     \<lparr>rc_resolv_path = resolv_path, rc_backup_path = backup_path, rc_installed = False\<rparr>"

datatype resolv_error = NoServers | IoFailed

definition resolv_body :: "string list \<Rightarrow> string" where
  "resolv_body dns_servers =
     ''# Managed by rustnies VPN '' @ [CHR 0xE2, CHR 0x80, CHR 0x94] @ '' DNS routed through the tunnel.'' @ [CHR 0x0A] @
     ''# Original backed up at the .rustnies.bak sidecar; restored on shutdown.'' @ [CHR 0x0A] @
     concat (map (\<lambda>ns. ''nameserver '' @ ns @ [CHR 0x0A]) dns_servers)"

text \<open>The outcomes of the read of the current file, of the write of the backup and of the write of
  \<open>resolv.conf\<close> are arguments.\<close>

definition resolv_install ::
  "string list \<Rightarrow> bool \<Rightarrow> write_outcome \<Rightarrow> write_outcome \<Rightarrow> ResolvConfGuard \<Rightarrow> file_system
   \<Rightarrow> (resolv_error + unit) \<times> ResolvConfGuard \<times> file_system" where
  "resolv_install dns_servers read_ok backup_write resolv_write g fs =
     (if dns_servers = [] then (Inl NoServers, g, fs)
      else
        let (ok, fs) =
              (if fs (rc_backup_path g) = None
               then fs_write (rc_backup_path g) (case fs_read (rc_resolv_path g) read_ok fs of Some c \<Rightarrow> c | None \<Rightarrow> []) backup_write fs
               else (True, fs))
        in if \<not> ok then (Inl IoFailed, g, fs)
           else (case fs_write (rc_resolv_path g) (resolv_body dns_servers) resolv_write fs of
               (True, fs) \<Rightarrow> (Inr (), g\<lparr>rc_installed := True\<rparr>, fs)
             | (False, fs) \<Rightarrow> (Inl IoFailed, g, fs)))"

definition resolv_remove ::
  "bool \<Rightarrow> write_outcome \<Rightarrow> bool \<Rightarrow> ResolvConfGuard \<Rightarrow> file_system \<Rightarrow> (resolv_error + unit) \<times> ResolvConfGuard \<times> file_system" where
  "resolv_remove read_ok resolv_write unlink_ok g fs =
     (if \<not> rc_installed g then (Inr (), g, fs)
      else if fs (rc_backup_path g) = None then (Inr (), g\<lparr>rc_installed := False\<rparr>, fs)
      else (case fs_read (rc_backup_path g) read_ok fs of
          None \<Rightarrow> (Inl IoFailed, g, fs)
        | Some original \<Rightarrow> (case fs_write (rc_resolv_path g) original resolv_write fs of
            (False, fs) \<Rightarrow> (Inl IoFailed, g, fs)
          | (True, fs) \<Rightarrow>
              let fs = (if unlink_ok then fs(rc_backup_path g := None) else fs)
              in (Inr (), g\<lparr>rc_installed := False\<rparr>, fs))))"

text \<open>The life of the file over runs of the daemon; a crash loses the guard.\<close>

datatype resolv_event =
    RInstall "string list" bool write_outcome write_outcome
  | RRemove bool write_outcome bool
  | RCrash

fun resolv_step :: "resolv_event \<Rightarrow> ResolvConfGuard \<times> file_system \<Rightarrow> ResolvConfGuard \<times> file_system" where
  "resolv_step (RInstall servers read_ok w1 w2) (g, fs) = snd (resolv_install servers read_ok w1 w2 g fs)"
| "resolv_step (RRemove read_ok w unlink_ok) (g, fs) = snd (resolv_remove read_ok w unlink_ok g fs)"
| "resolv_step RCrash (g, fs) = (resolv_new (rc_resolv_path g) (rc_backup_path g), fs)"

text \<open>The original is read correctly, and the backup is written as a whole or not at all.\<close>

fun backup_safe :: "resolv_event \<Rightarrow> bool" where
  "backup_safe (RInstall servers read_ok w1 w2) = (read_ok \<and> (\<forall>n. w1 \<noteq> Partial n))"
| "backup_safe (RRemove read_ok w unlink_ok) = True"
| "backup_safe RCrash = True"

definition content_of :: "string \<Rightarrow> file_system \<Rightarrow> string" where
  "content_of path fs = (case fs path of Some c \<Rightarrow> c | None \<Rightarrow> [])"

text \<open>The original is in place or backed up, and backed up while the guard is active.\<close>

definition original_kept :: "string \<Rightarrow> string \<Rightarrow> string \<Rightarrow> ResolvConfGuard \<times> file_system \<Rightarrow> bool" where
  "original_kept r b original = (\<lambda>(g, fs). rc_resolv_path g = r \<and> rc_backup_path g = b \<and>
     (fs b = None \<and> content_of r fs = original \<and> \<not> rc_installed g \<or> fs b = Some original))"

lemma install_keeps:
  assumes "r \<noteq> b" "original_kept r b c (g, fs)" "\<forall>n. w1 \<noteq> Partial n"
  shows "original_kept r b c (snd (resolv_install servers True w1 w2 g fs))"
  using assms by (cases w1; cases w2) (auto simp: original_kept_def resolv_install_def fs_read_def content_of_def)

lemma remove_keeps:
  assumes "r \<noteq> b" "original_kept r b c (g, fs)"
  shows "original_kept r b c (snd (resolv_remove ok w unlink_ok g fs))"
  using assms by (cases w; cases unlink_ok) (auto simp: original_kept_def resolv_remove_def fs_read_def content_of_def Let_def)

lemma step_keeps:
  assumes "r \<noteq> b" "original_kept r b c st" "backup_safe x"
  shows "original_kept r b c (resolv_step x st)"
proof (cases st)
  case (Pair g fs)
  show ?thesis
  proof (cases x)
    case (RInstall servers ok w1 w2)
    then show ?thesis using assms Pair install_keeps [of r b c g fs w1 servers w2] by simp
  next
    case (RRemove ok w unlink_ok)
    then show ?thesis using assms Pair remove_keeps [of r b c g fs] by simp
  next
    case RCrash
    then show ?thesis using assms(2) Pair by (auto simp: original_kept_def resolv_new_def)
  qed
qed

lemma run_keeps:
  "r \<noteq> b \<Longrightarrow> \<forall>x \<in> set es. backup_safe x \<Longrightarrow> original_kept r b c st \<Longrightarrow> original_kept r b c (fold resolv_step es st)"
  by (induction es arbitrary: st) (auto simp: step_keeps)

subsection \<open>Properties\<close>

text \<open>C27. The original \<open>resolv.conf\<close> survives crashes: after any sequence of installations, failed or completed removals and crashes
  in which \<open>resolv.conf\<close> can be read when it is backed up and the backup is written as a whole or not at all, the original
  contents (an empty file if there was none) are in place with no backup, or in the backup; and a removal that succeeds while the
  guard is active puts exactly them in place, and leaves no backup if its deletion succeeds.\<close>

theorem resolv_restored:
  assumes "r \<noteq> b" "fs b = None" "\<forall>x \<in> set es. backup_safe x" "fold resolv_step es (resolv_new r b, fs) = (g, fs1)"
  shows "(fs1 b = None \<and> content_of r fs1 = content_of r fs \<or> fs1 b = Some (content_of r fs)) \<and>
    (\<forall>ok w unlink_ok g' fs2. rc_installed g \<and> resolv_remove ok w unlink_ok g fs1 = (Inr (), g', fs2) \<longrightarrow>
       fs2 r = Some (content_of r fs) \<and> (unlink_ok \<longrightarrow> fs2 b = None) \<and> \<not> rc_installed g')"
proof -
  have "original_kept r b (content_of r fs) (resolv_new r b, fs)"
    using assms(2) by (simp add: original_kept_def resolv_new_def)
  from run_keeps [OF assms(1,3) this] have k: "original_kept r b (content_of r fs) (g, fs1)" by (simp add: assms(4))
  moreover have "fs2 r = Some (content_of r fs) \<and> (unlink_ok \<longrightarrow> fs2 b = None) \<and> \<not> rc_installed g'"
    if "rc_installed g" "resolv_remove ok w unlink_ok g fs1 = (Inr (), g', fs2)" for ok w unlink_ok g' fs2
    using k assms(1) that
    by (cases w) (auto simp: original_kept_def resolv_remove_def fs_read_def Let_def split: if_splits)
  ultimately show ?thesis by (auto simp: original_kept_def)
qed

theorem resolv_restored_witness:
  "\<exists>g fs1 g' fs2. fold resolv_step [RInstall [''1.1.1.1''] True Written Written, RCrash, RInstall [''9.9.9.9''] True Written Written]
       (resolv_new ''r'' ''b'', [''r'' \<mapsto> ''orig'']) = (g, fs1) \<and>
     resolv_remove True Written True g fs1 = (Inr (), g', fs2) \<and> fs2 ''r'' = Some ''orig'' \<and> fs2 ''b'' = None"
proof -
  let ?es = "[RInstall [''1.1.1.1''] True Written Written, RCrash, RInstall [''9.9.9.9''] True Written Written]"
  let ?fs = "[''r'' \<mapsto> ''orig''] :: file_system"
  obtain g fs1 where f: "fold resolv_step ?es (resolv_new ''r'' ''b'', ?fs) = (g, fs1)" by fastforce
  then have i: "rc_installed g" "fs1 (rc_backup_path g) \<noteq> None"
    by (auto simp: resolv_install_def resolv_new_def fs_read_def)
  then obtain g' fs2 where m: "resolv_remove True Written True g fs1 = (Inr (), g', fs2)"
    by (auto simp: resolv_remove_def fs_read_def)
  from resolv_restored [OF _ _ _ f] i(1) m show ?thesis using f by (auto simp: content_of_def)
qed

text \<open>A backup that was cut short takes the place of the original: when the write of the backup fails
  after \<open>n\<close> bytes, the installation fails, but the next one takes the fragment for the backup of
  a crashed run, and the removal restores the fragment.\<close>

theorem partial_backup_replaces_original:
  assumes "r \<noteq> b" "fs b = None" "fs r = Some c" "servers \<noteq> []"
  shows "\<exists>g fs'. fold resolv_step [RInstall servers True (Partial n) w, RInstall servers True Written Written, RRemove True Written True]
    (resolv_new r b, fs) = (g, fs') \<and> fs' r = Some (take n c)"
  using assms by (auto simp: resolv_install_def resolv_remove_def resolv_new_def fs_read_def)

text \<open>An original that exists and cannot be read is backed up as an empty file, which the removal then puts in its place.\<close>

lemma unreadable_original_lost:
  assumes "r \<noteq> b" "fs b = None" "servers \<noteq> []"
  shows "\<exists>g fs'. fold resolv_step [RInstall servers False Written Written, RRemove True Written True] (resolv_new r b, fs) = (g, fs') \<and>
    fs' r = Some [] \<and> fs' b = None"
  using assms by (auto simp: resolv_install_def resolv_remove_def resolv_new_def fs_read_def)

end
