(* ===== verification/Key_Store.thy ===== *)
theory Key_Store
  imports Noise_Handshake Resolv_Conf
begin

text \<open>
  The static key pair on disk (\<open>src/src/crypto/keys.rs\<close>) and the commands \<open>keygen\<close> and \<open>pubkey\<close>
  (\<open>src/src/cli.rs\<close>). A file has contents and permission bits; which calls of the operating system succeed, and the bits
  a new file gets, are arguments. The random secret is an argument too.
\<close>

type_synonym key_fs = "string \<rightharpoonup> bytes \<times> nat"

record key_io =
  ki_mkdir :: bool
  ki_read :: bool
  ki_write :: write_outcome
  ki_chmod :: bool
  ki_new_mode :: nat

text \<open>The modes \<open>0o600\<close> and \<open>0o644\<close>.\<close>

definition OWNER_ONLY :: nat where "OWNER_ONLY = 6 * 8 ^ 2"
definition PUBLIC_READ :: nat where "PUBLIC_READ = 6 * 8 ^ 2 + 4 * 8 + 4"

datatype key_error = KeyIo | KeyLength | NoFileName | KeyNotFound

subsection \<open>Writing a file\<close>

text \<open>\<open>std::fs::write\<close>: an existing file keeps its permission bits.\<close>

definition write_bytes :: "key_io \<Rightarrow> string \<Rightarrow> bytes \<Rightarrow> key_fs \<Rightarrow> bool \<times> key_fs" where
  "write_bytes io path content fs =
     (let mode = (case fs path of Some (_, m) \<Rightarrow> m | None \<Rightarrow> ki_new_mode io) in
      case ki_write io of
        Written \<Rightarrow> (True, fs(path \<mapsto> (content, mode)))
      | NotOpened \<Rightarrow> (False, fs)
      | Partial n \<Rightarrow> (False, fs(path \<mapsto> (take n content, mode))))"

text \<open>\<open>set_permissions\<close> after a successful write.\<close>

definition chmod :: "key_io \<Rightarrow> string \<Rightarrow> nat \<Rightarrow> key_fs \<Rightarrow> bool \<times> key_fs" where
  "chmod io path mode fs =
     (if ki_chmod io then (True, fs(path := map_option (\<lambda>(b, _). (b, mode)) (fs path))) else (False, fs))"

definition write_with_mode :: "key_io \<Rightarrow> string \<Rightarrow> bytes \<Rightarrow> nat \<Rightarrow> key_fs \<Rightarrow> (key_error + unit) \<times> key_fs" where
  "write_with_mode io path content mode fs =
     (case write_bytes io path content fs of
        (False, fs) \<Rightarrow> (Inl KeyIo, fs)
      | (True, fs) \<Rightarrow> (case chmod io path mode fs of (ok, fs) \<Rightarrow> (if ok then Inr () else Inl KeyIo, fs)))"

subsection \<open>The key pair\<close>

text \<open>\<open>Path::parent\<close> is \<open>None\<close> for the empty path and the root only.\<close>

definition has_parent :: "string \<Rightarrow> bool" where
  "has_parent path \<longleftrightarrow> \<not> list_all (\<lambda>ch. ch = CHR ''/'') path"

definition load_or_create :: "noise_crypto \<Rightarrow> bytes \<Rightarrow> key_io \<Rightarrow> string \<Rightarrow> key_fs \<Rightarrow> (key_error + KeyPair) \<times> key_fs" where
  "load_or_create c random io path fs =
     (case fs path of
        Some (content, _) \<Rightarrow>
          (if \<not> ki_read io then Inl KeyIo
           else if length content \<noteq> 32 then Inl KeyLength
           else Inr (keypair_of c content), fs)
      | None \<Rightarrow>
          let kp = keypair_of c random
          in if has_parent path \<and> \<not> ki_mkdir io then (Inl KeyIo, fs)
             else (case write_with_mode io path (kp_secret kp) OWNER_ONLY fs of
                 (Inl e, fs) \<Rightarrow> (Inl e, fs)
               | (Inr _, fs) \<Rightarrow> (Inr kp, fs)))"

subsection \<open>The public key file\<close>

text \<open>The path read backwards, without trailing separators and trailing current-directory components.\<close>

fun norm_rev :: "string \<Rightarrow> string" where
  "norm_rev [] = []"
| "norm_rev (ch # s) =
     (if ch = CHR ''/'' then norm_rev s
      else case s of
          d # s' \<Rightarrow> if ch = CHR ''.'' \<and> d = CHR ''/'' then norm_rev s' else ch # s
        | [] \<Rightarrow> ch # s)"

definition file_name :: "string \<Rightarrow> string option" where
  "file_name path = (let n = rev (takeWhile (\<lambda>ch. ch \<noteq> CHR ''/'') (norm_rev (rev path)))
     in if n = [] \<or> n = ''.'' \<or> n = ''..'' then None else Some n)"

definition parent_dir :: "string \<Rightarrow> string" where
  "parent_dir path = (let rest = dropWhile (\<lambda>ch. ch \<noteq> CHR ''/'') (norm_rev (rev path))
     in if rest = [] then [] else if norm_rev rest = [] then ''/'' else rev (norm_rev rest))"

definition path_join :: "string \<Rightarrow> string \<Rightarrow> string" where
  "path_join dir name = (if dir = [] \<or> last dir = CHR ''/'' then dir @ name else dir @ ''/'' @ name)"

definition write_pubkey_file :: "key_io \<Rightarrow> string \<Rightarrow> string \<Rightarrow> key_fs \<Rightarrow> (key_error + unit) \<times> key_fs" where
  "write_pubkey_file io key pubkey_hex fs = (case file_name key of
       None \<Rightarrow> (Inl NoFileName, fs)
     | Some name \<Rightarrow> write_with_mode io (path_join (parent_dir key) (name @ ''.pub'')) (bytes_of_string pubkey_hex) PUBLIC_READ fs)"

text \<open>The commands print the public key in hexadecimal.\<close>

definition cmd_keygen ::
  "noise_crypto \<Rightarrow> (bytes \<Rightarrow> string) \<Rightarrow> bytes \<Rightarrow> key_io \<Rightarrow> key_io \<Rightarrow> string \<Rightarrow> key_fs \<Rightarrow> (key_error + string) \<times> key_fs" where
  "cmd_keygen c hex_encode random io io_pub key fs =
     (case load_or_create c random io key fs of
        (Inl e, fs) \<Rightarrow> (Inl e, fs)
      | (Inr kp, fs) \<Rightarrow>
          let pubkey_hex = hex_encode (kp_public kp)
          in (case write_pubkey_file io_pub key pubkey_hex fs of
              (Inl e, fs) \<Rightarrow> (Inl e, fs)
            | (Inr _, fs) \<Rightarrow> (Inr pubkey_hex, fs)))"

definition cmd_pubkey ::
  "noise_crypto \<Rightarrow> (bytes \<Rightarrow> string) \<Rightarrow> bytes \<Rightarrow> key_io \<Rightarrow> key_io \<Rightarrow> string \<Rightarrow> key_fs \<Rightarrow> (key_error + string) \<times> key_fs" where
  "cmd_pubkey c hex_encode random io io_pub key fs =
     (if fs key = None then (Inl KeyNotFound, fs) else cmd_keygen c hex_encode random io io_pub key fs)"

subsection \<open>The identity of a daemon\<close>

lemma write_with_mode_ok:
  "write_with_mode io path content mode fs = (Inr u, fs') \<Longrightarrow> fs' = fs(path \<mapsto> (content, mode))"
  by (auto simp: write_with_mode_def write_bytes_def chmod_def Let_def split: write_outcome.splits option.splits if_splits)

lemma write_with_mode_other: "p \<noteq> path \<Longrightarrow> snd (write_with_mode io path content mode fs) p = fs p"
  by (auto simp: write_with_mode_def write_bytes_def chmod_def Let_def split: write_outcome.splits option.splits if_splits)

text \<open>A key that is there is never replaced, and a new one is only reported once it is stored for its owner alone.\<close>

lemma load_or_create_ok:
  assumes "load_or_create c random io path fs = (Inr kp, fs')" "length random = 32"
  shows "\<exists>mode. fs' path = Some (kp_secret kp, mode) \<and> length (kp_secret kp) = 32 \<and> kp = keypair_of c (kp_secret kp) \<and>
    (if fs path = None then mode = OWNER_ONLY \<and> kp_secret kp = random else fs' = fs)"
  using assms
  by (auto simp: load_or_create_def keypair_of_def Let_def split: option.splits if_splits sum.splits prod.splits
      dest!: write_with_mode_ok)

lemma load_or_create_keeps: "fs path = Some f \<Longrightarrow> snd (load_or_create c random io path fs) = fs"
  by (cases f) (simp add: load_or_create_def)

text \<open>The identity is stable: once a key pair has been returned, every later start that can read the file returns the
  same one, whatever was drawn at random.\<close>

lemma identity_stable:
  assumes "load_or_create c random io path fs = (Inr kp, fs')" "length random = 32" "ki_read io'"
  shows "load_or_create c random' io' path fs' = (Inr kp, fs')"
proof -
  from load_or_create_ok [OF assms(1,2)] obtain mode where
    "fs' path = Some (kp_secret kp, mode)" "length (kp_secret kp) = 32" "kp = keypair_of c (kp_secret kp)" by blast
  then show ?thesis using assms(3) by (simp add: load_or_create_def)
qed

text \<open>Writing the public key leaves the secret alone, so \<open>pubkey\<close> prints what \<open>keygen\<close> printed.\<close>

lemma norm_rev_plain: "ch \<noteq> CHR ''/'' \<Longrightarrow> ch \<noteq> CHR ''.'' \<Longrightarrow> norm_rev (ch # s) = ch # s"
  by (cases s) auto

lemma file_name_no_slash: "file_name key = Some name \<Longrightarrow> CHR ''/'' \<notin> set name"
  by (auto simp: file_name_def Let_def split: if_splits dest: set_takeWhileD)

lemma file_name_pub:
  assumes "CHR ''/'' \<notin> set name"
  shows "file_name (path_join dir (name @ ''.pub'')) = Some (name @ ''.pub'')"
proof -
  obtain pre where pre: "path_join dir (name @ ''.pub'') = pre @ name @ ''.pub''" "pre = [] \<or> last pre = CHR ''/''"
  proof (cases "dir = [] \<or> last dir = CHR ''/''")
    case True
    then show ?thesis using that [of dir] by (auto simp: path_join_def)
  next
    case False
    then show ?thesis using that [of "dir @ ''/''"] by (simp add: path_join_def)
  qed
  have "takeWhile (\<lambda>ch. ch \<noteq> CHR ''/'') (rev name @ rev pre) = rev name"
  proof (cases pre rule: rev_cases)
    case Nil
    then show ?thesis using assms by (auto simp: takeWhile_eq_all_conv)
  next
    case (snoc ys y)
    then show ?thesis using assms pre(2) by (subst takeWhile_append2) auto
  qed
  then show ?thesis unfolding pre(1) by (simp add: file_name_def norm_rev_plain Let_def)
qed

lemma pub_path_differs: "file_name key = Some name \<Longrightarrow> path_join (parent_dir key) (name @ ''.pub'') \<noteq> key"
  using file_name_pub [OF file_name_no_slash, of key name "parent_dir key"] by auto

lemma write_pubkey_keeps_key: "snd (write_pubkey_file io key hex fs) key = fs key"
  by (auto simp: write_pubkey_file_def split: option.splits intro!: write_with_mode_other dest: pub_path_differs)

lemma keygen_pubkey:
  assumes "cmd_keygen c hex_encode random io io_pub key fs = (Inr printed, fs')" "length random = 32" "ki_read io'"
    "cmd_pubkey c hex_encode random' io' io_pub' key fs' = (Inr printed', fs'')"
  shows "printed' = printed"
proof -
  obtain kp fs1 u where k: "load_or_create c random io key fs = (Inr kp, fs1)" "printed = hex_encode (kp_public kp)"
      "write_pubkey_file io_pub key printed fs1 = (Inr u, fs')"
    using assms(1) by (auto simp: cmd_keygen_def Let_def split: sum.splits prod.splits)
  have "fs' key = fs1 key" using write_pubkey_keeps_key [of io_pub key printed fs1] k(3) by simp
  then have "fst (load_or_create c random' io' key fs') = Inr kp"
    using load_or_create_ok [OF k(1) assms(2)] assms(3) by (auto simp: load_or_create_def)
  then show ?thesis using assms(4) k(2)
    by (auto simp: cmd_pubkey_def cmd_keygen_def Let_def split: if_splits sum.splits prod.splits)
qed

text \<open>The file is created with the default permission bits and restricted afterwards. If that call fails, the start fails, but
  the secret stays where everyone may be able to read it, and the next start takes it without a look at its bits.\<close>

lemma key_left_readable:
  assumes "fs path = None" "ki_mkdir io" "ki_write io = Written" "\<not> ki_chmod io" "length random = 32" "ki_read io'"
  shows "load_or_create c random io path fs = (Inl KeyIo, fs(path \<mapsto> (random, ki_new_mode io))) \<and>
    load_or_create c random' io' path (fs(path \<mapsto> (random, ki_new_mode io))) =
      (Inr (keypair_of c random), fs(path \<mapsto> (random, ki_new_mode io)))"
  using assms by (simp add: load_or_create_def write_with_mode_def write_bytes_def chmod_def keypair_of_def)

text \<open>A write cut short leaves a file that every later start refuses.\<close>

lemma torn_key_refused:
  assumes "fs path = None" "ki_mkdir io" "ki_write io = Partial n" "n < 32" "length random = 32" "ki_read io'"
  shows "\<exists>fs'. load_or_create c random io path fs = (Inl KeyIo, fs') \<and> load_or_create c random' io' path fs' = (Inl KeyLength, fs')"
  using assms by (simp add: load_or_create_def write_with_mode_def write_bytes_def keypair_of_def)

end
