(* ===== verification/Route_Setup.thy ===== *)
theory Route_Setup
  imports Net_Addr
begin

text \<open>
  Routing set-up of the Linux platform layer (\<open>src/src/platform/linux.rs\<close>): route-all with its local
  exceptions and the bypass table, the NAT rules and the route file. Processes are run through an
  argument: \<open>os_run\<close> runs a command and says whether it succeeded, \<open>os_output\<close> is the standard output
  of a query by \<open>ip\<close>, or \<open>None\<close> if it fails. The crate \<open>ipnet\<close> is the argument \<open>ipnet_lib\<close>. The theorems run
  the code on \<open>logged\<close>, which records every command with its outcome and lets the outcome depend on the
  whole history.
\<close>

subsection \<open>Text as the standard library splits it\<close>

fun split_whitespace :: "string \<Rightarrow> string list" where
  "split_whitespace [] = []"
| "split_whitespace (c # s) =
     (if is_whitespace c then split_whitespace s
      else (case s of
          [] \<Rightarrow> [[c]]
        | d # _ \<Rightarrow> if is_whitespace d then [c] # split_whitespace s
            else (case split_whitespace s of [] \<Rightarrow> [[c]] | w # ws \<Rightarrow> (c # w) # ws)))"

definition strip_cr :: "string \<Rightarrow> string" where
  "strip_cr l = (if l \<noteq> [] \<and> last l = CHR 0x0D then butlast l else l)"

text \<open>The text up to each line feed, with a carriage return before it dropped; a last line without
  line feed counts if it is not empty.\<close>

fun split_lines :: "string \<Rightarrow> string \<Rightarrow> string list" where
  "split_lines acc [] = (if acc = [] then [] else [rev acc])"
| "split_lines acc (c # s) = (if c = CHR 0x0A then strip_cr (rev acc) # split_lines [] s else split_lines (c # acc) s)"

definition lines :: "string \<Rightarrow> string list" where "lines = split_lines []"

text \<open>The pieces between the separators; there is always a first one.\<close>

definition split_first :: "char \<Rightarrow> string \<Rightarrow> string" where "split_first sep s = takeWhile (\<lambda>c. c \<noteq> sep) s"

text \<open>\<open>from_str_radix\<close> of an unsigned type with the given bound: an optional plus sign, then only digits.\<close>

definition from_str_radix :: "nat \<Rightarrow> nat \<Rightarrow> string \<Rightarrow> nat option" where
  "from_str_radix radix bound s =
     (let t = (if length s > 1 \<and> hd s = CHR ''+'' then tl s else s)
      in if t = [] \<or> \<not> list_all (\<lambda>c. to_digit radix c \<noteq> None) t then None
         else let v = foldl (\<lambda>v c. v * radix + the (to_digit radix c)) 0 t in if v < bound then Some v else None)"

subsection \<open>Processes and networks\<close>

type_synonym 's runner = "string \<Rightarrow> string list \<Rightarrow> 's \<Rightarrow> (string + unit) \<times> 's"

record 's os_calls =
  os_run :: "'s runner"
  os_output :: "string list \<Rightarrow> 's \<Rightarrow> string option"

definition quiet :: "'s os_calls \<Rightarrow> string list list \<Rightarrow> 's \<Rightarrow> 's" where
  "quiet os cmds s = fold (\<lambda>argv s. snd (os_run os ''ip'' argv s)) cmds s"

record ipnet_lib =
  in_parse :: "string \<Rightarrow> (IpAddr \<times> nat) option"
  in_trunc :: "IpAddr \<times> nat \<Rightarrow> IpAddr \<times> nat"
  in_show :: "IpAddr \<times> nat \<Rightarrow> string"

subsection \<open>Queries\<close>

definition word_after :: "string \<Rightarrow> string list \<Rightarrow> string option" where
  "word_after k ws = (case dropWhile (\<lambda>w. w \<noteq> k) ws of _ # x # _ \<Rightarrow> Some x | _ \<Rightarrow> None)"

definition parse_default_route_iface :: "string \<Rightarrow> string + string" where
  "parse_default_route_iface s = ok_or (word_after ''dev'' (split_whitespace s)) ''no default route dev''"

definition parse_default_gateway :: "string \<Rightarrow> string + string" where
  "parse_default_gateway s = ok_or (word_after ''via'' (split_whitespace s)) ''no default gateway''"

definition indexed_word_after :: "string \<Rightarrow> string list \<Rightarrow> string option" where
  "indexed_word_after k ws =
     find_map (\<lambda>i. if ws ! i = k \<and> i + 1 < length ws then Some (ws ! (i + 1)) else None) [0..<length ws]"

definition parse_default_gateway_v6 :: "string \<Rightarrow> string + string" where
  "parse_default_gateway_v6 s =
     (case indexed_word_after ''via'' (split_whitespace s) of
        Some gw \<Rightarrow> Inr gw
      | None \<Rightarrow> (case indexed_word_after ''src'' (split_whitespace s) of
          Some addr \<Rightarrow> Inr addr
        | None \<Rightarrow> Inl ''no IPv6 default gateway in route output''))"

definition default_route_iface :: "'s os_calls \<Rightarrow> 's \<Rightarrow> string + string" where
  "default_route_iface os s = try_bind (ok_or (os_output os [''-o'', ''-4'', ''route'', ''show'', ''default''] s)
     ''ip route show default failed'') parse_default_route_iface"

definition default_gateway :: "'s os_calls \<Rightarrow> 's \<Rightarrow> string + string" where
  "default_gateway os s = try_bind (ok_or (os_output os [''-o'', ''-4'', ''route'', ''show'', ''default''] s)
     ''ip route show default failed'') parse_default_gateway"

definition default_gateway_v6 :: "'s os_calls \<Rightarrow> 's \<Rightarrow> string + string" where
  "default_gateway_v6 os s =
     (case os_output os [''-o'', ''-6'', ''route'', ''show'', ''default''] s of
        None \<Rightarrow> Inl ''no IPv6 default route found''
      | Some out \<Rightarrow> if out = [] then Inl ''no IPv6 default route found'' else parse_default_gateway_v6 out)"

definition default_route_iface_v6 :: "'s os_calls \<Rightarrow> 's \<Rightarrow> string + string" where
  "default_route_iface_v6 os s = try_bind (ok_or (os_output os [''-o'', ''-6'', ''route'', ''show'', ''default''] s)
     ''ip -6 route show default failed'') parse_default_route_iface"

text \<open>The words that follow a given word in a line.\<close>

definition words_after :: "string \<Rightarrow> string list \<Rightarrow> string list" where
  "words_after k ws = map (\<lambda>i. ws ! (i + 1)) (filter (\<lambda>i. ws ! i = k \<and> i + 1 < length ws) [0..<length ws])"

definition push_new :: "'a \<Rightarrow> 'a list \<Rightarrow> 'a list" where
  "push_new x xs = (if x \<in> set xs then xs else xs @ [x])"

definition link_local_text :: "string \<Rightarrow> bool" where
  "link_local_text addr =
     (case from_str_radix 16 65536 (split_first CHR '':'' addr) of
        None \<Rightarrow> False
      | Some h \<Rightarrow> (word_of_nat h :: u16) AND 0xffc0 = 0xfe80)"

definition parse_local_addrs :: "bool \<Rightarrow> string \<Rightarrow> string list" where
  "parse_local_addrs ip6 output =
     fold (\<lambda>line addrs. fold (\<lambda>cidr addrs.
         let addr = split_first CHR ''/'' cidr
         in if ip6 \<and> (link_local_text addr \<or> addr = ''::1'') then addrs
            else if addr \<noteq> [] then push_new addr addrs else addrs)
       (words_after (if ip6 then ''inet6'' else ''inet'') (split_whitespace line)) addrs) (lines output) []"

fun is_unicast_link_local :: "IpAddr \<Rightarrow> bool" where
  "is_unicast_link_local (V6 segs) = (segs ! 0 AND 0xffc0 = 0xfe80)"
| "is_unicast_link_local (V4 a b c d) = False"

definition parse_local_cidrs_v6 :: "ipnet_lib \<Rightarrow> string \<Rightarrow> string list" where
  "parse_local_cidrs_v6 lib output =
     fold (\<lambda>line cidrs. fold (\<lambda>cidr cidrs.
         case in_parse lib cidr of
           Some (V6 segs, len) \<Rightarrow>
             if is_unicast_link_local (V6 segs) \<or> len = 128 then cidrs
             else push_new (in_show lib (in_trunc lib (V6 segs, len))) cidrs
         | _ \<Rightarrow> cidrs)
       (words_after ''inet6'' (split_whitespace line)) cidrs) (lines output) []"

definition parse_local_cidrs :: "ipnet_lib \<Rightarrow> string \<Rightarrow> string list" where
  "parse_local_cidrs lib output =
     fold (\<lambda>line cidrs. fold (\<lambda>cidr cidrs.
         case in_parse lib cidr of
           None \<Rightarrow> cidrs
         | Some (ip, len) \<Rightarrow>
             if len = (if is_v4 ip then 32 else 128) then cidrs
             else push_new (in_show lib (in_trunc lib (ip, len))) cidrs)
       (words_after ''inet'' (split_whitespace line)) cidrs) (lines output) []"

definition addr_show :: "'s os_calls \<Rightarrow> string \<Rightarrow> string \<Rightarrow> 's \<Rightarrow> string option" where
  "addr_show os fam iface s = os_output os [''-o'', fam, ''addr'', ''show'', ''dev'', iface] s"

definition local_cidrs_for :: "'s os_calls \<Rightarrow> ipnet_lib \<Rightarrow> string \<Rightarrow> 's \<Rightarrow> string list" where
  "local_cidrs_for os lib iface s = (case addr_show os ''-4'' iface s of None \<Rightarrow> [] | Some out \<Rightarrow> parse_local_cidrs lib out)"

definition local_addrs_for :: "'s os_calls \<Rightarrow> string \<Rightarrow> 's \<Rightarrow> string list" where
  "local_addrs_for os iface s = (case addr_show os ''-4'' iface s of None \<Rightarrow> [] | Some out \<Rightarrow> parse_local_addrs False out)"

definition local_addrs_for_v6 :: "'s os_calls \<Rightarrow> string \<Rightarrow> 's \<Rightarrow> string list" where
  "local_addrs_for_v6 os iface s = (case addr_show os ''-6'' iface s of None \<Rightarrow> [] | Some out \<Rightarrow> parse_local_addrs True out)"

definition local_cidrs_for_v6 :: "'s os_calls \<Rightarrow> ipnet_lib \<Rightarrow> string \<Rightarrow> 's \<Rightarrow> string list" where
  "local_cidrs_for_v6 os lib iface s = (case addr_show os ''-6'' iface s of None \<Rightarrow> [] | Some out \<Rightarrow> parse_local_cidrs_v6 lib out)"

subsection \<open>Route-all\<close>

record RouteGuard =
  rg_server_ip :: string
  rg_orig_gw :: string
  rg_tun_name :: string
  rg_lan_routes :: "(string \<times> string) list"
  rg_server_ip6 :: string
  rg_orig_gw6 :: string
  rg_orig_iface :: string
  rg_bypass_cidrs :: "string list"
  rg_bypass_addrs :: "string list"
  rg_orig_iface6 :: string
  rg_bypass_cidrs6 :: "string list"
  rg_bypass_addrs6 :: "string list"

definition route_all_plan :: "string \<Rightarrow> string \<Rightarrow> string list \<Rightarrow> string \<Rightarrow> string list list" where
  "route_all_plan server_ip orig_gw lan_cidrs tun_name =
     [[''route'', ''add'', server_ip, ''via'', orig_gw]] @
     map (\<lambda>cidr. [''route'', ''add'', cidr, ''via'', orig_gw]) lan_cidrs @
     [[''route'', ''add'', ''default'', ''dev'', tun_name, ''metric'', ''1'']]"

definition BYPASS_TABLE :: string where "BYPASS_TABLE = ''100''"
definition BYPASS_RULE_PRIO :: string where "BYPASS_RULE_PRIO = ''20000''"

definition bypass_plan :: "string \<Rightarrow> string \<Rightarrow> string list \<Rightarrow> string list \<Rightarrow> bool \<Rightarrow> string list list" where
  "bypass_plan orig_gw orig_iface lan_cidrs local_addrs ip6 =
     (let pre = (if ip6 then [''-6''] else [])
      in map (\<lambda>cidr. pre @ [''route'', ''add'', cidr, ''dev'', orig_iface, ''table'', BYPASS_TABLE]) lan_cidrs @
         [pre @ [''route'', ''add'', ''default'', ''via'', orig_gw, ''dev'', orig_iface, ''table'', BYPASS_TABLE]] @
         map (\<lambda>addr. pre @ [''rule'', ''add'', ''from'', addr, ''table'', BYPASS_TABLE, ''priority'', BYPASS_RULE_PRIO])
           local_addrs)"

definition bypass_removals :: "string \<Rightarrow> string list \<Rightarrow> string list \<Rightarrow> bool \<Rightarrow> string list list" where
  "bypass_removals iface cidrs addrs ip6 =
     (if iface = [] then []
      else let pre = (if ip6 then [''-6''] else [])
        in map (\<lambda>addr. pre @ [''rule'', ''del'', ''from'', addr, ''table'', BYPASS_TABLE, ''priority'', BYPASS_RULE_PRIO]) addrs @
           map (\<lambda>cidr. pre @ [''route'', ''del'', cidr, ''dev'', iface, ''table'', BYPASS_TABLE]) cidrs @
           [pre @ [''route'', ''del'', ''default'', ''table'', BYPASS_TABLE]])"

definition remove_bypass :: "'s os_calls \<Rightarrow> RouteGuard \<Rightarrow> bool \<Rightarrow> 's \<Rightarrow> 's" where
  "remove_bypass os g ip6 s =
     quiet os (if ip6 then bypass_removals (rg_orig_iface6 g) (rg_bypass_cidrs6 g) (rg_bypass_addrs6 g) True
       else bypass_removals (rg_orig_iface g) (rg_bypass_cidrs g) (rg_bypass_addrs g) False) s"

text \<open>\<open>drop\<close> of the guard.\<close>

definition route_guard_drop :: "'s os_calls \<Rightarrow> RouteGuard \<Rightarrow> 's \<Rightarrow> 's" where
  "route_guard_drop os g s =
     (let s = remove_bypass os g False s; s = remove_bypass os g True s;
          s = quiet os [[''route'', ''del'', ''default'', ''dev'', rg_tun_name g]] s;
          s = (if rg_server_ip6 g \<noteq> [] then quiet os [[''-6'', ''route'', ''del'', ''default'', ''dev'', rg_tun_name g]] s else s);
          s = quiet os (map (\<lambda>(cidr, gw). [''route'', ''del'', cidr, ''via'', gw]) (rg_lan_routes g)) s;
          s = (if rg_server_ip g \<noteq> [] then quiet os [[''route'', ''del'', rg_server_ip g, ''via'', rg_orig_gw g]] s else s)
      in if rg_server_ip6 g \<noteq> [] then quiet os [[''-6'', ''route'', ''del'', rg_server_ip6 g, ''via'', rg_orig_gw6 g]] s else s)"

definition op_index :: "string list \<Rightarrow> nat" where
  "op_index step = (if step \<noteq> [] \<and> hd step = ''-6'' then 2 else 1)"

text \<open>What an installed step adds to the recorded networks and addresses.\<close>

definition note_bypass :: "string list \<Rightarrow> string list \<times> string list \<Rightarrow> string list \<times> string list" where
  "note_bypass step acc =
     (let i = op_index step; kind = (if i + 1 < length step then step ! (i + 1) else [])
      in if kind = ''rule'' then
           (case word_after ''from'' step of Some addr \<Rightarrow> (fst acc, snd acc @ [addr]) | None \<Rightarrow> acc)
         else if kind = ''route'' \<and> i + 2 < length step \<and> step ! (i + 2) \<noteq> ''default''
         then (fst acc @ [step ! (i + 2)], snd acc) else acc)"

fun install_bypass_plan ::
  "'s os_calls \<Rightarrow> string list list \<Rightarrow> string list \<times> string list \<Rightarrow> 's \<Rightarrow> (string list \<times> string list) \<times> 's" where
  "install_bypass_plan os [] acc s = (acc, s)"
| "install_bypass_plan os (step # plan) acc s =
     (let s = snd (os_run os ''ip'' (step[op_index step := ''del'']) s)
      in case os_run os ''ip'' step s of
          (Inr _, s) \<Rightarrow> install_bypass_plan os plan (note_bypass step acc) s
        | (Inl _, s) \<Rightarrow> install_bypass_plan os plan acc s)"

definition is_lan_exception :: "string \<Rightarrow> string list \<Rightarrow> bool" where
  "is_lan_exception server_ip step \<longleftrightarrow>
     length step \<ge> 4 \<and> step ! 0 = ''route'' \<and> step ! 2 \<noteq> ''default'' \<and> step ! 2 \<noteq> server_ip"

text \<open>The loop over the plan: the local exceptions installed, or the error of a required step, after
  the steps done so far have been taken back in reverse order.\<close>

fun install_main ::
  "'s os_calls \<Rightarrow> string \<Rightarrow> string \<Rightarrow> string list list \<Rightarrow> (string \<times> string) list \<Rightarrow> string list list \<Rightarrow> 's
   \<Rightarrow> (string + (string \<times> string) list) \<times> 's" where
  "install_main os server_ip orig_gw [] lan_routes added s = (Inr lan_routes, s)"
| "install_main os server_ip orig_gw (step # plan) lan_routes added s =
     (case os_run os ''ip'' step s of
        (Inr _, s) \<Rightarrow> install_main os server_ip orig_gw plan
          (if is_lan_exception server_ip step then lan_routes @ [(step ! 2, orig_gw)] else lan_routes) (added @ [step]) s
      | (Inl e, s) \<Rightarrow>
          if is_lan_exception server_ip step then install_main os server_ip orig_gw plan lan_routes added s
          else (Inl e, quiet os (map (\<lambda>argv. argv[1 := ''del'']) (rev added)) s))"

record V6RouteAll =
  v6_server_ip6 :: string
  v6_orig_gw6 :: string
  v6_orig_iface6 :: string
  v6_bypass_cidrs6 :: "string list"
  v6_bypass_addrs6 :: "string list"

definition v6_route_default :: V6RouteAll where
  "v6_route_default = \<lparr>v6_server_ip6 = [], v6_orig_gw6 = [], v6_orig_iface6 = [], v6_bypass_cidrs6 = [], v6_bypass_addrs6 = []\<rparr>"

definition install_route_all_v6 ::
  "'s os_calls \<Rightarrow> ipnet_lib \<Rightarrow> SocketAddr \<Rightarrow> string \<Rightarrow> 's \<Rightarrow> V6RouteAll option \<times> 's" where
  "install_route_all_v6 os lib server tun_name s =
     (if is_v4 (sock_ip server) then (None, s)
      else let server_ip6 = show_ip (sock_ip server)
        in case (default_gateway_v6 os s, default_route_iface_v6 os s) of
            (Inr gw6, Inr iface6) \<Rightarrow>
              (case os_run os ''ip'' [''-6'', ''route'', ''add'', server_ip6, ''via'', gw6] s of
                 (Inl _, s) \<Rightarrow> (None, s)
               | (Inr _, s) \<Rightarrow>
                   (case os_run os ''ip'' [''-6'', ''route'', ''add'', ''default'', ''dev'', tun_name, ''metric'', ''1''] s of
                      (Inl _, s) \<Rightarrow> (None, quiet os [[''-6'', ''route'', ''del'', server_ip6, ''via'', gw6]] s)
                    | (Inr _, s) \<Rightarrow>
                        let plan = bypass_plan gw6 iface6 (local_cidrs_for_v6 os lib iface6 s) (local_addrs_for_v6 os iface6 s) True;
                            ((cidrs, addrs), s) = install_bypass_plan os plan ([], []) s
                        in (Some \<lparr>v6_server_ip6 = server_ip6, v6_orig_gw6 = gw6, v6_orig_iface6 = iface6,
                              v6_bypass_cidrs6 = cidrs, v6_bypass_addrs6 = addrs\<rparr>, s)))
          | _ \<Rightarrow> (None, s))"

definition install_route_all ::
  "'s os_calls \<Rightarrow> ipnet_lib \<Rightarrow> SocketAddr \<Rightarrow> string \<Rightarrow> 's \<Rightarrow> (string + RouteGuard) \<times> 's" where
  "install_route_all os lib server tun_name s =
     (let server_ip = show_ip (sock_ip server)
      in case (default_gateway os s, default_route_iface os s) of
          (Inl e, _) \<Rightarrow> (Inl e, s)
        | (Inr _, Inl e) \<Rightarrow> (Inl e, s)
        | (Inr orig_gw, Inr orig_iface) \<Rightarrow>
            let lan_cidrs = local_cidrs_for os lib orig_iface s; local_addrs = local_addrs_for os orig_iface s
            in case install_main os server_ip orig_gw (route_all_plan server_ip orig_gw lan_cidrs tun_name) [] [] s of
                (Inl e, s) \<Rightarrow> (Inl e, s)
              | (Inr lan_routes, s) \<Rightarrow>
                  let ((cidrs, addrs), s) =
                        install_bypass_plan os (bypass_plan orig_gw orig_iface lan_cidrs local_addrs False) ([], []) s;
                      (v6o, s) = install_route_all_v6 os lib server tun_name s;
                      v6 = (case v6o of Some v \<Rightarrow> v | None \<Rightarrow> v6_route_default)
                  in (Inr \<lparr>rg_server_ip = server_ip, rg_orig_gw = orig_gw, rg_tun_name = tun_name, rg_lan_routes = lan_routes,
                        rg_server_ip6 = v6_server_ip6 v6, rg_orig_gw6 = v6_orig_gw6 v6, rg_orig_iface = orig_iface,
                        rg_bypass_cidrs = cidrs, rg_bypass_addrs = addrs, rg_orig_iface6 = v6_orig_iface6 v6,
                        rg_bypass_cidrs6 = v6_bypass_cidrs6 v6, rg_bypass_addrs6 = v6_bypass_addrs6 v6\<rparr>, s))"

subsection \<open>NAT rules\<close>

record NatRules =
  nat_source_cidr :: "string option"
  nat_source_cidr_v6 :: "string option"
  nat_tun_name :: string
  nat_out_iface :: "string option"
  nat_masq_all :: bool
  nat_installed :: "(string \<times> string list) list"

definition masq_spec :: "string option \<Rightarrow> string \<Rightarrow> string list" where
  "masq_spec source iface =
     [''POSTROUTING''] @ (case source of Some s \<Rightarrow> [''-s'', s] | None \<Rightarrow> []) @ [''-o'', iface, ''-j'', ''MASQUERADE'']"

text \<open>A source network goes to the side of its family; text that is no network counts as IPv4.\<close>

definition classify_cidr :: "ipnet_lib \<Rightarrow> string \<Rightarrow> string option \<times> string option" where
  "classify_cidr lib cidr =
     (case in_parse lib cidr of Some (V6 _, _) \<Rightarrow> (None, Some cidr) | _ \<Rightarrow> (Some cidr, None))"

definition nat_new :: "ipnet_lib \<Rightarrow> string \<Rightarrow> string \<Rightarrow> string option \<Rightarrow> NatRules" where
  "nat_new lib tun_cidr tun_name out_iface =
     (let (v4, v6) = classify_cidr lib tun_cidr
      in \<lparr>nat_source_cidr = v4, nat_source_cidr_v6 = v6, nat_tun_name = tun_name, nat_out_iface = out_iface,
          nat_masq_all = False, nat_installed = []\<rparr>)"

definition with_v6_cidr :: "ipnet_lib \<Rightarrow> string \<Rightarrow> NatRules \<Rightarrow> NatRules" where
  "with_v6_cidr lib cidr r =
     (case in_parse lib cidr of Some (V6 _, _) \<Rightarrow> r\<lparr>nat_source_cidr_v6 := Some cidr\<rparr> | _ \<Rightarrow> r)"

definition nat_new_client :: "ipnet_lib \<Rightarrow> string option \<Rightarrow> string \<Rightarrow> NatRules" where
  "nat_new_client lib source_cidr tun_name =
     (let (v4, v6) = (case source_cidr of Some s \<Rightarrow> classify_cidr lib s | None \<Rightarrow> (None, None))
      in \<lparr>nat_source_cidr = v4, nat_source_cidr_v6 = v6, nat_tun_name = tun_name, nat_out_iface = Some tun_name,
          nat_masq_all = (v4 = None \<and> v6 = None), nat_installed = []\<rparr>)"

definition forward_spec :: "string \<Rightarrow> string \<Rightarrow> string list" where
  "forward_spec direction tun = [''FORWARD'', direction, tun, ''-j'', ''ACCEPT'']"

definition planned_v4 :: "NatRules \<Rightarrow> string \<Rightarrow> (string \<times> string list) list" where
  "planned_v4 r iface =
     (if nat_source_cidr r \<noteq> None \<or> nat_masq_all r then [(''nat'', masq_spec (nat_source_cidr r) iface)] else []) @
     [(''filter'', forward_spec ''-i'' (nat_tun_name r)), (''filter'', forward_spec ''-o'' (nat_tun_name r))]"

definition planned_v6_masq :: "NatRules \<Rightarrow> string \<Rightarrow> string list option" where
  "planned_v6_masq r iface =
     (case nat_source_cidr_v6 r of
        Some s \<Rightarrow> Some (masq_spec (Some s) iface)
      | None \<Rightarrow> if nat_masq_all r then Some (masq_spec None iface) else None)"

fun nat_add_v4 :: "'s os_calls \<Rightarrow> (string \<times> string list) list \<Rightarrow> NatRules \<Rightarrow> 's \<Rightarrow> (string + unit) \<times> NatRules \<times> 's" where
  "nat_add_v4 os [] r s = (Inr (), r, s)"
| "nat_add_v4 os ((table, spec) # rules) r s =
     (let s = snd (os_run os ''iptables'' ([''-t'', table, ''-D''] @ spec) s)
      in case os_run os ''iptables'' ([''-t'', table, ''-A''] @ spec) s of
          (Inl e, s) \<Rightarrow> (Inl e, r, s)
        | (Inr _, s) \<Rightarrow> nat_add_v4 os rules (r\<lparr>nat_installed := nat_installed r @ [(table, spec)]\<rparr>) s)"

fun nat_add_v6 :: "'s os_calls \<Rightarrow> (string \<times> string list) list \<Rightarrow> NatRules \<Rightarrow> 's \<Rightarrow> NatRules \<times> 's" where
  "nat_add_v6 os [] r s = (r, s)"
| "nat_add_v6 os ((table, spec) # rules) r s =
     (case os_run os ''ip6tables'' ([''-t'', table, ''-A''] @ spec) s of
        (Inl _, s) \<Rightarrow> nat_add_v6 os rules r s
      | (Inr _, s) \<Rightarrow> nat_add_v6 os rules (r\<lparr>nat_installed := nat_installed r @ [(table, spec)]\<rparr>) s)"

text \<open>\<open>v6\<close> says whether the kernel has IPv6.\<close>

definition nat_install :: "'s os_calls \<Rightarrow> bool \<Rightarrow> NatRules \<Rightarrow> 's \<Rightarrow> (string + unit) \<times> NatRules \<times> 's" where
  "nat_install os v6 r s =
     (case (case nat_out_iface r of Some i \<Rightarrow> Inr i | None \<Rightarrow> default_route_iface os s) of
        Inl e \<Rightarrow> (Inl e, r, s)
      | Inr iface \<Rightarrow>
          let s = snd (os_run os ''sysctl'' [''-w'', ''net.ipv4.ip_forward=1''] s);
              s = (if v6 then snd (os_run os ''sysctl'' [''-w'', ''net.ipv6.conf.all.forwarding=1''] s) else s)
          in case nat_add_v4 os (planned_v4 r iface) r s of
              (Inl e, r, s) \<Rightarrow> (Inl e, r, s)
            | (Inr _, r, s) \<Rightarrow>
                if v6
                then let (r, s) = nat_add_v6 os
                       ((case planned_v6_masq r iface of Some spec \<Rightarrow> [(''nat'', spec)] | None \<Rightarrow> []) @
                        [(''filter'', forward_spec ''-i'' (nat_tun_name r)), (''filter'', forward_spec ''-o'' (nat_tun_name r))]) r s
                  in (Inr (), r, s)
                else (Inr (), r, s))"

text \<open>\<open>remove\<close>, also run by \<open>drop\<close>.\<close>

definition nat_remove :: "'s os_calls \<Rightarrow> NatRules \<Rightarrow> 's \<Rightarrow> NatRules \<times> 's" where
  "nat_remove os r s =
     (r\<lparr>nat_installed := []\<rparr>,
      fold (\<lambda>(table, spec) s.
        let s = snd (os_run os ''iptables'' ([''-t'', table, ''-D''] @ spec) s)
        in snd (os_run os ''ip6tables'' ([''-t'', table, ''-D''] @ spec) s)) (nat_installed r) s)"

subsection \<open>The route file\<close>

record RouteDest =
  rd_addr :: IpAddr
  rd_prefix :: u8

fun octets_u32 :: "IpAddr \<Rightarrow> u32" where
  "octets_u32 (V4 a b c d) = push_bit 24 (ucast a) OR push_bit 16 (ucast b) OR push_bit 8 (ucast c) OR ucast d"
| "octets_u32 (V6 segs) = 0"

text \<open>\<open>trailing_zeros\<close> of a 32-bit number.\<close>

definition trailing_zeros :: "u32 \<Rightarrow> nat" where
  "trailing_zeros w = length (takeWhile (\<lambda>i. \<not> bit w i) [0..<32])"

definition netmask_to_prefix :: "IpAddr \<Rightarrow> u8 option" where
  "netmask_to_prefix netmask =
     (let bits = octets_u32 netmask
      in if bits = 0 then Some 0
         else let zeros = trailing_zeros bits
           in if bits = push_bit zeros (- 1) then Some (word_of_nat (32 - zeros)) else None)"

definition legacy_route :: "string \<Rightarrow> string list \<Rightarrow> RouteDest option" where
  "legacy_route first rest =
     (case rest of
        [] \<Rightarrow> None
      | second # _ \<Rightarrow> (case (parse_ipv4 first, parse_ipv4 second) of
          (Some ip, Some netmask) \<Rightarrow> (case netmask_to_prefix netmask of
              Some prefix \<Rightarrow> Some \<lparr>rd_addr = ip, rd_prefix = prefix\<rparr>
            | None \<Rightarrow> None)
        | _ \<Rightarrow> None))"

definition parse_route_line :: "ipnet_lib \<Rightarrow> string \<Rightarrow> RouteDest option" where
  "parse_route_line lib line =
     (let line = trim line
      in if line = [] \<or> hd line = CHR ''#'' then None
         else case split_whitespace line of
             [] \<Rightarrow> None
           | first # rest \<Rightarrow> (case legacy_route first rest of
               Some dest \<Rightarrow> Some dest
             | None \<Rightarrow> (case in_parse lib first of
                 Some (ip, len) \<Rightarrow> Some \<lparr>rd_addr = ip, rd_prefix = word_of_nat len\<rparr>
               | None \<Rightarrow> (case parse_ip first of
                   Some ip \<Rightarrow> Some \<lparr>rd_addr = ip, rd_prefix = (if is_v4 ip then 32 else 128)\<rparr>
                 | None \<Rightarrow> None))))"

text \<open>The message that adds a route to the main table: destination, prefix length and device index.
  Netlink is the argument \<open>nl_add\<close>, which says whether the kernel accepted it.\<close>

record RouteMessage =
  rm_dest :: IpAddr
  rm_prefix :: u8
  rm_oif :: u32

definition add_route :: "(RouteMessage \<Rightarrow> 's \<Rightarrow> bool \<times> 's) \<Rightarrow> u32 \<Rightarrow> RouteDest \<Rightarrow> 's \<Rightarrow> RouteMessage option \<times> 's" where
  "add_route nl_add oif dest s =
     (let message = \<lparr>rm_dest = rd_addr dest, rm_prefix = rd_prefix dest, rm_oif = oif\<rparr>
      in case nl_add message s of (True, s) \<Rightarrow> (Some message, s) | (False, s) \<Rightarrow> (None, s))"

fun add_routes :: "(RouteMessage \<Rightarrow> 's \<Rightarrow> bool \<times> 's) \<Rightarrow> u32 \<Rightarrow> RouteDest list \<Rightarrow> 's \<Rightarrow> RouteMessage list \<times> 's" where
  "add_routes nl_add oif [] s = ([], s)"
| "add_routes nl_add oif (dest # dests) s =
     (let (msg, s) = add_route nl_add oif dest s; (msgs, s) = add_routes nl_add oif dests s
      in (case msg of Some m \<Rightarrow> m # msgs | None \<Rightarrow> msgs, s))"

definition install_route_file ::
  "ipnet_lib \<Rightarrow> (RouteMessage \<Rightarrow> 's \<Rightarrow> bool \<times> 's) \<Rightarrow> (string + string) \<Rightarrow> (string + u32) \<Rightarrow> 's
   \<Rightarrow> (string + RouteMessage list) \<times> 's" where
  "install_route_file lib nl_add contents link_index s =
     (case contents of
        Inl e \<Rightarrow> (Inl e, s)
      | Inr text \<Rightarrow>
          let dests = List.map_filter (parse_route_line lib) (lines text)
          in case link_index of
              Inl e \<Rightarrow> (Inl e, s)
            | Inr oif \<Rightarrow> let (msgs, s) = add_routes nl_add oif dests s in (Inr msgs, s))"

definition route_file_drop :: "(RouteMessage \<Rightarrow> 's \<Rightarrow> 's) \<Rightarrow> RouteMessage list \<Rightarrow> 's \<Rightarrow> 's" where
  "route_file_drop nl_del routes s = fold nl_del routes s"

end
