(* ===== verification/Dns_Check.thy ===== *)
theory Dns_Check
  imports Route_Setup Firewall
begin

text \<open>
  The command \<open>dns-check\<close> (\<open>dns_check\<close> in \<open>src/src/platform/linux.rs\<close>): it reads the packet counters of the
  firewall chains before and after a name lookup and prints a report with a verdict. The listing of a chain is the
  argument \<open>listing\<close>, which is \<open>None\<close> if \<open>iptables\<close> fails; the lookup and the contents of \<open>resolv.conf\<close> are
  arguments too. The report is the list of printed lines.
\<close>

subsection \<open>Listings\<close>

record RuleCount =
  rk_pkts :: u64
  rk_target :: string
  rk_out_iface :: string
  rk_dport :: "u16 option"

text \<open>The text after the first occurrence of \<open>key\<close>.\<close>

fun after_str :: "string \<Rightarrow> string \<Rightarrow> string option" where
  "after_str key [] = (if key = [] then Some [] else None)"
| "after_str key (c # s) =
     (if take (length key) (c # s) = key then Some (drop (length key) (c # s)) else after_str key s)"

definition extract_dport :: "string \<Rightarrow> u16 option" where
  "extract_dport line = Option.bind (after_str ''dpt:'' line) (\<lambda>rest.
     map_option of_nat (from_str_radix 10 (2 ^ 16) (takeWhile (\<lambda>c. to_digit 10 c \<noteq> None) rest)))"

definition parse_iptables_line :: "string \<Rightarrow> RuleCount option" where
  "parse_iptables_line line = (let f = split_whitespace line in
     if length f < 3 then None
     else case from_str_radix 10 (2 ^ 64) (f ! 0) of
         None \<Rightarrow> None
       | Some pkts \<Rightarrow> Some \<lparr>rk_pkts = of_nat pkts, rk_target = f ! 2,
           rk_out_iface = (if length f > 6 then f ! 6 else ''*''), rk_dport = extract_dport line\<rparr>)"

definition parse_iptables_chain :: "string \<Rightarrow> RuleCount list" where
  "parse_iptables_chain output = List.map_filter parse_iptables_line (lines output)"

type_synonym chain_listing = "string \<Rightarrow> string option"

definition list_chain :: "chain_listing \<Rightarrow> string \<Rightarrow> RuleCount list option" where
  "list_chain listing chain = map_option parse_iptables_chain (listing chain)"

subsection \<open>Counters\<close>

record DnsCounters =
  dk_via_tunnel :: u64
  dk_blocked :: u64

definition dns_counters_default :: DnsCounters where
  "dns_counters_default = \<lparr>dk_via_tunnel = 0, dk_blocked = 0\<rparr>"

definition rejects :: "RuleCount \<Rightarrow> bool" where
  "rejects r \<longleftrightarrow> rk_target r = ''REJECT'' \<or> rk_target r = ''DROP''"

definition count_dns_row :: "RuleCount \<Rightarrow> DnsCounters \<Rightarrow> DnsCounters" where
  "count_dns_row r c = (let is_dns = (rk_dport r = Some 53) in
     if is_dns \<and> rk_target r = ''ACCEPT'' then c\<lparr>dk_via_tunnel := sat_add (dk_via_tunnel c) (rk_pkts r)\<rparr>
     else if is_dns \<and> rejects r then c\<lparr>dk_blocked := sat_add (dk_blocked c) (rk_pkts r)\<rparr>
     else c)"

definition count_ks_row :: "string \<Rightarrow> RuleCount \<Rightarrow> DnsCounters \<Rightarrow> DnsCounters" where
  "count_ks_row tun_name r c =
     (if rk_target r = ''ACCEPT'' \<and> rk_out_iface r = tun_name
      then c\<lparr>dk_via_tunnel := sat_add (dk_via_tunnel c) (rk_pkts r)\<rparr>
      else if rejects r then c\<lparr>dk_blocked := sat_add (dk_blocked c) (rk_pkts r)\<rparr>
      else c)"

definition snapshot_dns_counters :: "chain_listing \<Rightarrow> string \<Rightarrow> DnsCounters" where
  "snapshot_dns_counters listing tun_name = (case list_chain listing DNS_CHAIN of
       Some rows \<Rightarrow> fold count_dns_row rows dns_counters_default
     | None \<Rightarrow> (case list_chain listing KS_CHAIN of
           Some rows \<Rightarrow> fold (count_ks_row tun_name) rows dns_counters_default
         | None \<Rightarrow> dns_counters_default))"

subsection \<open>The report\<close>

definition nameservers :: "string \<Rightarrow> string list" where
  "nameservers content = List.map_filter
     (\<lambda>l. let l = trim l in
        if take 11 l = ''nameserver '' then Some (trim (drop 11 l)) else None) (lines content)"

fun join_with :: "string \<Rightarrow> string list \<Rightarrow> string" where
  "join_with sep [] = []"
| "join_with sep [x] = x"
| "join_with sep (x # y # xs) = x @ sep @ join_with sep (y # xs)"

definition resolv_line :: "string + string \<Rightarrow> string" where
  "resolv_line resolv = ''resolv.conf: '' @ (case resolv of
       Inr content \<Rightarrow> (let ns = nameservers content in if ns = [] then ''(none)'' else join_with '', '' ns)
     | Inl e \<Rightarrow> ''unreadable ('' @ e @ '')'')"

definition print_counters :: "string \<Rightarrow> DnsCounters \<Rightarrow> string" where
  "print_counters label c = label @ '': via tunnel '' @ show_nat (unat (dk_via_tunnel c)) @ '' pkts, blocked '' @
     show_nat (unat (dk_blocked c)) @ '' pkts''"

definition lookup_line :: "string \<Rightarrow> string + string list \<Rightarrow> string" where
  "lookup_line host lookup = ''lookup: '' @ host @ (case lookup of
       Inr addrs \<Rightarrow> '' -> '' @ (case addrs of a # _ \<Rightarrow> a | [] \<Rightarrow> ''no answer'')
     | Inl e \<Rightarrow> '' failed ('' @ e @ '')'')"

definition em_dash :: string where "em_dash = [CHR 0xE2, CHR 0x80, CHR 0x94]"

definition verdict :: "bool \<Rightarrow> u64 \<Rightarrow> string" where
  "verdict lookup_ok blocked_delta =
     (if lookup_ok \<and> blocked_delta = 0
      then ''verdict: no DNS leak detected (queries reached a resolver only via the tunnel)''
      else if blocked_delta > 0
      then ''verdict: DNS leak attempt blocked '' @ show_nat (unat blocked_delta) @ '' time(s) '' @ em_dash @
        '' queries were kept off the real interface''
      else ''verdict: lookup did not complete; check that the tunnel is up and the resolver is reachable through it'')"

definition dns_check ::
  "string + string \<Rightarrow> chain_listing \<Rightarrow> string + string list \<Rightarrow> chain_listing \<Rightarrow> string \<Rightarrow> string \<Rightarrow> string list" where
  "dns_check resolv listing1 lookup listing2 tun_name host =
     (let before = snapshot_dns_counters listing1 tun_name;
          after = snapshot_dns_counters listing2 tun_name;
          via_tunnel_delta = sat_sub (dk_via_tunnel after) (dk_via_tunnel before);
          blocked_delta = sat_sub (dk_blocked after) (dk_blocked before)
      in [''rustnies DNS leak check'', ''------------------------'', resolv_line resolv,
          print_counters ''before lookup'' before, lookup_line host lookup, print_counters ''after lookup'' after,
          ''delta: via tunnel +'' @ show_nat (unat via_tunnel_delta) @ '' pkts, blocked +'' @
            show_nat (unat blocked_delta) @ '' pkts'',
          verdict (\<not> isl lookup) blocked_delta])"

text \<open>The command with its defaults.\<close>

definition cmd_dns_check ::
  "(string \<Rightarrow> string + string) \<Rightarrow> chain_listing \<Rightarrow> (string \<Rightarrow> string + string list) \<Rightarrow> chain_listing
   \<Rightarrow> string option \<Rightarrow> string option \<Rightarrow> string option \<Rightarrow> string list" where
  "cmd_dns_check read listing1 lookup listing2 resolv tun host =
     (let resolv_path = (case resolv of Some p \<Rightarrow> p | None \<Rightarrow> ''/etc/resolv.conf'');
          tun_name = (case tun of Some t \<Rightarrow> t | None \<Rightarrow> ''rustnies0'');
          host = (case host of Some h \<Rightarrow> h | None \<Rightarrow> ''example.com'')
      in dns_check (read resolv_path) listing1 (lookup host) listing2 tun_name host)"

subsection \<open>The verdict in terms of the rows\<close>

text \<open>The packets that the rows with a property have counted.\<close>

definition packets :: "(RuleCount \<Rightarrow> bool) \<Rightarrow> RuleCount list \<Rightarrow> nat" where
  "packets P rows = (\<Sum>r\<leftarrow>filter P rows. unat (rk_pkts r))"

definition dns_row :: "RuleCount \<Rightarrow> bool" where "dns_row r \<longleftrightarrow> rk_dport r = Some 53"

definition blocked_packets :: "chain_listing \<Rightarrow> nat" where
  "blocked_packets listing = (case list_chain listing DNS_CHAIN of
       Some rows \<Rightarrow> packets (\<lambda>r. dns_row r \<and> rejects r) rows
     | None \<Rightarrow> (case list_chain listing KS_CHAIN of Some rows \<Rightarrow> packets rejects rows | None \<Rightarrow> 0))"

lemma sat_add_min: "unat (sat_add a b) = min (unat a + unat b) (2 ^ 64 - 1)" for a b :: u64
  using unat_sat_add [of a b] by simp

lemma u64_min: "min (unat x) 18446744073709551615 = unat x" for x :: u64
proof -
  have "unat x < 2 ^ LENGTH(64)" by (rule unsigned_less)
  then show ?thesis by simp
qed

lemma count_dns_rows:
  "unat (dk_blocked (fold count_dns_row rows c)) =
     min (unat (dk_blocked c) + packets (\<lambda>r. dns_row r \<and> rejects r) rows) (2 ^ 64 - 1)"
proof (induction rows arbitrary: c)
  case Nil
  then show ?case by (simp add: packets_def u64_min)
next
  case (Cons r rows)
  then show ?case
    by (auto simp: count_dns_row_def packets_def dns_row_def rejects_def Let_def sat_add_min)
qed

lemma count_ks_rows:
  "unat (dk_blocked (fold (count_ks_row tun) rows c)) = min (unat (dk_blocked c) + packets rejects rows) (2 ^ 64 - 1)"
proof (induction rows arbitrary: c)
  case Nil
  then show ?case by (simp add: packets_def u64_min)
next
  case (Cons r rows)
  then show ?case by (auto simp: count_ks_row_def packets_def rejects_def sat_add_min)
qed

lemma snapshot_blocked:
  "unat (dk_blocked (snapshot_dns_counters listing tun)) = min (blocked_packets listing) (2 ^ 64 - 1)"
  by (auto simp: snapshot_dns_counters_def blocked_packets_def count_dns_rows count_ks_rows dns_counters_default_def
      split: option.splits)

text \<open>C40. The verdict of \<open>dns-check\<close>: a blocked leak is reported exactly if rejecting rules counted more packets after the
  lookup than before; otherwise a lookup that succeeds gives \<open>no DNS leak detected\<close>, and so it does when the
  chains do not exist at all, with no daemon running and every query leaving through the real interface.\<close>

theorem dns_check_verdict:
  "last (dns_check resolv listing1 lookup listing2 tun host) =
     (let n1 = min (blocked_packets listing1) (2 ^ 64 - 1); n2 = min (blocked_packets listing2) (2 ^ 64 - 1)
      in if n1 < n2
         then ''verdict: DNS leak attempt blocked '' @ show_nat (n2 - n1) @ '' time(s) '' @ em_dash @
           '' queries were kept off the real interface''
         else if isl lookup
         then ''verdict: lookup did not complete; check that the tunnel is up and the resolver is reachable through it''
         else ''verdict: no DNS leak detected (queries reached a resolver only via the tunnel)'') \<and>
   last (dns_check resolv (\<lambda>chain. None) (Inr addrs) (\<lambda>chain. None) tun host) =
     ''verdict: no DNS leak detected (queries reached a resolver only via the tunnel)''"
proof -
  have "sat_sub x y = 0 \<longleftrightarrow> unat x \<le> unat y" for x y :: u64
    using unat_sat_sub [of x y] by (metis diff_is_0_eq unat_eq_zero)
  then show ?thesis
    by (auto simp: dns_check_def verdict_def Let_def word_gt_0 unat_sat_sub snapshot_blocked blocked_packets_def [of "\<lambda>chain. None"] list_chain_def
        split: if_splits)
qed

text \<open>A listing as \<open>iptables\<close> prints it: the headings are skipped, and the rows of the DNS chain are told apart.\<close>

definition demo_listing :: chain_listing where
  "demo_listing chain = (if chain = DNS_CHAIN then Some (
     ''Chain RUSTNIES_DNS (1 references)'' @ [CHR 0x0A] @
     ''    pkts      bytes target     prot opt in     out     source    destination'' @ [CHR 0x0A] @
     ''      12      700 ACCEPT  udp  --  *      rustnies0  0.0.0.0/0  0.0.0.0/0  udp dpt:53'' @ [CHR 0x0A] @
     ''       3      180 REJECT  udp  --  *      *  0.0.0.0/0  0.0.0.0/0  udp dpt:53 reject-with icmp-port-unreachable'' @ [CHR 0x0A])
   else None)"

lemma demo_listing_counts:
  "snapshot_dns_counters demo_listing ''rustnies0'' = \<lparr>dk_via_tunnel = 12, dk_blocked = 3\<rparr>"
proof -
  have "parse_iptables_chain (the (demo_listing DNS_CHAIN)) =
    [\<lparr>rk_pkts = 12, rk_target = ''ACCEPT'', rk_out_iface = ''rustnies0'', rk_dport = Some 53\<rparr>,
     \<lparr>rk_pkts = 3, rk_target = ''REJECT'', rk_out_iface = ''*'', rk_dport = Some 53\<rparr>]"
    by (simp add: demo_listing_def parse_iptables_chain_def parse_iptables_line_def lines_def strip_cr_def
        List.map_filter_def is_whitespace_def from_str_radix_def to_digit_def extract_dport_def Let_def)
  then show ?thesis
    by (simp add: snapshot_dns_counters_def list_chain_def demo_listing_def count_dns_row_def rejects_def
        dns_counters_default_def sat_add_def)
qed

end
