(* ===== verification/Configuration.thy ===== *)
theory Configuration
  imports Peer_Auth Tunnel_State Negotiation Obfuscation Net_Addr
begin

text \<open>
  Configuration (\<open>src/src/config.rs\<close>) and the part of the command line that resolves it
  (\<open>src/src/cli.rs\<close>): built-in defaults, the optional settings of a file, the overrides of the command
  line and their merging, for both roles. The TOML decoder of the crates \<open>toml\<close> and \<open>serde\<close> and the
  reads of the file are arguments. A path is its text.
\<close>

type_synonym path = string

subsection \<open>Socket addresses as \<open>FromStr\<close> reads them\<close>

definition read_port :: "string \<Rightarrow> (nat \<times> string) option" where
  "read_port s = Option.bind (read_given_char CHR '':'' s) (\<lambda>s. read_number 10 (length s) True 65536 s)"

definition read_scope_id :: "string \<Rightarrow> string option" where
  "read_scope_id s = Option.bind (read_given_char CHR ''%'' s) (\<lambda>s.
     map_option snd (read_number 10 (length s) True (2 ^ 32) s))"

definition read_socket_addr_v4 :: "string \<Rightarrow> (SocketAddr \<times> string) option" where
  "read_socket_addr_v4 s =
     Option.bind (read_ipv4_addr s) (\<lambda>((a, b, c, d), s).
     Option.bind (read_port s) (\<lambda>(port, s).
       Some (\<lparr>sock_ip = V4 (of_nat a) (of_nat b) (of_nat c) (of_nat d), sock_port = of_nat port\<rparr>, s)))"

text \<open>The scope of an IPv6 address is read and not kept.\<close>

definition read_socket_addr_v6 :: "string \<Rightarrow> (SocketAddr \<times> string) option" where
  "read_socket_addr_v6 s =
     Option.bind (read_given_char CHR ''['' s) (\<lambda>s.
     Option.bind (read_ipv6_addr s) (\<lambda>(segs, s).
     let s = (case read_scope_id s of Some r \<Rightarrow> r | None \<Rightarrow> s) in
     Option.bind (read_given_char CHR '']'' s) (\<lambda>s.
     Option.bind (read_port s) (\<lambda>(port, s).
       Some (\<lparr>sock_ip = V6 (map of_nat segs), sock_port = of_nat port\<rparr>, s)))))"

definition parse_socket_addr :: "string \<Rightarrow> SocketAddr option" where
  "parse_socket_addr s =
     (case (case read_socket_addr_v4 s of Some r \<Rightarrow> Some r | None \<Rightarrow> read_socket_addr_v6 s) of
        Some (addr, []) \<Rightarrow> Some addr | _ \<Rightarrow> None)"

subsection \<open>Sections\<close>

record CarrierConfig =
  ca_name :: string

record FrameConfig =
  fr_codec :: "string list"

record HandshakeConfig =
  hk_kex :: string
  hk_propose :: bool

record CryptoConfig =
  cy_aead :: "string list"

record TransportConfig =
  tr_handshake :: string
  tr_data :: "string list"
  tr_tag_hex :: "string option"

record CongestionConfig =
  cg_algorithm :: string

definition carrier_default :: CarrierConfig where "carrier_default = \<lparr>ca_name = ''udp''\<rparr>"
definition frame_default :: FrameConfig where "frame_default = \<lparr>fr_codec = [DEFAULT_FRAME_CODEC]\<rparr>"
definition handshake_default :: HandshakeConfig where
  "handshake_default = \<lparr>hk_kex = DEFAULT_HANDSHAKE, hk_propose = False\<rparr>"
definition crypto_default :: CryptoConfig where "crypto_default = \<lparr>cy_aead = []\<rparr>"
definition transport_default :: TransportConfig where
  "transport_default = \<lparr>tr_handshake = DEFAULT_TRANSPORT, tr_data = [TRANSPORT_SAME_AS_HANDSHAKE], tr_tag_hex = None\<rparr>"
definition congestion_default :: CongestionConfig where "congestion_default = \<lparr>cg_algorithm = DEFAULT_CONGESTION\<rparr>"
definition fec_default :: FecConfig where
  "fec_default = \<lparr>fc_scheme = [DEFAULT_FEC_SCHEME], fc_k = 1, fc_min_m = 0, fc_max_m = 4, fc_initial_m = 2\<rparr>"

subsection \<open>Resolved configurations\<close>

record ServerConfig =
  sc_listen :: SocketAddr
  sc_tun_name :: string
  sc_tun_addr :: string
  sc_tun_prefix :: u8
  sc_tun_addr6 :: "string option"
  sc_tun_prefix6 :: "u8 option"
  sc_tun_mtu :: u32
  sc_key_path :: path
  sc_enable_nat :: bool
  sc_nat_out_iface :: "string option"
  sc_ipc_path :: path
  sc_peers :: "PeerEntry list option"
  sc_config_path :: "path option"
  sc_log_level :: "string option"
  sc_log_file :: "path option"
  sc_obfuscation :: "ObfuscationConfig option"
  sc_fec :: FecConfig
  sc_carrier :: CarrierConfig
  sc_frame :: FrameConfig
  sc_handshake :: HandshakeConfig
  sc_crypto :: CryptoConfig
  sc_transport :: TransportConfig
  sc_congestion :: CongestionConfig
  sc_max_sessions_per_peer :: u8

definition default_ipc_path :: path where "default_ipc_path = ''/run/rustnies/rustnies.sock''"

definition server_default :: ServerConfig where
  "server_default = \<lparr>sc_listen = \<lparr>sock_ip = V4 0 0 0 0, sock_port = 46722\<rparr>, sc_tun_name = ''rustnies'',
     sc_tun_addr = ''10.7.0.1'', sc_tun_prefix = 24, sc_tun_addr6 = None, sc_tun_prefix6 = None, sc_tun_mtu = 1400,
     sc_key_path = [], sc_enable_nat = True, sc_nat_out_iface = None, sc_ipc_path = default_ipc_path, sc_peers = None,
     sc_config_path = None, sc_log_level = None, sc_log_file = None, sc_obfuscation = None, sc_fec = fec_default,
     sc_carrier = carrier_default, sc_frame = frame_default, sc_handshake = handshake_default,
     sc_crypto = crypto_default, sc_transport = transport_default, sc_congestion = congestion_default,
     sc_max_sessions_per_peer = 0\<rparr>"

record ClientConfig =
  cl_server :: SocketAddr
  cl_server_pubkey_hex :: string
  cl_tun_name :: string
  cl_tun_addr :: string
  cl_tun_prefix :: u8
  cl_tun_addr6 :: "string option"
  cl_tun_prefix6 :: "u8 option"
  cl_tun_mtu :: u32
  cl_key_path :: path
  cl_ipc_path :: path
  cl_route_all :: bool
  cl_route_path :: "path option"
  cl_reconnect :: bool
  cl_dns_leak_protection :: bool
  cl_dns :: "string list option"
  cl_kill_switch :: bool
  cl_enable_nat :: bool
  cl_nat_source_cidr :: "string option"
  cl_log_level :: "string option"
  cl_log_file :: "path option"
  cl_obfuscation :: "ObfuscationConfig option"
  cl_fec :: FecConfig
  cl_carrier :: CarrierConfig
  cl_frame :: FrameConfig
  cl_handshake :: HandshakeConfig
  cl_crypto :: CryptoConfig
  cl_transport :: TransportConfig
  cl_congestion :: CongestionConfig

definition client_default :: ClientConfig where
  "client_default = \<lparr>cl_server = \<lparr>sock_ip = V4 127 0 0 1, sock_port = 46722\<rparr>, cl_server_pubkey_hex = [],
     cl_tun_name = ''rustnies0'', cl_tun_addr = ''10.7.0.2'', cl_tun_prefix = 24, cl_tun_addr6 = None,
     cl_tun_prefix6 = None, cl_tun_mtu = 1400, cl_key_path = [], cl_ipc_path = default_ipc_path, cl_route_all = True,
     cl_route_path = None, cl_reconnect = True, cl_dns_leak_protection = True, cl_dns = None, cl_kill_switch = False,
     cl_enable_nat = True, cl_nat_source_cidr = None, cl_log_level = None, cl_log_file = None, cl_obfuscation = None,
     cl_fec = fec_default, cl_carrier = carrier_default, cl_frame = frame_default, cl_handshake = handshake_default,
     cl_crypto = crypto_default, cl_transport = transport_default, cl_congestion = congestion_default\<rparr>"

definition default_config_path :: "string \<Rightarrow> path" where
  "default_config_path role = ''/etc/rustnies/'' @ role @ ''.toml''"

subsection \<open>File configurations\<close>

record FecSection =
  fs_scheme :: "string list option"
  fs_k :: "u8 option"
  fs_min_m :: "u8 option"
  fs_max_m :: "u8 option"
  fs_initial_m :: "u8 option"

record TunSection =
  ts_name :: "string option"
  ts_addr :: "string option"
  ts_prefix :: "u8 option"
  ts_addr6 :: "string option"
  ts_prefix6 :: "u8 option"
  ts_mtu :: "u32 option"

record NatSection =
  ns_enabled :: "bool option"
  ns_out_iface :: "string option"

record ClientNatSection =
  cn_enabled :: "bool option"
  cn_source_cidr :: "string option"

record ServerFileConfig =
  sf_listen :: "SocketAddr option"
  sf_key_path :: "path option"
  sf_ipc_path :: "path option"
  sf_peers :: "PeerEntry list option"
  sf_log_level :: "string option"
  sf_log_file :: "path option"
  sf_tun :: TunSection
  sf_nat :: NatSection
  sf_obfuscation :: "ObfuscationConfig option"
  sf_fec :: "FecSection option"
  sf_carrier :: "CarrierConfig option"
  sf_frame :: "FrameConfig option"
  sf_handshake :: "HandshakeConfig option"
  sf_crypto :: "CryptoConfig option"
  sf_transport :: "TransportConfig option"
  sf_congestion :: "CongestionConfig option"
  sf_max_sessions_per_peer :: "u8 option"

record ClientFileConfig =
  cf_server :: "SocketAddr option"
  cf_server_key :: "string option"
  cf_key_path :: "path option"
  cf_ipc_path :: "path option"
  cf_route_all :: "bool option"
  cf_route_path :: "path option"
  cf_reconnect :: "bool option"
  cf_dns_leak_protection :: "bool option"
  cf_dns :: "string list option"
  cf_kill_switch :: "bool option"
  cf_log_level :: "string option"
  cf_log_file :: "path option"
  cf_tun :: TunSection
  cf_nat :: ClientNatSection
  cf_obfuscation :: "ObfuscationConfig option"
  cf_fec :: "FecSection option"
  cf_carrier :: "CarrierConfig option"
  cf_frame :: "FrameConfig option"
  cf_handshake :: "HandshakeConfig option"
  cf_crypto :: "CryptoConfig option"
  cf_transport :: "TransportConfig option"
  cf_congestion :: "CongestionConfig option"

definition tun_section_empty :: TunSection where
  "tun_section_empty = \<lparr>ts_name = None, ts_addr = None, ts_prefix = None, ts_addr6 = None, ts_prefix6 = None, ts_mtu = None\<rparr>"

definition server_file_empty :: ServerFileConfig where
  "server_file_empty = \<lparr>sf_listen = None, sf_key_path = None, sf_ipc_path = None, sf_peers = None, sf_log_level = None,
     sf_log_file = None, sf_tun = tun_section_empty, sf_nat = \<lparr>ns_enabled = None, ns_out_iface = None\<rparr>,
     sf_obfuscation = None, sf_fec = None, sf_carrier = None, sf_frame = None, sf_handshake = None, sf_crypto = None,
     sf_transport = None, sf_congestion = None, sf_max_sessions_per_peer = None\<rparr>"

definition client_file_empty :: ClientFileConfig where
  "client_file_empty = \<lparr>cf_server = None, cf_server_key = None, cf_key_path = None, cf_ipc_path = None,
     cf_route_all = None, cf_route_path = None, cf_reconnect = None, cf_dns_leak_protection = None, cf_dns = None,
     cf_kill_switch = None, cf_log_level = None, cf_log_file = None, cf_tun = tun_section_empty,
     cf_nat = \<lparr>cn_enabled = None, cn_source_cidr = None\<rparr>, cf_obfuscation = None, cf_fec = None, cf_carrier = None,
     cf_frame = None, cf_handshake = None, cf_crypto = None, cf_transport = None, cf_congestion = None\<rparr>"

subsection \<open>Overrides of the command line\<close>

record ServerCliOverrides =
  so_listen :: "string option"
  so_tun :: "string option"
  so_tun_addr :: "string option"
  so_tun_prefix :: "u8 option"
  so_tun_addr6 :: "string option"
  so_tun_prefix6 :: "u8 option"
  so_tun_mtu :: "u32 option"
  so_key :: "path option"
  so_nat :: "bool option"
  so_nat_iface :: "string option"
  so_socket :: "path option"
  so_log_level :: "string option"
  so_verbose :: bool
  so_log_file :: "path option"
  so_max_sessions_per_peer :: "u8 option"

record ClientCliOverrides =
  co_server :: "string option"
  co_server_key :: "string option"
  co_tun :: "string option"
  co_tun_addr :: "string option"
  co_tun_prefix :: "u8 option"
  co_tun_addr6 :: "string option"
  co_tun_prefix6 :: "u8 option"
  co_tun_mtu :: "u32 option"
  co_key :: "path option"
  co_socket :: "path option"
  co_route_all :: "bool option"
  co_route_path :: "path option"
  co_reconnect :: "bool option"
  co_dns_leak_protection :: "bool option"
  co_dns :: "string list option"
  co_kill_switch :: "bool option"
  co_enable_nat :: "bool option"
  co_nat_source_cidr :: "string option"
  co_log_level :: "string option"
  co_verbose :: bool
  co_log_file :: "path option"

subsection \<open>Merging\<close>

text \<open>\<open>if let Some(v) = new { field = v }\<close>, and the same for a field that is itself optional.\<close>

definition set_if :: "'a option \<Rightarrow> 'a \<Rightarrow> 'a" where
  "set_if new old = (case new of Some v \<Rightarrow> v | None \<Rightarrow> old)"

definition set_some :: "'a option \<Rightarrow> 'a option \<Rightarrow> 'a option" where
  "set_some new old = (case new of Some v \<Rightarrow> Some v | None \<Rightarrow> old)"

definition config_pick :: "'a option \<Rightarrow> 'a option \<Rightarrow> 'a \<Rightarrow> 'a" where
  "config_pick cli file def =
     (case (case cli of Some v \<Rightarrow> Some v | None \<Rightarrow> file) of Some v \<Rightarrow> v | None \<Rightarrow> def)"

definition merge_fec :: "FecSection option \<Rightarrow> FecConfig \<Rightarrow> FecConfig" where
  "merge_fec sec base = (case sec of
       None \<Rightarrow> base
     | Some v \<Rightarrow> base\<lparr>fc_scheme := set_if (fs_scheme v) (fc_scheme base), fc_k := set_if (fs_k v) (fc_k base),
         fc_min_m := set_if (fs_min_m v) (fc_min_m base), fc_max_m := set_if (fs_max_m v) (fc_max_m base),
         fc_initial_m := set_if (fs_initial_m v) (fc_initial_m base)\<rparr>)"

definition merge_server_file :: "ServerFileConfig \<Rightarrow> ServerConfig \<Rightarrow> ServerConfig" where
  "merge_server_file file base = base\<lparr>
     sc_listen := set_if (sf_listen file) (sc_listen base),
     sc_key_path := set_if (sf_key_path file) (sc_key_path base),
     sc_ipc_path := set_if (sf_ipc_path file) (sc_ipc_path base),
     sc_peers := set_some (sf_peers file) (sc_peers base),
     sc_log_level := set_some (sf_log_level file) (sc_log_level base),
     sc_log_file := set_some (sf_log_file file) (sc_log_file base),
     sc_tun_name := set_if (ts_name (sf_tun file)) (sc_tun_name base),
     sc_tun_addr := set_if (ts_addr (sf_tun file)) (sc_tun_addr base),
     sc_tun_prefix := set_if (ts_prefix (sf_tun file)) (sc_tun_prefix base),
     sc_tun_addr6 := set_some (ts_addr6 (sf_tun file)) (sc_tun_addr6 base),
     sc_tun_prefix6 := set_some (ts_prefix6 (sf_tun file)) (sc_tun_prefix6 base),
     sc_tun_mtu := set_if (ts_mtu (sf_tun file)) (sc_tun_mtu base),
     sc_enable_nat := set_if (ns_enabled (sf_nat file)) (sc_enable_nat base),
     sc_nat_out_iface := set_some (ns_out_iface (sf_nat file)) (sc_nat_out_iface base),
     sc_obfuscation := set_some (sf_obfuscation file) (sc_obfuscation base),
     sc_fec := merge_fec (sf_fec file) (sc_fec base),
     sc_carrier := set_if (sf_carrier file) (sc_carrier base),
     sc_frame := set_if (sf_frame file) (sc_frame base),
     sc_handshake := set_if (sf_handshake file) (sc_handshake base),
     sc_crypto := set_if (sf_crypto file) (sc_crypto base),
     sc_transport := set_if (sf_transport file) (sc_transport base),
     sc_congestion := set_if (sf_congestion file) (sc_congestion base),
     sc_max_sessions_per_peer := set_if (sf_max_sessions_per_peer file) (sc_max_sessions_per_peer base)\<rparr>"

text \<open>An address that does not parse keeps the old one.\<close>

definition parse_or_keep :: "string option \<Rightarrow> SocketAddr \<Rightarrow> SocketAddr" where
  "parse_or_keep new old = (case new of
       None \<Rightarrow> old
     | Some v \<Rightarrow> (case parse_socket_addr v of Some addr \<Rightarrow> addr | None \<Rightarrow> old))"

definition merge_log_level :: "bool \<Rightarrow> string option \<Rightarrow> string option \<Rightarrow> string option" where
  "merge_log_level verbose level old = (if verbose then Some ''debug'' else set_some level old)"

definition merge_server_config :: "ServerConfig \<Rightarrow> ServerFileConfig \<Rightarrow> ServerCliOverrides \<Rightarrow> ServerConfig" where
  "merge_server_config base file cli = (let base = merge_server_file file base in base\<lparr>
     sc_listen := parse_or_keep (so_listen cli) (sc_listen base),
     sc_key_path := set_if (so_key cli) (sc_key_path base),
     sc_ipc_path := set_if (so_socket cli) (sc_ipc_path base),
     sc_log_file := set_some (so_log_file cli) (sc_log_file base),
     sc_tun_name := set_if (so_tun cli) (sc_tun_name base),
     sc_tun_addr := set_if (so_tun_addr cli) (sc_tun_addr base),
     sc_tun_prefix := set_if (so_tun_prefix cli) (sc_tun_prefix base),
     sc_tun_addr6 := set_some (so_tun_addr6 cli) (sc_tun_addr6 base),
     sc_tun_prefix6 := set_some (so_tun_prefix6 cli) (sc_tun_prefix6 base),
     sc_tun_mtu := set_if (so_tun_mtu cli) (sc_tun_mtu base),
     sc_enable_nat := set_if (so_nat cli) (sc_enable_nat base),
     sc_nat_out_iface := set_some (so_nat_iface cli) (sc_nat_out_iface base),
     sc_max_sessions_per_peer := set_if (so_max_sessions_per_peer cli) (sc_max_sessions_per_peer base),
     sc_log_level := merge_log_level (so_verbose cli) (so_log_level cli) (sc_log_level base)\<rparr>)"

definition drop_empty :: "string list option \<Rightarrow> string list option" where
  "drop_empty = map_option (filter (\<lambda>s. s \<noteq> []))"

definition merge_client_file :: "ClientFileConfig \<Rightarrow> ClientConfig \<Rightarrow> ClientConfig" where
  "merge_client_file file base = base\<lparr>
     cl_server := set_if (cf_server file) (cl_server base),
     cl_server_pubkey_hex := set_if (cf_server_key file) (cl_server_pubkey_hex base),
     cl_key_path := set_if (cf_key_path file) (cl_key_path base),
     cl_ipc_path := set_if (cf_ipc_path file) (cl_ipc_path base),
     cl_route_all := set_if (cf_route_all file) (cl_route_all base),
     cl_route_path := set_some (cf_route_path file) (cl_route_path base),
     cl_reconnect := set_if (cf_reconnect file) (cl_reconnect base),
     cl_dns_leak_protection := set_if (cf_dns_leak_protection file) (cl_dns_leak_protection base),
     cl_dns := set_some (drop_empty (cf_dns file)) (cl_dns base),
     cl_kill_switch := set_if (cf_kill_switch file) (cl_kill_switch base),
     cl_enable_nat := set_if (cn_enabled (cf_nat file)) (cl_enable_nat base),
     cl_nat_source_cidr := set_some (cn_source_cidr (cf_nat file)) (cl_nat_source_cidr base),
     cl_log_level := set_some (cf_log_level file) (cl_log_level base),
     cl_log_file := set_some (cf_log_file file) (cl_log_file base),
     cl_tun_name := set_if (ts_name (cf_tun file)) (cl_tun_name base),
     cl_tun_addr := set_if (ts_addr (cf_tun file)) (cl_tun_addr base),
     cl_tun_prefix := set_if (ts_prefix (cf_tun file)) (cl_tun_prefix base),
     cl_tun_addr6 := set_some (ts_addr6 (cf_tun file)) (cl_tun_addr6 base),
     cl_tun_prefix6 := set_some (ts_prefix6 (cf_tun file)) (cl_tun_prefix6 base),
     cl_tun_mtu := set_if (ts_mtu (cf_tun file)) (cl_tun_mtu base),
     cl_obfuscation := set_some (cf_obfuscation file) (cl_obfuscation base),
     cl_fec := merge_fec (cf_fec file) (cl_fec base),
     cl_carrier := set_if (cf_carrier file) (cl_carrier base),
     cl_frame := set_if (cf_frame file) (cl_frame base),
     cl_handshake := set_if (cf_handshake file) (cl_handshake base),
     cl_crypto := set_if (cf_crypto file) (cl_crypto base),
     cl_transport := set_if (cf_transport file) (cl_transport base),
     cl_congestion := set_if (cf_congestion file) (cl_congestion base)\<rparr>"

definition merge_client_config :: "ClientConfig \<Rightarrow> ClientFileConfig \<Rightarrow> ClientCliOverrides \<Rightarrow> ClientConfig" where
  "merge_client_config base file cli = (let base = merge_client_file file base in base\<lparr>
     cl_server := parse_or_keep (co_server cli) (cl_server base),
     cl_server_pubkey_hex := set_if (co_server_key cli) (cl_server_pubkey_hex base),
     cl_key_path := set_if (co_key cli) (cl_key_path base),
     cl_ipc_path := set_if (co_socket cli) (cl_ipc_path base),
     cl_route_all := set_if (co_route_all cli) (cl_route_all base),
     cl_route_path := set_some (co_route_path cli) (cl_route_path base),
     cl_reconnect := set_if (co_reconnect cli) (cl_reconnect base),
     cl_dns_leak_protection := set_if (co_dns_leak_protection cli) (cl_dns_leak_protection base),
     cl_dns := set_some (drop_empty (co_dns cli)) (cl_dns base),
     cl_kill_switch := set_if (co_kill_switch cli) (cl_kill_switch base),
     cl_enable_nat := set_if (co_enable_nat cli) (cl_enable_nat base),
     cl_nat_source_cidr := set_some (co_nat_source_cidr cli) (cl_nat_source_cidr base),
     cl_tun_name := set_if (co_tun cli) (cl_tun_name base),
     cl_tun_addr := set_if (co_tun_addr cli) (cl_tun_addr base),
     cl_tun_prefix := set_if (co_tun_prefix cli) (cl_tun_prefix base),
     cl_tun_addr6 := set_some (co_tun_addr6 cli) (cl_tun_addr6 base),
     cl_tun_prefix6 := set_some (co_tun_prefix6 cli) (cl_tun_prefix6 base),
     cl_tun_mtu := set_if (co_tun_mtu cli) (cl_tun_mtu base),
     cl_log_file := set_some (co_log_file cli) (cl_log_file base),
     cl_log_level := merge_log_level (co_verbose cli) (co_log_level cli) (cl_log_level base)\<rparr>)"

definition from_role_config ::
  "(string \<Rightarrow> bytes option) \<Rightarrow> HandshakeConfig \<Rightarrow> CryptoConfig \<Rightarrow> TransportConfig \<Rightarrow> FecConfig \<Rightarrow> CongestionConfig \<Rightarrow> FrameConfig
   \<Rightarrow> ProfileError + LocalProfile" where
  "from_role_config hex_decode handshake crypto transport fec congestion frame =
     try_bind (map_err (\<lambda>_. ConfigError ''[transport] tag_hex: transport unwrap rejected the input'')
         (parse_tag hex_decode (tr_tag_hex transport)))
       (\<lambda>data_tag. local_from_config (hk_kex handshake) (hk_propose handshake) (tr_handshake transport)
          (cy_aead crypto) (tr_data transport) (fc_scheme fec) data_tag (cg_algorithm congestion) (fr_codec frame))"

subsection \<open>Unknown keys\<close>

text \<open>\<open>toml::Value\<close>; a table lists its entries in the order of its iteration.\<close>

datatype toml_value =
    TScalar
  | TArray "toml_value list"
  | TTable "(string \<times> toml_value) list"

datatype SectionSchema = SectionSchema
  (scalars: "string list") (sub_tables: "(string \<times> SectionSchema) list") (array_tables: "(string \<times> SectionSchema) list")

definition TUN_SCHEMA :: SectionSchema where "TUN_SCHEMA = SectionSchema [''name'', ''addr'', ''prefix'', ''mtu''] [] []"
definition NAT_SCHEMA :: SectionSchema where "NAT_SCHEMA = SectionSchema [''enabled'', ''out_iface''] [] []"
definition CLIENT_NAT_SCHEMA :: SectionSchema where "CLIENT_NAT_SCHEMA = SectionSchema [''enabled'', ''source_cidr''] [] []"
definition OBFUSCATION_SCHEMA :: SectionSchema where
  "OBFUSCATION_SCHEMA = SectionSchema [''layers'', ''padding_buckets'', ''padding_max'', ''timing_max_jitter_us'',
     ''timing_decoy_interval_ms'', ''timing_decoy_max_len''] [] []"
definition PEER_SCHEMA :: SectionSchema where "PEER_SCHEMA = SectionSchema [''public_key'', ''name''] [] []"
definition FEC_SCHEMA :: SectionSchema where
  "FEC_SCHEMA = SectionSchema [''scheme'', ''k'', ''min_m'', ''max_m'', ''initial_m''] [] []"
definition FRAME_SCHEMA :: SectionSchema where "FRAME_SCHEMA = SectionSchema [''codec''] [] []"
definition CARRIER_SCHEMA :: SectionSchema where "CARRIER_SCHEMA = SectionSchema [''name''] [] []"
definition HANDSHAKE_SCHEMA :: SectionSchema where "HANDSHAKE_SCHEMA = SectionSchema [''kex'', ''propose''] [] []"
definition CRYPTO_SCHEMA :: SectionSchema where "CRYPTO_SCHEMA = SectionSchema [''aead''] [] []"
definition TRANSPORT_SCHEMA :: SectionSchema where
  "TRANSPORT_SCHEMA = SectionSchema [''handshake'', ''data'', ''tag_hex''] [] []"
definition CONGESTION_SCHEMA :: SectionSchema where "CONGESTION_SCHEMA = SectionSchema [''algorithm''] [] []"

definition SERVER_SCHEMA :: SectionSchema where
  "SERVER_SCHEMA = SectionSchema
     [''listen'', ''key_path'', ''ipc_path'', ''log_level'', ''log_file'', ''max_sessions_per_peer'']
     [(''tun'', TUN_SCHEMA), (''nat'', NAT_SCHEMA), (''obfuscation'', OBFUSCATION_SCHEMA), (''fec'', FEC_SCHEMA),
      (''carrier'', CARRIER_SCHEMA), (''frame'', FRAME_SCHEMA), (''handshake'', HANDSHAKE_SCHEMA),
      (''crypto'', CRYPTO_SCHEMA), (''transport'', TRANSPORT_SCHEMA), (''congestion'', CONGESTION_SCHEMA)]
     [(''peers'', PEER_SCHEMA)]"

definition CLIENT_SCHEMA :: SectionSchema where
  "CLIENT_SCHEMA = SectionSchema
     [''server'', ''server_key'', ''key_path'', ''ipc_path'', ''route_all'', ''route_path'', ''reconnect'',
      ''dns_leak_protection'', ''dns'', ''kill_switch'', ''log_level'', ''log_file'']
     [(''tun'', TUN_SCHEMA), (''nat'', CLIENT_NAT_SCHEMA), (''obfuscation'', OBFUSCATION_SCHEMA), (''fec'', FEC_SCHEMA),
      (''carrier'', CARRIER_SCHEMA), (''frame'', FRAME_SCHEMA), (''handshake'', HANDSHAKE_SCHEMA),
      (''crypto'', CRYPTO_SCHEMA), (''transport'', TRANSPORT_SCHEMA), (''congestion'', CONGESTION_SCHEMA)]
     []"

text \<open>The warnings, as the full paths of the keys warned about.\<close>

fun warn_unknown_keys :: "toml_value \<Rightarrow> string \<Rightarrow> SectionSchema \<Rightarrow> string list"
  and warn_entries :: "(string \<times> toml_value) list \<Rightarrow> string \<Rightarrow> SectionSchema \<Rightarrow> string list"
  and warn_elements :: "toml_value list \<Rightarrow> nat \<Rightarrow> string \<Rightarrow> SectionSchema \<Rightarrow> string list" where
  "warn_unknown_keys (TTable entries) path schema = warn_entries entries path schema"
| "warn_unknown_keys TScalar path schema = []"
| "warn_unknown_keys (TArray vs) path schema = []"
| "warn_entries [] path schema = []"
| "warn_entries ((key, val) # entries) path schema =
     (let full_path = (if path = [] then key else path @ ''.'' @ key)
      in if key \<in> set (scalars schema) then []
         else case map_of (sub_tables schema) key of
             Some sub_schema \<Rightarrow> warn_unknown_keys val full_path sub_schema
           | None \<Rightarrow>
               (case map_of (array_tables schema) key of
                  Some elem_schema \<Rightarrow> (case val of TArray arr \<Rightarrow> warn_elements arr 0 full_path elem_schema | _ \<Rightarrow> [])
                | None \<Rightarrow> [full_path])) @
     warn_entries entries path schema"
| "warn_elements [] i path schema = []"
| "warn_elements (elem # arr) i path schema =
     warn_unknown_keys elem (path @ ''['' @ show_nat i @ '']'') schema @ warn_elements arr (i + 1) path schema"

subsection \<open>Loading\<close>

text \<open>\<open>parse_value\<close> and \<open>parse_file\<close> decode the text to a value and to a file configuration.\<close>

definition from_toml ::
  "(string \<Rightarrow> string + toml_value) \<Rightarrow> (string \<Rightarrow> string + 'f) \<Rightarrow> SectionSchema \<Rightarrow> string \<Rightarrow> (string + 'f) \<times> string list" where
  "from_toml parse_value parse_file schema s = (case parse_value s of
       Inl e \<Rightarrow> (Inl e, [])
     | Inr value \<Rightarrow> (parse_file s, warn_unknown_keys value [] schema))"

datatype read_outcome = FileText string | FileMissing | FileError string

datatype load_error = InvalidConfig path string | ReadError string | ConfigNotFound path | NoServerKey

record toml_lib =
  tl_value :: "string \<Rightarrow> string + toml_value"
  tl_server :: "string \<Rightarrow> string + ServerFileConfig"
  tl_client :: "string \<Rightarrow> string + ClientFileConfig"

definition load_or_empty_server :: "toml_lib \<Rightarrow> (path \<Rightarrow> read_outcome) \<Rightarrow> path \<Rightarrow> load_error + ServerFileConfig" where
  "load_or_empty_server lib read p = (case read p of
       FileText s \<Rightarrow> map_err (InvalidConfig p) (fst (from_toml (tl_value lib) (tl_server lib) SERVER_SCHEMA s))
     | FileMissing \<Rightarrow> Inr server_file_empty
     | FileError e \<Rightarrow> Inl (ReadError e))"

definition load_or_empty_client :: "toml_lib \<Rightarrow> (path \<Rightarrow> read_outcome) \<Rightarrow> path \<Rightarrow> load_error + ClientFileConfig" where
  "load_or_empty_client lib read p = (case read p of
       FileText s \<Rightarrow> map_err (InvalidConfig p) (fst (from_toml (tl_value lib) (tl_client lib) CLIENT_SCHEMA s))
     | FileMissing \<Rightarrow> Inr client_file_empty
     | FileError e \<Rightarrow> Inl (ReadError e))"

text \<open>\<open>present\<close> is the check for the file that follows the read.\<close>

definition load_server_config ::
  "toml_lib \<Rightarrow> (path \<Rightarrow> read_outcome) \<Rightarrow> (path \<Rightarrow> bool) \<Rightarrow> path option \<Rightarrow> load_error + ServerFileConfig \<times> path" where
  "load_server_config lib read present explicit = (case explicit of
       Some p \<Rightarrow> try_bind (load_or_empty_server lib read p) (\<lambda>f. if \<not> present p then Inl (ConfigNotFound p) else Inr (f, p))
     | None \<Rightarrow> let p = default_config_path ''server'' in try_bind (load_or_empty_server lib read p) (\<lambda>f. Inr (f, p)))"

definition load_client_config ::
  "toml_lib \<Rightarrow> (path \<Rightarrow> read_outcome) \<Rightarrow> (path \<Rightarrow> bool) \<Rightarrow> path option \<Rightarrow> load_error + ClientFileConfig" where
  "load_client_config lib read present explicit = (case explicit of
       Some p \<Rightarrow> try_bind (load_or_empty_client lib read p) (\<lambda>f. if \<not> present p then Inl (ConfigNotFound p) else Inr f)
     | None \<Rightarrow> load_or_empty_client lib read (default_config_path ''client''))"

text \<open>The commands \<open>server\<close> and \<open>client\<close> up to the start of the daemon.\<close>

definition cmd_server ::
  "toml_lib \<Rightarrow> (path \<Rightarrow> read_outcome) \<Rightarrow> (path \<Rightarrow> bool) \<Rightarrow> path option \<Rightarrow> ServerCliOverrides \<Rightarrow> load_error + ServerConfig" where
  "cmd_server lib read present config cli =
     try_bind (load_server_config lib read present config) (\<lambda>(file, config_path).
       Inr ((merge_server_config server_default file cli)\<lparr>sc_config_path := Some config_path\<rparr>))"

record client_flags =
  fl_no_route :: bool
  fl_no_reconnect :: bool
  fl_no_dns_leak_protection :: bool
  fl_kill_switch :: bool
  fl_no_nat :: bool

definition then_some :: "bool \<Rightarrow> 'a \<Rightarrow> 'a option" where
  "then_some b v = (if b then Some v else None)"

definition client_overrides :: "client_flags \<Rightarrow> ClientCliOverrides \<Rightarrow> ClientCliOverrides" where
  "client_overrides fl cli = cli\<lparr>co_route_all := then_some (fl_no_route fl) False,
     co_reconnect := then_some (fl_no_reconnect fl) False,
     co_dns_leak_protection := then_some (fl_no_dns_leak_protection fl) False,
     co_kill_switch := then_some (fl_kill_switch fl) True, co_enable_nat := then_some (fl_no_nat fl) False\<rparr>"

definition cmd_client ::
  "toml_lib \<Rightarrow> (path \<Rightarrow> read_outcome) \<Rightarrow> (path \<Rightarrow> bool) \<Rightarrow> path option \<Rightarrow> client_flags \<Rightarrow> ClientCliOverrides
   \<Rightarrow> load_error + ClientConfig" where
  "cmd_client lib read present config fl cli =
     try_bind (load_client_config lib read present config) (\<lambda>file.
       let cfg = merge_client_config client_default file (client_overrides fl cli)
       in if trim (cl_server_pubkey_hex cfg) = [] then Inl NoServerKey else Inr cfg)"

subsection \<open>Precedence\<close>

text \<open>The documented rule, field by field: the command line, else the file, else the base.\<close>

definition resolved_fec :: "FecSection option \<Rightarrow> FecConfig \<Rightarrow> FecConfig" where
  "resolved_fec sec base = \<lparr>
     fc_scheme = config_pick None (Option.bind sec fs_scheme) (fc_scheme base),
     fc_k = config_pick None (Option.bind sec fs_k) (fc_k base),
     fc_min_m = config_pick None (Option.bind sec fs_min_m) (fc_min_m base),
     fc_max_m = config_pick None (Option.bind sec fs_max_m) (fc_max_m base),
     fc_initial_m = config_pick None (Option.bind sec fs_initial_m) (fc_initial_m base)\<rparr>"

definition resolved_server :: "ServerConfig \<Rightarrow> ServerFileConfig \<Rightarrow> ServerCliOverrides \<Rightarrow> ServerConfig" where
  "resolved_server base file cli = \<lparr>
     sc_listen = config_pick (Option.bind (so_listen cli) parse_socket_addr) (sf_listen file) (sc_listen base),
     sc_tun_name = config_pick (so_tun cli) (ts_name (sf_tun file)) (sc_tun_name base),
     sc_tun_addr = config_pick (so_tun_addr cli) (ts_addr (sf_tun file)) (sc_tun_addr base),
     sc_tun_prefix = config_pick (so_tun_prefix cli) (ts_prefix (sf_tun file)) (sc_tun_prefix base),
     sc_tun_addr6 = config_pick (map_option Some (so_tun_addr6 cli)) (map_option Some (ts_addr6 (sf_tun file))) (sc_tun_addr6 base),
     sc_tun_prefix6 = config_pick (map_option Some (so_tun_prefix6 cli)) (map_option Some (ts_prefix6 (sf_tun file))) (sc_tun_prefix6 base),
     sc_tun_mtu = config_pick (so_tun_mtu cli) (ts_mtu (sf_tun file)) (sc_tun_mtu base),
     sc_key_path = config_pick (so_key cli) (sf_key_path file) (sc_key_path base),
     sc_enable_nat = config_pick (so_nat cli) (ns_enabled (sf_nat file)) (sc_enable_nat base),
     sc_nat_out_iface = config_pick (map_option Some (so_nat_iface cli)) (map_option Some (ns_out_iface (sf_nat file))) (sc_nat_out_iface base),
     sc_ipc_path = config_pick (so_socket cli) (sf_ipc_path file) (sc_ipc_path base),
     sc_peers = config_pick None (map_option Some (sf_peers file)) (sc_peers base),
     sc_config_path = sc_config_path base,
     sc_log_level = config_pick (map_option Some (if so_verbose cli then Some ''debug'' else so_log_level cli)) (map_option Some (sf_log_level file)) (sc_log_level base),
     sc_log_file = config_pick (map_option Some (so_log_file cli)) (map_option Some (sf_log_file file)) (sc_log_file base),
     sc_obfuscation = config_pick None (map_option Some (sf_obfuscation file)) (sc_obfuscation base),
     sc_fec = resolved_fec (sf_fec file) (sc_fec base),
     sc_carrier = config_pick None (sf_carrier file) (sc_carrier base),
     sc_frame = config_pick None (sf_frame file) (sc_frame base),
     sc_handshake = config_pick None (sf_handshake file) (sc_handshake base),
     sc_crypto = config_pick None (sf_crypto file) (sc_crypto base),
     sc_transport = config_pick None (sf_transport file) (sc_transport base),
     sc_congestion = config_pick None (sf_congestion file) (sc_congestion base),
     sc_max_sessions_per_peer = config_pick (so_max_sessions_per_peer cli) (sf_max_sessions_per_peer file) (sc_max_sessions_per_peer base)\<rparr>"

definition resolved_client :: "ClientConfig \<Rightarrow> ClientFileConfig \<Rightarrow> ClientCliOverrides \<Rightarrow> ClientConfig" where
  "resolved_client base file cli = \<lparr>
     cl_server = config_pick (Option.bind (co_server cli) parse_socket_addr) (cf_server file) (cl_server base),
     cl_server_pubkey_hex = config_pick (co_server_key cli) (cf_server_key file) (cl_server_pubkey_hex base),
     cl_tun_name = config_pick (co_tun cli) (ts_name (cf_tun file)) (cl_tun_name base),
     cl_tun_addr = config_pick (co_tun_addr cli) (ts_addr (cf_tun file)) (cl_tun_addr base),
     cl_tun_prefix = config_pick (co_tun_prefix cli) (ts_prefix (cf_tun file)) (cl_tun_prefix base),
     cl_tun_addr6 = config_pick (map_option Some (co_tun_addr6 cli)) (map_option Some (ts_addr6 (cf_tun file))) (cl_tun_addr6 base),
     cl_tun_prefix6 = config_pick (map_option Some (co_tun_prefix6 cli)) (map_option Some (ts_prefix6 (cf_tun file))) (cl_tun_prefix6 base),
     cl_tun_mtu = config_pick (co_tun_mtu cli) (ts_mtu (cf_tun file)) (cl_tun_mtu base),
     cl_key_path = config_pick (co_key cli) (cf_key_path file) (cl_key_path base),
     cl_ipc_path = config_pick (co_socket cli) (cf_ipc_path file) (cl_ipc_path base),
     cl_route_all = config_pick (co_route_all cli) (cf_route_all file) (cl_route_all base),
     cl_route_path = config_pick (map_option Some (co_route_path cli)) (map_option Some (cf_route_path file)) (cl_route_path base),
     cl_reconnect = config_pick (co_reconnect cli) (cf_reconnect file) (cl_reconnect base),
     cl_dns_leak_protection = config_pick (co_dns_leak_protection cli) (cf_dns_leak_protection file) (cl_dns_leak_protection base),
     cl_dns = config_pick (map_option Some (drop_empty (co_dns cli))) (map_option Some (drop_empty (cf_dns file))) (cl_dns base),
     cl_kill_switch = config_pick (co_kill_switch cli) (cf_kill_switch file) (cl_kill_switch base),
     cl_enable_nat = config_pick (co_enable_nat cli) (cn_enabled (cf_nat file)) (cl_enable_nat base),
     cl_nat_source_cidr = config_pick (map_option Some (co_nat_source_cidr cli)) (map_option Some (cn_source_cidr (cf_nat file))) (cl_nat_source_cidr base),
     cl_log_level = config_pick (map_option Some (if co_verbose cli then Some ''debug'' else co_log_level cli)) (map_option Some (cf_log_level file)) (cl_log_level base),
     cl_log_file = config_pick (map_option Some (co_log_file cli)) (map_option Some (cf_log_file file)) (cl_log_file base),
     cl_obfuscation = config_pick None (map_option Some (cf_obfuscation file)) (cl_obfuscation base),
     cl_fec = resolved_fec (cf_fec file) (cl_fec base),
     cl_carrier = config_pick None (cf_carrier file) (cl_carrier base),
     cl_frame = config_pick None (cf_frame file) (cl_frame base),
     cl_handshake = config_pick None (cf_handshake file) (cl_handshake base),
     cl_crypto = config_pick None (cf_crypto file) (cl_crypto base),
     cl_transport = config_pick None (cf_transport file) (cl_transport base),
     cl_congestion = config_pick None (cf_congestion file) (cl_congestion base)\<rparr>"

lemma config_pick_layers: "config_pick cli file def = set_if cli (set_if file def)"
  by (auto simp: config_pick_def set_if_def split: option.splits)

lemma set_if_cases [simp]:
  "set_if (map_option Some new) old' = set_some new old'"
  "set_if (Option.bind text parse_socket_addr) addr = parse_or_keep text addr"
  by (auto simp: set_if_def set_some_def parse_or_keep_def split: option.splits)

lemma set_if_None [simp]: "set_if None old = old" "set_some None old' = old'"
  by (simp_all add: set_if_def set_some_def)

lemma merge_fec_resolved: "merge_fec sec base = resolved_fec sec base"
  by (cases sec) (simp_all add: merge_fec_def resolved_fec_def config_pick_layers)

lemma merge_log_level_set: "merge_log_level v new old = set_some (if v then Some ''debug'' else new) old"
  by (simp add: merge_log_level_def set_some_def)

lemma merge_server_resolved: "merge_server_config base file cli = resolved_server base file cli"
  by (rule ServerConfig.equality)
     (simp_all add: merge_server_config_def merge_server_file_def resolved_server_def merge_fec_resolved
        merge_log_level_set Let_def config_pick_layers)

lemma merge_client_resolved: "merge_client_config base file cli = resolved_client base file cli"
  by (rule ClientConfig.equality)
     (simp_all add: merge_client_config_def merge_client_file_def resolved_client_def merge_fec_resolved
        merge_log_level_set Let_def config_pick_layers)

text \<open>What the flags of the client add to the other settings.\<close>

definition no_flags :: "ClientCliOverrides \<Rightarrow> ClientCliOverrides" where
  "no_flags cli = cli\<lparr>co_route_all := None, co_reconnect := None, co_dns_leak_protection := None,
     co_kill_switch := None, co_enable_nat := None\<rparr>"

definition flagged :: "client_flags \<Rightarrow> ClientConfig \<Rightarrow> ClientConfig" where
  "flagged fl cfg = cfg\<lparr>cl_route_all := (cl_route_all cfg \<and> \<not> fl_no_route fl),
     cl_reconnect := (cl_reconnect cfg \<and> \<not> fl_no_reconnect fl),
     cl_dns_leak_protection := (cl_dns_leak_protection cfg \<and> \<not> fl_no_dns_leak_protection fl),
     cl_kill_switch := (cl_kill_switch cfg \<or> fl_kill_switch fl), cl_enable_nat := (cl_enable_nat cfg \<and> \<not> fl_no_nat fl)\<rparr>"

lemma flags_resolved:
  "resolved_client base fc (client_overrides fl cli) = flagged fl (resolved_client base fc (no_flags cli))"
  by (simp add: flagged_def no_flags_def resolved_client_def client_overrides_def then_some_def config_pick_layers set_if_def)

text \<open>The keys \<open>addr6\<close> and \<open>prefix6\<close> of the section \<open>[tun]\<close> take effect, and yet the schema does not know them.\<close>

lemma tun_addr6_warned:
  "warn_unknown_keys (TTable [(''tun'', TTable [(''addr6'', TScalar), (''prefix6'', TScalar)])]) [] SERVER_SCHEMA
     = [''tun.addr6'', ''tun.prefix6'']"
  "ts_addr6 (sf_tun fc) = Some a \<Longrightarrow> so_tun_addr6 cli = None \<Longrightarrow> sc_tun_addr6 (merge_server_config base fc cli) = Some a"
  by (simp_all add: SERVER_SCHEMA_def TUN_SCHEMA_def merge_server_resolved resolved_server_def config_pick_def)

subsection \<open>Properties\<close>

text \<open>C28. Both commands resolve every setting as documented: the command line wins over the file and the
  file over the built-in default, field by field and inside the section \<open>[fec]\<close>; \<open>--verbose\<close> beats \<open>--log-level\<close>, an address on
  the command line that does not parse does not count, and the flags of the client can only switch
  route-all, reconnection, DNS protection and NAT off and the kill switch on. A \<open>--config\<close> path must exist, a
  missing default file is an empty one, and a client without a server key does not start.\<close>

theorem config_precedence:
  "cmd_server lib read present config cli =
     (case load_server_config lib read present config of
        Inl e \<Rightarrow> Inl e
      | Inr (fc, p) \<Rightarrow> Inr ((resolved_server server_default fc cli)\<lparr>sc_config_path := Some p\<rparr>)) \<and>
   cmd_client lib read present config fl ccli =
     (case load_client_config lib read present config of
        Inl e \<Rightarrow> Inl e
      | Inr fc \<Rightarrow>
          let cfg = flagged fl (resolved_client client_default fc (no_flags ccli))
          in if trim (cl_server_pubkey_hex cfg) = [] then Inl NoServerKey else Inr cfg) \<and>
   load_server_config lib (\<lambda>_. FileMissing) present None = Inr (server_file_empty, default_config_path ''server'') \<and>
   load_client_config lib (\<lambda>_. FileMissing) present None = Inr client_file_empty \<and>
   load_server_config lib (\<lambda>_. FileMissing) (\<lambda>_. False) (Some p) = Inl (ConfigNotFound p) \<and>
   load_client_config lib (\<lambda>_. FileMissing) (\<lambda>_. False) (Some p) = Inl (ConfigNotFound p)"
proof (intro conjI)
  show "cmd_client lib read present config fl ccli =
     (case load_client_config lib read present config of
        Inl e \<Rightarrow> Inl e
      | Inr fc \<Rightarrow>
          let cfg = flagged fl (resolved_client client_default fc (no_flags ccli))
          in if trim (cl_server_pubkey_hex cfg) = [] then Inl NoServerKey else Inr cfg)"
    by (simp add: cmd_client_def merge_client_resolved flags_resolved Let_def split: sum.split)
qed (simp_all add: cmd_server_def merge_server_resolved load_server_config_def load_client_config_def
    load_or_empty_server_def load_or_empty_client_def Let_def split: sum.split prod.split)

end
