(* ===== verification/Command_Line.thy ===== *)
theory Command_Line
  imports Control_Socket Status_Report Key_Store Dns_Check Configuration
begin

text \<open>
  The commands of the program (\<open>src/src/cli.rs\<close>) and the client side of the control socket (\<open>request\<close> in
  \<open>src/src/ipc/mod.rs\<close>). The parser of the arguments is the crate \<open>clap\<close>: \<open>Cmd\<close> is what it yields. The daemons, the
  JSON codec and the operating system are the record \<open>cli_env\<close>. A command prints to its two streams and ends
  with success, an error, or status 1.
\<close>

subsection \<open>A request over the control socket\<close>

datatype connect_error = ConnNotFound | ConnRefused | ConnOther string

datatype ipc_error = NoDaemon path | IpcIo string | BadResponse string

text \<open>A connection takes the bytes written and yields the first line read back, empty at the end of the stream.\<close>

type_synonym connection = "string \<Rightarrow> string + string"

definition request ::
  "(string \<Rightarrow> string + 'st Response) \<Rightarrow> (Request \<Rightarrow> string) \<Rightarrow> (path \<Rightarrow> connect_error + connection) \<Rightarrow> path \<Rightarrow> Request
   \<Rightarrow> ipc_error + 'st Response" where
  "request parse render connect path req = (case connect path of
       Inl ConnNotFound \<Rightarrow> Inl (NoDaemon path)
     | Inl ConnRefused \<Rightarrow> Inl (NoDaemon path)
     | Inl (ConnOther e) \<Rightarrow> Inl (IpcIo e)
     | Inr conn \<Rightarrow> (case conn (render req @ [CHR 0x0A]) of
         Inl e \<Rightarrow> Inl (IpcIo e)
       | Inr line \<Rightarrow> map_err BadResponse (parse (trim line))))"

subsection \<open>Commands\<close>

datatype Cmd =
    CmdServer "path option" ServerCliOverrides
  | CmdClient "path option" client_flags ClientCliOverrides
  | CmdStatus "path option"
  | CmdStop "path option"
  | CmdPing "path option"
  | CmdRevoke string "path option"
  | CmdListSessions "path option"
  | CmdDisconnect "u32 option" "string option" "path option"
  | CmdDnsCheck "path option" "string option" "string option"
  | CmdKeygen path
  | CmdPubkey path

datatype cli_output = Out string | ErrOut string

datatype cli_error = ConfigErr load_error | IpcErr ipc_error | KeyErr key_error | DaemonErr string

datatype cmd_exit = ExitOk | ExitErr cli_error | ExitCode1

type_synonym cmd_outcome = "cli_output list \<times> cmd_exit"

definition resolve_socket :: "path option \<Rightarrow> path" where
  "resolve_socket socket = (case socket of Some p \<Rightarrow> p | None \<Rightarrow> default_ipc_path)"

definition println :: "string \<Rightarrow> cli_output" where "println s = Out (s @ [CHR 0x0A])"
definition eprintln :: "string \<Rightarrow> cli_output" where "eprintln s = ErrOut (s @ [CHR 0x0A])"

definition session_line :: "SessionInfo \<Rightarrow> string" where
  "session_line s = ''session_id='' @ show_nat (unat (si_session_id s)) @ '' peer_key='' @ si_peer_key s @ '' name='' @
     (case si_peer_name s of Some n \<Rightarrow> n | None \<Rightarrow> ''-'') @ '' addr='' @ si_peer_addr s @ '' roams='' @
     show_nat (unat (si_roam_count s)) @ '' age='' @ fmt_fixed 1 (si_age_secs s) @ ''s''"

text \<open>What each command does with the response; \<open>debug\<close> is the derived \<open>Debug\<close> format.\<close>

definition rejected_response :: "(Stats Response \<Rightarrow> string) \<Rightarrow> Stats Response \<Rightarrow> cmd_outcome" where
  "rejected_response debug resp = (case resp of
       RespError e \<Rightarrow> ([eprintln (''error: '' @ e)], ExitCode1)
     | other \<Rightarrow> ([eprintln (''unexpected response: '' @ debug other)], ExitCode1))"

definition status_response :: "(Stats Response \<Rightarrow> string) \<Rightarrow> Stats Response \<Rightarrow> cmd_outcome" where
  "status_response debug resp = (case resp of
       RespStatus s \<Rightarrow> ([Out (format_stats s)], ExitOk)
     | RespAck m \<Rightarrow> ([eprintln (''ack: '' @ m)], ExitOk)
     | _ \<Rightarrow> rejected_response debug resp)"

definition print_response :: "(Stats Response \<Rightarrow> string) \<Rightarrow> Stats Response \<Rightarrow> cmd_outcome" where
  "print_response debug resp = (case resp of
       RespAck m \<Rightarrow> ([println m], ExitOk)
     | other \<Rightarrow> ([println (debug other)], ExitOk))"

definition ack_response :: "(Stats Response \<Rightarrow> string) \<Rightarrow> Stats Response \<Rightarrow> cmd_outcome" where
  "ack_response debug resp = (case resp of
       RespAck m \<Rightarrow> ([println m], ExitOk)
     | _ \<Rightarrow> rejected_response debug resp)"

definition sessions_response :: "(Stats Response \<Rightarrow> string) \<Rightarrow> Stats Response \<Rightarrow> cmd_outcome" where
  "sessions_response debug resp = (case resp of
       RespSessions infos \<Rightarrow>
         (if infos = [] then [println ''no active sessions''] else map (\<lambda>s. println (session_line s)) infos, ExitOk)
     | _ \<Rightarrow> rejected_response debug resp)"

subsection \<open>Logging\<close>

text \<open>\<open>init_tracing\<close> of \<open>src/src/logging.rs\<close>: the filter, the directory and name of the log file if it is used, and the warning.
  \<open>open_log\<close> says whether the appender of the crate opens the file; \<open>rust_log\<close> is the environment variable.\<close>

record log_setup =
  lg_filter :: string
  lg_file :: "(string \<times> string) option"
  lg_warning :: "cli_output list"

definition init_tracing :: "string option \<Rightarrow> (string \<Rightarrow> string \<Rightarrow> bool) \<Rightarrow> string option \<Rightarrow> path option \<Rightarrow> log_setup" where
  "init_tracing rust_log open_log log_level log_file =
     (let filter = (case rust_log of Some v \<Rightarrow> v | None \<Rightarrow> (case log_level of Some l \<Rightarrow> l | None \<Rightarrow> ''info''))
      in case log_file of
          None \<Rightarrow> \<lparr>lg_filter = filter, lg_file = None, lg_warning = []\<rparr>
        | Some p \<Rightarrow>
            (let dir = (if has_parent p then parent_dir p else ''.'');
                 filename = (case file_name p of Some n \<Rightarrow> n | None \<Rightarrow> ''rustnies.log'')
             in if open_log dir filename then \<lparr>lg_filter = filter, lg_file = Some (dir, filename), lg_warning = []\<rparr>
                else \<lparr>lg_filter = filter, lg_file = None,
                  lg_warning = [eprintln (''failed to open log file '' @ p @ ''; logging to stdout only'')]\<rparr>))"

subsection \<open>The dispatch\<close>

record cli_env =
  ev_lib :: toml_lib
  ev_read :: "path \<Rightarrow> read_outcome"
  ev_present :: "path \<Rightarrow> bool"
  ev_rust_log :: "string option"
  ev_open_log :: "string \<Rightarrow> string \<Rightarrow> bool"
  ev_server :: "ServerConfig \<Rightarrow> string + unit"
  ev_client :: "ClientConfig \<Rightarrow> string + unit"
  ev_connect :: "path \<Rightarrow> connect_error + connection"
  ev_parse :: "string \<Rightarrow> string + Stats Response"
  ev_render :: "Request \<Rightarrow> string"
  ev_debug :: "Stats Response \<Rightarrow> string"
  ev_crypto :: noise_crypto
  ev_hex :: "bytes \<Rightarrow> string"
  ev_random :: bytes
  ev_key_io :: key_io
  ev_pub_io :: key_io
  ev_resolv :: "string \<Rightarrow> string + string"
  ev_lookup :: "string \<Rightarrow> string + string list"
  ev_listing1 :: chain_listing
  ev_listing2 :: chain_listing

definition daemon_outcome :: "cli_env \<Rightarrow> string option \<Rightarrow> path option \<Rightarrow> string + unit \<Rightarrow> cmd_outcome" where
  "daemon_outcome env log_level log_file r =
     (lg_warning (init_tracing (ev_rust_log env) (ev_open_log env) log_level log_file), case r of Inl e \<Rightarrow> ExitErr (DaemonErr e) | Inr _ \<Rightarrow> ExitOk)"

definition ask :: "cli_env \<Rightarrow> path option \<Rightarrow> Request \<Rightarrow> (Stats Response \<Rightarrow> cmd_outcome) \<Rightarrow> cmd_outcome" where
  "ask env socket req k = (case request (ev_parse env) (ev_render env) (ev_connect env) (resolve_socket socket) req of
       Inl e \<Rightarrow> ([], ExitErr (IpcErr e))
     | Inr resp \<Rightarrow> k resp)"

definition key_outcome :: "(key_error + string) \<times> key_fs \<Rightarrow> cmd_outcome \<times> key_fs" where
  "key_outcome r = (case r of
       (Inl e, fs) \<Rightarrow> (([], ExitErr (KeyErr e)), fs)
     | (Inr pubkey_hex, fs) \<Rightarrow> (([println pubkey_hex], ExitOk), fs))"

fun run_cmd :: "cli_env \<Rightarrow> Cmd \<Rightarrow> key_fs \<Rightarrow> cmd_outcome \<times> key_fs" where
  "run_cmd env (CmdServer config cli) fs =
     (case cmd_server (ev_lib env) (ev_read env) (ev_present env) config cli of
        Inl e \<Rightarrow> ([], ExitErr (ConfigErr e))
      | Inr cfg \<Rightarrow> daemon_outcome env (sc_log_level cfg) (sc_log_file cfg) (ev_server env cfg), fs)"
| "run_cmd env (CmdClient config fl cli) fs =
     (case cmd_client (ev_lib env) (ev_read env) (ev_present env) config fl cli of
        Inl e \<Rightarrow> ([], ExitErr (ConfigErr e))
      | Inr cfg \<Rightarrow> daemon_outcome env (cl_log_level cfg) (cl_log_file cfg) (ev_client env cfg), fs)"
| "run_cmd env (CmdStatus socket) fs = (ask env socket ReqStatus (status_response (ev_debug env)), fs)"
| "run_cmd env (CmdStop socket) fs = (ask env socket ReqStop (print_response (ev_debug env)), fs)"
| "run_cmd env (CmdPing socket) fs = (ask env socket ReqPing (print_response (ev_debug env)), fs)"
| "run_cmd env (CmdRevoke peer_key socket) fs = (ask env socket (ReqRevoke peer_key) (ack_response (ev_debug env)), fs)"
| "run_cmd env (CmdListSessions socket) fs = (ask env socket ReqListSessions (sessions_response (ev_debug env)), fs)"
| "run_cmd env (CmdDisconnect session peer_key socket) fs =
     (ask env socket (ReqDisconnect session peer_key) (ack_response (ev_debug env)), fs)"
| "run_cmd env (CmdDnsCheck resolv tun host) fs =
     ((map println (cmd_dns_check (ev_resolv env) (ev_listing1 env) (ev_lookup env) (ev_listing2 env) resolv tun host), ExitOk), fs)"
| "run_cmd env (CmdKeygen key) fs =
     key_outcome (cmd_keygen (ev_crypto env) (ev_hex env) (ev_random env) (ev_key_io env) (ev_pub_io env) key fs)"
| "run_cmd env (CmdPubkey key) fs =
     key_outcome (cmd_pubkey (ev_crypto env) (ev_hex env) (ev_random env) (ev_key_io env) (ev_pub_io env) key fs)"

subsection \<open>A command against a daemon\<close>

text \<open>The connection to a daemon whose control socket is served by \<open>handle_client\<close>.\<close>

definition served_by ::
  "(string \<Rightarrow> bytes option) \<Rightarrow> bool \<Rightarrow> dispatcher \<Rightarrow> (string \<Rightarrow> string + Request) \<Rightarrow> ('st Response \<Rightarrow> string) \<Rightarrow> 'st \<Rightarrow> ServerState
   \<Rightarrow> connection" where
  "served_by hex_decode server_handle dispatch parse render status s body =
     Inr (case fst (handle_client hex_decode server_handle dispatch parse render (map (\<lambda>l. (l, status)) (lines body)) s) of
            line # _ \<Rightarrow> line | [] \<Rightarrow> [])"

text \<open>What both ends need of the JSON codec: it inverts itself and writes a request and a response on one line
  without white space around it.\<close>

definition one_line :: "string \<Rightarrow> bool" where
  "one_line s \<longleftrightarrow> CHR 0x0A \<notin> set s \<and> s \<noteq> [] \<and> \<not> is_whitespace (hd s) \<and> \<not> is_whitespace (last s)"

definition json_laws ::
  "(string \<Rightarrow> string + Request) \<Rightarrow> (Request \<Rightarrow> string) \<Rightarrow> (string \<Rightarrow> string + 'st Response) \<Rightarrow> ('st Response \<Rightarrow> string) \<Rightarrow> bool" where
  "json_laws parse_req render_req parse_resp render_resp \<longleftrightarrow>
     (\<forall>r. parse_req (render_req r) = Inr r \<and> one_line (render_req r)) \<and>
     (\<forall>r. parse_resp (render_resp r) = Inr r \<and> one_line (render_resp r))"

lemma split_lines_one: "CHR 0x0A \<notin> set s \<Longrightarrow> split_lines acc (s @ [CHR 0x0A]) = [strip_cr (rev acc @ s)]"
  by (induction s arbitrary: acc) auto

lemma lines_one: "one_line s \<Longrightarrow> lines (s @ [CHR 0x0A]) = [s]"
  by (auto simp: lines_def one_line_def split_lines_one strip_cr_def is_whitespace_def)

lemma trim_line: "one_line s \<Longrightarrow> trim (s @ [CHR 0x0A]) = s"
proof -
  assume s: "one_line s"
  then have "dropWhile is_whitespace (s @ [CHR 0x0A]) = s @ [CHR 0x0A]" by (cases s) (auto simp: one_line_def)
  moreover have "dropWhile is_whitespace (rev s) = rev s" using s by (cases s rule: rev_cases) (auto simp: one_line_def)
  ultimately show "trim (s @ [CHR 0x0A]) = s" by (simp add: trim_def is_whitespace_def [of "CHR 0x0A"])
qed

lemma request_answered:
  assumes "json_laws parse_req render_req parse_resp render_resp"
    "connect path = Inr (served_by hex sh dispatch parse_req render_resp status s)"
  shows "request parse_resp render_req connect path req = Inr (fst (handle_request hex sh dispatch status req s))"
proof -
  have l: "parse_req (render_req req) = Inr req" "one_line (render_req req)"
    "parse_resp (render_resp x) = Inr x" "one_line (render_resp x)" for x
    using assms(1) by (auto simp: json_laws_def)
  show ?thesis
    by (simp add: request_def assms(2) served_by_def lines_one [OF l(2)] l(1,3) trim_line [OF l(4)] split_def Let_def)
qed

text \<open>A command to a daemon that answers is decided by the daemon's handler of the request alone.\<close>

lemma ask_answered:
  assumes "json_laws parse_req (ev_render env) (ev_parse env) render_resp"
    "ev_connect env (resolve_socket socket) = Inr (served_by hex sh dispatch parse_req render_resp status s)"
  shows "ask env socket req k = k (fst (handle_request hex sh dispatch status req s))"
  using request_answered [OF assms(1), of "ev_connect env" "resolve_socket socket" hex sh dispatch status s req] assms(2)
  by (simp add: ask_def)

subsection \<open>Exit status\<close>

text \<open>\<open>revoke\<close> and \<open>disconnect\<close> succeed exactly if the daemon acknowledges, \<open>list-sessions\<close> exactly if it returns the list.\<close>

lemma command_succeeds_iff:
  "snd (ack_response debug resp) = ExitOk \<longleftrightarrow> (\<exists>m. resp = RespAck m)"
  "snd (sessions_response debug resp) = ExitOk \<longleftrightarrow> (\<exists>infos. resp = RespSessions infos)"
  "snd (status_response debug resp) = ExitOk \<longleftrightarrow> (\<exists>s. resp = RespStatus s) \<or> (\<exists>m. resp = RespAck m)"
  by (cases resp; simp add: ack_response_def sessions_response_def status_response_def rejected_response_def)+

text \<open>\<open>stop\<close> and \<open>ping\<close> report success whatever the daemon answers, an error included.\<close>

lemma print_response_ok: "snd (print_response debug resp) = ExitOk"
  by (cases resp) (simp_all add: print_response_def)

text \<open>On a client the server commands fail with status 1 and leave the daemon as it is.\<close>

lemma server_command_on_client:
  assumes "json_laws parse_req (ev_render env) (ev_parse env) render_resp"
    "ev_connect env (resolve_socket socket) = Inr (served_by hex False dispatch parse_req render_resp status s)"
  shows "run_cmd env (CmdRevoke key socket) fs =
      (([eprintln ''error: revoke is only available on the server daemon''], ExitCode1), fs)"
    "run_cmd env (CmdListSessions socket) fs =
      (([eprintln ''error: list_sessions is only available on the server daemon''], ExitCode1), fs)"
    "run_cmd env (CmdDisconnect sid key' socket) fs =
      (([eprintln ''error: disconnect is only available on the server daemon''], ExitCode1), fs)"
  by (simp_all add: ask_answered [OF assms] handle_revoke_def handle_list_sessions_def handle_disconnect_def
      ack_response_def sessions_response_def rejected_response_def)

text \<open>A daemon that cannot open its log file starts all the same, with a warning.\<close>

lemma log_file_optional:
  assumes "cmd_server (ev_lib env) (ev_read env) (ev_present env) config cli = Inr cfg" "ev_server env cfg = Inr ()"
  shows "snd (fst (run_cmd env (CmdServer config cli) fs)) = ExitOk"
  using assms by (simp add: daemon_outcome_def)

text \<open>\<open>status\<close> prints the report of the statistics at the moment of the request.\<close>

lemma status_reports:
  assumes "json_laws parse_req (ev_render env) (ev_parse env) render_resp"
    "ev_connect env (resolve_socket socket) =
      Inr (served_by hex sh dispatch parse_req render_resp (stats_snapshot elapsed c) s)"
  shows "run_cmd env (CmdStatus socket) fs = (([Out (format_stats (stats_snapshot elapsed c))], ExitOk), fs)"
  by (simp add: ask_answered [OF assms] status_response_def)

end
