(* ===== verification/Route_Cleanup.thy ===== *)
theory Route_Cleanup
  imports Route_Setup
begin

text \<open>
  What the routing set-up leaves behind. The code runs on a log of its commands with their outcomes;
  an outcome may depend on the whole history, so the results hold whatever fails when.
  \<open>pending\<close> collects the routes that were added to a main table and not deleted since; a deletion that fails
  deletes nothing.
\<close>

subsection \<open>Logged runs\<close>

type_synonym cmd_log = "(string \<times> string list \<times> bool) list"

definition logged ::
  "(cmd_log \<Rightarrow> string \<Rightarrow> string list \<Rightarrow> string + unit) \<Rightarrow> (cmd_log \<Rightarrow> string list \<Rightarrow> string option) \<Rightarrow> cmd_log os_calls" where
  "logged ok out = \<lparr>os_run = (\<lambda>c argv s. (ok s c argv, s @ [(c, argv, \<exists>u. ok s c argv = Inr u)])), os_output = (\<lambda>argv s. out s argv)\<rparr>"

definition family_args :: "string list \<Rightarrow> string list \<times> string list" where
  "family_args argv = (if argv \<noteq> [] \<and> hd argv = ''-6'' then ([''-6''], tl argv) else ([], argv))"

text \<open>A command that adds a route to the main table of its family, and the deletion that undoes it:
  the same destination and next hop or device.\<close>

definition main_add :: "string list \<Rightarrow> bool" where
  "main_add argv = (let a = snd (family_args argv)
     in take 2 a = [''route'', ''add''] \<and> \<not> (length a > 5 \<and> a ! (length a - 2) = ''table''))"

definition undo :: "string list \<Rightarrow> string list" where
  "undo argv = (let (pre, a) = family_args argv in pre @ [''route'', ''del''] @ take 3 (drop 2 a))"

definition rule_add :: "string list \<Rightarrow> bool" where
  "rule_add argv \<longleftrightarrow> take 2 (snd (family_args argv)) = [''rule'', ''add'']"

definition undo_rule :: "string list \<Rightarrow> string list" where "undo_rule argv = argv[op_index argv := ''del'']"

text \<open>The additions of a log that succeeded and are not followed by a deletion that succeeded: what is left on the host.\<close>

fun left_step :: "(string list \<Rightarrow> bool) \<Rightarrow> (string list \<Rightarrow> string list) \<Rightarrow> string \<times> string list \<times> bool \<Rightarrow> string list set \<Rightarrow> string list set" where
  "left_step is_add inverse_of (c, argv, done) P =
     (if c = ''ip'' \<and> done then {x \<in> P. inverse_of x \<noteq> argv} \<union> (if is_add argv then {argv} else {}) else P)"

definition left_over :: "(string list \<Rightarrow> bool) \<Rightarrow> (string list \<Rightarrow> string list) \<Rightarrow> cmd_log \<Rightarrow> string list set" where
  "left_over is_add inverse_of s = fold (left_step is_add inverse_of) s {}"

definition pending :: "cmd_log \<Rightarrow> string list set" where "pending = left_over main_add undo"

definition pending_rules :: "cmd_log \<Rightarrow> string list set" where "pending_rules = left_over rule_add undo_rule"

text \<open>The additions that succeeded and that the code has not tried to delete since.\<close>

fun ask_step :: "(string list \<Rightarrow> bool) \<Rightarrow> (string list \<Rightarrow> string list) \<Rightarrow> string \<times> string list \<times> bool \<Rightarrow> string list set \<Rightarrow> string list set" where
  "ask_step is_add inverse_of (c, argv, done) P =
     (if c = ''ip'' then {x \<in> P. inverse_of x \<noteq> argv} \<union> (if done \<and> is_add argv then {argv} else {}) else P)"

definition ask_over :: "(string list \<Rightarrow> bool) \<Rightarrow> (string list \<Rightarrow> string list) \<Rightarrow> cmd_log \<Rightarrow> string list set" where
  "ask_over is_add inverse_of s = fold (ask_step is_add inverse_of) s {}"

definition unasked :: "cmd_log \<Rightarrow> string list set" where "unasked = ask_over main_add undo"

text \<open>Route-all from installation to the drop of its guard.\<close>

definition route_all_session :: "'s os_calls \<Rightarrow> ipnet_lib \<Rightarrow> SocketAddr \<Rightarrow> string \<Rightarrow> 's \<Rightarrow> 's" where
  "route_all_session os lib server tun_name s =
     (case install_route_all os lib server tun_name s of
        (Inl e, s) \<Rightarrow> s
      | (Inr g, s) \<Rightarrow> route_guard_drop os g s)"

subsection \<open>Pending routes\<close>

lemma os_run_logged [simp]:
  "os_run (logged ok out) c argv s = (ok s c argv, s @ [(c, argv, \<exists>u. ok s c argv = Inr u)])"
  by (simp add: logged_def)

lemma ask_over_snoc [simp]: "ask_over A U (s @ [e]) = ask_step A U e (ask_over A U s)"
  by (simp add: ask_over_def)

lemma ask_over_quiet:
  "\<forall>a \<in> set cmds. \<not> A a \<Longrightarrow> ask_over A U (quiet (logged ok out) cmds s) = {x \<in> ask_over A U s. U x \<notin> set cmds}"
  unfolding quiet_def by (induction cmds arbitrary: s) auto

lemmas unasked_snoc [simp] = ask_over_snoc [of main_add undo, folded unasked_def]
lemmas unasked_quiet = ask_over_quiet [of _ main_add undo, folded unasked_def]

lemma left_over_snoc [simp]: "left_over A U (s @ [e]) = left_step A U e (left_over A U s)"
  by (simp add: left_over_def)

lemma left_over_quiet:
  "\<forall>a \<in> set cmds. \<not> A a \<and> (\<forall>x \<in> left_over A U s. U x \<noteq> a) \<Longrightarrow>
    left_over A U (quiet (logged ok out) cmds s) = left_over A U s"
  unfolding quiet_def by (induction cmds arbitrary: s) auto

text \<open>What is left and was tried to be deleted is left because the attempt failed.\<close>

lemma left_over_asked: "left_over A U s \<subseteq> ask_over A U s \<union> {x. (''ip'', U x, False) \<in> set s}"
proof (induction s rule: rev_induct)
  case (snoc e s)
  then show ?case by (cases e) (auto split: if_splits)
qed (simp add: left_over_def)

definition host :: "string \<Rightarrow> string \<Rightarrow> string list" where "host gw d = [''route'', ''add'', d, ''via'', gw]"
definition via_tun :: "string \<Rightarrow> string list" where "via_tun tun = [''route'', ''add'', ''default'', ''dev'', tun, ''metric'', ''1'']"

lemma undo_simps [simp]:
  "undo (host gw d) = [''route'', ''del'', d, ''via'', gw]" "undo (via_tun tun) = [''route'', ''del'', ''default'', ''dev'', tun]"
  "undo (''-6'' # host gw d) = [''-6'', ''route'', ''del'', d, ''via'', gw]"
  "undo (''-6'' # via_tun tun) = [''-6'', ''route'', ''del'', ''default'', ''dev'', tun]"
  by (simp_all add: undo_def family_args_def host_def via_tun_def)

lemma host_list [simp]: "(host gw d)[Suc 0 := ''del''] = [''route'', ''del'', d, ''via'', gw]" "host gw d ! 2 = d"
  "length (host gw d) = 5" "hd (host gw d) = ''route''" "host gw d ! 0 = ''route''"
  by (simp_all add: host_def numeral_2_eq_2)

lemma not_main_add [simp]:
  "\<not> main_add (''route'' # ''del'' # r)" "\<not> main_add (''-6'' # ''route'' # ''del'' # r)" "\<not> main_add (''rule'' # r)"
  "\<not> main_add (''-6'' # ''rule'' # r)"
  by (simp_all add: main_add_def family_args_def)

lemma plan_steps: "route_all_plan sip gw cs tun = host gw sip # map (host gw) cs @ [via_tun tun]"
  by (simp add: route_all_plan_def host_def [abs_def] via_tun_def)

lemma lan_exception_host: "is_lan_exception sip (host gw d) \<longleftrightarrow> d \<noteq> ''default'' \<and> d \<noteq> sip"
  by (auto simp: is_lan_exception_def)

lemma not_lan_via_tun: "\<not> is_lan_exception sip (via_tun tun)"
  by (simp add: is_lan_exception_def via_tun_def numeral_2_eq_2)

lemma rollback:
  assumes "unasked s \<subseteq> host gw ` set ds"
  shows "unasked (quiet (logged ok out) (map (\<lambda>argv. argv[1 := ''del'']) (rev (map (host gw) ds))) s) = {}"
proof -
  have "map (\<lambda>argv. argv[1 := ''del'']) (rev (map (host gw) ds)) = rev (map (undo \<circ> host gw) ds)"
    by (simp add: rev_map)
  moreover have "\<forall>a \<in> set (rev (map (undo \<circ> host gw) ds)). \<not> main_add a" by auto
  ultimately show ?thesis using assms by (simp only: unasked_quiet) auto
qed

lemma install_main_pending:
  assumes "unasked s \<subseteq> host gw ` set ds" "\<forall>d \<in> set ds. d = sip \<or> (d, gw) \<in> set lan" "\<forall>c \<in> set cs. c \<noteq> ''default''"
  shows "case install_main (logged ok out) sip gw (map (host gw) cs @ [via_tun tun]) lan (map (host gw) ds) s of
      (Inl e, s') \<Rightarrow> unasked s' = {}
    | (Inr lan', s') \<Rightarrow> unasked s' \<subseteq> insert (via_tun tun) (host gw ` insert sip {c. (c, gw) \<in> set lan'})"
  using assms
proof (induction cs arbitrary: s ds lan)
  case Nil
  have sub: "host gw ` set ds \<subseteq> host gw ` insert sip {c. (c, gw) \<in> set lan}" using Nil(2) by auto
  show ?case
  proof (cases "ok s ''ip'' (via_tun tun)")
    case (Inl e)
    have "unasked (s @ [(''ip'', via_tun tun, False)]) \<subseteq> host gw ` set ds" using Nil(1) by auto
    from rollback [OF this] show ?thesis by (simp add: Inl not_lan_via_tun del: rev_map)
  next
    case (Inr u)
    then show ?thesis using Nil(1) sub by (auto simp: not_lan_via_tun)
  qed
next
  case (Cons c cs)
  show ?case
  proof (cases "ok s ''ip'' (host gw c)")
    case (Inr u)
    let ?lan = "if is_lan_exception sip (host gw c) then lan @ [(c, gw)] else lan"
    have p: "unasked (s @ [(''ip'', host gw c, True)]) \<subseteq> host gw ` set (ds @ [c])" using Cons.prems(1) by auto
    have q: "\<forall>d \<in> set (ds @ [c]). d = sip \<or> (d, gw) \<in> set ?lan" "\<forall>c \<in> set cs. c \<noteq> ''default''"
      using Cons.prems(2,3) by (auto simp: lan_exception_host)
    show ?thesis using Cons.IH [OF p q] Inr by (cases "is_lan_exception sip (host gw c)") simp_all
  next
    case (Inl e)
    have p: "unasked (s @ [(''ip'', host gw c, False)]) \<subseteq> host gw ` set ds" using Cons.prems(1) by auto
    show ?thesis
      using Cons.IH [OF p Cons.prems(2)] Cons.prems(3) rollback [OF p] Inl by (simp del: rev_map)
  qed
qed

subsection \<open>The bypass table\<close>

definition net_display :: "ipnet_lib \<Rightarrow> bool" where "net_display lib \<longleftrightarrow> (\<forall>n. CHR ''/'' \<in> set (in_show lib n))"

lemma net_displayD: "net_display lib \<Longrightarrow> CHR ''/'' \<in> set (in_show lib n)"
  unfolding net_display_def by blast

lemma fold_keeps: "(\<And>x acc. x \<in> set xs \<Longrightarrow> P acc \<Longrightarrow> P (f x acc)) \<Longrightarrow> P acc \<Longrightarrow> P (fold f xs acc)"
  by (induction xs arbitrary: acc) auto

lemma parse_local_cidrs_shown: "net_display lib \<Longrightarrow> c \<in> set (parse_local_cidrs lib output) \<Longrightarrow> CHR ''/'' \<in> set c"
  unfolding parse_local_cidrs_def
  by (rule fold_keeps [where P = "\<lambda>cs. \<forall>c \<in> set cs. CHR ''/'' \<in> set c", THEN bspec], rule fold_keeps)
    (auto simp: push_new_def net_displayD split: option.split)

lemma parse_local_cidrs_v6_shown: "net_display lib \<Longrightarrow> c \<in> set (parse_local_cidrs_v6 lib output) \<Longrightarrow> CHR ''/'' \<in> set c"
  unfolding parse_local_cidrs_v6_def
  by (rule fold_keeps [where P = "\<lambda>cs. \<forall>c \<in> set cs. CHR ''/'' \<in> set c", THEN bspec], rule fold_keeps)
    (auto simp: push_new_def net_displayD split: option.split IpAddr.split)

lemma local_cidrs_shown:
  "net_display lib \<Longrightarrow> c \<in> set (local_cidrs_for os lib iface s) \<Longrightarrow> CHR ''/'' \<in> set c"
  "net_display lib \<Longrightarrow> c \<in> set (local_cidrs_for_v6 os lib iface s) \<Longrightarrow> CHR ''/'' \<in> set c"
  by (auto simp: local_cidrs_for_def local_cidrs_for_v6_def split: option.splits
      dest: parse_local_cidrs_shown parse_local_cidrs_v6_shown)

text \<open>No step of a bypass plan is recorded: the verb is looked up one place too far to the right.\<close>

lemma bypass_step:
  assumes "step \<in> set (bypass_plan gw iface cidrs addrs ip6)" "\<forall>c \<in> set cidrs. CHR ''/'' \<in> set c"
  shows "note_bypass step acc = acc" "\<not> main_add step" "\<not> main_add (step[op_index step := ''del''])"
  using assms by (cases ip6; auto simp: bypass_plan_def note_bypass_def op_index_def main_add_def family_args_def Let_def
      nth_Cons' numeral_2_eq_2)+

lemma install_bypass_pending:
  assumes "\<forall>step \<in> set plan. \<not> main_add step \<and> \<not> main_add (step[op_index step := ''del'']) \<and> note_bypass step acc = acc"
  shows "fst (install_bypass_plan (logged ok out) plan acc s) = acc \<and>
    unasked (snd (install_bypass_plan (logged ok out) plan acc s)) \<subseteq> unasked s"
  using assms
proof (induction plan arbitrary: s)
  case (Cons step plan)
  define s1 where "s1 = s @ [(''ip'', step[op_index step := ''del''], \<exists>u. ok s ''ip'' (step[op_index step := ''del'']) = Inr u)]"
  define s2 where "s2 = s1 @ [(''ip'', step, \<exists>u. ok s1 ''ip'' step = Inr u)]"
  have "install_bypass_plan (logged ok out) (step # plan) acc s = install_bypass_plan (logged ok out) plan acc s2"
    using Cons.prems by (simp add: s1_def s2_def Let_def split: sum.split)
  moreover have "unasked s1 \<subseteq> unasked s" "unasked s2 \<subseteq> unasked s1"
    using Cons.prems unfolding s1_def s2_def by (subst unasked_snoc; auto)+
  ultimately show ?case using Cons.IH [of s2] Cons.prems by auto
qed simp

lemma bypass_pending:
  assumes "\<forall>c \<in> set cidrs. CHR ''/'' \<in> set c"
  shows "install_bypass_plan (logged ok out) (bypass_plan gw iface cidrs addrs ip6) ([], []) s = (acc, s') \<Longrightarrow>
    acc = ([], []) \<and> unasked s' \<subseteq> unasked s"
  using install_bypass_pending [of "bypass_plan gw iface cidrs addrs ip6" "([], [])" ok out s] bypass_step [OF _ assms] by force

subsection \<open>Installation and removal\<close>

lemma show_nonempty: "show_nat n \<noteq> []" "show_hex n \<noteq> []"
  by (subst show_nat.simps, simp) (subst show_hex.simps, simp)

lemma show_ip_nonempty: "ip_wf ip \<Longrightarrow> show_ip ip \<noteq> []"
proof (cases ip)
  case (V6 segs)
  moreover assume "ip_wf ip"
  ultimately obtain a b r where "segs = a # b # r" by (auto simp: length_Suc_conv numeral_eq_Suc)
  then show ?thesis by (simp add: V6 show_nonempty split_def Let_def split: option.split)
qed (simp add: show_v4_def)

text \<open>An address is printed with characters up to the letter f.\<close>

lemma show_nat_chars: "c \<in> set (show_nat n) \<Longrightarrow> (of_char c :: nat) \<le> 102"
proof (induction n rule: show_nat.induct)
  case (1 n)
  then show ?case by (subst (asm) show_nat.simps) (auto split: if_splits)
qed

lemma show_hex_chars: "c \<in> set (show_hex n) \<Longrightarrow> (of_char c :: nat) \<le> 102"
proof (induction n rule: show_hex.induct)
  case (1 n)
  then show ?case by (subst (asm) (2) show_hex.simps) (auto simp: hex_digit_def split: if_splits)
qed

lemmas show_chars = show_nat_chars show_hex_chars

lemma show_groups_chars: "c \<in> set (show_groups gs) \<Longrightarrow> (of_char c :: nat) \<le> 102"
  by (induction gs rule: show_groups.induct) (auto dest: show_chars)

lemma show_ip_chars: "c \<in> set (show_ip ip) \<Longrightarrow> (of_char c :: nat) \<le> 102"
  by (cases ip) (auto simp: show_v4_def Let_def split_def split: option.splits if_splits dest: show_chars show_groups_chars)

lemma show_ip_not_default: "show_ip ip \<noteq> ''default''"
  using show_ip_chars [of "CHR ''t''" ip] by auto

lemma v6_pending:
  assumes "net_display lib" "ip_wf (sock_ip server)" "install_route_all_v6 (logged ok out) lib server tun s = (r, s')"
  shows "case r of
      None \<Rightarrow> unasked s' \<subseteq> unasked s
    | Some v \<Rightarrow> unasked s' \<subseteq> unasked s \<union> {''-6'' # host (v6_orig_gw6 v) (v6_server_ip6 v), ''-6'' # via_tun tun} \<and>
        v6_bypass_cidrs6 v = [] \<and> v6_bypass_addrs6 v = [] \<and> v6_server_ip6 v \<noteq> []"
proof -
  let ?ip = "show_ip (sock_ip server)"
  consider "r = None" "s' = s" | gw iface where "default_gateway_v6 (logged ok out) s = Inr gw"
      "default_route_iface_v6 (logged ok out) s = Inr iface" "\<not> is_v4 (sock_ip server)"
    using assms(3) by (auto simp: install_route_all_v6_def Let_def split: if_splits sum.splits)
  then show ?thesis
  proof cases
    case (2 gw iface)
    define s1 where "s1 = s @ [(''ip'', ''-6'' # host gw ?ip, \<exists>u. ok s ''ip'' (''-6'' # host gw ?ip) = Inr u)]"
    define s2 where "s2 = s1 @ [(''ip'', ''-6'' # via_tun tun, \<exists>u. ok s1 ''ip'' (''-6'' # via_tun tun) = Inr u)]"
    have p1: "unasked s1 \<subseteq> unasked s \<union> {''-6'' # host gw ?ip}" unfolding s1_def by (subst unasked_snoc) auto
    have p2: "unasked s2 \<subseteq> unasked s1 \<union> {''-6'' # via_tun tun}" unfolding s2_def by (subst unasked_snoc) auto
    have step: "install_route_all_v6 (logged ok out) lib server tun s =
      (case ok s ''ip'' (''-6'' # host gw ?ip) of
         Inl _ \<Rightarrow> (None, s1)
       | Inr _ \<Rightarrow> (case ok s1 ''ip'' (''-6'' # via_tun tun) of
           Inl _ \<Rightarrow> (None, quiet (logged ok out) [undo (''-6'' # host gw ?ip)] s2)
         | Inr _ \<Rightarrow> (case install_bypass_plan (logged ok out) (bypass_plan gw iface (local_cidrs_for_v6 (logged ok out) lib iface s2)
               (local_addrs_for_v6 (logged ok out) iface s2) True) ([], []) s2 of
             ((cs, as), s3) \<Rightarrow> (Some \<lparr>v6_server_ip6 = ?ip, v6_orig_gw6 = gw, v6_orig_iface6 = iface,
                v6_bypass_cidrs6 = cs, v6_bypass_addrs6 = as\<rparr>, s3))))"
      using 2 by (simp add: install_route_all_v6_def Let_def s1_def s2_def undo_def host_def via_tun_def family_args_def
          split: sum.split prod.split)
    show ?thesis
    proof (cases "ok s ''ip'' (''-6'' # host gw ?ip)")
      case (Inl e)
      then have "unasked s1 \<subseteq> unasked s" unfolding s1_def by (subst unasked_snoc) auto
      then show ?thesis using assms(3) step Inl by auto
    next
      case (Inr u)
      note first = this
      show ?thesis
      proof (cases "ok s1 ''ip'' (''-6'' # via_tun tun)")
        case (Inl e)
        then have "unasked s2 \<subseteq> unasked s1" unfolding s2_def by (subst unasked_snoc) auto
        then have "unasked (quiet (logged ok out) [undo (''-6'' # host gw ?ip)] s2) \<subseteq> unasked s"
          using p1 by (subst unasked_quiet) auto
        then show ?thesis using assms(3) step first Inl by auto
      next
        case (Inr w)
        obtain acc s3 where b: "install_bypass_plan (logged ok out) (bypass_plan gw iface (local_cidrs_for_v6 (logged ok out) lib iface s2)
               (local_addrs_for_v6 (logged ok out) iface s2) True) ([], []) s2 = (acc, s3)" by fastforce
        have "acc = ([], []) \<and> unasked s3 \<subseteq> unasked s2"
          by (rule bypass_pending [OF _ b]) (auto intro: local_cidrs_shown(2) [OF assms(1)])
        moreover from this have "unasked s3 \<subseteq> unasked s \<union> {''-6'' # host gw ?ip, ''-6'' # via_tun tun}" using p1 p2 by blast
        ultimately show ?thesis using assms(2,3) step first Inr b by (auto simp: show_ip_nonempty)
      qed
    qed
  qed simp
qed

lemma drop_pending:
  assumes "unasked s \<subseteq> insert (via_tun (rg_tun_name g)) (host (rg_orig_gw g) ` insert (rg_server_ip g) {c. (c, rg_orig_gw g) \<in> set (rg_lan_routes g)})
      \<union> (if rg_server_ip6 g = [] then {} else {''-6'' # host (rg_orig_gw6 g) (rg_server_ip6 g), ''-6'' # via_tun (rg_tun_name g)})"
    "rg_server_ip g \<noteq> []"
  shows "unasked (route_guard_drop (logged ok out) g s) = {}"
proof -
  have nb: "\<forall>a \<in> set (bypass_removals iface cs as b). \<not> main_add a" for iface cs as b
    by (auto simp: bypass_removals_def Let_def)
  show ?thesis using assms(2)
    by (auto simp: route_guard_drop_def remove_bypass_def Let_def unasked_quiet nb split_def image_iff
        dest!: subsetD [OF assms(1)] split: if_splits) (metis fst_conv snd_conv)+
qed

lemma install_pending:
  assumes lib: "net_display lib" and wf: "ip_wf (sock_ip server)" and s: "unasked s = {}"
    and inst: "install_route_all (logged ok out) lib server tun s = (r, s')"
  shows "case r of
      Inl e \<Rightarrow> unasked s' = {}
    | Inr g \<Rightarrow> unasked (route_guard_drop (logged ok out) g s') = {} \<and> rg_bypass_cidrs g = [] \<and> rg_bypass_addrs g = [] \<and>
        rg_bypass_cidrs6 g = [] \<and> rg_bypass_addrs6 g = []"
proof -
  let ?os = "logged ok out" and ?ip = "show_ip (sock_ip server)"
  consider e where "r = Inl e" "s' = s" | gw iface where "default_gateway ?os s = Inr gw" "default_route_iface ?os s = Inr iface"
    using inst by (auto simp: install_route_all_def Let_def split: sum.splits)
  then show ?thesis
  proof cases
    case (2 gw iface)
    let ?cs = "local_cidrs_for ?os lib iface s" and ?as = "local_addrs_for ?os iface s"
    obtain m s1 where m: "install_main ?os ?ip gw (route_all_plan ?ip gw ?cs tun) [] [] s = (m, s1)" by fastforce
    obtain acc s2 where b: "install_bypass_plan ?os (bypass_plan gw iface ?cs ?as False) ([], []) s1 = (acc, s2)" by fastforce
    obtain v s3 where v: "install_route_all_v6 ?os lib server tun s2 = (v, s3)" by fastforce
    have shown: "\<forall>c \<in> set ?cs. CHR ''/'' \<in> set c" by (auto intro: local_cidrs_shown(1) [OF lib])
    have plan: "route_all_plan ?ip gw ?cs tun = map (host gw) (?ip # ?cs) @ [via_tun tun]" by (simp add: plan_steps)
    have "?ip \<noteq> ''default''" by (rule show_ip_not_default)
    moreover have "\<forall>c \<in> set ?cs. c \<noteq> ''default''" using shown by auto
    ultimately have main: "case m of Inl e \<Rightarrow> unasked s1 = {}
       | Inr lan \<Rightarrow> unasked s1 \<subseteq> insert (via_tun tun) (host gw ` insert ?ip {c. (c, gw) \<in> set lan})"
      using install_main_pending [where s = s and gw = gw and ds = "[]" and sip = ?ip and lan = "[]" and cs = "?ip # ?cs"
          and tun = tun and ok = ok and out = out] s m unfolding plan by (simp split: sum.splits del: install_main.simps)
    note bp = bypass_pending [OF shown b] and vp = v6_pending [OF lib wf v]
    show ?thesis
    proof (cases m)
      case (Inl e)
      then show ?thesis using inst 2 m main by (auto simp: install_route_all_def)
    next
      case (Inr lan)
      then obtain g where g: "r = Inr g" "s' = s3" "rg_server_ip g = ?ip" "rg_orig_gw g = gw" "rg_tun_name g = tun" "rg_lan_routes g = lan"
        "rg_bypass_cidrs g = fst acc" "rg_bypass_addrs g = snd acc"
        "rg_server_ip6 g = (case v of Some v \<Rightarrow> v6_server_ip6 v | None \<Rightarrow> [])"
        "rg_orig_gw6 g = (case v of Some v \<Rightarrow> v6_orig_gw6 v | None \<Rightarrow> [])"
        "rg_bypass_cidrs6 g = (case v of Some v \<Rightarrow> v6_bypass_cidrs6 v | None \<Rightarrow> [])"
        "rg_bypass_addrs6 g = (case v of Some v \<Rightarrow> v6_bypass_addrs6 v | None \<Rightarrow> [])"
        using inst 2 m b v by (cases acc) (auto simp: install_route_all_def v6_route_default_def Let_def split: option.splits)
      have "unasked (route_guard_drop ?os g s') = {}"
        by (rule drop_pending) (use g main Inr bp vp show_ip_nonempty [OF wf] in \<open>auto split: option.splits\<close>)
      then show ?thesis using g bp vp by (auto split: option.splits)
    qed
  qed (use s in simp)
qed

lemma left_over_adds: "x \<in> left_over A U s \<Longrightarrow> A x"
proof (induction s arbitrary: x rule: rev_induct)
  case (snoc e s)
  then show ?case by (cases e) (auto split: if_splits)
qed (simp add: left_over_def)

lemma take_2_list: "take 2 y = [a, b] \<Longrightarrow> y = a # b # drop 2 y"
  using append_take_drop_id [of 2 y] by simp

lemma rule_add_cases: "rule_add x \<Longrightarrow> (\<exists>q. x = ''rule'' # ''add'' # q) \<or> (\<exists>q. x = ''-6'' # ''rule'' # ''add'' # q)"
proof (cases "x \<noteq> [] \<and> hd x = ''-6''")
  case True
  moreover assume "rule_add x"
  ultimately have "x = ''-6'' # tl x" "take 2 (tl x) = [''rule'', ''add'']"
    by (simp_all add: rule_add_def family_args_def, metis list.collapse)
  then show ?thesis using take_2_list by metis
next
  case False
  moreover assume "rule_add x"
  ultimately have "take 2 x = [''rule'', ''add'']" by (auto simp: rule_add_def family_args_def)
  then show ?thesis using take_2_list by metis
qed

lemma undo_rule_no_route:
  "rule_add x \<Longrightarrow> undo_rule x \<noteq> ''route'' # r" "rule_add x \<Longrightarrow> undo_rule x \<noteq> ''-6'' # ''route'' # r"
  by (auto dest!: rule_add_cases simp: undo_rule_def op_index_def numeral_2_eq_2)

lemma route_commands_keep_rules:
  assumes "\<forall>a \<in> set cmds. (\<exists>r. a = ''route'' # r) \<or> (\<exists>r. a = ''-6'' # ''route'' # r)"
  shows "pending_rules (quiet (logged ok out) cmds s) = pending_rules s"
proof -
  have "undo_rule x \<noteq> a" if "a \<in> set cmds" "x \<in> left_over rule_add undo_rule s" for a x
  proof -
    have "rule_add x" using left_over_adds that(2) by metis
    then show "undo_rule x \<noteq> a" using assms that(1) undo_rule_no_route by metis
  qed
  moreover have "\<not> rule_add a" if "a \<in> set cmds" for a using assms that by (auto simp: rule_add_def family_args_def)
  ultimately have "\<forall>a \<in> set cmds. \<not> rule_add a \<and> (\<forall>x \<in> left_over rule_add undo_rule s. undo_rule x \<noteq> a)" by blast
  then show ?thesis by (simp add: pending_rules_def left_over_quiet)
qed

subsection \<open>Netmasks\<close>

lemma trailing_zeros_first:
  assumes "w \<noteq> 0"
  shows "trailing_zeros w < 32" "bit w (trailing_zeros w)" "i < trailing_zeros w \<Longrightarrow> \<not> bit w i"
proof -
  let ?xs = "takeWhile (\<lambda>i. \<not> bit w i) [0..<32]"
  obtain j where j: "bit w j" "j < 32" using assms by (auto simp: bit_eq_iff dest: bit_imp_le_length)
  have "?xs \<noteq> [0..<32]" using j by (metis atLeastLessThan_iff set_upt takeWhile_eq_all_conv zero_le)
  then have l: "length ?xs < length [0..<32 :: nat]" using length_takeWhile_le by (metis append_Nil2 append_eq_conv_conj le_neq_implies_less takeWhile_dropWhile_id)
  then show "trailing_zeros w < 32" by (simp add: trailing_zeros_def)
  show "bit w (trailing_zeros w)" using nth_length_takeWhile [OF l] l by (simp add: trailing_zeros_def)
  assume "i < trailing_zeros w"
  then show "\<not> bit w i" using l nth_mem [of i ?xs] set_takeWhileD takeWhile_nth [of i "\<lambda>i. \<not> bit w i" "[0..<32]"]
    by (fastforce simp: trailing_zeros_def)
qed

text \<open>A netmask has a prefix length exactly if it is that many ones followed by zeros.\<close>

lemma netmask_exact:
  "netmask_to_prefix ip = Some p \<longleftrightarrow> unat p \<le> 32 \<and> octets_u32 ip = push_bit (32 - unat p) (- 1)"
proof (cases "octets_u32 ip = 0")
  case True
  have "push_bit k (- 1 :: u32) = 0 \<longleftrightarrow> 32 \<le> k" for k
  proof
    assume "push_bit k (- 1 :: u32) = 0"
    then have "\<not> bit (push_bit k (- 1 :: u32)) k" by simp
    then show "32 \<le> k" by (simp add: bit_simps)
  qed (simp add: bit_eq_iff bit_simps)
  from this [of "32 - unat p"] have "octets_u32 ip = push_bit (32 - unat p) (- 1) \<longleftrightarrow> p = 0"
    using True unat_eq_zero [of p] by auto
  then show ?thesis using True by (auto simp: netmask_to_prefix_def)
next
  case False
  let ?z = "trailing_zeros (octets_u32 ip)"
  note z = trailing_zeros_first [OF False]
  have uniq: "k = ?z" if "octets_u32 ip = push_bit k (- 1)" for k
  proof (rule linorder_cases [of k ?z])
    assume "k < ?z"
    then show ?thesis using z(3) [of k] z(1) by (simp add: that bit_simps)
  next
    assume "?z < k"
    then show ?thesis using z(2) by (simp add: that bit_simps)
  qed
  have "unat (word_of_nat (32 - ?z) :: u8) = 32 - ?z" by (simp add: unat_of_nat)
  then have "word_of_nat (32 - ?z) = p \<longleftrightarrow> unat p = 32 - ?z" by (metis ucast_id of_nat_unat)
  then have "netmask_to_prefix ip = Some p \<longleftrightarrow> octets_u32 ip = push_bit ?z (- 1) \<and> unat p = 32 - ?z"
    using False by (simp add: netmask_to_prefix_def Let_def)
  also have "\<dots> \<longleftrightarrow> unat p \<le> 32 \<and> octets_u32 ip = push_bit (32 - unat p) (- 1)"
    using z(1) uniq [of "32 - unat p"] by auto
  finally show ?thesis .
qed

subsection \<open>NAT rules\<close>

definition rule_adds :: "string \<Rightarrow> string \<times> string list \<Rightarrow> cmd_log \<Rightarrow> nat" where
  "rule_adds tool rl s = length (filter (\<lambda>e. e = (tool, [''-t'', fst rl, ''-A''] @ snd rl, True)) s)"

definition rule_dels :: "string \<Rightarrow> string \<times> string list \<Rightarrow> cmd_log \<Rightarrow> nat" where
  "rule_dels tool rl s = length (filter (\<lambda>(c, argv, _). c = tool \<and> argv = [''-t'', fst rl, ''-D''] @ snd rl) s)"

lemma rule_adds_simps [simp]:
  "rule_adds t rl [] = 0" "rule_adds t rl (s @ s') = rule_adds t rl s + rule_adds t rl s'"
  "rule_adds t rl (e # s) = (if e = (t, [''-t'', fst rl, ''-A''] @ snd rl, True) then 1 else 0) + rule_adds t rl s"
  by (simp_all add: rule_adds_def)

lemma rule_dels_simps [simp]:
  "rule_dels t rl [] = 0" "rule_dels t rl (s @ s') = rule_dels t rl s + rule_dels t rl s'"
  "rule_dels t rl ((c, argv, b) # s) = (if c = t \<and> argv = [''-t'', fst rl, ''-D''] @ snd rl then 1 else 0) + rule_dels t rl s"
  by (simp_all add: rule_dels_def)

lemma nat_add_v4_recorded:
  "nat_add_v4 (logged ok out) rules r s = (res, r', s') \<Longrightarrow> t \<in> {''iptables'', ''ip6tables''} \<Longrightarrow>
   rule_adds t rl s \<le> count_list (nat_installed r) rl \<Longrightarrow> rule_adds t rl s' \<le> count_list (nat_installed r') rl"
proof (induction rules arbitrary: r s)
  case (Cons x rules)
  obtain table spec where x: "x = (table, spec)" by (cases x)
  define s1 where "s1 = s @ [(''iptables'', [''-t'', table, ''-D''] @ spec, \<exists>u. ok s ''iptables'' ([''-t'', table, ''-D''] @ spec) = Inr u)]"
  define b where "b = (\<exists>u. ok s1 ''iptables'' ([''-t'', table, ''-A''] @ spec) = Inr u)"
  define s2 where "s2 = s1 @ [(''iptables'', [''-t'', table, ''-A''] @ spec, b)]"
  have s2: "rule_adds t rl s2 = rule_adds t rl s + (if t = ''iptables'' \<and> rl = (table, spec) \<and> b then 1 else 0)"
    by (cases rl) (auto simp: s2_def s1_def)
  have step: "nat_add_v4 (logged ok out) (x # rules) r s =
     (case ok s1 ''iptables'' ([''-t'', table, ''-A''] @ spec) of
        Inl e \<Rightarrow> (Inl e, r, s2)
      | Inr _ \<Rightarrow> nat_add_v4 (logged ok out) rules (r\<lparr>nat_installed := nat_installed r @ [(table, spec)]\<rparr>) s2)"
    by (simp add: x s1_def s2_def b_def Let_def split: sum.split)
  show ?case
  proof (cases b)
    case True
    then have "nat_add_v4 (logged ok out) rules (r\<lparr>nat_installed := nat_installed r @ [(table, spec)]\<rparr>) s2 = (res, r', s')"
      using Cons.prems(1) by (auto simp: step b_def)
    then show ?thesis by (rule Cons.IH) (use Cons.prems(2,3) s2 in auto)
  next
    case False
    then have "r' = r" "s' = s2" using Cons.prems(1) by (auto simp: step b_def split: sum.splits)
    then show ?thesis using Cons.prems(3) s2 False by simp
  qed
qed simp

lemma nat_add_v6_recorded:
  "nat_add_v6 (logged ok out) rules r s = (r', s') \<Longrightarrow>
   rule_adds t rl s \<le> count_list (nat_installed r) rl \<Longrightarrow> rule_adds t rl s' \<le> count_list (nat_installed r') rl"
proof (induction rules arbitrary: r s)
  case (Cons x rules)
  obtain table spec where x: "x = (table, spec)" by (cases x)
  define b where "b = (\<exists>u. ok s ''ip6tables'' ([''-t'', table, ''-A''] @ spec) = Inr u)"
  define s2 where "s2 = s @ [(''ip6tables'', [''-t'', table, ''-A''] @ spec, b)]"
  have "nat_add_v6 (logged ok out) rules (if b then r\<lparr>nat_installed := nat_installed r @ [(table, spec)]\<rparr> else r) s2 = (r', s')"
    using Cons.prems(1) by (cases "ok s ''ip6tables'' ([''-t'', table, ''-A''] @ spec)") (simp_all add: x s2_def b_def)
  then show ?case by (rule Cons.IH) (use Cons.prems(2) in \<open>cases rl; auto simp: s2_def\<close>)
qed simp

lemma fold_counts:
  fixes m :: "'s \<Rightarrow> nat"
  shows "(\<And>x s. m s + (if x = y then 1 else 0) \<le> m (f x s)) \<Longrightarrow> m s + count_list xs y \<le> m (fold f xs s)"
proof (induction xs arbitrary: s)
  case (Cons x xs)
  have "m (f x s) + count_list xs y \<le> m (fold f xs (f x s))" by (rule Cons.IH [OF Cons.prems])
  moreover have "m s + (if x = y then 1 else 0) \<le> m (f x s)" by (rule Cons.prems)
  ultimately show ?case by (cases "x = y") simp_all
qed simp

text \<open>Every NAT rule that an installation added, complete or not, is deleted by the tool that added
  it when the rules are removed.\<close>

lemma nat_rules_removed:
  assumes "nat_install (logged ok out) v6 r [] = (res, r', s)" "nat_installed r = []" "t \<in> {''iptables'', ''ip6tables''}"
  shows "rule_adds t rl s \<le> rule_dels t rl (snd (nat_remove (logged ok out) r' s))"
proof -
  have rec: "rule_adds t rl s \<le> count_list (nat_installed r') rl"
  proof (cases "(case nat_out_iface r of Some i \<Rightarrow> Inr i | None \<Rightarrow> default_route_iface (logged ok out) [])")
    case (Inl e)
    then show ?thesis using assms by (simp add: nat_install_def rule_adds_def)
  next
    case (Inr iface)
    define s0 where "s0 = (let s = snd (os_run (logged ok out) ''sysctl'' [''-w'', ''net.ipv4.ip_forward=1''] [])
       in if v6 then snd (os_run (logged ok out) ''sysctl'' [''-w'', ''net.ipv6.conf.all.forwarding=1''] s) else s)"
    have z: "rule_adds t rl s0 \<le> count_list (nat_installed r) rl" using assms(3) by (auto simp: s0_def Let_def rule_adds_def)
    obtain a r1 s1 where a: "nat_add_v4 (logged ok out) (planned_v4 r iface) r s0 = (a, r1, s1)" by (rule prod_cases3)
    note v4 = nat_add_v4_recorded [OF a assms(3) z]
    show ?thesis
      using assms(1) Inr a v4 nat_add_v6_recorded [where ok = ok and out = out and t = t and rl = rl and r = r1 and s = s1]
      by (cases v6) (auto simp: nat_install_def s0_def Let_def split: sum.splits prod.splits)
  qed
  let ?f = "\<lambda>(table, spec) s. let s = snd (os_run (logged ok out) ''iptables'' ([''-t'', table, ''-D''] @ spec) s)
      in snd (os_run (logged ok out) ''ip6tables'' ([''-t'', table, ''-D''] @ spec) s)"
  have "rule_dels t rl s + (if x = rl then 1 else 0) \<le> rule_dels t rl (?f x s)" for x s
    using assms(3) by (cases x; cases rl) (auto simp: Let_def)
  then have "rule_dels t rl s + count_list (nat_installed r') rl \<le> rule_dels t rl (fold ?f (nat_installed r') s)"
    by (rule fold_counts)
  then show ?thesis using rec unfolding nat_remove_def snd_conv by linarith
qed

subsection \<open>Properties\<close>

text \<open>C24. Route-all tries to undo every route it added: whichever commands fail, in whichever order, a route that it added to
  a main table and that is still there at the end, after the rollback of a failed installation or the drop of the guard, is
  one whose deletion was run and failed. If no deletion fails, nothing is left.\<close>

theorem route_all_undone:
  assumes "net_display lib" "ip_wf (sock_ip server)"
  shows "pending (route_all_session (logged ok out) lib server tun []) \<subseteq>
    {r. (''ip'', undo r, False) \<in> set (route_all_session (logged ok out) lib server tun [])}"
proof -
  obtain r s' where i: "install_route_all (logged ok out) lib server tun [] = (r, s')" by fastforce
  have "unasked [] = {}" by (simp add: unasked_def ask_over_def)
  from install_pending [OF assms this i] have "unasked (route_all_session (logged ok out) lib server tun []) = {}"
    by (simp add: route_all_session_def i split: sum.splits)
  then show ?thesis using left_over_asked [of main_add undo] unfolding pending_def unasked_def by blast
qed

text \<open>A small host for the witnesses: one interface with one address, every command succeeds.\<close>

definition demo_lib :: ipnet_lib where
  "demo_lib = \<lparr>in_parse = (\<lambda>s. None), in_trunc = (\<lambda>(ip, len). (ip, len)), in_show = (\<lambda>(ip, len). show_ip ip @ ''/'' @ show_nat len)\<rparr>"

definition demo_out :: "cmd_log \<Rightarrow> string list \<Rightarrow> string option" where
  "demo_out s argv =
     (if argv = [''-o'', ''-4'', ''route'', ''show'', ''default''] then Some ''default via 192.0.2.1 dev eth0''
      else if argv = [''-o'', ''-4'', ''addr'', ''show'', ''dev'', ''eth0''] then Some ''2: eth0 inet 192.0.2.7/24''
      else None)"

abbreviation demo_os :: "cmd_log os_calls" where "demo_os \<equiv> logged (\<lambda>_ _ _. Inr ()) demo_out"

abbreviation demo_server :: SocketAddr where "demo_server \<equiv> \<lparr>sock_ip = V4 198 51 100 9, sock_port = 443\<rparr>"

lemma demo_display: "net_display demo_lib"
  by (auto simp: net_display_def demo_lib_def)

theorem route_all_undone_witness:
  "pending (route_all_session demo_os demo_lib demo_server ''tun0'' []) \<subseteq>
    {r. (''ip'', undo r, False) \<in> set (route_all_session demo_os demo_lib demo_server ''tun0'' [])}"
  by (rule route_all_undone [OF demo_display]) simp

text \<open>C39. The bypass table is not cleaned up: the installation records none of the policy rules and
  subnet routes it adds, so the rules that are in place when the guard is dropped are still there
  afterwards, although the guard is documented to remove them.\<close>

theorem bypass_rules_left:
  assumes "net_display lib" "ip_wf (sock_ip server)" "install_route_all (logged ok out) lib server tun [] = (Inr g, s)"
  shows "rg_bypass_addrs g = [] \<and> rg_bypass_cidrs g = [] \<and> rg_bypass_addrs6 g = [] \<and> rg_bypass_cidrs6 g = [] \<and>
    pending_rules (route_guard_drop (logged ok out) g s) = pending_rules s"
proof -
  have e: "rg_bypass_addrs g = []" "rg_bypass_cidrs g = []" "rg_bypass_addrs6 g = []" "rg_bypass_cidrs6 g = []"
    using install_pending [OF assms(1,2) _ assms(3)] by (auto simp: unasked_def ask_over_def)
  have r: "\<forall>a \<in> set (bypass_removals iface [] [] b). (\<exists>r. a = ''route'' # r) \<or> (\<exists>r. a = ''-6'' # ''route'' # r)" for iface b
    by (simp add: bypass_removals_def Let_def)
  show ?thesis
    by (simp add: e route_guard_drop_def remove_bypass_def Let_def route_commands_keep_rules r split_def)
qed

theorem bypass_rules_left_witness:
  "\<exists>g s. install_route_all demo_os demo_lib demo_server ''tun0'' [] = (Inr g, s) \<and>
    [''rule'', ''add'', ''from'', ''192.0.2.7'', ''table'', ''100'', ''priority'', ''20000'']
      \<in> pending_rules (route_guard_drop demo_os g s)"
proof -
  have w: "split_whitespace ''default via 192.0.2.1 dev eth0'' = [''default'', ''via'', ''192.0.2.1'', ''dev'', ''eth0'']"
    "split_whitespace ''2: eth0 inet 192.0.2.7/24'' = [''2:'', ''eth0'', ''inet'', ''192.0.2.7/24'']"
    by code_simp+
  have l: "lines ''2: eth0 inet 192.0.2.7/24'' = [''2: eth0 inet 192.0.2.7/24'']" by (simp add: lines_def)
  have i: "words_after ''inet'' [''2:'', ''eth0'', ''inet'', ''192.0.2.7/24''] = [''192.0.2.7/24'']"
    by (simp add: words_after_def upt_rec)
  have q: "default_gateway demo_os s = Inr ''192.0.2.1''" "default_route_iface demo_os s = Inr ''eth0''" for s
    by (simp_all add: default_gateway_def default_route_iface_def logged_def demo_out_def ok_or_def
        parse_default_gateway_def parse_default_route_iface_def word_after_def w del: split_whitespace.simps)
  have a: "local_addrs_for demo_os ''eth0'' s = [''192.0.2.7'']" for s
    by (simp add: local_addrs_for_def addr_show_def logged_def demo_out_def parse_local_addrs_def l w i push_new_def split_first_def
        del: split_whitespace.simps)
  have c: "local_cidrs_for demo_os demo_lib ''eth0'' s = []" for s
    by (simp add: local_cidrs_for_def addr_show_def logged_def demo_out_def parse_local_cidrs_def l w i demo_lib_def
        del: split_whitespace.simps)
  let ?rule = "[''rule'', ''add'', ''from'', ''192.0.2.7'', ''table'', ''100'', ''priority'', ''20000'']"
  have "\<exists>g s. install_route_all demo_os demo_lib demo_server ''tun0'' [] = (Inr g, s @ [(''ip'', ?rule, True)])"
    by (simp add: install_route_all_def q a c Let_def plan_steps bypass_plan_def install_route_all_v6_def split_def
        BYPASS_TABLE_def BYPASS_RULE_PRIO_def op_index_def)
  then obtain g s where r: "install_route_all demo_os demo_lib demo_server ''tun0'' [] = (Inr g, s @ [(''ip'', ?rule, True)])"
    by blast
  have "?rule \<in> pending_rules (s @ [(''ip'', ?rule, True)])"
    by (simp add: pending_rules_def rule_add_def family_args_def)
  then show ?thesis using bypass_rules_left [OF demo_display _ r] r by auto
qed

end
