(* ===== verification/Client_Guards.thy ===== *)
theory Client_Guards
  imports Configuration Route_Cleanup Resolv_Conf Firewall_Policy
begin

text \<open>
  What the client daemon changes on its host (\<open>run_client\<close> in \<open>src/src/daemon/mod.rs\<close>): the guards it installs
  before the connection loop, in the order of the code, and how it takes them down, on a graceful
  shutdown and when it returns early. All guards act on one state of the host through the record
  \<open>client_sys\<close>: the commands it runs, netlink, and the files. The property says that with the kill switch
  on, whatever commands fail, the daemon either refuses to run or runs under the policy.
\<close>

subsection \<open>The host\<close>

record 's client_sys =
  y_os :: "'s os_calls"
  y_lib :: ipnet_lib
  y_ipv6 :: "'s \<Rightarrow> bool"
  y_read :: "path \<Rightarrow> 's \<Rightarrow> string + string"
  y_link_index :: "string \<Rightarrow> 's \<Rightarrow> string + u32"
  y_nl_add :: "RouteMessage \<Rightarrow> 's \<Rightarrow> bool \<times> 's"
  y_nl_del :: "RouteMessage \<Rightarrow> 's \<Rightarrow> 's"
  y_fs :: "'s \<Rightarrow> file_system"
  y_set_fs :: "file_system \<Rightarrow> 's \<Rightarrow> 's"
  y_install_io :: "'s \<Rightarrow> bool \<times> write_outcome \<times> write_outcome"
  y_remove_io :: "'s \<Rightarrow> bool \<times> write_outcome \<times> bool"

abbreviation y_run :: "'s client_sys \<Rightarrow> 's runner" where "y_run y \<equiv> os_run (y_os y)"
abbreviation y_exec :: "'s client_sys \<Rightarrow> 's backend" where "y_exec y \<equiv> iptables_exec (y_run y)"

definition resolv_install_on ::
  "'s client_sys \<Rightarrow> string list \<Rightarrow> ResolvConfGuard \<Rightarrow> 's \<Rightarrow> (resolv_error + unit) \<times> ResolvConfGuard \<times> 's" where
  "resolv_install_on y servers g s =
     (let (read_ok, backup_write, resolv_write) = y_install_io y s;
          (r, g, fs) = resolv_install servers read_ok backup_write resolv_write g (y_fs y s)
      in (r, g, y_set_fs y fs s))"

definition resolv_drop :: "'s client_sys \<Rightarrow> ResolvConfGuard \<Rightarrow> 's \<Rightarrow> 's" where
  "resolv_drop y g s =
     (let (read_ok, resolv_write, unlink_ok) = y_remove_io y s;
          (_, _, fs) = resolv_remove read_ok resolv_write unlink_ok g (y_fs y s)
      in y_set_fs y fs s)"

subsection \<open>Guards\<close>

record client_guards =
  gd_route :: "RouteGuard option"
  gd_route_file :: "RouteMessage list option"
  gd_dns :: "fw_guard option"
  gd_resolv :: "ResolvConfGuard option"
  gd_kill :: "fw_guard option"
  gd_nat :: "NatRules option"

definition setup_route :: "'s client_sys \<Rightarrow> ClientConfig \<Rightarrow> 's \<Rightarrow> RouteGuard option \<times> 's" where
  "setup_route y cfg s =
     (if cl_route_all cfg then
        (case install_route_all (y_os y) (y_lib y) (cl_server cfg) (cl_tun_name cfg) s of
           (Inr g, s) \<Rightarrow> (Some g, s) | (Inl _, s) \<Rightarrow> (None, s))
      else (None, s))"

definition setup_route_file :: "'s client_sys \<Rightarrow> ClientConfig \<Rightarrow> 's \<Rightarrow> RouteMessage list option \<times> 's" where
  "setup_route_file y cfg s = (case cl_route_path cfg of
       None \<Rightarrow> (None, s)
     | Some p \<Rightarrow> (case install_route_file (y_lib y) (y_nl_add y) (y_read y p s) (y_link_index y (cl_tun_name cfg) s) s of
           (Inr msgs, s) \<Rightarrow> (Some msgs, s) | (Inl _, s) \<Rightarrow> (None, s)))"

definition setup_dns :: "'s client_sys \<Rightarrow> ClientConfig \<Rightarrow> 's \<Rightarrow> fw_guard option \<times> 's" where
  "setup_dns y cfg s =
     (if cl_route_all cfg \<and> cl_dns_leak_protection cfg then
        (case dns_install (y_exec y) (dns_new (cl_tun_name cfg)) s of
           (Inr _, g, s) \<Rightarrow> (Some g, s) | (Inl _, g, s) \<Rightarrow> (None, s))
      else (None, s))"

definition dns_servers :: "ClientConfig \<Rightarrow> string list" where
  "dns_servers cfg = (case cl_dns cfg of Some servers \<Rightarrow> servers | None \<Rightarrow> [''1.1.1.1''])"

definition setup_resolv :: "'s client_sys \<Rightarrow> ClientConfig \<Rightarrow> 's \<Rightarrow> ResolvConfGuard option \<times> 's" where
  "setup_resolv y cfg s =
     (if cl_route_all cfg \<and> cl_dns_leak_protection cfg \<and> dns_servers cfg \<noteq> [] then
        (case resolv_install_on y (dns_servers cfg) (resolv_new ''/etc/resolv.conf'' ''/etc/resolv.conf.rustnies.bak'') s of
           (Inr _, g, s) \<Rightarrow> (Some g, s) | (Inl _, g, s) \<Rightarrow> (None, s))
      else (None, s))"

definition setup_kill :: "'s client_sys \<Rightarrow> ClientConfig \<Rightarrow> 's \<Rightarrow> (string + fw_guard option) \<times> 's" where
  "setup_kill y cfg s =
     (if cl_kill_switch cfg then
        (case ks_install (y_exec y) (ks_new (cl_server cfg) (cl_tun_name cfg)) s of
           (Inr _, g, s) \<Rightarrow> (Inr (Some g), s) | (Inl e, g, s) \<Rightarrow> (Inl e, s))
      else (Inr None, s))"

text \<open>NAT rules whose installation failed go out of scope, which removes what they had recorded.\<close>

definition setup_nat :: "'s client_sys \<Rightarrow> ClientConfig \<Rightarrow> 's \<Rightarrow> NatRules option \<times> 's" where
  "setup_nat y cfg s =
     (if cl_enable_nat cfg then
        (case nat_install (y_os y) (y_ipv6 y s) (nat_new_client (y_lib y) (cl_nat_source_cidr cfg) (cl_tun_name cfg)) s of
           (Inr _, r, s) \<Rightarrow> (Some r, s) | (Inl _, r, s) \<Rightarrow> (None, snd (nat_remove (y_os y) r s)))
      else (None, s))"

subsection \<open>Taking the guards down\<close>

definition drop_opt :: "('g \<Rightarrow> 's \<Rightarrow> 's) \<Rightarrow> 'g option \<Rightarrow> 's \<Rightarrow> 's" where
  "drop_opt f g s = (case g of None \<Rightarrow> s | Some x \<Rightarrow> f x s)"

definition drop_route :: "'s client_sys \<Rightarrow> client_guards \<Rightarrow> 's \<Rightarrow> 's" where
  "drop_route y gs = drop_opt (route_guard_drop (y_os y)) (gd_route gs)"

definition drop_route_file :: "'s client_sys \<Rightarrow> client_guards \<Rightarrow> 's \<Rightarrow> 's" where
  "drop_route_file y gs = drop_opt (route_file_drop (y_nl_del y)) (gd_route_file gs)"

definition drop_dns :: "'s client_sys \<Rightarrow> client_guards \<Rightarrow> 's \<Rightarrow> 's" where
  "drop_dns y gs = drop_opt (\<lambda>g s. snd (snd (dns_remove (y_exec y) g s))) (gd_dns gs)"

definition drop_resolv :: "'s client_sys \<Rightarrow> client_guards \<Rightarrow> 's \<Rightarrow> 's" where
  "drop_resolv y gs = drop_opt (resolv_drop y) (gd_resolv gs)"

definition drop_kill :: "'s client_sys \<Rightarrow> client_guards \<Rightarrow> 's \<Rightarrow> 's" where
  "drop_kill y gs = drop_opt (\<lambda>g s. snd (snd (ks_remove (y_exec y) g s))) (gd_kill gs)"

definition drop_nat :: "'s client_sys \<Rightarrow> client_guards \<Rightarrow> 's \<Rightarrow> 's" where
  "drop_nat y gs = drop_opt (\<lambda>r s. snd (nat_remove (y_os y) r s)) (gd_nat gs)"

text \<open>The end of \<open>run_client\<close>, and the order in which an early return leaves the scope.\<close>

definition client_shutdown :: "'s client_sys \<Rightarrow> client_guards \<Rightarrow> 's \<Rightarrow> 's" where
  "client_shutdown y gs s =
     drop_route_file y gs (drop_route y gs (drop_nat y gs (drop_kill y gs (drop_dns y gs (drop_resolv y gs s)))))"

definition client_unwind :: "'s client_sys \<Rightarrow> client_guards \<Rightarrow> 's \<Rightarrow> 's" where
  "client_unwind y gs s =
     drop_route y gs (drop_route_file y gs (drop_dns y gs (drop_resolv y gs (drop_kill y gs (drop_nat y gs s)))))"

subsection \<open>Bringing the guards up\<close>

text \<open>The result is the error of the kill switch, after the guards installed so far have left the
  scope, or all guards.\<close>

definition client_setup :: "'s client_sys \<Rightarrow> ClientConfig \<Rightarrow> 's \<Rightarrow> (string + client_guards) \<times> 's" where
  "client_setup y cfg s =
     (let (route, s) = setup_route y cfg s; (route_file, s) = setup_route_file y cfg s;
          (dns, s) = setup_dns y cfg s; (resolv, s) = setup_resolv y cfg s;
          gs = \<lparr>gd_route = route, gd_route_file = route_file, gd_dns = dns, gd_resolv = resolv, gd_kill = None, gd_nat = None\<rparr>
      in case setup_kill y cfg s of
          (Inl e, s) \<Rightarrow> (Inl e, client_unwind y gs s)
        | (Inr kill, s) \<Rightarrow>
            let (natr, s) = setup_nat y cfg s in (Inr (gs\<lparr>gd_kill := kill, gd_nat := natr\<rparr>), s))"

subsection \<open>What the commands of the guards leave alone\<close>

text \<open>An invariant of the host that the routing commands keep.\<close>

locale host_invariant =
  fixes os :: "'s os_calls" and I :: "'s \<Rightarrow> bool"
  assumes ip_keeps: "I s \<Longrightarrow> I (snd (os_run os ''ip'' argv s))"
begin

lemma quiet_keeps: "I s \<Longrightarrow> I (quiet os cmds s)"
  unfolding quiet_def by (induction cmds arbitrary: s) (auto intro: ip_keeps)

lemma ip_run_keeps: "os_run os ''ip'' argv s = (r, s') \<Longrightarrow> I s \<Longrightarrow> I s'"
  using ip_keeps [of s argv] by simp

lemma install_bypass_keeps: "I s \<Longrightarrow> I (snd (install_bypass_plan os plan acc s))"
proof (induction plan arbitrary: acc s)
  case (Cons step plan)
  define s1 where "s1 = snd (os_run os ''ip'' (step[op_index step := ''del'']) s)"
  obtain r s2 where e: "os_run os ''ip'' step s1 = (r, s2)" by fastforce
  have "I s1" unfolding s1_def using Cons.prems by (rule ip_keeps)
  with e have "I s2" by (rule ip_run_keeps)
  then show ?case using Cons.IH e by (cases r) (simp_all add: s1_def)
qed simp

lemma install_main_keeps: "I s \<Longrightarrow> I (snd (install_main os server_ip orig_gw plan lan_routes added s))"
proof (induction plan arbitrary: lan_routes added s)
  case (Cons step plan)
  obtain r s1 where e: "os_run os ''ip'' step s = (r, s1)" by fastforce
  then have "I s1" using Cons.prems by (rule ip_run_keeps)
  then show ?case using Cons.IH e quiet_keeps [OF \<open>I s1\<close>] by (cases r) auto
qed simp

lemma install_v6_keeps: "I s \<Longrightarrow> I (snd (install_route_all_v6 os lib server tun s))"
  unfolding install_route_all_v6_def Let_def
  by (auto split: prod.splits sum.splits dest!: ip_run_keeps intro: quiet_keeps)
     (metis install_bypass_keeps snd_conv)+

lemma install_route_all_keeps:
  assumes "I s" shows "I (snd (install_route_all os lib server tun s))"
proof -
  have main: "I s'" if "install_main os sip gw plan l a s = (r, s')" for sip gw plan l a r s'
    using install_main_keeps [OF assms, of sip gw plan l a] that by simp
  have bypass: "I s2" if "install_bypass_plan os plan acc s1 = (r, s2)" "I s1" for s1 plan acc r s2
    using install_bypass_keeps [OF that(2), of plan acc] that(1) by simp
  have v6: "I s2" if "install_route_all_v6 os lib server tun s1 = (r, s2)" "I s1" for s1 r s2
    using install_v6_keeps [OF that(2), of lib server tun] that(1) by simp
  show ?thesis using assms unfolding install_route_all_def Let_def
    by (auto split: prod.splits sum.splits intro: main) (metis main bypass v6)
qed

lemma route_guard_drop_keeps: "I s \<Longrightarrow> I (route_guard_drop os g s)"
  by (auto simp: route_guard_drop_def Let_def remove_bypass_def intro!: quiet_keeps)

end

interpretation log_grows: host_invariant "logged ok out" "\<lambda>l. take (length l0) l = l0" for ok out l0
  by unfold_locales (auto simp: logged_def dest: arg_cong [of _ _ length])

text \<open>The commands that cannot touch the chains of the guards: routing and \<open>sysctl\<close>, the table \<open>nat\<close>, and
  the chain \<open>FORWARD\<close>.\<close>

definition spares :: "string \<Rightarrow> string list \<Rightarrow> bool" where
  "spares bin argv \<longleftrightarrow> bin \<in> {''ip'', ''sysctl''} \<or>
     (case argv of o' # table # verb # chain # _ \<Rightarrow> o' = ''-t'' \<and> (table = ''nat'' \<or> chain = ''FORWARD'') | _ \<Rightarrow> False)"

definition same_chains :: "(FirewallFamily \<Rightarrow> 's \<Rightarrow> chains) \<Rightarrow> 's \<Rightarrow> 's \<Rightarrow> bool" where
  "same_chains tbl s s' \<longleftrightarrow>
     (\<forall>f. \<forall>c \<in> {''OUTPUT'', KS_CHAIN, DNS_CHAIN}. map_of (tbl f s') c = map_of (tbl f s) c)"

text \<open>What the guards rely on: the documented behaviour of \<open>iptables\<close>, and that the other commands,
  netlink and the files are separate from the chains.\<close>

definition host_laws :: "'s client_sys \<Rightarrow> (FirewallFamily \<Rightarrow> 's \<Rightarrow> chains) \<Rightarrow> bool" where
  "host_laws y tbl \<longleftrightarrow> iptables_laws (y_run y) tbl \<and>
     (\<forall>bin argv s. spares bin argv \<longrightarrow> same_chains tbl s (snd (y_run y bin argv s))) \<and>
     (\<forall>m s. same_chains tbl s (snd (y_nl_add y m s))) \<and> (\<forall>fs s. same_chains tbl s (y_set_fs y fs s))"

lemma same_chains_refl [simp]: "same_chains tbl s s" by (simp add: same_chains_def)

lemma same_chains_trans: "same_chains tbl s s' \<Longrightarrow> same_chains tbl s' s'' \<Longrightarrow> same_chains tbl s s''"
  by (simp add: same_chains_def)

lemma same_chains_entries:
  "same_chains tbl s s' \<Longrightarrow> c \<in> {''OUTPUT'', KS_CHAIN, DNS_CHAIN} \<Longrightarrow>
   chain_entries (map_of (tbl f s')) c = chain_entries (map_of (tbl f s)) c"
  by (auto simp: same_chains_def chain_entries_def)

lemma host_steps:
  assumes "host_laws y tbl" "same_chains tbl s0 s"
  shows "spares bin argv \<Longrightarrow> same_chains tbl s0 (snd (y_run y bin argv s))"
    "same_chains tbl s0 (snd (y_nl_add y m s))" "same_chains tbl s0 (y_set_fs y fs s)"
  using assms by (meson host_laws_def same_chains_trans)+

lemma add_routes_keeps:
  assumes "\<And>m s. I s \<Longrightarrow> I (snd (nl_add m s))"
  shows "I s \<Longrightarrow> I (snd (add_routes nl_add oif dests s))"
proof (induction dests arbitrary: s)
  case (Cons d dests)
  obtain ok s1 where e: "nl_add \<lparr>rm_dest = rd_addr d, rm_prefix = rd_prefix d, rm_oif = oif\<rparr> s = (ok, s1)" by fastforce
  then have "I s1" using assms [OF Cons.prems] by (metis snd_conv)
  then have "I (snd (add_routes nl_add oif dests s1))" by (rule Cons.IH)
  then show ?case using e by (cases ok) (auto simp: add_route_def split: prod.splits)
qed simp

lemma setup_route_same:
  assumes "host_laws y tbl" "setup_route y cfg s = (g, s')"
  shows "same_chains tbl s s'"
proof -
  have "same_chains tbl s (snd (install_route_all (y_os y) (y_lib y) (cl_server cfg) (cl_tun_name cfg) s))"
  proof (rule host_invariant.install_route_all_keeps)
    show "host_invariant (y_os y) (same_chains tbl s)"
      by (rule host_invariant.intro, rule host_steps(1) [OF assms(1)]) (simp_all add: spares_def)
  qed simp
  then show ?thesis using assms(2)
    by (auto simp: setup_route_def split: if_splits prod.splits sum.splits)
qed

lemma setup_route_file_same:
  assumes "host_laws y tbl" "setup_route_file y cfg s = (g, s')"
  shows "same_chains tbl s s'"
proof -
  have "same_chains tbl s (snd (add_routes (y_nl_add y) oif dests s))" for oif dests
    by (intro add_routes_keeps [where I = "same_chains tbl s"] host_steps(2) [OF assms(1)]) simp_all
  then show ?thesis using assms(2)
    by (auto simp: setup_route_file_def install_route_file_def Let_def split: option.splits prod.splits sum.splits)
       (metis snd_conv)
qed

lemma setup_resolv_same:
  "host_laws y tbl \<Longrightarrow> setup_resolv y cfg s = (g, s') \<Longrightarrow> same_chains tbl s s'"
  using host_steps(3) [OF _ same_chains_refl]
  by (fastforce simp: setup_resolv_def resolv_install_on_def Let_def split: if_splits prod.splits sum.splits)

text \<open>The NAT rules are all in the table \<open>nat\<close> or the chain \<open>FORWARD\<close>.\<close>

definition nat_rule :: "string \<times> string list \<Rightarrow> bool" where
  "nat_rule r \<longleftrightarrow> (case r of (table, spec) \<Rightarrow> spec \<noteq> [] \<and> (table = ''nat'' \<or> hd spec = ''FORWARD''))"

lemma nat_rule_spares: "nat_rule (table, spec) \<Longrightarrow> spares bin ([''-t'', table, verb] @ spec)"
  by (cases spec) (auto simp: nat_rule_def spares_def)

lemma planned_nat_rules:
  "list_all nat_rule (planned_v4 r iface)" "planned_v6_masq r iface = Some spec \<Longrightarrow> nat_rule (''nat'', spec)"
  "nat_rule (''filter'', forward_spec dir tun)"
  by (auto simp: planned_v4_def planned_v6_masq_def masq_spec_def forward_spec_def nat_rule_def split: option.splits if_splits)

lemma nat_add_v4_keeps:
  assumes "host_laws y tbl"
  shows "list_all nat_rule rules \<Longrightarrow> list_all nat_rule (nat_installed r) \<Longrightarrow> same_chains tbl s0 s \<Longrightarrow>
    nat_add_v4 (y_os y) rules r s = (res, r', s') \<Longrightarrow> same_chains tbl s0 s' \<and> list_all nat_rule (nat_installed r')"
proof (induction rules arbitrary: r s)
  case (Cons rule rules)
  obtain table spec where rule: "rule = (table, spec)" by fastforce
  define s1 where "s1 = snd (y_run y ''iptables'' ([''-t'', table, ''-D''] @ spec) s)"
  obtain q s2 where e: "y_run y ''iptables'' ([''-t'', table, ''-A''] @ spec) s1 = (q, s2)" by fastforce
  have "spares bin ([''-t'', table, verb] @ spec)" for bin verb
    using Cons.prems(1) rule by (intro nat_rule_spares) simp
  then have "same_chains tbl s0 s2"
    using host_steps(1) [OF assms Cons.prems(3)] host_steps(1) [OF assms, of s0 s1] e by (metis s1_def snd_conv)
  then show ?case using Cons.IH [of "r\<lparr>nat_installed := nat_installed r @ [(table, spec)]\<rparr>" s2] Cons.prems e
    by (cases q) (auto simp: rule s1_def)
qed auto

lemma nat_add_v6_keeps:
  assumes "host_laws y tbl"
  shows "list_all nat_rule rules \<Longrightarrow> list_all nat_rule (nat_installed r) \<Longrightarrow> same_chains tbl s0 s \<Longrightarrow>
    nat_add_v6 (y_os y) rules r s = (r', s') \<Longrightarrow> same_chains tbl s0 s' \<and> list_all nat_rule (nat_installed r')"
proof (induction rules arbitrary: r s)
  case (Cons rule rules)
  obtain table spec where rule: "rule = (table, spec)" by fastforce
  obtain q s2 where e: "y_run y ''ip6tables'' ([''-t'', table, ''-A''] @ spec) s = (q, s2)" by fastforce
  have "spares bin ([''-t'', table, verb] @ spec)" for bin verb
    using Cons.prems(1) rule by (intro nat_rule_spares) simp
  then have "same_chains tbl s0 s2" using host_steps(1) [OF assms Cons.prems(3)] e by (metis snd_conv)
  then show ?case
    using Cons.IH [of r s2] Cons.IH [of "r\<lparr>nat_installed := nat_installed r @ [(table, spec)]\<rparr>" s2] Cons.prems e
    by (cases q) (auto simp: rule)
qed auto

lemma nat_remove_keeps:
  assumes "host_laws y tbl"
  shows "list_all nat_rule (nat_installed r) \<Longrightarrow> same_chains tbl s0 s \<Longrightarrow> same_chains tbl s0 (snd (nat_remove (y_os y) r s))"
proof -
  have "list_all nat_rule rules \<Longrightarrow> same_chains tbl s0 s \<Longrightarrow> same_chains tbl s0 (fold (\<lambda>(table, spec) s.
        let s = snd (os_run (y_os y) ''iptables'' ([''-t'', table, ''-D''] @ spec) s)
        in snd (os_run (y_os y) ''ip6tables'' ([''-t'', table, ''-D''] @ spec) s)) rules s)" for rules s
  proof (induction rules arbitrary: s)
    case (Cons rule rules)
    obtain table spec where rule: "rule = (table, spec)" by fastforce
    have "spares bin ([''-t'', table, ''-D''] @ spec)" for bin
      using Cons.prems(1) rule by (intro nat_rule_spares) simp
    then show ?case using Cons host_steps(1) [OF assms] by (simp add: rule Let_def)
  qed simp
  then show "list_all nat_rule (nat_installed r) \<Longrightarrow> same_chains tbl s0 s \<Longrightarrow> same_chains tbl s0 (snd (nat_remove (y_os y) r s))"
    by (simp add: nat_remove_def)
qed

lemma nat_install_keeps:
  assumes "host_laws y tbl" "nat_install (y_os y) v6 r0 s = (res, r, s')" "nat_installed r0 = []"
  shows "same_chains tbl s s' \<and> list_all nat_rule (nat_installed r)"
proof (cases "case nat_out_iface r0 of Some i \<Rightarrow> Inr i | None \<Rightarrow> default_route_iface (y_os y) s")
  case (Inl e)
  then show ?thesis using assms(2,3) by (simp add: nat_install_def)
next
  case (Inr iface)
  define s1 where "s1 = snd (y_run y ''sysctl'' [''-w'', ''net.ipv4.ip_forward=1''] s)"
  define s2 where "s2 = (if v6 then snd (y_run y ''sysctl'' [''-w'', ''net.ipv6.conf.all.forwarding=1''] s1) else s1)"
  have "same_chains tbl s s1" unfolding s1_def using host_steps(1) [OF assms(1)] by (simp add: spares_def)
  then have 2: "same_chains tbl s s2" unfolding s2_def using host_steps(1) [OF assms(1)] by (simp add: spares_def)
  obtain q r3 s3 where e: "nat_add_v4 (y_os y) (planned_v4 r0 iface) r0 s2 = (q, r3, s3)" by (metis prod_cases3)
  have 3: "same_chains tbl s s3" "list_all nat_rule (nat_installed r3)"
    using nat_add_v4_keeps [OF assms(1) planned_nat_rules(1) _ 2 e] assms(3) by auto
  let ?rules = "(case planned_v6_masq r3 iface of Some spec \<Rightarrow> [(''nat'', spec)] | None \<Rightarrow> []) @
     [(''filter'', forward_spec ''-i'' (nat_tun_name r3)), (''filter'', forward_spec ''-o'' (nat_tun_name r3))]"
  obtain r4 s4 where e4: "nat_add_v6 (y_os y) ?rules r3 s3 = (r4, s4)" by fastforce
  have "list_all nat_rule ?rules" by (simp add: planned_nat_rules split: option.splits)
  then have 4: "same_chains tbl s s4" "list_all nat_rule (nat_installed r4)"
    using nat_add_v6_keeps [OF assms(1) _ 3(2,1) e4] by auto
  have "(r, s') \<in> {(r3, s3), (r4, s4)}"
    using assms(2) Inr e e4 unfolding nat_install_def Let_def s1_def [symmetric] s2_def [symmetric]
    by (cases q) (auto split: if_splits)
  then show ?thesis using 3 4 by auto
qed

lemma setup_nat_same:
  assumes "host_laws y tbl" "setup_nat y cfg s = (g, s')"
  shows "same_chains tbl s s'"
proof -
  let ?new = "nat_new_client (y_lib y) (cl_nat_source_cidr cfg) (cl_tun_name cfg)"
  have "nat_installed ?new = []" by (simp add: nat_new_client_def Let_def split: prod.splits)
  then show ?thesis
    using assms(2) nat_remove_keeps [OF assms(1)] nat_install_keeps [OF assms(1)]
    by (fastforce simp: setup_nat_def split: if_splits prod.splits sum.splits)
qed

subsection \<open>The chains of the guards\<close>

text \<open>\<open>OUTPUT\<close> only jumps to the chains of the guards, and the DNS chain holds DNS rules; this also
  covers what crashed runs and failed installations leave behind.\<close>

definition own_chains :: "string \<Rightarrow> (string \<rightharpoonup> fw_entry list) \<Rightarrow> bool" where
  "own_chains tun m \<longleftrightarrow> (\<exists>js dr. chain_entries m ''OUTPUT'' = map Entry_Jump js \<and> set js \<subseteq> {KS_CHAIN, DNS_CHAIN} \<and>
     chain_entries m DNS_CHAIN = map Entry_Rule dr \<and> set dr \<subseteq> set (dns_rules tun))"

lemma dns_rules_standard: "rule \<in> set (dns_rules tun) \<Longrightarrow> standard_rule rule"
  by (auto simp: dns_rules_def dns_rule_def standard_rule_def)

lemma own_chains_op:
  assumes "op \<in> set (install_ops DNS_CHAIN (dns_rules tun))" "own_chains tun m"
  shows "own_chains tun (map_op P op m)"
proof -
  obtain js dr where m: "chain_entries m ''OUTPUT'' = map Entry_Jump js" "set js \<subseteq> {KS_CHAIN, DNS_CHAIN}"
    "chain_entries m DNS_CHAIN = map Entry_Rule dr" "set dr \<subseteq> set (dns_rules tun)"
    using assms(2) by (auto simp: own_chains_def)
  let ?e = "chain_entries (map_op P op m)"
  have own: "own_chains tun (map_op P op m)"
    if "?e ''OUTPUT'' = map Entry_Jump js'" "set js' \<subseteq> {KS_CHAIN, DNS_CHAIN}" "?e DNS_CHAIN = map Entry_Rule dr'"
      "set dr' \<subseteq> set (dns_rules tun)" for js' dr'
    using that unfolding own_chains_def by blast
  consider "op = Unjump ''OUTPUT'' DNS_CHAIN" | "op = FlushChain DNS_CHAIN" | "op = DeleteChain DNS_CHAIN"
    | "op = CreateChain DNS_CHAIN" | rule where "op = Append DNS_CHAIN rule" "rule \<in> set (dns_rules tun)" | "op = Jump ''OUTPUT'' DNS_CHAIN"
    using assms(1) by (auto simp: install_ops_def)
  then show ?thesis
  proof cases
    case 1
    then show ?thesis using m set_remove1_subset [of DNS_CHAIN js]
      by (intro own [of "remove1 DNS_CHAIN js" dr]) (auto simp: chain_entries_def remove1_jump split: option.splits)
  next
    case 2
    then show ?thesis using m by (intro own [of js "[]"]) (auto simp: chain_entries_def split: option.splits)
  next
    case 3
    then show ?thesis using m by (intro own [of js "[]"]) (auto simp: chain_entries_def)
  next
    case 4
    then show ?thesis using m by (intro own [of js dr]) (auto simp: chain_entries_def)
  next
    case (5 rule)
    then show ?thesis using m by (intro own [of js "if P rule then dr @ [rule] else dr"]) (auto simp: chain_entries_def)
  next
    case 6
    then show ?thesis using m by (intro own [of "js @ [DNS_CHAIN]" dr]) (auto simp: chain_entries_def)
  qed
qed

context firewall_backend
begin

lemma dns_exec_keeps:
  assumes "op \<in> set (install_ops DNS_CHAIN (dns_rules tun))" "own_chains tun (map_of (tbl f s))"
  shows "own_chains tun (map_of (tbl f (snd (exec op s))))"
proof -
  have "standard_op op" using assms(1) dns_rules_standard by (auto simp: install_ops_def DNS_CHAIN_def)
  then have "map_of (tbl f (snd (exec op s))) \<in> {map_of (tbl f s), map_op (of_family f) op (map_of (tbl f s))}"
    by (rule exec_effect) (rule prod.collapse [symmetric])
  then show ?thesis using assms own_chains_op by auto
qed

lemma dns_required_keeps:
  "set ops \<subseteq> set (install_ops DNS_CHAIN (dns_rules tun)) \<Longrightarrow> own_chains tun (map_of (tbl f s)) \<Longrightarrow>
   own_chains tun (map_of (tbl f (snd (apply_required_from i exec ops s))))"
proof (induction ops arbitrary: i s)
  case (Cons op ops)
  obtain r s1 where e: "exec op s = (r, s1)" by fastforce
  then have "own_chains tun (map_of (tbl f s1))" using dns_exec_keeps [of op tun f s] Cons.prems by simp
  then show ?case using Cons e by (cases r) auto
qed simp

lemma dns_best_effort_keeps:
  "set ops \<subseteq> set (install_ops DNS_CHAIN (dns_rules tun)) \<Longrightarrow> own_chains tun (map_of (tbl f s)) \<Longrightarrow>
   own_chains tun (map_of (tbl f (apply_best_effort exec ops s)))"
  unfolding apply_best_effort_def by (induction ops arbitrary: s) (auto intro: dns_exec_keeps)

lemma dns_install_keeps:
  assumes "dns_install exec (dns_new tun) s = (r, g, s')" "own_chains tun (map_of (tbl f s))"
  shows "own_chains tun (map_of (tbl f s'))"
proof -
  let ?ops = "install_ops DNS_CHAIN (dns_rules tun)"
  obtain q s1 where e: "apply_required exec ?ops s = (q, s1)" by fastforce
  then have 1: "own_chains tun (map_of (tbl f s1))"
    using dns_required_keeps [of ?ops tun f s 0] assms(2) by (simp add: apply_required_def)
  have "set (remove_ops DNS_CHAIN) \<subseteq> set ?ops" by (auto simp: remove_ops_def install_ops_def)
  then have "own_chains tun (map_of (tbl f (apply_best_effort exec (remove_ops DNS_CHAIN) s1)))"
    using 1 by (rule dns_best_effort_keeps)
  then show ?thesis using assms(1) e 1
    by (cases q) (auto simp: dns_install_def guard_install_def dns_new_def)
qed

end

subsection \<open>The kill switch\<close>

text \<open>Whichever commands fail on the way, a set-up that succeeds leaves the kill switch complete and
  active.\<close>

lemma client_setup_protects:
  assumes laws: "host_laws y tbl" and "ip_wf (sock_ip (cl_server cfg))" "cl_kill_switch cfg"
    and own: "\<forall>f. own_chains (cl_tun_name cfg) (map_of (tbl f s))"
    and run: "client_setup y cfg s = (res, s')"
  shows "(\<exists>e. res = Inl e) \<or> (\<exists>gs ks. res = Inr gs \<and> gd_kill gs = Some ks \<and> g_active ks \<and>
    (\<forall>p f. packet_family p = Some f \<longrightarrow>
       (let d = fst (traverse (tbl f s') p ''OUTPUT'' []); policy = ks_policy (cl_server cfg) (cl_tun_name cfg) p in
        d \<noteq> Pass \<and> (d = Accept \<longrightarrow> policy = Accept) \<and> (dns_policy (cl_tun_name cfg) p = Pass \<longrightarrow> d = policy))))"
proof -
  let ?tun = "cl_tun_name cfg" and ?server = "cl_server cfg"
  obtain a1 s1 a2 s2 a3 s3 a4 s4 a5 s5 where
    e: "setup_route y cfg s = (a1, s1)" "setup_route_file y cfg s1 = (a2, s2)" "setup_dns y cfg s2 = (a3, s3)"
       "setup_resolv y cfg s3 = (a4, s4)" "setup_kill y cfg s4 = (a5, s5)"
    by (metis surj_pair)
  have backend: "firewall_backend (y_exec y) tbl" using laws iptables_is_backend by (auto simp: host_laws_def)
  have same: "own_chains ?tun (map_of (tbl f t))" if "same_chains tbl t' t" "own_chains ?tun (map_of (tbl f t'))" for f t t'
    using that same_chains_entries [OF that(1)] by (auto simp: own_chains_def)
  have "own_chains ?tun (map_of (tbl f s2))" for f
    using own setup_route_same [OF laws e(1)] setup_route_file_same [OF laws e(2)] by (blast intro: same)
  then have "own_chains ?tun (map_of (tbl f s3))" for f
    using e(3) firewall_backend.dns_install_keeps [OF backend]
    by (auto simp: setup_dns_def split: if_splits prod.splits sum.splits)
  then have 4: "own_chains ?tun (map_of (tbl f s4))" for f
    using setup_resolv_same [OF laws e(4)] by (blast intro: same)
  show ?thesis
  proof (cases a5)
    case (Inl err)
    then show ?thesis using run e by (auto simp: client_setup_def)
  next
    case (Inr k)
    then obtain u ks where k: "ks_install (y_exec y) (ks_new ?server ?tun) s4 = (Inr u, ks, s5)" "k = Some ks"
      using e(5) assms(3) by (auto simp: setup_kill_def split: prod.splits sum.splits)
    have ks: "g_active ks \<and> ks_chains ?server ?tun f (map_of (tbl f s5))" for f
      using 4 [of f] firewall_backend.ks_install_chains [OF backend k(1), where f = f] by (auto simp: own_chains_def)
    obtain natr where n: "setup_nat y cfg s5 = (natr, s')" using run e Inr by (auto simp: client_setup_def split: prod.splits)
    have chains: "ks_chains ?server ?tun f (map_of (tbl f s'))" for f
      using ks same_chains_entries [OF setup_nat_same [OF laws n]] by (simp add: ks_chains_def)
    have "let d = fst (traverse (tbl f s') p ''OUTPUT'' []); policy = ks_policy ?server ?tun p in
        d \<noteq> Pass \<and> (d = Accept \<longrightarrow> policy = Accept) \<and> (dns_policy ?tun p = Pass \<longrightarrow> d = policy)"
      if "packet_family p = Some f" for p f
      using ks_chains_decide [OF assms(2) chains that] by (simp add: Let_def)
    then show ?thesis using run e Inr n k(2) ks by (auto simp: client_setup_def)
  qed
qed

text \<open>A host whose \<open>iptables\<close> keeps the chains and on which every other command succeeds without effect
  on them.\<close>

definition demo_run :: "(FirewallFamily \<Rightarrow> chains) runner" where
  "demo_run bin argv s =
     (if (bin = ''iptables'' \<or> bin = ''ip6tables'') \<and> hd argv \<noteq> ''-t'' then table_run bin argv s else (Inr (), s))"

definition demo_sys :: "(FirewallFamily \<Rightarrow> chains) client_sys" where
  "demo_sys = \<lparr>y_os = \<lparr>os_run = demo_run, os_output = (\<lambda>argv s. None)\<rparr>, y_lib = demo_lib, y_ipv6 = (\<lambda>s. True),
     y_read = (\<lambda>p s. Inl ''missing''), y_link_index = (\<lambda>n s. Inl ''missing''), y_nl_add = (\<lambda>m s. (True, s)),
     y_nl_del = (\<lambda>m s. s), y_fs = (\<lambda>s. Map.empty), y_set_fs = (\<lambda>fs s. s),
     y_install_io = (\<lambda>s. (True, Written, Written)), y_remove_io = (\<lambda>s. (True, Written, True))\<rparr>"

definition demo_config :: ClientConfig where
  "demo_config = client_default\<lparr>cl_kill_switch := True\<rparr>"

lemma demo_run_argv: "demo_run (family_bin f) (to_argv op) s = table_run (family_bin f) (to_argv op) s"
  by (cases f; cases op) (simp_all add: demo_run_def)

lemma demo_host_laws: "host_laws demo_sys (\<lambda>f s. s f)"
proof -
  have err: "s' = s" if "demo_run bin argv s = (Inl e, s')" for bin argv s e s'
    using that by (auto simp: demo_run_def table_run_def Let_def split: if_splits option.splits FirewallOp.splits)
  have "iptables_laws demo_run (\<lambda>f s. s f)"
    unfolding iptables_laws_def
  proof (intro conjI allI impI)
    fix f op s u s' assume a: "standard_op op \<and> op_in_family f op \<and> demo_run (family_bin f) (to_argv op) s = (Inr u, s')"
    then have "table_run (family_bin f) (to_argv op) s = (Inr u, s')" by (simp only: demo_run_argv)
    then show "map_of (s' f) = map_op (of_family f) op (map_of (s f))" "\<And>g. g \<noteq> f \<Longrightarrow> s' g = s g"
      using table_run_laws a unfolding iptables_laws_def by blast+
  next
    fix f c s u s' assume "demo_run (family_bin f) (to_argv (CreateChain c)) s = (Inr u, s')"
    then have "table_run (family_bin f) (to_argv (CreateChain c)) s = (Inr u, s')" by (simp only: demo_run_argv)
    then show "map_of (s f) c = None" using table_run_laws unfolding iptables_laws_def by blast
  qed (use err in blast)
  moreover have "snd (demo_run bin argv s) = s" if "spares bin argv" for bin argv s
    using that by (auto simp: demo_run_def spares_def split: list.splits)
  ultimately show ?thesis by (simp add: host_laws_def demo_sys_def)
qed

lemma demo_exec: "iptables_exec demo_run op s = iptables_exec table_run op s"
proof (cases op)
qed (simp_all add: run_both_def demo_run_argv [of Ipv4, simplified] demo_run_argv [of Ipv6, simplified] demo_run_argv
    del: to_argv.simps split: prod.splits sum.splits)

subsection \<open>Rules of other programs\<close>

text \<open>The hypothesis \<open>own_chains\<close> matters. The jump into the chain of a guard is appended to \<open>OUTPUT\<close>, so a rule that
  another program has put there comes first: where it accepts a packet, installing the kill switch changes nothing for that packet.\<close>

lemma foreign_first:
  assumes "map_of cs ''OUTPUT'' = Some (Entry_Rule rule # es)"
    "op \<in> set (install_ops KS_CHAIN rules)"
  shows "\<exists>es'. map_of (apply_op op cs) ''OUTPUT'' = Some (Entry_Rule rule # es')"
proof -
  have "KS_CHAIN \<noteq> ''OUTPUT''" by (simp add: KS_CHAIN_def)
  then show ?thesis using assms
    by (auto simp: install_ops_def push_entry_def change_chain_def update_conv' delete_conv' restrict_map_def split: option.splits)
qed

lemma foreign_accept_leaks:
  assumes "map_of cs ''OUTPUT'' = Some (Entry_Rule rule # es)" "rule_matches rule p" "target rule = ''ACCEPT''"
  shows "fst (traverse (fold apply_op (g_ops (ks_new server tun)) cs) p ''OUTPUT'' []) = Accept"
proof -
  have "\<exists>es'. map_of (fold apply_op ops cs) ''OUTPUT'' = Some (Entry_Rule rule # es')"
    if "set ops \<subseteq> set (install_ops KS_CHAIN (ks_rules server tun))" for ops
    using that assms(1)
  proof (induction ops arbitrary: cs es)
    case (Cons op ops)
    then show ?case using foreign_first [of cs rule es op "ks_rules server tun"] by fastforce
  qed simp
  from this [OF subset_refl] show ?thesis
    using assms(2,3) by (auto simp: ks_new_def traverse.simps [of _ _ "''OUTPUT''"] rule_decision_def)
qed

end
