(* ===== verification/Client_Daemon.thy ===== *)
theory Client_Daemon
  imports Client_Guards Session_Demo
begin

text \<open>
  The client daemon (\<open>run_client\<close> in \<open>src/src/daemon/mod.rs\<close>): the checks before the host is touched, the
  connection loop over the handshake driver and the tunnel, and the way out. What happens outside
  in one round of the loop (the stop signal, the carrier, the network, the events of the tunnel) is
  the record \<open>conn_env\<close>; the loop takes a list of rounds and may still be running when it ends.
\<close>

subsection \<open>Constants and helpers\<close>

definition RECONNECT_INITIAL_BACKOFF :: nat where "RECONNECT_INITIAL_BACKOFF = 1000000000"
definition RECONNECT_MAX_BACKOFF :: nat where "RECONNECT_MAX_BACKOFF = 30 * 1000000000"

definition effective_tun_mtu :: "u32 \<Rightarrow> u32" where
  "effective_tun_mtu configured = (let cap = of_nat MAX_PAYLOAD in max (min configured cap) 576)"

definition parse_pubkey :: "(string \<Rightarrow> bytes option) \<Rightarrow> string \<Rightarrow> bytes option" where
  "parse_pubkey hex_decode hex_str =
     (case hex_decode (trim hex_str) of
        None \<Rightarrow> None
      | Some b \<Rightarrow> if length b \<noteq> 32 then None else Some b)"

text \<open>Whether the sleep elapsed: \<open>stopped\<close> is the signal on entry, \<open>changed\<close> the value it changed to before the
  time was over.\<close>

definition sleep_or_stop :: "bool \<Rightarrow> bool option \<Rightarrow> bool" where
  "sleep_or_stop stopped changed =
     (if stopped then False else (case changed of Some v \<Rightarrow> \<not> v | None \<Rightarrow> True))"

subsection \<open>The connection loop\<close>

datatype client_error =
    NoKeyFile | KeyFileError string | BadServerPubkey | TunError' string | KillSwitchFailed string
  | InvalidProfile ProfileError | ConnectError string | HandshakeErr DriverError | UnusableSelection ProfileError

datatype client_fault = BindFailed string | HandshakeFault DriverError | SessionFault TunnelExit

datatype loop_end = LoopDone | LoopErr client_error | LoopPanic

datatype round_result = NextRound | EndLoop loop_end | InSession

record conn_env =
  ce_stop_top :: bool
  ce_connect :: "string + carrier_kind"
  ce_stop_handshake :: bool
  ce_net :: "nat \<Rightarrow> Attempt"
  ce_now :: nat
  ce_mtu :: "nat option"
  ce_events :: "(tunnel_env \<times> event) list"
  ce_stop_session :: bool
  ce_sleep_stopped :: bool
  ce_sleep_changed :: "bool option"

record client_loop =
  lo_backoff :: nat
  lo_obf :: ObfuscationStack
  lo_counters :: Counters
  lo_reconnecting :: bool
  lo_attempts :: u32
  lo_last_error :: "client_fault option"

definition note_fault :: "client_fault \<Rightarrow> client_loop \<Rightarrow> client_loop" where
  "note_fault fault st = st\<lparr>lo_reconnecting := True,
     lo_attempts := (if lo_attempts st = - 1 then lo_attempts st else lo_attempts st + 1), lo_last_error := Some fault\<rparr>"

text \<open>The delay of a round is what it asked to sleep, with whether the attempt had failed.\<close>

definition retry_later :: "conn_env \<Rightarrow> client_loop \<Rightarrow> round_result \<times> (bool \<times> nat) list \<times> client_loop" where
  "retry_later e st =
     (if sleep_or_stop (ce_sleep_stopped e) (ce_sleep_changed e)
      then (NextRound, [(True, lo_backoff st)], st\<lparr>lo_backoff := min (lo_backoff st * 2) RECONNECT_MAX_BACKOFF\<rparr>)
      else (EndLoop LoopDone, [(True, lo_backoff st)], st))"

definition session_over :: "TunnelExit \<Rightarrow> bool \<Rightarrow> Counters \<Rightarrow> client_loop \<Rightarrow> client_loop" where
  "session_over exit stopped counters st =
     (let st = st\<lparr>lo_counters := counters\<lparr>c_connected := False\<rparr>\<rparr>
      in if exit = Stopped \<or> stopped then st\<lparr>lo_reconnecting := False, lo_last_error := None\<rparr>
         else note_fault (SessionFault exit) st)"

definition client_round ::
  "noise_crypto \<Rightarrow> hkdf_fun \<Rightarrow> ClientConfig \<Rightarrow> KeyPair \<Rightarrow> bytes \<Rightarrow> LocalProfile \<Rightarrow> conn_env \<Rightarrow> client_loop
   \<Rightarrow> round_result \<times> (bool \<times> nat) list \<times> client_loop" where
  "client_round c hkdf cfg kp server_pub profile e st =
     (if ce_stop_top e then (EndLoop LoopDone, [], st)
      else case ce_connect e of
        Inl err \<Rightarrow>
          let st = note_fault (BindFailed err) st
          in if \<not> cl_reconnect cfg then (EndLoop (LoopErr (ConnectError err)), [], st) else retry_later e st
      | Inr carrier \<Rightarrow>
          if ce_stop_handshake e then (EndLoop LoopDone, [], st\<lparr>lo_reconnecting := False\<rparr>)
          else (case handshake_client c (cl_server cfg) kp server_pub profile (ce_net e) (lo_obf st) of
            (Inl err, obf, _) \<Rightarrow>
              let st = note_fault (HandshakeFault err) (st\<lparr>lo_obf := obf\<rparr>)
              in if \<not> cl_reconnect cfg then (EndLoop (LoopErr (HandshakeErr err)), [], st) else retry_later e st
          | (Inr est, obf, _) \<Rightarrow>
              let st = st\<lparr>lo_obf := obf, lo_backoff := RECONNECT_INITIAL_BACKOFF, lo_reconnecting := False,
                    lo_attempts := 0, lo_last_error := None\<rparr>
              in (case client_tunnel hkdf (ce_now e) carrier profile (cl_fec cfg) obf est (lo_counters st) of
                Inl CongestionPanic \<Rightarrow> (EndLoop LoopPanic, [], st)
              | Inl (UnusableProfile err) \<Rightarrow> (EndLoop (LoopErr (UnusableSelection err)), [], st)
              | Inr tunnel \<Rightarrow> (case tunnel_run (ce_mtu e) (ce_events e) tunnel of
                  Inl _ \<Rightarrow> (EndLoop LoopPanic, [], st)
                | Inr (None, tunnel) \<Rightarrow> (InSession, [], st\<lparr>lo_counters := t_counters tunnel\<rparr>)
                | Inr (Some exit, tunnel) \<Rightarrow>
                    let st = session_over exit (ce_stop_session e) (t_counters tunnel) st
                    in if ce_stop_session e \<or> \<not> cl_reconnect cfg then (EndLoop LoopDone, [], st)
                       else (if sleep_or_stop (ce_sleep_stopped e) (ce_sleep_changed e) then NextRound else EndLoop LoopDone,
                             [(False, RECONNECT_INITIAL_BACKOFF)], st)))))"

text \<open>\<open>None\<close> if the loop is still running.\<close>

fun client_rounds ::
  "noise_crypto \<Rightarrow> hkdf_fun \<Rightarrow> ClientConfig \<Rightarrow> KeyPair \<Rightarrow> bytes \<Rightarrow> LocalProfile \<Rightarrow> conn_env list \<Rightarrow> client_loop
   \<Rightarrow> loop_end option \<times> (bool \<times> nat) list \<times> client_loop" where
  "client_rounds c hkdf cfg kp server_pub profile [] st = (None, [], st)"
| "client_rounds c hkdf cfg kp server_pub profile (e # es) st =
     (case client_round c hkdf cfg kp server_pub profile e st of
        (EndLoop x, ds, st) \<Rightarrow> (Some x, ds, st)
      | (InSession, ds, st) \<Rightarrow> (None, ds, st)
      | (NextRound, ds, st) \<Rightarrow>
          let (x, ds', st) = client_rounds c hkdf cfg kp server_pub profile es st in (x, ds @ ds', st))"

subsection \<open>The whole daemon\<close>

definition loop_start :: "ClientConfig \<Rightarrow> client_loop" where
  "loop_start cfg = \<lparr>lo_backoff = RECONNECT_INITIAL_BACKOFF, lo_obf = build_stack (cl_obfuscation cfg),
     lo_counters = counters_default, lo_reconnecting = False, lo_attempts = 0, lo_last_error = None\<rparr>"

text \<open>The kill switch forces route-all on.\<close>

definition force_route_all :: "ClientConfig \<Rightarrow> ClientConfig" where
  "force_route_all cfg = (if cl_kill_switch cfg \<and> \<not> cl_route_all cfg then cfg\<lparr>cl_route_all := True\<rparr> else cfg)"

text \<open>\<open>key\<close> is the outcome of loading the key file, \<open>tun\<close> of creating the device. The result has the end of
  the loop, the state of the host while the loop runs and the state after the daemon.\<close>

definition run_client ::
  "noise_crypto \<Rightarrow> hkdf_fun \<Rightarrow> (string \<Rightarrow> bytes option) \<Rightarrow> 's client_sys \<Rightarrow> ClientConfig \<Rightarrow> string + KeyPair \<Rightarrow> string + unit
   \<Rightarrow> conn_env list \<Rightarrow> 's \<Rightarrow> loop_end option \<times> 's option \<times> 's" where
  "run_client c hkdf hex_decode y cfg key tun es s =
     (if cl_key_path cfg = [] then (Some (LoopErr NoKeyFile), None, s)
      else let cfg = force_route_all cfg in case key of
        Inl e \<Rightarrow> (Some (LoopErr (KeyFileError e)), None, s)
      | Inr kp \<Rightarrow> (case parse_pubkey hex_decode (cl_server_pubkey_hex cfg) of
          None \<Rightarrow> (Some (LoopErr BadServerPubkey), None, s)
        | Some server_pub \<Rightarrow> (case tun of
            Inl e \<Rightarrow> (Some (LoopErr (TunError' e)), None, s)
          | Inr _ \<Rightarrow> (case client_setup y cfg s of
              (Inl e, s) \<Rightarrow> (Some (LoopErr (KillSwitchFailed e)), None, s)
            | (Inr gs, s) \<Rightarrow>
                (case from_role_config hex_decode (cl_handshake cfg) (cl_crypto cfg) (cl_transport cfg) (cl_fec cfg)
                    (cl_congestion cfg) (cl_frame cfg) of
                  Inl e \<Rightarrow> (Some (LoopErr (InvalidProfile e)), None, client_unwind y gs s)
                | Inr profile \<Rightarrow>
                    (case client_rounds c hkdf cfg kp server_pub profile es (loop_start cfg) of
                      (None, _) \<Rightarrow> (None, Some s, s)
                    | (Some LoopDone, _) \<Rightarrow> (Some LoopDone, Some s, client_shutdown y gs s)
                    | (Some x, _) \<Rightarrow> (Some x, Some s, client_unwind y gs s)))))))"

subsection \<open>What a round does\<close>

definition backoff_after :: "nat \<Rightarrow> nat" where
  "backoff_after k = min (2 ^ k) 30 * 1000000000"

lemma backoff_double: "min (backoff_after k * 2) RECONNECT_MAX_BACKOFF = backoff_after (Suc k)"
  by (auto simp: backoff_after_def RECONNECT_MAX_BACKOFF_def min_def)

lemma backoff_initial [simp]: "RECONNECT_INITIAL_BACKOFF = backoff_after 0"
  by (simp add: backoff_after_def RECONNECT_INITIAL_BACKOFF_def)

text \<open>The documented schedule: \<open>k\<close> counts the attempts that failed since the last session.\<close>

fun delays_follow :: "nat \<Rightarrow> (bool \<times> nat) list \<Rightarrow> bool" where
  "delays_follow k [] = True"
| "delays_follow k ((failed, d) # ds) =
     (if failed then d = backoff_after k \<and> delays_follow (k + 1) ds else d = backoff_after 0 \<and> delays_follow 0 ds)"

lemma delays_follow_bounds:
  "delays_follow k ds \<Longrightarrow> (failed, d) \<in> set ds \<Longrightarrow> backoff_after 0 \<le> d \<and> d \<le> RECONNECT_MAX_BACKOFF"
  by (induction k ds rule: delays_follow.induct)
     (auto simp: backoff_after_def RECONNECT_MAX_BACKOFF_def split: if_splits)

lemma note_fault_backoff [simp]: "lo_backoff (note_fault fault st) = lo_backoff st"
  by (simp add: note_fault_def)

lemma session_over_backoff [simp]: "lo_backoff (session_over exit stopped counters st) = lo_backoff st"
  by (simp add: session_over_def Let_def)

text \<open>A round asks for at most one delay: after a failure the current backoff, which then doubles, and
  after a session the initial one.\<close>

lemma round_delay:
  assumes "client_round c hkdf cfg kp server_pub profile e st = (r, ds, st')"
  shows "ds = [] \<and> r \<noteq> NextRound \<or>
    ds = [(True, lo_backoff st)] \<and> (r = NextRound \<longrightarrow> lo_backoff st' = min (lo_backoff st * 2) RECONNECT_MAX_BACKOFF) \<or>
    ds = [(False, RECONNECT_INITIAL_BACKOFF)] \<and> lo_backoff st' = RECONNECT_INITIAL_BACKOFF"
  using assms unfolding client_round_def Let_def retry_later_def
  by (auto split: if_splits sum.splits prod.splits SetupError.splits option.splits)

definition stop_seen :: "conn_env \<Rightarrow> bool" where
  "stop_seen e \<longleftrightarrow> ce_stop_top e \<or> ce_stop_handshake e \<or> ce_stop_session e \<or> ce_sleep_stopped e \<or> ce_sleep_changed e = Some True"

lemma sleep_interrupted:
  "\<not> sleep_or_stop (ce_sleep_stopped e) (ce_sleep_changed e) \<Longrightarrow> stop_seen e"
  by (auto simp: sleep_or_stop_def stop_seen_def split: if_splits option.splits)

text \<open>The client checked the selection in the handshake, so a session that was established can
  always be set up.\<close>

lemma established_sets_up:
  assumes "from_role_config hex_decode hs cy tr fec cg fr = Inr profile"
    and "handshake_client c server kp server_pub profile net obf = (Inr est, obf', sent)"
  shows "\<exists>t. client_tunnel hkdf now carrier profile fec' obf'' est counters = Inr t"
proof -
  obtain k where "new_congestion profile = Inr k"
    using assms(1) accepted_config_resolves by (fastforce simp: from_role_config_def try_bind_eq_Inr)
  moreover have "sel_check (se_selection est) = Inr ()" using handshake_client_outcome [OF assms(2)] by simp
  then obtain rp where "with_handshake_transport (se_selection est) (lp_handshake_transport profile) k = Inr rp"
    using with_handshake_transport_ok by blast
  ultimately show ?thesis by (simp add: client_tunnel_def Let_def)
qed

lemma round_end:
  assumes "from_role_config hex_decode hs cy tr fec cg fr = Inr profile" "cl_reconnect cfg"
    and "client_round c hkdf cfg kp server_pub profile e st = (EndLoop x, ds, st')"
  shows "x = LoopDone \<and> stop_seen e \<or> x = LoopPanic \<and> (\<exists>t p. tunnel_run (ce_mtu e) (ce_events e) t = Inl p)"
proof -
  have "r \<noteq> Inl se" if "handshake_client c (cl_server cfg) kp server_pub profile (ce_net e) (lo_obf st) = (Inr est, obf, sent)"
    "client_tunnel hkdf (ce_now e) carrier profile (cl_fec cfg) obf est cs = r" for est obf sent carrier cs r se
    using established_sets_up [OF assms(1) that(1), of hkdf "ce_now e" carrier "cl_fec cfg" obf cs] that(2) by auto
  then show ?thesis using assms(2,3) sleep_interrupted [of e] unfolding client_round_def Let_def retry_later_def
    by (auto simp: stop_seen_def split: if_splits sum.splits prod.splits SetupError.splits option.splits)
qed

subsection \<open>Properties\<close>

text \<open>C26. With reconnection on, the connection loop of the client ends only because a stop was signalled,
  or because the tunnel of a session panicked: no failure to open the carrier, no failed handshake, no
  selection of the server and no end of a session stops it. With reconnection off it makes a single
  attempt.\<close>

theorem client_reconnects:
  assumes "from_role_config hex_decode (cl_handshake cfg) (cl_crypto cfg) (cl_transport cfg) (cl_fec cfg) (cl_congestion cfg)
      (cl_frame cfg) = Inr profile"
    and "client_rounds c hkdf cfg kp server_pub profile es st = (res, ds, st')"
  shows "(cl_reconnect cfg \<longrightarrow> (\<forall>x. res = Some x \<longrightarrow>
      x = LoopDone \<and> (\<exists>e \<in> set es. stop_seen e) \<or>
      x = LoopPanic \<and> (\<exists>e \<in> set es. \<exists>t p. tunnel_run (ce_mtu e) (ce_events e) t = Inl p))) \<and>
    (\<not> cl_reconnect cfg \<longrightarrow> ds = [] \<and> (res, ds, st') = client_rounds c hkdf cfg kp server_pub profile (take 1 es) st)"
proof (cases "cl_reconnect cfg")
  case True
  have "res = Some x \<Longrightarrow> x = LoopDone \<and> (\<exists>e \<in> set es. stop_seen e) \<or>
      x = LoopPanic \<and> (\<exists>e \<in> set es. \<exists>t p. tunnel_run (ce_mtu e) (ce_events e) t = Inl p)" for x
    using assms(2)
  proof (induction es arbitrary: st ds)
    case (Cons e es)
    then show ?case using round_end [OF assms(1) True, of c hkdf kp server_pub e st]
      by (fastforce split: prod.splits round_result.splits)
  qed simp
  then show ?thesis using True by blast
next
  case False
  have "r \<noteq> NextRound \<and> ds = []" if "client_round c hkdf cfg kp server_pub profile e st = (r, ds, st')" for e r ds st'
    using that False unfolding client_round_def Let_def
    by (auto split: if_splits sum.splits prod.splits SetupError.splits option.splits)
  then have "ds = [] \<and> (res, ds, st') = client_rounds c hkdf cfg kp server_pub profile (take 1 es) st"
    using assms(2) by (cases es) (fastforce split: prod.splits round_result.splits)+
  then show ?thesis using False by blast
qed

text \<open>C38. The delays between attempts follow the documented schedule: after the \<open>k\<close>-th consecutive failure
  the client waits \<open>2 ^ k\<close> seconds, at most 30, and after a session one second; so every delay lies
  between one and 30 seconds.\<close>

theorem reconnect_backoff:
  "delays_follow 0 (fst (snd (client_rounds c hkdf cfg kp server_pub profile es (loop_start cfg)))) \<and>
   list_all (\<lambda>(failed, d). 10 ^ 9 \<le> d \<and> d \<le> 30 * 10 ^ 9)
     (fst (snd (client_rounds c hkdf cfg kp server_pub profile es (loop_start cfg))))"
proof -
  have "delays_follow k ds" if "client_rounds c hkdf cfg kp server_pub profile es st = (res, ds, st')" "lo_backoff st = backoff_after k"
    for k st res ds st'
    using that
  proof (induction es arbitrary: st k res ds st')
    case (Cons e es)
    obtain r ds1 st1 where r: "client_round c hkdf cfg kp server_pub profile e st = (r, ds1, st1)" by (metis prod_cases3)
    note d = round_delay [OF r]
    show ?case
    proof (cases "r = NextRound")
      case True
      obtain res2 ds2 st2 where n: "client_rounds c hkdf cfg kp server_pub profile es st1 = (res2, ds2, st2)" by (metis prod_cases3)
      then have ds: "ds = ds1 @ ds2" using Cons.prems(1) r True by simp
      show ?thesis
        using d True ds Cons.IH [OF n, of "Suc k"] Cons.IH [OF n, of 0] Cons.prems(2) by (auto simp: backoff_double)
    next
      case False
      then have "ds = ds1" using Cons.prems(1) r by (auto split: round_result.splits)
      then show ?thesis using d Cons.prems(2) by auto
    qed
  qed simp
  from this [of "loop_start cfg" _ _ _ 0]
  have f: "delays_follow 0 (fst (snd (client_rounds c hkdf cfg kp server_pub profile es (loop_start cfg))))"
    by (cases "client_rounds c hkdf cfg kp server_pub profile es (loop_start cfg)") (simp add: loop_start_def)
  then show ?thesis using delays_follow_bounds [OF f] by (auto simp: list_all_iff backoff_after_def RECONNECT_MAX_BACKOFF_def)
qed

text \<open>C8. With the kill switch configured, from any state of the host in which \<open>OUTPUT\<close> only jumps to the
  guards' own chains, and whichever commands fail during set-up: whenever the client daemon is in
  its connection loop, every packet of either family is decided, none outside loopback, the tunnel
  device and the server endpoint is accepted, and apart from DNS the decision is exactly the
  kill-switch policy. In particular the daemon never tries to connect if the kill switch could not be
  installed.\<close>

theorem client_runs_protected:
  assumes "host_laws y tbl" "ip_wf (sock_ip (cl_server cfg))" "cl_kill_switch cfg"
    and "\<forall>f. own_chains (cl_tun_name cfg) (map_of (tbl f s))"
    and run: "run_client c hkdf hex_decode y cfg key tun es s = (res, Some s', fin)"
    and "packet_family p = Some f"
  defines "d \<equiv> fst (traverse (tbl f s') p ''OUTPUT'' [])"
  shows "d \<noteq> Pass \<and> (d = Accept \<longrightarrow> ks_policy (cl_server cfg) (cl_tun_name cfg) p = Accept) \<and>
    (dns_policy (cl_tun_name cfg) p = Pass \<longrightarrow> d = ks_policy (cl_server cfg) (cl_tun_name cfg) p)"
proof -
  have f: "cl_server (force_route_all cfg) = cl_server cfg" "cl_tun_name (force_route_all cfg) = cl_tun_name cfg"
    "cl_kill_switch (force_route_all cfg) = cl_kill_switch cfg"
    by (simp_all add: force_route_all_def)
  obtain gs where "client_setup y (force_route_all cfg) s = (Inr gs, s')"
    using run unfolding run_client_def Let_def
    by (auto split: if_splits sum.splits option.splits prod.splits loop_end.splits)
  from client_setup_protects [OF assms(1) _ _ _ this] show ?thesis
    using assms(2-4,6) unfolding d_def by (auto simp: f Let_def)
qed

definition demo_client_config :: ClientConfig where
  "demo_client_config = demo_config\<lparr>cl_key_path := ''client.key''\<rparr>"

definition demo_key :: "string \<Rightarrow> bytes option" where
  "demo_key text = Some (replicate 32 0)"

lemma demo_profile:
  "\<exists>lp. from_role_config demo_key (cl_handshake demo_client_config) (cl_crypto demo_client_config) (cl_transport demo_client_config)
      (cl_fec demo_client_config) (cl_congestion demo_client_config) (cl_frame demo_client_config) = Inr lp"
  by (auto simp: demo_client_config_def demo_config_def client_default_def from_role_config_def parse_tag_def
      handshake_default_def crypto_default_def transport_default_def fec_default_def congestion_default_def frame_default_def
      local_from_config_def select_handshake_def trim_def is_whitespace_def DEFAULT_HANDSHAKE_def
      transport_id_def DEFAULT_TRANSPORT_def TRANSPORT_SAME_AS_HANDSHAKE_def prefs_resolve_def non_empty_or_def check_names_def res_ok_def
      select_cipher_def DEFAULT_CIPHER_def select_fec_scheme_def DEFAULT_FEC_SCHEME_def build_frame_codec_def
      DEFAULT_FRAME_CODEC_def local_congestion_name_def select_congestion_def DEFAULT_CONGESTION_def Let_def)

theorem client_runs_protected_witness:
  "\<exists>s'. run_client demo_crypto (\<lambda>_ _ n. replicate n 0) demo_key demo_sys demo_client_config
      (Inr (keypair_of demo_crypto (pad32 [1]))) (Inr ()) [] (\<lambda>_. []) = (None, Some s', s') \<and>
    fst (traverse (s' Ipv4) \<lparr>pk_proto = ''tcp'', pk_dst = show_ip (V4 9 9 9 9), pk_dport = 443, pk_iface = ''eth0''\<rparr> ''OUTPUT'' []) = Reject"
proof -
  let ?p = "\<lparr>pk_proto = ''tcp'', pk_dst = show_ip (V4 9 9 9 9), pk_dport = 443, pk_iface = ''eth0''\<rparr>"
  let ?cfg = demo_client_config
  have cfg: "cl_server ?cfg = \<lparr>sock_ip = V4 127 0 0 1, sock_port = 46722\<rparr>" "cl_tun_name ?cfg = ''rustnies0''"
    "cl_kill_switch ?cfg" "cl_route_all ?cfg" "cl_key_path ?cfg \<noteq> []"
    by (simp_all add: demo_client_config_def demo_config_def client_default_def)
  have exec: "iptables_exec demo_run = iptables_exec table_run" by (intro ext) (rule demo_exec)
  have kill: "\<exists>ks s'. setup_kill demo_sys ?cfg s = (Inr (Some ks), s')" for s
    using table_install_ok [of "ks_rules (cl_server ?cfg) (cl_tun_name ?cfg)" KS_CHAIN s] ks_rules_standard cfg(3)
    by (auto simp: setup_kill_def demo_sys_def exec ks_install_def guard_install_def ks_new_def)
  obtain r s' where r: "client_setup demo_sys ?cfg (\<lambda>_. []) = (r, s')" by fastforce
  then obtain gs where gs: "r = Inr gs" using kill
    by (cases r) (auto simp: client_setup_def Let_def split: prod.splits sum.splits, metis Inl_Inr_False Pair_inject)
  have run: "run_client demo_crypto (\<lambda>_ _ n. replicate n 0) demo_key demo_sys ?cfg
      (Inr (keypair_of demo_crypto (pad32 [1]))) (Inr ()) [] (\<lambda>_. []) = (None, Some s', s')"
    using r gs demo_profile cfg by (auto simp: run_client_def force_route_all_def parse_pubkey_def demo_key_def)
  have "packet_family ?p = Some Ipv4" using parse_ip_display [of "V4 9 9 9 9"] by (auto simp: packet_family_def)
  moreover have "\<forall>f. own_chains (cl_tun_name ?cfg) (map_of ((\<lambda>f s. s f) f (\<lambda>_. [])))"
    by (auto simp: own_chains_def chain_entries_def)
  moreover have "ks_policy (cl_server ?cfg) (cl_tun_name ?cfg) ?p = Reject" "dns_policy (cl_tun_name ?cfg) ?p = Pass"
    by (simp_all add: ks_policy_def dns_policy_def to_server_def cfg)
  ultimately show ?thesis
    using client_runs_protected [OF demo_host_laws _ cfg(3) _ run, of ?p Ipv4] run cfg(1) by auto
qed

text \<open>A client that cannot open its carrier, waits, and is stopped.\<close>

definition demo_round :: "bool \<Rightarrow> conn_env" where
  "demo_round stop = \<lparr>ce_stop_top = stop, ce_connect = Inl ''unreachable'', ce_stop_handshake = False,
     ce_net = (\<lambda>_. \<lparr>at_ephemeral = [], at_now = 0, at_send_ok = False, at_reply = (\<lambda>_. TimedOut)\<rparr>), ce_now = 0, ce_mtu = None,
     ce_events = [], ce_stop_session = False, ce_sleep_stopped = False, ce_sleep_changed = None\<rparr>"

theorem client_reconnects_witness:
  "\<exists>profile ds st'. client_rounds demo_crypto (\<lambda>_ _ n. replicate n 0) demo_client_config (keypair_of demo_crypto (pad32 [1])) (replicate 32 0)
      profile [demo_round False, demo_round True] (loop_start demo_client_config) = (Some LoopDone, ds, st') \<and>
    (\<exists>e \<in> set [demo_round False, demo_round True]. stop_seen e)"
proof -
  obtain profile where p: "from_role_config demo_key (cl_handshake demo_client_config) (cl_crypto demo_client_config)
      (cl_transport demo_client_config) (cl_fec demo_client_config) (cl_congestion demo_client_config) (cl_frame demo_client_config) = Inr profile"
    using demo_profile by blast
  have on: "cl_reconnect demo_client_config" by (simp add: demo_client_config_def demo_config_def client_default_def)
  let ?run = "client_rounds demo_crypto (\<lambda>_ _ n. replicate n 0) demo_client_config (keypair_of demo_crypto (pad32 [1])) (replicate 32 0)
      profile [demo_round False, demo_round True] (loop_start demo_client_config)"
  have "fst ?run = Some LoopDone"
    using on by (simp add: client_round_def demo_round_def retry_later_def sleep_or_stop_def)
  then obtain ds st' where run: "?run = (Some LoopDone, ds, st')" by (metis fst_conv surj_pair)
  from client_reconnects [OF p run] on show ?thesis using run by blast
qed

end
