(* ===== verification/Server_Daemon.thy ===== *)
theory Server_Daemon
  imports Client_Guards Server_Safety
begin

text \<open>
  The server daemon (\<open>run_server\<close>, \<open>spawn_sighup\<close>, \<open>cidr_base\<close>, \<open>cidr_base_v6\<close> in \<open>src/src/daemon/mod.rs\<close>): from a
  configuration to the dispatcher of theory \<open>Server\<close>, and the reload of the peer list. Binding the
  listener, loading the key and creating the device are outcomes passed as arguments; \<open>contains\<close> is
  membership in a network of the crate \<open>ipnet\<close>.
\<close>

subsection \<open>Networks\<close>

definition parse_ipv6 :: "string \<Rightarrow> u16 list option" where
  "parse_ipv6 s = (case read_ipv6_addr s of Some (segs, []) \<Rightarrow> Some (map of_nat segs) | _ \<Rightarrow> None)"

text \<open>\<open>IpNet::new\<close> refuses a prefix over 32, and \<open>network\<close> is the truncated address.\<close>

definition cidr_base :: "ipnet_lib \<Rightarrow> string \<Rightarrow> u8 \<Rightarrow> string" where
  "cidr_base lib addr plen = (case parse_ipv4 addr of
       Some ip \<Rightarrow> if plen \<le> 32 then show_ip (fst (in_trunc lib (ip, unat plen))) else addr
     | None \<Rightarrow> addr)"

definition cidr_base_v6 :: "string \<Rightarrow> u8 \<Rightarrow> string" where
  "cidr_base_v6 addr plen = (case parse_ipv6 addr of
       Some segs \<Rightarrow>
         if plen \<ge> 64
         then let network_groups = unat plen div 16
           in show_ip (V6 (take network_groups segs @ replicate (length segs - network_groups) 0))
         else addr
     | None \<Rightarrow> addr)"

definition tun_cidr :: "ipnet_lib \<Rightarrow> ServerConfig \<Rightarrow> string" where
  "tun_cidr lib cfg = cidr_base lib (sc_tun_addr cfg) (sc_tun_prefix cfg) @ ''/'' @ show_nat (unat (sc_tun_prefix cfg))"

definition tun_cidr6 :: "ServerConfig \<Rightarrow> string option" where
  "tun_cidr6 cfg = map_option (\<lambda>addr6.
     let prefix6 = (case sc_tun_prefix6 cfg of Some p \<Rightarrow> p | None \<Rightarrow> 64)
     in cidr_base_v6 addr6 prefix6 @ ''/'' @ show_nat (unat prefix6)) (sc_tun_addr6 cfg)"

definition tun_nets :: "ipnet_lib \<Rightarrow> ServerConfig \<Rightarrow> (IpAddr \<times> nat) list" where
  "tun_nets lib cfg =
     (case in_parse lib (tun_cidr lib cfg) of Some net \<Rightarrow> [net] | None \<Rightarrow> []) @
     (case tun_cidr6 cfg of
        Some text \<Rightarrow> (case in_parse lib text of Some net \<Rightarrow> [net] | None \<Rightarrow> [])
      | None \<Rightarrow> [])"

definition setup_server_nat :: "'s client_sys \<Rightarrow> ServerConfig \<Rightarrow> 's \<Rightarrow> NatRules option \<times> 's" where
  "setup_server_nat y cfg s =
     (if sc_enable_nat cfg then
        let rules = nat_new (y_lib y) (tun_cidr (y_lib y) cfg) (sc_tun_name cfg) (sc_nat_out_iface cfg);
            rules = (case tun_cidr6 cfg of Some text \<Rightarrow> with_v6_cidr (y_lib y) text rules | None \<Rightarrow> rules)
        in case nat_install (y_os y) (y_ipv6 y s) rules s of
            (Inr _, r, s) \<Rightarrow> (Some r, s)
          | (Inl _, r, s) \<Rightarrow> (None, snd (nat_remove (y_os y) r s))
      else (None, s))"

subsection \<open>Peers\<close>

definition start_peer_auth :: "(string \<Rightarrow> bytes option) \<Rightarrow> ServerConfig \<Rightarrow> PeerAuth" where
  "start_peer_auth hex_decode cfg = (case sc_peers cfg of
       Some entries \<Rightarrow> from_entries hex_decode entries
     | None \<Rightarrow> open_mode)"

text \<open>One signal; without a configuration file it is not handled.\<close>

definition sighup_reload ::
  "(string \<Rightarrow> bytes option) \<Rightarrow> toml_lib \<Rightarrow> (path \<Rightarrow> read_outcome) \<Rightarrow> path option \<Rightarrow> PeerAuth \<Rightarrow> PeerAuth" where
  "sighup_reload hex_decode lib read config_path auth = (case config_path of
       None \<Rightarrow> auth
     | Some p \<Rightarrow> (case load_or_empty_server lib read p of
         Inl e \<Rightarrow> auth
       | Inr file \<Rightarrow> (case sf_peers file of
           Some entries \<Rightarrow> set_peers hex_decode entries auth
         | None \<Rightarrow> set_open auth)))"

subsection \<open>The daemon\<close>

datatype server_error =
    ServerNoKey | ServerBindError string | ServerKeyError string | ServerTunError string | ServerProfileError ProfileError

record server_io =
  si_bind :: "string + carrier_kind option"
  si_key :: "string + KeyPair"
  si_tun :: "string + unit"
  si_now :: nat

definition server_ctx ::
  "noise_crypto \<Rightarrow> hkdf_fun \<Rightarrow> (bytes \<Rightarrow> string) \<Rightarrow> (string \<Rightarrow> bytes option) \<Rightarrow> (IpAddr \<times> nat \<Rightarrow> IpAddr \<Rightarrow> bool) \<Rightarrow> ipnet_lib
   \<Rightarrow> ServerConfig \<Rightarrow> carrier_kind option \<Rightarrow> KeyPair \<Rightarrow> LocalProfile \<Rightarrow> ServerCtx" where
  "server_ctx c hkdf hex_encode hex_decode contains lib cfg sender kp profile =
     \<lparr>sx_crypto = c, sx_hkdf = hkdf, sx_kp = kp, sx_profile = profile, sx_sender = sender,
      sx_nets = map contains (tun_nets lib cfg), sx_fec = sc_fec cfg, sx_max_sessions = sc_max_sessions_per_peer cfg,
      sx_hex_encode = hex_encode, sx_hex_decode = hex_decode\<rparr>"

text \<open>The dispatcher runs over the events; the NAT rules go when it has stopped, or with an early
  return.\<close>

definition run_server_daemon ::
  "noise_crypto \<Rightarrow> hkdf_fun \<Rightarrow> (bytes \<Rightarrow> string) \<Rightarrow> (string \<Rightarrow> bytes option) \<Rightarrow> (IpAddr \<times> nat \<Rightarrow> IpAddr \<Rightarrow> bool) \<Rightarrow> 's client_sys
   \<Rightarrow> ServerConfig \<Rightarrow> server_io \<Rightarrow> server_event list \<Rightarrow> 's \<Rightarrow> (server_error + ServerState) \<times> 's" where
  "run_server_daemon c hkdf hex_encode hex_decode contains y cfg io xs s =
     (if sc_key_path cfg = [] then (Inl ServerNoKey, s)
      else case si_bind io of
        Inl e \<Rightarrow> (Inl (ServerBindError e), s)
      | Inr sender \<Rightarrow> (case si_key io of
          Inl e \<Rightarrow> (Inl (ServerKeyError e), s)
        | Inr kp \<Rightarrow> (case si_tun io of
            Inl e \<Rightarrow> (Inl (ServerTunError e), s)
          | Inr _ \<Rightarrow>
              let (natr, s) = setup_server_nat y cfg s; drop_rules = drop_opt (\<lambda>r s. snd (nat_remove (y_os y) r s)) natr
              in (case from_role_config hex_decode (sc_handshake cfg) (sc_crypto cfg) (sc_transport cfg) (sc_fec cfg)
                    (sc_congestion cfg) (sc_frame cfg) of
                  Inl e \<Rightarrow> (Inl (ServerProfileError e), drop_rules s)
                | Inr profile \<Rightarrow>
                    let st = Server.run_server (server_ctx c hkdf hex_encode hex_decode contains (y_lib y) cfg sender kp profile) xs
                          (server_start (si_now io) (build_stack (sc_obfuscation cfg)) (start_peer_auth hex_decode cfg) counters_default)
                    in (Inr st, if sv_running st then s else drop_rules s)))))"

subsection \<open>Properties\<close>

lemma default_peers: "sc_peers (merge_server_config server_default file cli) = sf_peers file"
  by (simp add: merge_server_resolved resolved_server_def config_pick_layers set_some_def server_default_def split: option.splits)

lemma reload_check:
  assumes "load_or_empty_server lib read p = Inr file"
  shows "peer_check (sighup_reload hex_decode lib read (Some p) auth) key =
    (if is_revoked key auth then (False, Some ''revoked'')
     else peer_check (start_peer_auth hex_decode (merge_server_config server_default file cli)) key)"
  using assms by (auto simp: sighup_reload_def start_peer_auth_def default_peers peer_check_def set_peers_def set_open_def
      from_entries_def open_mode_def is_revoked_def split: option.splits)

text \<open>C25. A reload on SIGHUP is as good as a restart, and keeps the revocations: if the file can be loaded, then
  afterwards the authorizer answers for every key, label included, as the authorizer of a server that
  starts on the same file, except that revoked keys stay refused; if it cannot be read or parsed,
  nothing changes. A file that is missing counts as loaded and empty: the reload then opens the server to
  every key that is not revoked, while a restart with that \<open>--config\<close> path fails.\<close>

theorem reload_is_restart:
  assumes "cmd_server lib read present (Some p) cli = Inr cfg"
  shows "(if is_revoked key auth
      then peer_check (sighup_reload hex_decode lib read (sc_config_path cfg) auth) key = (False, Some ''revoked'')
      else peer_check (sighup_reload hex_decode lib read (sc_config_path cfg) auth) key
         = peer_check (start_peer_auth hex_decode cfg) key) \<and>
    (case read' p of
       FileError e \<Rightarrow> sighup_reload hex_decode lib read' (sc_config_path cfg) auth = auth
     | FileMissing \<Rightarrow> is_open_mode (sighup_reload hex_decode lib read' (sc_config_path cfg) auth) \<and>
         cmd_server lib read' (\<lambda>_. False) (Some p) cli = Inl (ConfigNotFound p)
     | FileText text \<Rightarrow> (case load_or_empty_server lib read' p of
           Inl e \<Rightarrow> sighup_reload hex_decode lib read' (sc_config_path cfg) auth = auth
         | Inr file \<Rightarrow> is_open_mode (sighup_reload hex_decode lib read' (sc_config_path cfg) auth) = (sf_peers file = None)))"
proof -
  obtain fc where f: "load_or_empty_server lib read p = Inr fc"
    "cfg = (merge_server_config server_default fc cli)\<lparr>sc_config_path := Some p\<rparr>"
    using assms by (auto simp: cmd_server_def load_server_config_def try_bind_eq_Inr split: if_splits)
  have start: "start_peer_auth hex_decode cfg = start_peer_auth hex_decode (merge_server_config server_default fc cli)"
    by (simp add: f(2) start_peer_auth_def)
  have missing: "load_or_empty_server lib read' p = Inr server_file_empty" if "read' p = FileMissing"
    using that by (simp add: load_or_empty_server_def)
  have unreadable: "load_or_empty_server lib read' p = Inl (ReadError e)" if "read' p = FileError e" for e
    using that by (simp add: load_or_empty_server_def)
  have path: "sc_config_path cfg = Some p" by (simp add: f(2))
  show ?thesis
  proof
    show "if is_revoked key auth
      then peer_check (sighup_reload hex_decode lib read (sc_config_path cfg) auth) key = (False, Some ''revoked'')
      else peer_check (sighup_reload hex_decode lib read (sc_config_path cfg) auth) key
         = peer_check (start_peer_auth hex_decode cfg) key"
      using reload_check [OF f(1), of hex_decode auth key cli] unfolding path start by (cases "is_revoked key auth") simp_all
  qed (use missing unreadable in \<open>auto simp: path sighup_reload_def cmd_server_def load_server_config_def server_file_empty_def
        is_open_mode_def set_open_def set_peers_def split: read_outcome.splits sum.splits option.splits\<close>)
qed

definition demo_cli :: ServerCliOverrides where
  "demo_cli = \<lparr>so_listen = None, so_tun = None, so_tun_addr = None, so_tun_prefix = None, so_tun_addr6 = None,
     so_tun_prefix6 = None, so_tun_mtu = None, so_key = None, so_nat = None, so_nat_iface = None, so_socket = None,
     so_log_level = None, so_verbose = False, so_log_file = None, so_max_sessions_per_peer = None\<rparr>"

definition demo_toml :: toml_lib where
  "demo_toml = \<lparr>tl_value = (\<lambda>_. Inr (TTable [])), tl_server = (\<lambda>_. Inr (server_file_empty\<lparr>sf_peers := Some []\<rparr>)),
     tl_client = (\<lambda>_. Inr client_file_empty)\<rparr>"

theorem reload_is_restart_witness:
  "\<exists>cfg. cmd_server demo_toml (\<lambda>_. FileText []) (\<lambda>_. True) (Some ''s.toml'') demo_cli = Inr cfg \<and>
     fst (peer_check (sighup_reload (\<lambda>_. None) demo_toml (\<lambda>_. FileText []) (sc_config_path cfg) open_mode) [1]) = False \<and>
     is_open_mode (sighup_reload (\<lambda>_. None) demo_toml (\<lambda>_. FileMissing) (sc_config_path cfg) open_mode)"
proof -
  obtain cfg where c: "cmd_server demo_toml (\<lambda>_. FileText []) (\<lambda>_. True) (Some ''s.toml'') demo_cli = Inr cfg"
    by (simp add: cmd_server_def load_server_config_def load_or_empty_server_def from_toml_def demo_toml_def)
  have "sc_peers cfg = Some []" using c
    by (auto simp: cmd_server_def load_server_config_def load_or_empty_server_def from_toml_def demo_toml_def default_peers)
  then have "fst (peer_check (start_peer_auth (\<lambda>_. None) cfg) [1]) = False"
    by (simp add: start_peer_auth_def from_entries_def peer_check_def is_revoked_def)
  then show ?thesis
    using reload_is_restart [OF c, of "[1]" open_mode "\<lambda>_. None" "\<lambda>_. FileMissing"] c
    by (simp add: open_mode_def is_revoked_def)
qed

end
