(* ===== verification/Spec2Isabelle.thy ===== *)
theory Spec2Isabelle
  imports
    Frame_Codec
    Adaptive_Fec
    Obfuscation
    Carrier_Stream
    Negotiation
    Firewall_Policy
    Tunnel_Ledger
    Carrier_Io
    Command_Line
    Client_Daemon
    Server_Daemon
begin

text \<open>
  \<^bold>\<open>A model of the rustnies VPN and its correctness.\<close> The sources are the Rust files under
  \<open>src/src\<close>; this library follows their module structure.

  \<^bold>\<open>The program.\<close> Two daemons hold an encrypted tunnel over UDP or TCP. The sender seals each packet
  of its TUN device, frames it, hides the frame and hands the datagram to a carrier; it adds
  erasure-code parity per group of packets and paces itself by acknowledgements. The receiver
  undoes the layers, suppresses duplicates, recovers lost packets from parity and writes to its
  own device. A handshake negotiates the parts of the protocol. Each daemon is configured by its
  defaults, a TOML file and the command line. The client routes the traffic of the host into the tunnel, and on
  Linux a kill switch and a DNS guard keep it off other interfaces while the client connects again and
  again; a control socket reports on a daemon and steers it.

  \<^bold>\<open>Theories and sources.\<close>
  \<^item> \<open>Rn_Prelude\<close>: byte and word types, results as sums with \<open>try_bind\<close> for the operator \<open>?\<close>, byte order,
    saturating arithmetic, strings as the standard library treats them.
  \<^item> \<open>Packet_Header\<close>, \<open>Frame_Codec\<close>: \<open>protocol/header.rs\<close>, \<open>codec.rs\<close>, \<open>frame.rs\<close>. The locale \<open>frame_seam\<close>
    is the contract of a codec and is interpreted for both.
  \<^item> \<open>Session_State\<close>: \<open>protocol/session.rs\<close> and the nonces of \<open>crypto/aead.rs\<close>; the replay window refines a
    specification with the whole history.
  \<^item> \<open>Gf256\<close>, \<open>Gf_System\<close>, \<open>Reed_Solomon\<close>, \<open>Fec_Scheme\<close>, \<open>Adaptive_Fec\<close>: \<open>fec/*.rs\<close>. The locale \<open>fec_scheme\<close>
    is the contract of an erasure code.
  \<^item> \<open>Transport_Layer\<close>, \<open>Obfuscation\<close>, \<open>Carrier_Stream\<close>, \<open>Carrier_Io\<close>: \<open>transport/mod.rs\<close>, \<open>obfuscation/*.rs\<close>,
    \<open>carrier/mod.rs\<close>; the locales \<open>obf_seam\<close> and \<open>listener_seam\<close> are the contracts of an obfuscation layer and of a listener.
  \<^item> \<open>Congestion_Control\<close>: \<open>congestion/*.rs\<close> with the locale \<open>congestion_control\<close>, interpreted for
    both controllers.
  \<^item> \<open>Cipher_Suite\<close>, \<open>Negotiation\<close>: \<open>crypto/suite.rs\<close>, \<open>protocol/profile.rs\<close>, \<open>protocol/handshake.rs\<close>.
  \<^item> \<open>Net_Addr\<close>, \<open>Firewall\<close>, \<open>Firewall_Policy\<close>: addresses as \<open>std::net\<close> prints and parses them, and the
    firewall of \<open>platform/linux.rs\<close> with the locale \<open>firewall_backend\<close>.
  \<^item> \<open>Tunnel_State\<close>, \<open>Tunnel_Send\<close>, \<open>Tunnel_Recv\<close>: \<open>tunnel/mod.rs\<close>, one definition per method, the event
    loop as \<open>run_event\<close> and \<open>run_loop\<close>.
  \<^item> \<open>Tunnel_Path\<close>, \<open>Tunnel_Frame\<close>, \<open>Tunnel_Groups\<close>, \<open>Tunnel_Admission\<close>, \<open>Tunnel_Transfer\<close>, \<open>Tunnel_Safety\<close>,
    \<open>Tunnel_Ledger\<close>: the lemmas and properties of the tunnel; \<open>Tunnel_Demo\<close> has the concrete tunnels of the
    witnesses.
  \<^item> \<open>Noise_Handshake\<close>, \<open>Handshake_Driver\<close>: \<open>crypto/noise.rs\<close>, \<open>protocol/handshake.rs\<close>, \<open>tunnel/handshake.rs\<close>.
  \<^item> \<open>Peer_Auth\<close>, \<open>Probe_Limiter\<close>, \<open>Server\<close>: \<open>tunnel/peers.rs\<close> and \<open>tunnel/server.rs\<close>, the dispatcher's events as
    \<open>server_event_step\<close> and \<open>run_server\<close>; \<open>Server_Table\<close> and \<open>Server_Safety\<close> have its invariants and
    properties, the locale \<open>handle_invariant\<close> among them.
  \<^item> \<open>Session_Setup\<close>, \<open>Session_Demo\<close>: the client's setup of a tunnel in \<open>daemon/mod.rs\<close> against the server's, and
    a concrete server and cryptography for the witnesses.
  \<^item> \<open>Configuration\<close>: \<open>config.rs\<close> and the resolution of settings in \<open>cli/mod.rs\<close>: records, defaults, merges, the schemas
    behind the warnings on unknown keys, loading. The TOML decoder is the parameter \<open>toml_lib\<close>.
  \<^item> \<open>Route_Setup\<close>, \<open>Route_Cleanup\<close>, \<open>Resolv_Conf\<close>: the routing tables, the NAT rules and \<open>resolv.conf\<close> of
    \<open>platform/linux.rs\<close> on a model of the host's routes, rules and files.
  \<^item> \<open>Client_Guards\<close>, \<open>Client_Daemon\<close>: \<open>run_client\<close> of \<open>daemon/mod.rs\<close>: the guards it takes in order and drops in
    reverse, on every exit, and its rounds of connecting. The locale \<open>host_invariant\<close> is what a fact about the host
    needs to survive setup and shutdown, and is interpreted for the log of commands.
  \<^item> \<open>Server_Daemon\<close>, \<open>Control_Socket\<close>: the server's start, its NAT, the reload on SIGHUP, and the requests of \<open>ipc/mod.rs\<close>
    with the dispatcher that serves them.
  \<^item> \<open>Status_Report\<close>, \<open>Key_Store\<close>, \<open>Dns_Check\<close>, \<open>Command_Line\<close>: \<open>stats.rs\<close> and \<open>format_stats\<close>, \<open>crypto/keys.rs\<close>, the DNS
    check of \<open>platform/linux.rs\<close>, and the commands of \<open>cli.rs\<close> with their output and exit status, composed
    with the control socket of a daemon.

  \<^bold>\<open>Conventions.\<close> A struct is a record, an enum a datatype, a method a function from the state to a
  result and the new state; \<open>Inl\<close> is an error or, in the tunnel, a panic. Machine integers are
  words, or integers with the wrap-around written out, where it matters and naturals with explicit saturation elsewhere; \<open>f64\<close> is
  a real number, so rounding is not modelled. Durations and instants are naturals in nanoseconds. The AEAD, HKDF,
  clocks, sockets and the device are parameters: \<open>aead_laws\<close> states what the tunnel needs of the
  cipher, and the record \<open>tunnel_env\<close> says which sends fail and what the clocks read. Loops are
  structural or proved to end (\<open>traverse\<close> of the firewall by the rank of the chains it visits); no
  fuel is used. The event loops take the events that arrive as a list. A hash map whose iteration the
  code observes is an association list in some order; \<open>noise_laws\<close> states what the handshake needs of
  X25519, the hash and the AEAD.

  \<^bold>\<open>What is shown.\<close>
  \<^item> Data integrity: decoding inverts encoding for every erasure pattern with enough survivors; the codecs,
    envelopes, layers and stream framing are inverted by the receiver; a group of packets of equal length crosses
    both tunnels, each packet written at most once and all of them once \<open>k\<close> datagrams arrive.
  \<^item> Sessions: replays are refused by the window, acknowledgements mean receipt, nonces are distinct for the first
    \<open>2 ^ 32\<close> packets.
  \<^item> Rate control: the controller keeps its bounds and the tunnel's ledger of bytes in flight stays
    balanced while the sequence numbers of the session last.
  \<^item> Handshake: the client's retry loop ends, and when one attempt gets through, both ends hold paired tunnels.
  \<^item> Server: only authorized keys open sessions, the tables stay bounded, return traffic reaches
    its owner only, session datagrams are routed by identity, probes are limited; and the cases in which the code
    does not keep its documented promises.
  \<^item> Negotiation: peers run the same profile, chosen by the documented rule.
  \<^item> Firewall: after every sequence of guard operations the packet decision is the policy of the active guards.
  \<^item> Client: on a host whose \<open>OUTPUT\<close> chains hold no rules of other programs, the kill switch holds while the daemon
    is in its connection loop; the delays between attempts double up to their cap; the deletion of every route installed
    for the tunnel is attempted; \<open>resolv.conf\<close> gets its first contents back, crashes in between included, if it can be read
    for the backup and the backup is not torn.
  \<^item> Operation: every setting is the command line over the file over the default; a reload gives the peers a restart
    would, revocations kept; a revocation over the control socket signals the sessions of a key not revoked before and refuses new ones outside open mode.
  \<^item> Commands: a request is answered by the daemon's handler of it, the static identity survives restarts, and the verdict
    of the DNS check in terms of the counted packets.
  \<^item> Errors: the exact conditions of panics and rejections in the field arithmetic and the receive path.

  \<^bold>\<open>Not modelled.\<close> Parsing of the command line and decoding of TOML and JSON (crates), log lines, spawning of tasks and
  delivery of signals, netlink messages below the route operations, the reads and writes of sockets and of the
  TUN device beyond their results, and the stubs for platforms other than Linux.
\<close>

end
